(* ===== verification/Fry_Prelude.thy ===== *)
theory Fry_Prelude
  imports Main "HOL-Library.Word"
begin

unbundle bit_operations_syntax

text \<open>
  Shared vocabulary of the development.

  \<^item> Machine integers are words of their Rust width; \<open>usize\<close> is 64 bits wide.
  \<^item> The workspace is built with \<open>cargo build --release\<close> and its release profile does not
    turn overflow checks on, so \<open>+\<close>, \<open>-\<close>, \<open>*\<close> and unary minus wrap, and a shift
    amount is taken modulo the width. What panics in every profile (an index or slice
    out of range, division by zero, \<open>unwrap\<close> of \<open>None\<close>) is the value \<open>Panic\<close>.
  \<^item> \<open>outcome\<close> is Rust's \<open>Result\<close> with that third value; \<open>prog\<close> is a method taking
    \<open>&mut self\<close>: it returns its outcome together with the object, whose changes
    survive an error as they do in Rust.
  \<^item> \<open>vm_loop\<close> is the interpreter loop that the bytecode machines share, and the locale
    \<open>metered_machine\<close> the contract under which it returns.
\<close>

type_synonym u8 = "8 word"
type_synonym u16 = "16 word"
type_synonym u32 = "32 word"
type_synonym u64 = "64 word"
type_synonym u128 = "128 word"
type_synonym usize = "64 word"
type_synonym i16 = "16 word"
type_synonym i32 = "32 word"
type_synonym i64 = "64 word"
type_synonym bytes = "8 word list"

named_theorems outcome_simps \<open>evaluation of outcomes and of stateful programs\<close>

subsection \<open>Results\<close>

datatype ('e, 'a) outcome = Ok 'a | Err 'e | Panic

fun bindR :: "('e, 'a) outcome \<Rightarrow> ('a \<Rightarrow> ('e, 'b) outcome) \<Rightarrow> ('e, 'b) outcome" where
  "bindR (Ok x) f = f x"
| "bindR (Err e) f = Err e"
| "bindR Panic f = Panic"

text \<open>The result of an external call that may fail, with its error text or error value.\<close>

fun from_sum :: "('f \<Rightarrow> 'e) \<Rightarrow> 'f + 'a \<Rightarrow> ('e, 'a) outcome" where
  "from_sum f (Inl e) = Err (f e)"
| "from_sum f (Inr x) = Ok x"

lemma from_sum_Ok_iff [simp]: "from_sum f r = Ok x \<longleftrightarrow> r = Inr x"
  by (cases r) auto

fun is_ok :: "('e, 'a) outcome \<Rightarrow> bool" where
  "is_ok (Ok _) = True"
| "is_ok _ = False"

fun map_err :: "('e \<Rightarrow> 'f) \<Rightarrow> ('e, 'a) outcome \<Rightarrow> ('f, 'a) outcome" where
  "map_err f (Ok x) = Ok x"
| "map_err f (Err e) = Err (f e)"
| "map_err f Panic = Panic"

definition ok_or :: "'a option \<Rightarrow> 'e \<Rightarrow> ('e, 'a) outcome" where
  "ok_or x e = (case x of None \<Rightarrow> Err e | Some y \<Rightarrow> Ok y)"

definition require :: "bool \<Rightarrow> 'e \<Rightarrow> ('e, unit) outcome" where
  "require b e = (if b then Ok () else Err e)"

lemma ok_or_simps [simp]: "ok_or (Some x) e = Ok x" "ok_or None e = Err e"
  by (simp_all add: ok_or_def)

lemma require_simps [simp]: "require True e = Ok ()" "require False e = Err e"
  by (simp_all add: require_def)

lemma bindR_Ok_iff: "bindR m f = Ok y \<longleftrightarrow> (\<exists>x. m = Ok x \<and> f x = Ok y)"
  by (cases m) auto

lemma require_Ok_iff [simp]: "require b e = Ok u \<longleftrightarrow> b"
  by (simp add: require_def)

lemma ok_or_Ok_iff [simp]: "ok_or x e = Ok y \<longleftrightarrow> x = Some y"
  by (simp add: ok_or_def split: option.splits)

lemma ok_or_not_Panic [simp]: "ok_or x e \<noteq> Panic"
  by (simp add: ok_or_def split: option.splits)

lemma require_not_Panic [simp]: "require b e \<noteq> Panic"
  by (simp add: require_def)

subsection \<open>Programs over a state\<close>

type_synonym ('s, 'e, 'a) prog = "'s \<Rightarrow> ('e, 'a) outcome \<times> 's"

definition ret :: "'a \<Rightarrow> ('s, 'e, 'a) prog" where
  [outcome_simps]: "ret x = (\<lambda>s. (Ok x, s))"

definition fail :: "'e \<Rightarrow> ('s, 'e, 'a) prog" where
  [outcome_simps]: "fail e = (\<lambda>s. (Err e, s))"

definition panic :: "('s, 'e, 'a) prog" where
  [outcome_simps]: "panic = (\<lambda>s. (Panic, s))"

definition gets :: "('s \<Rightarrow> 'a) \<Rightarrow> ('s, 'e, 'a) prog" where
  [outcome_simps]: "gets f = (\<lambda>s. (Ok (f s), s))"

definition modify :: "('s \<Rightarrow> 's) \<Rightarrow> ('s, 'e, unit) prog" where
  [outcome_simps]: "modify f = (\<lambda>s. (Ok (), f s))"

definition lift_out :: "('e, 'a) outcome \<Rightarrow> ('s, 'e, 'a) prog" where
  [outcome_simps]: "lift_out r = (\<lambda>s. (r, s))"

definition bindM :: "('s, 'e, 'a) prog \<Rightarrow> ('a \<Rightarrow> ('s, 'e, 'b) prog) \<Rightarrow> ('s, 'e, 'b) prog" where
  "bindM m f = (\<lambda>s. case m s of
      (Ok x, s') \<Rightarrow> f x s'
    | (Err e, s') \<Rightarrow> (Err e, s')
    | (Panic, s') \<Rightarrow> (Panic, s'))"

definition thenM :: "('s, 'e, 'a) prog \<Rightarrow> ('s, 'e, 'b) prog \<Rightarrow> ('s, 'e, 'b) prog" where
  "thenM m k = bindM m (\<lambda>_. k)"

text \<open>Conditional execution: a block of the source under an \<open>if\<close> with no \<open>else\<close>.\<close>

definition whenM :: "bool \<Rightarrow> ('s, 'e, unit) prog \<Rightarrow> ('s, 'e, unit) prog" where
  "whenM b m = (if b then m else ret ())"

lemma bindM_apply [outcome_simps]:
  "bindM m f s = (case fst (m s) of Ok x \<Rightarrow> f x (snd (m s)) | Err e \<Rightarrow> (Err e, snd (m s)) | Panic \<Rightarrow> (Panic, snd (m s)))"
  by (simp add: bindM_def split: prod.splits outcome.splits)

lemma thenM_apply [outcome_simps]:
  "thenM m k s = (case fst (m s) of Ok x \<Rightarrow> k (snd (m s)) | Err e \<Rightarrow> (Err e, snd (m s)) | Panic \<Rightarrow> (Panic, snd (m s)))"
  by (simp add: thenM_def bindM_apply)

lemma whenM_simps [outcome_simps]: "whenM True m = m" "whenM False m = ret ()"
  by (simp_all add: whenM_def)

text \<open>
  \<open>keeps R m\<close>: whatever \<open>m\<close> returns, the state it leaves is related by \<open>R\<close> to the state
  it started from. A relation that is reflexive and transitive passes through every program
  combinator; the locale collects these rules once, and each virtual machine interprets it
  with its own relation.
\<close>

definition keeps :: "('s \<Rightarrow> 's \<Rightarrow> bool) \<Rightarrow> ('s, 'e, 'a) prog \<Rightarrow> bool" where
  "keeps R m \<longleftrightarrow> (\<forall>s. R s (snd (m s)))"

named_theorems keeps_intros \<open>compositional rules for \<open>keeps\<close>\<close>

locale step_frame =
  fixes R :: "'s \<Rightarrow> 's \<Rightarrow> bool"
  assumes R_refl: "R s s"
    and R_trans: "R s t \<Longrightarrow> R t u \<Longrightarrow> R s u"
begin

lemma keeps_ret: "keeps R (ret x)"
  by (simp add: keeps_def ret_def R_refl)

lemma keeps_fail: "keeps R (fail e)"
  by (simp add: keeps_def fail_def R_refl)

lemma keeps_panic: "keeps R panic"
  by (simp add: keeps_def panic_def R_refl)

lemma keeps_gets: "keeps R (gets f)"
  by (simp add: keeps_def gets_def R_refl)

lemma keeps_lift_out: "keeps R (lift_out r)"
  by (simp add: keeps_def lift_out_def R_refl)

lemma keeps_bindM: "keeps R m \<Longrightarrow> (\<And>x. keeps R (f x)) \<Longrightarrow> keeps R (bindM m f)"
  unfolding keeps_def bindM_apply
  by (auto split: outcome.splits intro: R_trans)

lemma keeps_thenM: "keeps R m \<Longrightarrow> keeps R k \<Longrightarrow> keeps R (thenM m k)"
  by (simp add: thenM_def keeps_bindM)

lemma keeps_if: "(b \<Longrightarrow> keeps R m) \<Longrightarrow> (\<not> b \<Longrightarrow> keeps R k) \<Longrightarrow> keeps R (if b then m else k)"
  by simp

lemma keeps_ite: "keeps R m \<Longrightarrow> keeps R k \<Longrightarrow> keeps R (if b then m else k)"
  by simp

lemma keeps_whenM: "(b \<Longrightarrow> keeps R m) \<Longrightarrow> keeps R (whenM b m)"
  by (simp add: whenM_def keeps_ret)

lemma keeps_option: "keeps R m \<Longrightarrow> (\<And>x. keeps R (f x)) \<Longrightarrow> keeps R (case z of None \<Rightarrow> m | Some x \<Rightarrow> f x)"
  by (simp split: option.splits)

lemma keeps_case_prod: "(\<And>x y. keeps R (f x y)) \<Longrightarrow> keeps R (case p of (x, y) \<Rightarrow> f x y)"
  by (simp split: prod.splits)

lemma keeps_case_list: "keeps R m \<Longrightarrow> (\<And>x xs. keeps R (f x xs)) \<Longrightarrow> keeps R (case l of [] \<Rightarrow> m | x # xs \<Rightarrow> f x xs)"
  by (simp split: list.splits)

lemmas frame_rules = keeps_ret keeps_fail keeps_panic keeps_gets keeps_lift_out keeps_bindM
  keeps_thenM keeps_if keeps_whenM keeps_option keeps_case_prod keeps_case_list

end

lemma keeps_modify: "(\<And>s. R s (f s)) \<Longrightarrow> keeps R (modify f)"
  by (simp add: keeps_def modify_def)

lemma keepsD: "keeps R m \<Longrightarrow> m s = (r, s') \<Longrightarrow> R s s'"
  by (metis keeps_def snd_conv)

text \<open>A step that looks at the state first.\<close>

lemma keeps_gets_bind: "(\<And>s. R s (snd (f (g s) s))) \<Longrightarrow> keeps R (bindM (gets g) f)"
  by (simp add: keeps_def outcome_simps)

lemma keepsE: "keeps R m \<Longrightarrow> R s (snd (m s))"
  by (simp add: keeps_def)

lemma keeps_mono: "keeps R m \<Longrightarrow> (\<And>s t. R s t \<Longrightarrow> R' s t) \<Longrightarrow> keeps R' m"
  by (simp add: keeps_def)

text \<open>Programs that panic in no state.\<close>

definition never_panics :: "('s, 'e, 'a) prog \<Rightarrow> bool" where
  "never_panics m \<longleftrightarrow> (\<forall>s. fst (m s) \<noteq> Panic)"

named_theorems np_intros \<open>programs that panic in no state\<close>

lemma never_panics_basic [np_intros]:
  "never_panics (ret x)" "never_panics (fail e)" "never_panics (gets f)" "never_panics (modify g)"
  by (simp_all add: never_panics_def outcome_simps)

lemma never_panics_lift_out [np_intros]: "r \<noteq> Panic \<Longrightarrow> never_panics (lift_out r)"
  by (simp add: never_panics_def outcome_simps)

lemma never_panics_bindM [np_intros]:
  "never_panics m \<Longrightarrow> (\<And>x. never_panics (f x)) \<Longrightarrow> never_panics (bindM m f)"
  by (auto simp: never_panics_def bindM_apply split: outcome.splits)

lemma never_panics_thenM [np_intros]: "never_panics m \<Longrightarrow> never_panics k \<Longrightarrow> never_panics (thenM m k)"
  by (simp add: thenM_def never_panics_bindM)

lemma never_panics_if [np_intros]:
  "(b \<Longrightarrow> never_panics m) \<Longrightarrow> (\<not> b \<Longrightarrow> never_panics k) \<Longrightarrow> never_panics (if b then m else k)"
  by simp

lemma never_panics_ite: "never_panics m \<Longrightarrow> never_panics k \<Longrightarrow> never_panics (if b then m else k)"
  by simp

lemma never_panics_whenM [np_intros]: "never_panics m \<Longrightarrow> never_panics (whenM b m)"
  by (simp add: whenM_def never_panics_basic)

lemma never_panics_option [np_intros]:
  "never_panics m \<Longrightarrow> (\<And>x. never_panics (f x)) \<Longrightarrow> never_panics (case z of None \<Rightarrow> m | Some x \<Rightarrow> f x)"
  by (simp split: option.splits)

lemma never_panics_case_prod [np_intros]: "(\<And>x y. never_panics (f x y)) \<Longrightarrow> never_panics (case p of (x, y) \<Rightarrow> f x y)"
  by (simp split: prod.splits)

lemma never_panics_case_list [np_intros]:
  "never_panics m \<Longrightarrow> (\<And>x xs. never_panics (f x xs)) \<Longrightarrow> never_panics (case l of [] \<Rightarrow> m | x # xs \<Rightarrow> f x xs)"
  by (simp split: list.splits)

subsection \<open>The interpreter loop\<close>

text \<open>
  \<open>loop { if pc >= len { break } match step() { Ok(true) => continue, Ok(false) => break,
  Err(e) => return .. } }\<close>, the loop of the bytecode machines. \<open>None\<close> is "does not
  return".
\<close>

partial_function (option) vm_loop ::
    "('s \<Rightarrow> bool) \<Rightarrow> ('s, 'e, bool) prog \<Rightarrow> 's \<Rightarrow> (('e, unit) outcome \<times> 's) option" where
  "vm_loop halted step s =
     (if halted s then Some (Ok (), s)
      else (case step s of
              (Ok b, s') \<Rightarrow> if b then vm_loop halted step s' else Some (Ok (), s')
            | (Err e, s') \<Rightarrow> Some (Err e, s')
            | (Panic, s') \<Rightarrow> Some (Panic, s')))"

text \<open>What holds before the loop and is kept by every step holds after it, and an error or a
  panic of the loop is one of a step.\<close>

definition step_fails :: "('s, 'e, bool) prog \<Rightarrow> 's \<Rightarrow> ('e, unit) outcome \<Rightarrow> bool" where
  "step_fails step t r \<longleftrightarrow> (case fst (step t) of Ok _ \<Rightarrow> False | Err e \<Rightarrow> r = Err e | Panic \<Rightarrow> r = Panic)"

lemma vm_loop_keeps:
  fixes step :: "('s, 'e, bool) prog"
  assumes "vm_loop halted step s = Some (r, s')" and "P s"
    and "\<And>t r' t'. P t \<Longrightarrow> \<not> halted t \<Longrightarrow> step t = (r', t') \<Longrightarrow> P t'"
  shows "P s' \<and> (r = Ok () \<or> (\<exists>t. P t \<and> \<not> halted t \<and> step_fails step t r))"
proof -
  define Q where "Q = (\<lambda>halted (step :: ('s, 'e, bool) prog) s (p :: ('e, unit) outcome \<times> 's).
     (\<forall>t r' t'. P t \<longrightarrow> \<not> halted t \<longrightarrow> step t = (r', t') \<longrightarrow> P t') \<longrightarrow> P s
     \<longrightarrow> P (snd p) \<and> (fst p = Ok () \<or> (\<exists>t. P t \<and> \<not> halted t \<and> step_fails step t (fst p))))"
  have "Q halted step s (r, s')"
  proof (rule vm_loop.raw_induct [OF _ assms(1)], goal_cases)
    case (1 loop halted step s p)
    note IH = 1(1) and run = 1(2)
    show ?case
      unfolding Q_def
    proof (intro impI)
      assume pres: "\<forall>t r' t'. P t \<longrightarrow> \<not> halted t \<longrightarrow> step t = (r', t') \<longrightarrow> P t'" and P: "P s"
      show "P (snd p) \<and> (fst p = Ok () \<or> (\<exists>t. P t \<and> \<not> halted t \<and> step_fails step t (fst p)))"
      proof (cases "halted s")
        case True
        with run P show ?thesis by auto
      next
        case False
        obtain r1 s1 where st: "step s = (r1, s1)" by (cases "step s")
        have P1: "P s1" using pres P False st by blast
        show ?thesis
        proof (cases r1)
          case (Ok b)
          show ?thesis
          proof (cases b)
            case True
            with run False st Ok have "loop halted step s1 = Some p" by simp
            from IH [OF this] pres P1 show ?thesis unfolding Q_def by blast
          qed (use run False st Ok P1 in auto)
        next
          case (Err e)
          with run False st have "p = (Err e, s1)" by simp
          with P P1 False st Err show ?thesis by (auto simp: step_fails_def intro!: exI [of _ s])
        next
          case Panic
          with run False st have "p = (Panic, s1)" by simp
          with P P1 False st Panic show ?thesis by (auto simp: step_fails_def intro!: exI [of _ s])
        qed
      qed
    qed
  qed
  with assms(2,3) show ?thesis unfolding Q_def by auto
qed

text \<open>
  What a machine owes its loop: every step that asks to continue keeps the invariant and
  spends some of a finite budget. Then the loop returns, whatever the program is.
\<close>

locale metered_machine =
  fixes halted :: "'s \<Rightarrow> bool"
    and step :: "('s, 'e, bool) prog"
    and inv :: "'s \<Rightarrow> bool"
    and budget :: "'s \<Rightarrow> nat"
  assumes step_inv: "inv s \<Longrightarrow> \<not> halted s \<Longrightarrow> step s = (r, s') \<Longrightarrow> inv s'"
    and step_budget: "inv s \<Longrightarrow> \<not> halted s \<Longrightarrow> step s = (Ok True, s') \<Longrightarrow> budget s' < budget s"
begin

lemma loop_returns: "inv s \<Longrightarrow> \<exists>r s'. vm_loop halted step s = Some (r, s') \<and> inv s'"
proof (induction "budget s" arbitrary: s rule: less_induct)
  case less
  show ?case
  proof (cases "halted s")
    case True
    with less.prems show ?thesis by (simp add: vm_loop.simps)
  next
    case run: False
    obtain r s' where st: "step s = (r, s')" by (cases "step s")
    have inv': "inv s'" using less.prems run st by (rule step_inv)
    show ?thesis
    proof (cases "r = Ok True")
      case True
      with less.prems run st have "budget s' < budget s" by (simp add: step_budget)
      from less.hyps [OF this inv'] show ?thesis
        using run st True by (simp add: vm_loop.simps [of halted step s])
    next
      case False
      with run st inv' show ?thesis
        by (cases r) (auto simp: vm_loop.simps [of halted step s])
    qed
  qed
qed

end

subsection \<open>Bytes\<close>

text \<open>
  \<open>le_bytes n x\<close> is the \<open>n\<close> low bytes of \<open>x\<close>, least significant first
  (\<open>to_le_bytes\<close>); \<open>le_nat\<close> reads them back (\<open>from_le_bytes\<close>). The big-endian
  forms are their reversals.
\<close>

fun le_bytes :: "nat \<Rightarrow> nat \<Rightarrow> bytes" where
  "le_bytes 0 x = []"
| "le_bytes (Suc n) x = word_of_nat x # le_bytes n (x div 256)"

fun le_nat :: "bytes \<Rightarrow> nat" where
  "le_nat [] = 0"
| "le_nat (b # bs) = unat b + 256 * le_nat bs"

definition be_bytes :: "nat \<Rightarrow> nat \<Rightarrow> bytes" where
  "be_bytes n x = rev (le_bytes n x)"

definition be_nat :: "bytes \<Rightarrow> nat" where
  "be_nat bs = le_nat (rev bs)"

definition le_of_word :: "'a::len word \<Rightarrow> bytes" where
  "le_of_word w = le_bytes (LENGTH('a) div 8) (unat w)"

definition be_of_word :: "'a::len word \<Rightarrow> bytes" where
  "be_of_word w = rev (le_of_word w)"

lemma u8_256: "(256 :: u8) = 0"
  by simp

lemma length_le_bytes [simp]: "length (le_bytes n x) = n"
  by (induction n x rule: le_bytes.induct) auto

lemma length_be_bytes [simp]: "length (be_bytes n x) = n"
  by (simp add: be_bytes_def)

lemma length_le_of_word: "length (le_of_word (w :: 'a::len word)) = LENGTH('a) div 8"
  by (simp add: le_of_word_def)

lemma length_le_of_word_simps [simp]:
  "length (le_of_word (w16 :: u16)) = 2" "length (le_of_word (w32 :: u32)) = 4"
  "length (le_of_word (w64 :: u64)) = 8" "length (le_of_word (w128 :: u128)) = 16"
  by (simp_all add: length_le_of_word)

lemma length_be_of_word_simps [simp]:
  "length (be_of_word (w32 :: u32)) = 4" "length (be_of_word (w64 :: u64)) = 8"
  by (simp_all add: be_of_word_def)

lemma le_nat_bound: "le_nat bs < 256 ^ length bs"
proof (induction bs)
  case Nil
  show ?case by simp
next
  case (Cons b bs)
  have "unat b < 256" using unsigned_less [of b] by simp
  with Cons show ?case by simp
qed

lemma le_nat_le_bytes: "le_nat (le_bytes n x) = x mod 256 ^ n"
proof (induction n x rule: le_bytes.induct)
  case (1 x)
  show ?case by simp
next
  case (2 n x)
  have "unat (word_of_nat x :: u8) = x mod 256" by (simp add: unat_of_nat)
  with 2 show ?case by (simp add: mod_mult2_eq)
qed

lemma le_bytes_le_nat: "length bs = n \<Longrightarrow> le_bytes n (le_nat bs) = bs"
proof (induction bs arbitrary: n)
  case Nil
  then show ?case by simp
next
  case (Cons b bs)
  have "unat b < 256" using unsigned_less [of b] by simp
  moreover have "(word_of_nat (unat b + 256 * le_nat bs) :: u8) = b"
    by (simp add: u8_256)
  ultimately show ?case using Cons by (cases n) (auto simp del: of_nat_add of_nat_mult)
qed

lemma le_bytes_inject:
  assumes "x < 256 ^ n" and "y < 256 ^ n"
  shows "le_bytes n x = le_bytes n y \<longleftrightarrow> x = y"
  using assms by (metis le_nat_le_bytes mod_less)

lemma le_nat_inject: "length xs = length ys \<Longrightarrow> le_nat xs = le_nat ys \<longleftrightarrow> xs = ys"
  by (metis le_bytes_le_nat)

lemma le_nat_append: "le_nat (xs @ ys) = le_nat xs + 256 ^ length xs * le_nat ys"
  by (induction xs) (auto simp: algebra_simps)

lemma be_nat_Nil [simp]: "be_nat [] = 0"
  by (simp add: be_nat_def)

lemma be_nat_Cons [simp]: "be_nat (b # bs) = unat b * 256 ^ length bs + be_nat bs"
  by (simp add: be_nat_def le_nat_append)

lemma be_nat_bound: "be_nat bs < 256 ^ length bs"
  using le_nat_bound [of "rev bs"] by (simp add: be_nat_def)

lemma be_nat_append: "be_nat (xs @ ys) = be_nat xs * 256 ^ length ys + be_nat ys"
  by (induction xs) (auto simp: algebra_simps power_add)

lemma be_nat_replicate_0 [simp]: "be_nat (replicate n 0) = 0"
  by (induction n) auto

lemma be_nat_replicate_max: "be_nat (replicate n 255) = 256 ^ n - 1"
proof (induction n)
  case 0
  show ?case by simp
next
  case (Suc n)
  have "(1::nat) \<le> 256 ^ n" and "unat (255 :: u8) = 255" by simp_all
  with Suc show ?case by (simp del: unsigned_numeral)
qed

lemma unat_less_256_pow:
  assumes "LENGTH('a::len) = 8 * n"
  shows "unat (w :: 'a word) < 256 ^ n"
proof -
  have "(256::nat) ^ n = 2 ^ (8 * n)" by (simp add: power_mult)
  then show ?thesis using unsigned_less [of w] assms by simp
qed

lemma le_of_word_inject_gen:
  assumes "LENGTH('a::len) = 8 * n"
  shows "le_of_word (v :: 'a word) = le_of_word w \<longleftrightarrow> v = w"
  using assms unat_less_256_pow [OF assms, of v] unat_less_256_pow [OF assms, of w]
  by (simp add: le_of_word_def le_bytes_inject word_unat_eq_iff)

lemma le_of_word_inject [simp]:
  "le_of_word (a16 :: u16) = le_of_word b16 \<longleftrightarrow> a16 = b16"
  "le_of_word (a32 :: u32) = le_of_word b32 \<longleftrightarrow> a32 = b32"
  "le_of_word (a64 :: u64) = le_of_word b64 \<longleftrightarrow> a64 = b64"
  "le_of_word (a128 :: u128) = le_of_word b128 \<longleftrightarrow> a128 = b128"
  by (rule le_of_word_inject_gen, simp)+

lemma be_of_word_inject [simp]: "be_of_word (a :: u64) = be_of_word b \<longleftrightarrow> a = b"
  by (simp add: be_of_word_def)

lemma word_of_nat_le_nat_le_of_word [simp]:
  "word_of_nat (le_nat (le_of_word (w :: u64))) = w"
  using unat_less_256_pow [where n = 8 and w = w]
  by (simp add: le_of_word_def le_nat_le_bytes)

lemma be_nat_be_of_word [simp]: "be_nat (be_of_word (w :: u64)) = unat w"
  using unat_less_256_pow [where n = 8 and w = w]
  by (simp add: be_nat_def be_of_word_def le_of_word_def le_nat_le_bytes)

text \<open>Rust strings are UTF-8 byte sequences; \<open>str_bytes\<close> is \<open>as_bytes\<close>.\<close>

definition str_bytes :: "string \<Rightarrow> bytes" where
  "str_bytes s = map of_char s"

lemma of_char_u8_inject: "of_char c = (of_char d :: u8) \<longleftrightarrow> c = d"
proof
  assume "of_char c = (of_char d :: u8)"
  then have "unat (of_char c :: u8) = unat (of_char d :: u8)" by simp
  moreover have "unat (of_char c :: u8) = of_char c" for c
  proof -
    have "(of_char c :: u8) = word_of_nat (of_char c)" by (simp add: of_nat_of_char)
    moreover have "(of_char c :: nat) < 256" by simp
    ultimately show ?thesis by (simp add: unat_of_nat)
  qed
  ultimately show "c = d" by simp
qed simp

lemma of_char_u8_inj: "inj (of_char :: char \<Rightarrow> u8)"
  by (simp add: inj_def of_char_u8_inject)

lemma str_bytes_inject [simp]: "str_bytes s = str_bytes t \<longleftrightarrow> s = t"
  unfolding str_bytes_def using of_char_u8_inj by (simp add: inj_map_eq_map)

lemma length_str_bytes [simp]: "length (str_bytes s) = length s"
  by (simp add: str_bytes_def)

text \<open>\<open>format!("{}", n)\<close> for an unsigned integer.\<close>

fun show_nat :: "nat \<Rightarrow> string" where
  "show_nat n = (if n < 10 then [char_of (48 + n)] else show_nat (n div 10) @ [char_of (48 + n mod 10)])"

declare show_nat.simps [simp del]

definition digits_value :: "string \<Rightarrow> nat" where
  "digits_value s = foldl (\<lambda>acc c. 10 * acc + (of_char c - 48)) 0 s"

lemma digits_value_show_nat: "digits_value (show_nat n) = n"
proof (induction n rule: show_nat.induct)
  case (1 n)
  have d: "(of_char (char_of (48 + k) :: char) :: nat) - 48 = k" if "k < 10" for k :: nat
    using that by simp
  show ?case
  proof (cases "n < 10")
    case True
    then show ?thesis by (subst show_nat.simps) (simp add: digits_value_def d)
  next
    case False
    with 1 have "digits_value (show_nat (n div 10)) = n div 10" by simp
    with False show ?thesis
      by (subst show_nat.simps) (simp add: digits_value_def d)
  qed
qed

lemma show_nat_inject [simp]: "show_nat m = show_nat n \<longleftrightarrow> m = n"
  by (metis digits_value_show_nat)

definition show_word :: "'a::len word \<Rightarrow> string" where
  "show_word w = show_nat (unat w)"

subsection \<open>Unsigned arithmetic of the Rust standard library\<close>

definition checked_add :: "'a::len word \<Rightarrow> 'a word \<Rightarrow> 'a word option" where
  "checked_add a b = (if unat a + unat b < 2 ^ LENGTH('a) then Some (a + b) else None)"

definition checked_sub :: "'a::len word \<Rightarrow> 'a word \<Rightarrow> 'a word option" where
  "checked_sub a b = (if b \<le> a then Some (a - b) else None)"

definition saturating_add :: "'a::len word \<Rightarrow> 'a word \<Rightarrow> 'a word" where
  "saturating_add a b = (if unat a + unat b < 2 ^ LENGTH('a) then a + b else - 1)"

definition saturating_sub :: "'a::len word \<Rightarrow> 'a word \<Rightarrow> 'a word" where
  "saturating_sub a b = (if b \<le> a then a - b else 0)"

lemma unat_add_no_wrap: "unat a + unat b < 2 ^ LENGTH('a) \<Longrightarrow> unat (a + b :: 'a::len word) = unat a + unat b"
  by (simp add: unat_word_ariths)

lemma unat_sub_no_wrap: "b \<le> a \<Longrightarrow> unat (a - b :: 'a::len word) = unat a - unat b"
  by (simp add: unat_sub)

lemma checked_add_Some:
  "checked_add a b = Some c \<longleftrightarrow> unat a + unat b < 2 ^ LENGTH('a) \<and> c = a + (b :: 'a::len word)"
  by (auto simp: checked_add_def)

lemma checked_add_unat:
  "checked_add a b = Some (c :: 'a::len word) \<Longrightarrow> unat c = unat a + unat b"
  by (auto simp: checked_add_Some unat_add_no_wrap)

lemma checked_sub_unat:
  "checked_sub a b = Some (c :: 'a::len word) \<Longrightarrow> unat b \<le> unat a \<and> unat c = unat a - unat b"
  by (auto simp: checked_sub_def unat_sub word_le_nat_alt split: if_splits)

lemma unat_minus_one_word: "unat (- 1 :: 'a::len word) = 2 ^ LENGTH('a) - 1"
  by (simp add: unsigned_minus_1_eq_mask mask_eq_exp_minus_1)

lemma unat_saturating_add:
  "unat (saturating_add a (b :: 'a::len word)) = min (unat a + unat b) (2 ^ LENGTH('a) - 1)"
  by (auto simp: saturating_add_def unat_add_no_wrap unat_minus_one_word)

lemma unat_saturating_sub: "unat (saturating_sub a (b :: 'a::len word)) = unat a - unat b"
  by (auto simp: saturating_sub_def unat_sub word_le_nat_alt)

lemma unat_shr: "unat (drop_bit k (w :: 'a::len word)) = unat w div 2 ^ k"
  by (metis drop_bit_eq_div unsigned_drop_bit_eq take_bit_nat_eq_self unsigned_less)

lemma unat_ucast_u8 [simp]: "unat (ucast (b :: u8) :: u64) = unat b" "unat (ucast (b :: u8) :: u32) = unat b"
  using unsigned_less [of b, where 'a = nat] by (simp_all add: unsigned_ucast_eq take_bit_nat_eq_self)

subsection \<open>Slices\<close>

text \<open>\<open>&bs[a..b]\<close> and \<open>bs[off..off + len].copy_from_slice(chunk)\<close>; \<open>None\<close> is
  the panic of a range that does not fit.\<close>

definition slice :: "'a list \<Rightarrow> nat \<Rightarrow> nat \<Rightarrow> 'a list option" where
  "slice bs a b = (if a \<le> b \<and> b \<le> length bs then Some (take (b - a) (drop a bs)) else None)"

definition splice :: "'a list \<Rightarrow> nat \<Rightarrow> 'a list \<Rightarrow> 'a list option" where
  "splice bs off chunk =
     (if off + length chunk \<le> length bs then Some (take off bs @ chunk @ drop (off + length chunk) bs) else None)"

lemma slice_Some: "a \<le> b \<Longrightarrow> b \<le> length bs \<Longrightarrow> slice bs a b = Some (take (b - a) (drop a bs))"
  by (simp add: slice_def)

lemma splice_Some:
  "off + length chunk \<le> length bs \<Longrightarrow> splice bs off chunk = Some (take off bs @ chunk @ drop (off + length chunk) bs)"
  by (simp add: splice_def)

lemma splice_total: "off + length chunk \<le> length bs \<Longrightarrow> \<exists>bs'. splice bs off chunk = Some bs' \<and> length bs' = length bs"
  by (simp add: splice_def)

lemma length_splice: "splice bs off chunk = Some bs' \<Longrightarrow> length bs' = length bs"
  by (auto simp: splice_def split: if_splits)

end
