(* ===== verification/Fry_Types.thy ===== *)
theory Fry_Types
  imports Fry_Prelude
begin

text \<open>
  \<open>frychain-core/src/types.rs\<close>: hashes, the difficulty target, nonces, heights, token
  amounts and gas. A \<open>Hash256\<close> is its byte list; \<open>wf_hash\<close> says it has 32 bytes, as the
  Rust array type does. The newtypes over integers are words of their width.
  The external \<open>hex\<close> crate is a parameter (\<open>hex_codec\<close>).

  The lemmas relate \<open>meets_difficulty\<close> to the order of big-endian numbers, and show how
  the target of \<open>to_target\<close> moves with the difficulty.
\<close>

type_synonym hash256 = bytes
type_synonym nonce = u64
type_synonym difficulty = u128
type_synonym block_height = u64
type_synonym token_amount = u128
type_synonym gas = u64
type_synonym gas_price = u128

definition wf_hash :: "hash256 \<Rightarrow> bool" where
  "wf_hash h \<longleftrightarrow> length h = 32"

subsection \<open>Hash256\<close>

definition hash_zero :: hash256 where
  "hash_zero = replicate 32 0"

definition hash_is_zero :: "hash256 \<Rightarrow> bool" where
  "hash_is_zero h \<longleftrightarrow> list_all (\<lambda>b. b = 0) h"

definition hash_from_slice :: "bytes \<Rightarrow> hash256" where
  "hash_from_slice bs = (let len = min (length bs) 32 in take len bs @ replicate (32 - len) 0)"

text \<open>The \<open>hex\<close> crate: \<open>encode\<close> and \<open>decode\<close>; what its documentation promises.\<close>

record hex_codec =
  hex_encode :: "bytes \<Rightarrow> string"
  hex_decode :: "string \<Rightarrow> string + bytes"

definition hex_laws :: "hex_codec \<Rightarrow> bool" where
  "hex_laws hx \<longleftrightarrow> (\<forall>bs. hex_decode hx (hex_encode hx bs) = Inr bs)
     \<and> (\<forall>bs. set (hex_encode hx bs) \<subseteq> set ''0123456789abcdef'')"

text \<open>\<open>str::trim_start_matches("0x")\<close> removes the pattern as often as it occurs in front.\<close>

fun trim_0x :: "string \<Rightarrow> string" where
  "trim_0x (c # d # s) = (if c = CHR ''0'' \<and> d = CHR ''x'' then trim_0x s else c # d # s)"
| "trim_0x s = s"

datatype hex_error = HexDecode string | InvalidStringLength

definition hash_from_hex :: "hex_codec \<Rightarrow> string \<Rightarrow> (hex_error, hash256) outcome" where
  "hash_from_hex hx s =
     bindR (from_sum HexDecode (hex_decode hx (trim_0x s))) (\<lambda>bytes.
     if length bytes \<noteq> 32 then Err InvalidStringLength else Ok bytes)"

definition hash_to_hex :: "hex_codec \<Rightarrow> hash256 \<Rightarrow> string" where
  "hash_to_hex hx h = ''0x'' @ hex_encode hx h"

text \<open>\<open>leading_zeros\<close> and \<open>trailing_zeros\<close> of the unsigned integer types.\<close>

fun bit_len :: "nat \<Rightarrow> nat" where
  "bit_len n = (if n = 0 then 0 else Suc (bit_len (n div 2)))"

declare bit_len.simps [simp del]

fun tz_nat :: "nat \<Rightarrow> nat" where
  "tz_nat n = (if n = 0 \<or> odd n then 0 else Suc (tz_nat (n div 2)))"

declare tz_nat.simps [simp del]

definition leading_zeros :: "'a::len word \<Rightarrow> nat" where
  "leading_zeros w = LENGTH('a) - bit_len (unat w)"

definition trailing_zeros :: "'a::len word \<Rightarrow> nat" where
  "trailing_zeros w = (if w = 0 then LENGTH('a) else tz_nat (unat w))"

fun hash_leading_zeros :: "hash256 \<Rightarrow> nat" where
  "hash_leading_zeros [] = 0"
| "hash_leading_zeros (b # bs) = (if b = 0 then 8 + hash_leading_zeros bs else leading_zeros b)"

fun meets_difficulty :: "hash256 \<Rightarrow> hash256 \<Rightarrow> bool" where
  "meets_difficulty (h # hs) (t # ts) =
     (if h < t then True else if t < h then False else meets_difficulty hs ts)"
| "meets_difficulty _ _ = True"

subsection \<open>Counters, amounts, gas\<close>

definition nonce_increment :: "nonce \<Rightarrow> nonce" where
  "nonce_increment n = n + 1"

definition difficulty_new :: "u128 \<Rightarrow> difficulty" where
  "difficulty_new v = max v 1"

definition DIFFICULTY_MIN :: difficulty where "DIFFICULTY_MIN = 1"

definition DIFFICULTY_INITIAL :: difficulty where "DIFFICULTY_INITIAL = 0x0000FFFFFFFFFFFF"

definition to_target :: "difficulty \<Rightarrow> hash256" where
  "to_target d =
     (let lz = min (leading_zeros d) 31;
          target = replicate lz 0 @ replicate (32 - lz) 255
      in if lz < 32 then target[lz := drop_bit (trailing_zeros d mod 8) 255] else target)"

definition height_next :: "block_height \<Rightarrow> block_height" where
  "height_next h = h + 1"

definition height_prev :: "block_height \<Rightarrow> block_height option" where
  "height_prev h = (if h = 0 then None else Some (h - 1))"

definition UNITS_PER_FRY :: u128 where "UNITS_PER_FRY = 1000000000000000000"

definition from_fry :: "u64 \<Rightarrow> token_amount" where
  "from_fry fry = ucast fry * UNITS_PER_FRY"

definition GAS_TRANSFER_MIN :: gas where "GAS_TRANSFER_MIN = 21000"
definition GAS_PER_BYTE :: gas where "GAS_PER_BYTE = 16"
definition GAS_CONTRACT_CREATE :: gas where "GAS_CONTRACT_CREATE = 32000"
definition GAS_PRICE_MIN :: gas_price where "GAS_PRICE_MIN = 1000000000"

definition total_fee :: "gas_price \<Rightarrow> gas \<Rightarrow> token_amount" where
  "total_fee price g = price * ucast g"

subsection \<open>Well-formedness\<close>

lemma wf_hash_zero [simp]: "wf_hash hash_zero"
  by (simp add: wf_hash_def hash_zero_def)

lemma wf_hash_from_slice [simp]: "wf_hash (hash_from_slice bs)"
  by (auto simp: wf_hash_def hash_from_slice_def Let_def min_def)

lemma to_target_shape:
  "to_target d = replicate (min (leading_zeros d) 31) 0
     @ drop_bit (trailing_zeros d mod 8) 255 # replicate (31 - min (leading_zeros d) 31) 255"
proof -
  define lz where "lz = min (leading_zeros d) 31"
  have "lz < 32" by (simp add: lz_def)
  then obtain k where k: "32 - lz = Suc k" "31 - lz = k" by (cases "32 - lz") auto
  show ?thesis
    unfolding to_target_def Let_def lz_def [symmetric]
    using \<open>lz < 32\<close> k by (simp add: list_update_append)
qed

lemma wf_to_target [simp]: "wf_hash (to_target d)"
  by (simp add: to_target_shape wf_hash_def min_def)

lemma hash_is_zero_iff: "wf_hash h \<Longrightarrow> hash_is_zero h \<longleftrightarrow> h = hash_zero"
  unfolding wf_hash_def hash_is_zero_def hash_zero_def
  by (metis (mono_tags, lifting) list_all_iff list_all_length nth_replicate replicate_eqI)

lemma trim_0x_hex: "CHR ''x'' \<notin> set s \<Longrightarrow> trim_0x s = s"
  by (induction s rule: trim_0x.induct) auto

subsection \<open>The difficulty comparison\<close>

lemma meets_difficulty_iff_be_nat:
  assumes "length h = length t"
  shows "meets_difficulty h t \<longleftrightarrow> be_nat h \<le> be_nat t"
  using assms
proof (induction h t rule: list_induct2)
  case Nil
  show ?case by simp
next
  case (Cons h hs t ts)
  have bounds: "be_nat hs < 256 ^ length ts" "be_nat ts < 256 ^ length ts"
    using be_nat_bound [of hs] be_nat_bound [of ts] Cons.hyps by simp_all
  have less: "be_nat (x # xs) < be_nat (y # ys)"
    if "x < y" and "length xs = length ys" for x y :: u8 and xs ys
  proof -
    have "Suc (unat x) \<le> unat y" using that by (simp add: word_less_nat_alt)
    then have "Suc (unat x) * 256 ^ length ys \<le> unat y * 256 ^ length ys" by (rule mult_le_mono1)
    then show ?thesis using be_nat_bound [of xs] that by simp
  qed
  consider "h < t" | "t < h" | "h = t" by (rule linorder_cases)
  then show ?case
  proof cases
    case 1
    then show ?thesis using less [of h t hs ts] Cons.hyps by simp
  next
    case 2
    then show ?thesis using less [of t h ts hs] Cons.hyps by (simp add: order_less_imp_not_less)
  next
    case 3
    then show ?thesis using Cons by simp
  qed
qed

lemma bit_len_less: "n < 2 ^ k \<Longrightarrow> bit_len n \<le> k"
proof (induction n arbitrary: k rule: bit_len.induct)
  case (1 n)
  show ?case
  proof (cases "n = 0")
    case True
    then show ?thesis by (simp add: bit_len.simps)
  next
    case False
    with 1 obtain j where j: "k = Suc j" by (cases k) auto
    with 1 False have "bit_len (n div 2) \<le> j" by simp
    with False j show ?thesis by (simp add: bit_len.simps [of n])
  qed
qed

lemma bit_len_ge: "2 ^ k \<le> n \<Longrightarrow> k < bit_len n"
proof (induction n arbitrary: k rule: bit_len.induct)
  case (1 n)
  then have n: "n \<noteq> 0" by (metis not_exp_less_eq_0_int of_nat_0 of_nat_le_iff of_nat_numeral of_nat_power power_not_zero le_zero_eq zero_neq_numeral)
  show ?case
  proof (cases k)
    case 0
    with n show ?thesis by (simp add: bit_len.simps [of n])
  next
    case (Suc j)
    with 1 n have "j < bit_len (n div 2)" by simp
    with n Suc show ?thesis by (simp add: bit_len.simps [of n])
  qed
qed

lemma bit_len_mono: "m \<le> n \<Longrightarrow> bit_len m \<le> bit_len n"
proof (cases "m = 0")
  case False
  assume le: "m \<le> n"
  have "\<not> n < 2 ^ (bit_len m - 1)"
  proof
    assume "n < 2 ^ (bit_len m - 1)"
    with le have "bit_len m \<le> bit_len m - 1" by (intro bit_len_less) simp
    moreover have "0 < bit_len m" using False by (simp add: bit_len.simps [of m])
    ultimately show False by simp
  qed
  then have "bit_len m - 1 < bit_len n" by (intro bit_len_ge) simp
  then show ?thesis by simp
qed (simp add: bit_len.simps)

lemma bit_len_double: "0 < m \<Longrightarrow> 2 * m \<le> n \<Longrightarrow> bit_len m < bit_len n"
  using bit_len_mono [of "2 * m" n] by (simp add: bit_len.simps [of "2 * m"])

lemma leading_zeros_double:
  assumes "0 < unat (d :: u128)" and "2 * unat d \<le> unat (d' :: u128)"
  shows "leading_zeros d' < leading_zeros d"
proof -
  have "unat d' < 2 ^ 128" using unsigned_less [of d'] by simp
  then have "bit_len (unat d') \<le> 128" by (rule bit_len_less)
  with bit_len_double [OF assms] show ?thesis by (simp add: leading_zeros_def)
qed

lemma target_head_positive: "0 < unat (drop_bit (k mod 8) (255 :: u8))"
proof -
  have "k mod 8 < 8" by simp
  then have "k mod 8 \<in> {0, 1, 2, 3, 4, 5, 6, 7}" by auto
  then show ?thesis by (auto simp: unsigned_drop_bit_eq drop_bit_eq_div)
qed

text \<open>The target of a difficulty with fewer leading zero bits is a larger number.\<close>

lemma be_nat_to_target_bounds:
  fixes d :: difficulty
  defines "lz \<equiv> min (leading_zeros d) 31"
  shows "256 ^ (31 - lz) \<le> be_nat (to_target d)" and "be_nat (to_target d) < 256 ^ (32 - lz)"
proof -
  define rest where "rest = drop_bit (trailing_zeros d mod 8) (255 :: u8) # replicate (31 - lz) 255"
  have eq: "be_nat (to_target d) = be_nat rest"
    by (simp add: to_target_shape lz_def rest_def be_nat_append)
  have "1 * 256 ^ (31 - lz) \<le> unat (drop_bit (trailing_zeros d mod 8) (255 :: u8)) * 256 ^ (31 - lz)"
    by (rule mult_le_mono1) (use target_head_positive [of "trailing_zeros d"] in linarith)
  then show "256 ^ (31 - lz) \<le> be_nat (to_target d)"
    unfolding eq rest_def be_nat_Cons length_replicate mult_1 by linarith
  have "lz \<le> 31" by (simp add: lz_def)
  then have "length rest = 32 - lz" by (auto simp: rest_def)
  then show "be_nat (to_target d) < 256 ^ (32 - lz)"
    unfolding eq using be_nat_bound [of rest] by simp
qed

lemma to_target_double:
  assumes "0 < unat (d :: u128)" and "2 * unat d \<le> unat (d' :: u128)" and "2 ^ 97 \<le> unat d'"
  shows "be_nat (to_target d) < be_nat (to_target d')"
proof -
  let ?lz = "min (leading_zeros d) 31" and ?lz' = "min (leading_zeros d') 31"
  have "97 < bit_len (unat d')" using assms(3) by (rule bit_len_ge)
  then have "leading_zeros d' < 31" by (simp add: leading_zeros_def)
  with leading_zeros_double [OF assms(1,2)] have "?lz' < ?lz" by simp
  then have "32 - ?lz \<le> 31 - ?lz'" by linarith
  then have "(256::nat) ^ (32 - ?lz) \<le> 256 ^ (31 - ?lz')" by (rule power_increasing) simp
  with be_nat_to_target_bounds [of d] be_nat_to_target_bounds [of d'] show ?thesis by linarith
qed

lemma to_target_max:
  assumes "2 ^ 127 \<le> unat (d :: u128)" and "odd (unat d)"
  shows "to_target d = replicate 32 255"
proof -
  have "127 < bit_len (unat d)" using assms(1) by (rule bit_len_ge)
  then have lz: "leading_zeros d = 0" by (simp add: leading_zeros_def)
  have "d \<noteq> 0" using assms by auto
  then have tz: "trailing_zeros d = 0"
    using assms(2) by (simp add: trailing_zeros_def tz_nat.simps [of "unat d"])
  have "replicate 32 x = x # replicate 31 x" for x :: u8 by (simp add: numeral_eq_Suc)
  then show ?thesis by (simp add: to_target_shape lz tz)
qed

lemma meets_difficulty_max:
  "length h = 32 \<Longrightarrow> meets_difficulty h (replicate 32 255)"
  using be_nat_bound [of h]
  by (simp add: meets_difficulty_iff_be_nat be_nat_replicate_max del: replicate.simps)

lemma to_target_low:
  assumes "unat (d :: u128) < 2 ^ 97"
  shows "to_target d = replicate 31 0 @ [drop_bit (trailing_zeros d mod 8) 255]"
proof -
  have "bit_len (unat d) \<le> 97" using assms by (rule bit_len_less)
  then have "min (leading_zeros d) 31 = 31" by (simp add: leading_zeros_def)
  then show ?thesis by (simp add: to_target_shape)
qed

lemma meets_difficulty_zero_prefix:
  "length xs = n \<Longrightarrow> meets_difficulty (xs @ [b]) (replicate n 0 @ [c]) \<longleftrightarrow> xs = replicate n 0 \<and> b \<le> c"
  by (induction xs arbitrary: n) (auto simp: not_less word_gt_0 split: if_splits)

lemma meets_low_target:
  assumes "wf_hash h" and "unat (d :: u128) < 2 ^ 97"
  shows "meets_difficulty h (to_target d) \<longleftrightarrow>
      take 31 h = replicate 31 0 \<and> h ! 31 \<le> drop_bit (trailing_zeros d mod 8) 255"
proof -
  have h: "h = take 31 h @ [h ! 31]" and len: "length (take 31 h) = 31"
    using assms take_Suc_conv_app_nth [of 31 h] by (simp_all add: wf_hash_def)
  have "meets_difficulty (take 31 h @ [h ! 31]) (to_target d) \<longleftrightarrow>
      take 31 h = replicate 31 0 \<and> h ! 31 \<le> drop_bit (trailing_zeros d mod 8) 255"
    by (simp only: to_target_low [OF assms(2)] meets_difficulty_zero_prefix [OF len])
  then show ?thesis using h by metis
qed

subsection \<open>Properties\<close>

text \<open>C6: \<open>Difficulty::to_target\<close> orders difficulties the wrong way round. When a
  difficulty of at least \<open>2 ^ 97\<close> is at least twice another one, every hash that meets the
  target of the smaller difficulty meets the target of the larger one: raising the difficulty
  by a factor of two or more rejects nothing, although the documentation of the type says that
  higher is harder.\<close>

theorem raising_difficulty_rejects_nothing:
  assumes "wf_hash h" and "0 < unat (d :: u128)" and "2 * unat d \<le> unat (d' :: u128)"
    and "2 ^ 97 \<le> unat d'" and "meets_difficulty h (to_target d)"
  shows "meets_difficulty h (to_target d')"
  using assms to_target_double [of d d'] wf_to_target [of d] wf_to_target [of d']
  by (simp add: wf_hash_def meets_difficulty_iff_be_nat)

theorem raising_difficulty_rejects_nothing_witness:
  "meets_difficulty (replicate 32 0) (to_target (2 ^ 120))"
  by (rule raising_difficulty_rejects_nothing [of "replicate 32 0" "2 ^ 100" "2 ^ 120"])
     (simp_all add: wf_hash_def meets_difficulty_iff_be_nat wf_to_target [unfolded wf_hash_def] del: replicate.simps)

text \<open>The two ends of the difficulty scale. Below \<open>2 ^ 97\<close>, which includes
  the minimum 1 and the initial value, a block hash is accepted exactly when its first
  31 bytes are zero and its last byte is at most 255 shifted right by the number of trailing
  zero bits modulo 8; an odd difficulty of \<open>2 ^ 127\<close> or more accepts every hash.\<close>

theorem difficulty_scale_ends:
  assumes "wf_hash h"
  shows "(unat (d :: u128) < 2 ^ 97 \<longrightarrow> (meets_difficulty h (to_target d) \<longleftrightarrow>
      take 31 h = replicate 31 0 \<and> h ! 31 \<le> drop_bit (trailing_zeros d mod 8) 255))
    \<and> (2 ^ 127 \<le> unat d \<and> odd (unat d) \<longrightarrow> meets_difficulty h (to_target d))"
  using meets_low_target [OF assms, of d] assms
  by (auto simp: to_target_max meets_difficulty_max wf_hash_def)

theorem difficulty_scale_ends_witness:
  "meets_difficulty (replicate 31 0 @ [255]) (to_target 1)
   \<and> \<not> meets_difficulty (1 # replicate 31 0) (to_target DIFFICULTY_INITIAL)
   \<and> meets_difficulty (replicate 32 255) (to_target (2 ^ 127 + 1))"
proof (intro conjI)
  show "meets_difficulty (replicate 31 0 @ [255]) (to_target 1)"
    using difficulty_scale_ends [of "replicate 31 0 @ [255]" 1]
    by (simp add: wf_hash_def trailing_zeros_def tz_nat.simps nth_append)
  have "take 31 (1 # replicate 31 0) \<noteq> replicate 31 (0 :: u8)" by (simp add: numeral_eq_Suc)
  then show "\<not> meets_difficulty (1 # replicate 31 0) (to_target DIFFICULTY_INITIAL)"
    using difficulty_scale_ends [of "1 # replicate 31 0" DIFFICULTY_INITIAL]
    by (simp add: wf_hash_def DIFFICULTY_INITIAL_def del: take_Cons_numeral)
  show "meets_difficulty (replicate 32 255) (to_target (2 ^ 127 + 1))"
    using difficulty_scale_ends [of "replicate 32 255" "2 ^ 127 + 1"] by (simp add: wf_hash_def)
qed

end
