(* ===== verification/Fry_Address.thy ===== *)
theory Fry_Address
  imports Fry_Types
begin

text \<open>
  \<open>frychain-core/src/error.rs\<close> and \<open>frychain-core/src/address.rs\<close>: the core error
  type, the four kinds of address, their derivation and their string form.
  SHA3-256 (crate \<open>sha3\<close>) is the parameter \<open>sha3\<close>, base 58 (crate \<open>bs58\<close>) the
  parameter \<open>b58\<close>. The main result is the round trip of the string form.
\<close>

type_synonym hash_fn = "bytes \<Rightarrow> bytes"

text \<open>What the code relies on when it copies a digest into a 32-byte array.\<close>

definition hash_fn_ok :: "hash_fn \<Rightarrow> bool" where
  "hash_fn_ok sha3 \<longleftrightarrow> (\<forall>x. length (sha3 x) = 32)"

datatype core_error =
    InvalidAddress string
  | InvalidHash string
  | InvalidSignature string
  | InvalidTransaction string
  | InvalidBlock string
  | InsufficientBalance u128 u128
  | NonceMismatch u64 u64
  | AccountNotFound string
  | ContractNotFound string
  | MerkleProofFailed
  | SerializationError string
  | DeserializationError string
  | BlockHeightMismatch u64 u64
  | InvalidParentHash
  | DifficultyTooLow
  | InvalidProofOfWork
  | BlockTooLarge usize usize
  | TooManyTransactions usize usize
  | GasLimitExceeded u64 u64
  | VMError string
  | DePINError string
  | IoError string

fun core_error_text :: "core_error \<Rightarrow> string" where
  "core_error_text (InvalidAddress s) = ''Invalid address: '' @ s"
| "core_error_text (InvalidHash s) = ''Invalid hash: '' @ s"
| "core_error_text (InvalidSignature s) = ''Invalid signature: '' @ s"
| "core_error_text (InvalidTransaction s) = ''Invalid transaction: '' @ s"
| "core_error_text (InvalidBlock s) = ''Invalid block: '' @ s"
| "core_error_text (InsufficientBalance required available) =
     ''Insufficient balance: required '' @ show_word required @ '', available '' @ show_word available"
| "core_error_text (NonceMismatch expected got) =
     ''Nonce mismatch: expected '' @ show_word expected @ '', got '' @ show_word got"
| "core_error_text (AccountNotFound s) = ''Account not found: '' @ s"
| "core_error_text (ContractNotFound s) = ''Contract not found: '' @ s"
| "core_error_text MerkleProofFailed = ''Merkle proof verification failed''"
| "core_error_text (SerializationError s) = ''Serialization error: '' @ s"
| "core_error_text (DeserializationError s) = ''Deserialization error: '' @ s"
| "core_error_text (BlockHeightMismatch expected got) =
     ''Block height mismatch: expected '' @ show_word expected @ '', got '' @ show_word got"
| "core_error_text InvalidParentHash = ''Invalid parent hash''"
| "core_error_text DifficultyTooLow = ''Difficulty too low''"
| "core_error_text InvalidProofOfWork = ''Invalid proof of work''"
| "core_error_text (BlockTooLarge sz mx) =
     ''Block too large: '' @ show_word sz @ '' bytes, max '' @ show_word mx @ '' bytes''"
| "core_error_text (TooManyTransactions n mx) =
     ''Too many transactions: '' @ show_word n @ '', max '' @ show_word mx"
| "core_error_text (GasLimitExceeded used limit) = ''Gas limit exceeded: used '' @ show_word used @ '', limit '' @ show_word limit"
| "core_error_text (VMError s) = ''VM execution error: '' @ s"
| "core_error_text (DePINError s) = ''DePIN error: '' @ s"
| "core_error_text (IoError s) = ''IO error: '' @ s"

datatype address_type = Standard | Contract | Device | System

fun prefix_of :: "address_type \<Rightarrow> string" where
  "prefix_of Standard = ''fry1''"
| "prefix_of Contract = ''fryc1''"
| "prefix_of Device = ''fryd1''"
| "prefix_of System = ''frys1''"

definition from_prefix :: "string \<Rightarrow> address_type option" where
  "from_prefix p =
     (if p = ''fry1'' then Some Standard
      else if p = ''fryc1'' then Some Contract
      else if p = ''fryd1'' then Some Device
      else if p = ''frys1'' then Some System
      else None)"

record address =
  addr_type :: address_type
  addr_bytes :: bytes

definition wf_address :: "address \<Rightarrow> bool" where
  "wf_address a \<longleftrightarrow> length (addr_bytes a) = 32"

definition address_default :: address where
  "address_default = \<lparr>addr_type = Standard, addr_bytes = replicate 32 0\<rparr>"

definition address_from_public_key :: "hash_fn \<Rightarrow> bytes \<Rightarrow> address" where
  "address_from_public_key sha3 pubkey = \<lparr>addr_type = Standard, addr_bytes = sha3 pubkey\<rparr>"

definition contract_address :: "hash_fn \<Rightarrow> address \<Rightarrow> u64 \<Rightarrow> address" where
  "contract_address sha3 creator n =
     \<lparr>addr_type = Contract, addr_bytes = sha3 (addr_bytes creator @ le_of_word n)\<rparr>"

definition device_address :: "hash_fn \<Rightarrow> bytes \<Rightarrow> bytes \<Rightarrow> address" where
  "device_address sha3 device_pubkey device_id =
     \<lparr>addr_type = Device, addr_bytes = sha3 (str_bytes ''device:'' @ device_pubkey @ device_id)\<rparr>"

definition system_address :: "hash_fn \<Rightarrow> string \<Rightarrow> address" where
  "system_address sha3 name =
     \<lparr>addr_type = System, addr_bytes = sha3 (str_bytes ''system:'' @ str_bytes name)\<rparr>"

definition address_zero :: address where
  "address_zero = \<lparr>addr_type = Standard, addr_bytes = replicate 32 0\<rparr>"

definition address_is_zero :: "address \<Rightarrow> bool" where
  "address_is_zero a \<longleftrightarrow> list_all (\<lambda>b. b = 0) (addr_bytes a)"

text \<open>The \<open>bs58\<close> crate: encoding is total, decoding reports an error with its text.\<close>

record base58_codec =
  b58_encode :: "bytes \<Rightarrow> string"
  b58_decode :: "string \<Rightarrow> string + bytes"

definition b58_laws :: "base58_codec \<Rightarrow> bool" where
  "b58_laws b58 \<longleftrightarrow> (\<forall>bs. b58_decode b58 (b58_encode b58 bs) = Inr bs)"

definition address_to_string :: "base58_codec \<Rightarrow> address \<Rightarrow> string" where
  "address_to_string b58 a = prefix_of (addr_type a) @ b58_encode b58 (addr_bytes a)"

fun strip_prefix :: "string \<Rightarrow> string \<Rightarrow> string option" where
  "strip_prefix [] s = Some s"
| "strip_prefix (p # ps) [] = None"
| "strip_prefix (p # ps) (c # s) = (if p = c then strip_prefix ps s else None)"

text \<open>The \<open>for\<close> loop over the four prefixes: the first one that matches decides.\<close>

fun from_string_loop :: "base58_codec \<Rightarrow> string list \<Rightarrow> string \<Rightarrow> (core_error, address) outcome" where
  "from_string_loop b58 [] s = Err (InvalidAddress ''Invalid address prefix'')"
| "from_string_loop b58 (prefix # prefixes) s =
     (case strip_prefix prefix s of
        None \<Rightarrow> from_string_loop b58 prefixes s
      | Some rest \<Rightarrow>
          bindR (ok_or (from_prefix prefix) (InvalidAddress ''Invalid prefix'')) (\<lambda>ty.
          bindR (from_sum (\<lambda>e. InvalidAddress (''Base58 decode error: '' @ e)) (b58_decode b58 rest)) (\<lambda>decoded.
          if length decoded \<noteq> 32
          then Err (InvalidAddress (''Invalid address length: expected 32, got '' @ show_nat (length decoded)))
          else Ok \<lparr>addr_type = ty, addr_bytes = decoded\<rparr>)))"

definition address_from_string :: "base58_codec \<Rightarrow> string \<Rightarrow> (core_error, address) outcome" where
  "address_from_string b58 s = from_string_loop b58 [''fry1'', ''fryc1'', ''fryd1'', ''frys1''] s"

definition address_from_hex :: "hex_codec \<Rightarrow> string \<Rightarrow> (core_error, address) outcome" where
  "address_from_hex hx s =
     bindR (from_sum (\<lambda>e. InvalidAddress (''Hex decode error: '' @ e)) (hex_decode hx (trim_0x s))) (\<lambda>bytes.
     if length bytes \<noteq> 32
     then Err (InvalidAddress (''Invalid address length: expected 32, got '' @ show_nat (length bytes)))
     else Ok \<lparr>addr_type = Standard, addr_bytes = bytes\<rparr>)"

definition address_to_hex :: "hex_codec \<Rightarrow> address \<Rightarrow> string" where
  "address_to_hex hx a = ''0x'' @ hex_encode hx (addr_bytes a)"

definition DEPIN_REGISTRY :: "hash_fn \<Rightarrow> address" where
  "DEPIN_REGISTRY sha3 = system_address sha3 ''depin_registry''"

definition COINBASE :: "hash_fn \<Rightarrow> address" where
  "COINBASE sha3 = system_address sha3 ''coinbase''"

definition FEE_BURN :: "hash_fn \<Rightarrow> address" where
  "FEE_BURN sha3 = system_address sha3 ''fee_burn''"

definition STAKING :: "hash_fn \<Rightarrow> address" where
  "STAKING sha3 = system_address sha3 ''staking''"

definition PRECOMPILE_BASE :: "hash_fn \<Rightarrow> address" where
  "PRECOMPILE_BASE sha3 = system_address sha3 ''precompile''"

subsection \<open>Lemmas\<close>

lemma from_prefix_prefix_of: "from_prefix (prefix_of t) = Some t"
  by (cases t) (simp_all add: from_prefix_def)

lemma strip_prefix_append [simp]: "strip_prefix p (p @ s) = Some s"
  by (induction p) auto

lemma strip_prefix_Some: "strip_prefix p s = Some r \<longleftrightarrow> s = p @ r"
  by (induction p s rule: strip_prefix.induct) auto

lemma address_from_string_to_string:
  assumes "b58_laws b58" and "wf_address a"
  shows "address_from_string b58 (address_to_string b58 a) = Ok a"
  using assms
  by (cases "addr_type a")
     (auto simp: address_from_string_def address_to_string_def b58_laws_def wf_address_def from_prefix_def)

lemma address_from_string_wf:
  "address_from_string b58 s = Ok a \<Longrightarrow> wf_address a"
  by (auto simp: address_from_string_def wf_address_def bindR_Ok_iff
      split: option.split_asm if_split_asm)

lemma address_from_string_parts:
  "address_from_string b58 s = Ok a \<Longrightarrow>
   \<exists>rest. s = prefix_of (addr_type a) @ rest \<and> b58_decode b58 rest = Inr (addr_bytes a)"
  by (auto simp: address_from_string_def bindR_Ok_iff strip_prefix_Some from_prefix_def
      split: option.split_asm if_split_asm)

lemma str_bytes_char_of [simp]: "str_bytes (map (\<lambda>b. char_of (unat b)) bs) = bs"
proof -
  have "of_char (char_of (unat b) :: char) = b" for b :: u8
  proof -
    have "(of_char (char_of (unat b) :: char) :: u8) = of_nat (of_char (char_of (unat b) :: char))"
      by (simp only: of_nat_of_char)
    also have "(of_char (char_of (unat b) :: char) :: nat) = unat b"
      using unsigned_less [of b, where 'a = nat] by simp
    finally show ?thesis by simp
  qed
  then show ?thesis by (simp add: str_bytes_def o_def)
qed

lemma wf_derived_addresses:
  assumes "hash_fn_ok sha3"
  shows "wf_address (address_from_public_key sha3 pk)" "wf_address (contract_address sha3 c n)"
    "wf_address (device_address sha3 dp di)" "wf_address (system_address sha3 nm)"
    "wf_address address_zero"
  using assms
  by (simp_all add: wf_address_def hash_fn_ok_def address_from_public_key_def contract_address_def
      device_address_def system_address_def address_zero_def)

subsection \<open>Properties\<close>

text \<open>Every address survives the round trip through its string form, with its kind:
  \<open>from_string\<close> of \<open>to_string_repr\<close> is the address again; and whatever
  \<open>from_string\<close> accepts has 32 bytes, carries the kind of the prefix it starts with, and is
  the base 58 decoding of the rest.\<close>

theorem address_string_roundtrip:
  assumes "b58_laws b58" and "wf_address a"
  shows "address_from_string b58 (address_to_string b58 a) = Ok a
    \<and> (\<forall>s b. address_from_string b58 s = Ok b \<longrightarrow> wf_address b
         \<and> (\<exists>rest. s = prefix_of (addr_type b) @ rest \<and> b58_decode b58 rest = Inr (addr_bytes b)))"
  using assms
  by (auto simp: address_from_string_to_string address_from_string_wf address_from_string_parts)

definition latin1_b58 :: base58_codec where
  "latin1_b58 = \<lparr>b58_encode = map (\<lambda>b. char_of (unat b)), b58_decode = (\<lambda>s. Inr (str_bytes s))\<rparr>"

theorem address_string_roundtrip_witness:
  "address_from_string latin1_b58 (address_to_string latin1_b58 \<lparr>addr_type = Device, addr_bytes = replicate 32 7\<rparr>)
     = Ok \<lparr>addr_type = Device, addr_bytes = replicate 32 7\<rparr>"
  by (rule address_string_roundtrip [THEN conjunct1])
     (simp_all add: b58_laws_def latin1_b58_def wf_address_def str_bytes_char_of)

end
