(* ===== verification/Fry_Transaction.thy ===== *)
theory Fry_Transaction
  imports Fry_Address
begin

text \<open>
  \<open>frychain-core/src/transaction.rs\<close>: the unsigned and the signed transaction, the
  bytes that are hashed for the signature, gas estimation, receipts. A digest fed by several
  \<open>update\<close> calls is the digest of the concatenation, so each \<open>hash\<close> is \<open>sha3\<close> of
  an explicit preimage. The lemmas show that a preimage determines every field that it
  mentions.
\<close>

datatype transaction_type =
    Transfer
  | ContractDeploy
  | ContractCall
  | DeviceRegister
  | DeviceData
  | DeviceDeregister
  | Stake
  | Unstake

fun type_id :: "transaction_type \<Rightarrow> u8" where
  "type_id Transfer = 0"
| "type_id ContractDeploy = 1"
| "type_id ContractCall = 2"
| "type_id DeviceRegister = 3"
| "type_id DeviceData = 4"
| "type_id DeviceDeregister = 5"
| "type_id Stake = 6"
| "type_id Unstake = 7"

definition from_type_id :: "u8 \<Rightarrow> transaction_type option" where
  "from_type_id i =
     (if i = 0 then Some Transfer
      else if i = 1 then Some ContractDeploy
      else if i = 2 then Some ContractCall
      else if i = 3 then Some DeviceRegister
      else if i = 4 then Some DeviceData
      else if i = 5 then Some DeviceDeregister
      else if i = 6 then Some Stake
      else if i = 7 then Some Unstake
      else None)"

record transaction =
  tx_type :: transaction_type
  tx_from :: address
  tx_to :: address
  tx_value :: token_amount
  tx_nonce :: nonce
  tx_gas_limit :: gas
  tx_gas_price :: gas_price
  tx_data :: bytes
  tx_chain_id :: u64

definition transfer_tx ::
    "address \<Rightarrow> address \<Rightarrow> token_amount \<Rightarrow> nonce \<Rightarrow> gas_price \<Rightarrow> u64 \<Rightarrow> transaction" where
  "transfer_tx from to value n price chain =
     \<lparr>tx_type = Transfer, tx_from = from, tx_to = to, tx_value = value, tx_nonce = n,
      tx_gas_limit = GAS_TRANSFER_MIN, tx_gas_price = price, tx_data = [], tx_chain_id = chain\<rparr>"

definition contract_deploy_tx ::
    "address \<Rightarrow> bytes \<Rightarrow> token_amount \<Rightarrow> nonce \<Rightarrow> gas \<Rightarrow> gas_price \<Rightarrow> u64 \<Rightarrow> transaction" where
  "contract_deploy_tx from bytecode value n limit price chain =
     \<lparr>tx_type = ContractDeploy, tx_from = from, tx_to = address_zero, tx_value = value, tx_nonce = n,
      tx_gas_limit = limit, tx_gas_price = price, tx_data = bytecode, tx_chain_id = chain\<rparr>"

definition contract_call_tx ::
    "address \<Rightarrow> address \<Rightarrow> bytes \<Rightarrow> token_amount \<Rightarrow> nonce \<Rightarrow> gas \<Rightarrow> gas_price \<Rightarrow> u64 \<Rightarrow> transaction" where
  "contract_call_tx from contract call_data value n limit price chain =
     \<lparr>tx_type = ContractCall, tx_from = from, tx_to = contract, tx_value = value, tx_nonce = n,
      tx_gas_limit = limit, tx_gas_price = price, tx_data = call_data, tx_chain_id = chain\<rparr>"

definition device_register_tx ::
    "hash_fn \<Rightarrow> address \<Rightarrow> bytes \<Rightarrow> nonce \<Rightarrow> gas_price \<Rightarrow> u64 \<Rightarrow> transaction" where
  "device_register_tx sha3 from device_data n price chain =
     \<lparr>tx_type = DeviceRegister, tx_from = from, tx_to = DEPIN_REGISTRY sha3, tx_value = 0, tx_nonce = n,
      tx_gas_limit = 100000, tx_gas_price = price, tx_data = device_data, tx_chain_id = chain\<rparr>"

definition tx_preimage :: "transaction \<Rightarrow> bytes" where
  "tx_preimage tx =
     [type_id (tx_type tx)] @ addr_bytes (tx_from tx) @ addr_bytes (tx_to tx)
     @ le_of_word (tx_value tx) @ le_of_word (tx_nonce tx) @ le_of_word (tx_gas_limit tx)
     @ le_of_word (tx_gas_price tx)
     @ le_of_word (word_of_nat (length (tx_data tx)) :: u32) @ tx_data tx
     @ le_of_word (tx_chain_id tx)"

definition tx_hash :: "hash_fn \<Rightarrow> transaction \<Rightarrow> hash256" where
  "tx_hash sha3 tx = sha3 (tx_preimage tx)"

definition max_fee :: "transaction \<Rightarrow> token_amount" where
  "max_fee tx = total_fee (tx_gas_price tx) (tx_gas_limit tx)"

definition total_cost :: "transaction \<Rightarrow> token_amount" where
  "total_cost tx = tx_value tx + max_fee tx"

definition estimate_gas :: "transaction \<Rightarrow> gas" where
  "estimate_gas tx =
     (let base_gas = (case tx_type tx of
            Transfer \<Rightarrow> GAS_TRANSFER_MIN
          | ContractDeploy \<Rightarrow> GAS_CONTRACT_CREATE + GAS_TRANSFER_MIN
          | ContractCall \<Rightarrow> GAS_TRANSFER_MIN
          | DeviceRegister \<Rightarrow> 100000
          | DeviceData \<Rightarrow> 50000
          | DeviceDeregister \<Rightarrow> 50000
          | Stake \<Rightarrow> 50000
          | Unstake \<Rightarrow> 50000);
          data_gas = word_of_nat (length (tx_data tx)) * GAS_PER_BYTE
      in base_gas + data_gas)"

definition tx_contract_address :: "hash_fn \<Rightarrow> transaction \<Rightarrow> address option" where
  "tx_contract_address sha3 tx =
     (if tx_type tx = ContractDeploy then Some (contract_address sha3 (tx_from tx) (tx_nonce tx)) else None)"

datatype signature_type = Dilithium | SphincsPlus | Ed25519

record signature =
  sig_type :: signature_type
  sig_bytes :: bytes
  sig_public_key :: bytes

definition is_post_quantum :: "signature \<Rightarrow> bool" where
  "is_post_quantum s \<longleftrightarrow> (case sig_type s of Dilithium \<Rightarrow> True | SphincsPlus \<Rightarrow> True | Ed25519 \<Rightarrow> False)"

record signed_transaction =
  stx_transaction :: transaction
  stx_signature :: signature

definition signed_tx_hash :: "hash_fn \<Rightarrow> signed_transaction \<Rightarrow> hash256" where
  "signed_tx_hash sha3 stx = sha3 (tx_hash sha3 (stx_transaction stx) @ sig_bytes (stx_signature stx))"

record log_entry =
  log_address :: address
  log_topics :: "hash256 list"
  log_data :: bytes

record transaction_receipt =
  rc_tx_hash :: hash256
  rc_block_hash :: hash256
  rc_block_height :: u64
  rc_tx_index :: u32
  rc_from :: address
  rc_to :: address
  rc_contract_address :: "address option"
  rc_gas_used :: gas
  rc_success :: bool
  rc_return_data :: bytes
  rc_error :: "string option"
  rc_logs :: "log_entry list"

definition receipt_success ::
    "hash256 \<Rightarrow> hash256 \<Rightarrow> u64 \<Rightarrow> u32 \<Rightarrow> address \<Rightarrow> address \<Rightarrow> gas \<Rightarrow> transaction_receipt" where
  "receipt_success th bh h i from to g =
     \<lparr>rc_tx_hash = th, rc_block_hash = bh, rc_block_height = h, rc_tx_index = i, rc_from = from,
      rc_to = to, rc_contract_address = None, rc_gas_used = g, rc_success = True,
      rc_return_data = [], rc_error = None, rc_logs = []\<rparr>"

definition receipt_failure ::
    "hash256 \<Rightarrow> hash256 \<Rightarrow> u64 \<Rightarrow> u32 \<Rightarrow> address \<Rightarrow> address \<Rightarrow> gas \<Rightarrow> string \<Rightarrow> transaction_receipt" where
  "receipt_failure th bh h i from to g err =
     \<lparr>rc_tx_hash = th, rc_block_hash = bh, rc_block_height = h, rc_tx_index = i, rc_from = from,
      rc_to = to, rc_contract_address = None, rc_gas_used = g, rc_success = False,
      rc_return_data = [], rc_error = Some err, rc_logs = []\<rparr>"

definition receipt_preimage :: "transaction_receipt \<Rightarrow> bytes" where
  "receipt_preimage r =
     rc_tx_hash r @ rc_block_hash r @ le_of_word (rc_block_height r) @ le_of_word (rc_tx_index r)
     @ [if rc_success r then 1 else 0] @ le_of_word (rc_gas_used r)"

definition receipt_hash :: "hash_fn \<Rightarrow> transaction_receipt \<Rightarrow> hash256" where
  "receipt_hash sha3 r = sha3 (receipt_preimage r)"

subsection \<open>Lemmas\<close>

lemma from_type_id_type_id: "from_type_id (type_id t) = Some t"
  by (cases t) (simp_all add: from_type_id_def)

lemma type_id_inject [simp]: "type_id s = type_id t \<longleftrightarrow> s = t"
  by (metis from_type_id_type_id option.inject)

definition wf_tx :: "transaction \<Rightarrow> bool" where
  "wf_tx tx \<longleftrightarrow> wf_address (tx_from tx) \<and> wf_address (tx_to tx)"

text \<open>
  The variable-length data is followed by the eight bytes of the chain id only, so the two
  preimages have equally long data when they are equal.
\<close>

lemma append_fixed_tail_eq:
  "length ys = length ys' \<Longrightarrow> xs @ ys = xs' @ ys' \<longleftrightarrow> xs = xs' \<and> ys = ys'"
  by (metis append_eq_append_conv)

lemma tx_preimage_inject:
  assumes "wf_tx t" and "wf_tx u" and "tx_preimage t = tx_preimage u"
  shows "tx_type t = tx_type u \<and> addr_bytes (tx_from t) = addr_bytes (tx_from u)
    \<and> addr_bytes (tx_to t) = addr_bytes (tx_to u) \<and> tx_value t = tx_value u
    \<and> tx_nonce t = tx_nonce u \<and> tx_gas_limit t = tx_gas_limit u
    \<and> tx_gas_price t = tx_gas_price u \<and> tx_data t = tx_data u \<and> tx_chain_id t = tx_chain_id u"
  using assms
  by (simp add: tx_preimage_def wf_tx_def wf_address_def append_fixed_tail_eq append_eq_append_conv)

lemma estimate_gas_data:
  "estimate_gas (tx\<lparr>tx_data := []\<rparr>) + 16 * word_of_nat (length (tx_data tx)) = estimate_gas tx"
  by (simp add: estimate_gas_def GAS_PER_BYTE_def split: transaction_type.splits)

subsection \<open>Properties\<close>

text \<open>C33: What a transaction hash commits to. Under a hash function that does not collide on
  the two preimages, equal hashes mean equal type, sender bytes, recipient bytes, value, nonce,
  gas limit, gas price, data and chain id, and conversely: only the kinds (prefixes) of the two
  addresses are outside the hash, and no length or boundary of the data is ambiguous.\<close>

theorem tx_hash_commits:
  assumes "wf_tx t" and "wf_tx u" and "inj_on sha3 {tx_preimage t, tx_preimage u}"
  shows "tx_hash sha3 t = tx_hash sha3 u \<longleftrightarrow>
    (tx_type t = tx_type u \<and> addr_bytes (tx_from t) = addr_bytes (tx_from u)
     \<and> addr_bytes (tx_to t) = addr_bytes (tx_to u) \<and> tx_value t = tx_value u
     \<and> tx_nonce t = tx_nonce u \<and> tx_gas_limit t = tx_gas_limit u
     \<and> tx_gas_price t = tx_gas_price u \<and> tx_data t = tx_data u \<and> tx_chain_id t = tx_chain_id u)"
    (is "?l \<longleftrightarrow> ?r")
proof
  assume ?l
  then have "tx_preimage t = tx_preimage u" using inj_onD [OF assms(3), of "tx_preimage t" "tx_preimage u"] by (simp add: tx_hash_def)
  with assms(1,2) show ?r by (rule tx_preimage_inject)
next
  assume ?r
  then show ?l by (simp add: tx_hash_def tx_preimage_def)
qed

theorem tx_hash_commits_witness:
  "tx_hash id (transfer_tx address_zero address_zero 5 0 1 3) \<noteq> tx_hash id (transfer_tx address_zero address_zero 6 0 1 3)"
  using tx_hash_commits [of "transfer_tx address_zero address_zero 5 0 1 3"
      "transfer_tx address_zero address_zero 6 0 1 3" id]
  by (simp add: wf_tx_def wf_address_def transfer_tx_def address_zero_def)

end
