(* ===== verification/Fry_Maps.thy ===== *)
theory Fry_Maps
  imports Fry_Prelude "HOL-Library.AList" "HOL-Library.Multiset" "HOL-Library.List_Lexorder"
begin

text \<open>
  \<open>HashMap\<close> and \<open>BTreeMap\<close> values as association lists with distinct keys; the order
  of the list is the iteration order, which the program must not depend on. The lemmas say
  what \<open>insert\<close> and \<open>remove\<close> do to the entries, to the lookup function, to the sum over
  all entries and to the sorted list of keys.
\<close>

lemma in_set_update:
  "(k', v') \<in> set (AList.update k v al) \<Longrightarrow> (k' = k \<and> v' = v) \<or> (k', v') \<in> set al"
  by (induction al) (auto split: if_splits)

lemma in_set_delete: "(k', v') \<in> set (AList.delete k al) \<Longrightarrow> (k', v') \<in> set al \<and> k' \<noteq> k"
  by (auto simp: AList.delete_eq)

lemma map_of_update_apply: "map_of (AList.update k v al) j = (if j = k then Some v else map_of al j)"
  by (simp add: update_conv')

lemma map_of_delete_apply: "map_of (AList.delete k al) j = (if j = k then None else map_of al j)"
  by (simp add: delete_conv')

text \<open>The sum of a measure of the entries.\<close>

definition total :: "('k \<Rightarrow> 'v \<Rightarrow> nat) \<Rightarrow> ('k \<times> 'v) list \<Rightarrow> nat" where
  "total f al = sum_list (map (\<lambda>(k, v). f k v) al)"

lemma total_simps [simp]: "total f [] = 0" "total f ((k, v) # al) = f k v + total f al"
  by (simp_all add: total_def)

definition entry :: "('k \<Rightarrow> 'v \<Rightarrow> nat) \<Rightarrow> ('k \<times> 'v) list \<Rightarrow> 'k \<Rightarrow> nat" where
  "entry f al k = (case map_of al k of None \<Rightarrow> 0 | Some v \<Rightarrow> f k v)"

lemma total_update:
  "distinct (map fst al) \<Longrightarrow> total f (AList.update k v al) + entry f al k = total f al + f k v"
proof (induction al)
  case (Cons p al)
  show ?case
  proof (cases "fst p = k")
    case True
    then show ?thesis by (cases p) (simp add: entry_def)
  next
    case False
    with Cons show ?thesis by (cases p) (auto simp: entry_def)
  qed
qed (simp add: entry_def)

lemma total_delete:
  "distinct (map fst al) \<Longrightarrow> total f (AList.delete k al) + entry f al k = total f al"
proof (induction al)
  case (Cons p al)
  show ?case
  proof (cases "fst p = k")
    case True
    with Cons.prems have "AList.delete k al = al" by auto
    with True show ?thesis by (cases p) (simp add: entry_def)
  next
    case False
    with Cons show ?thesis by (cases p) (auto simp: entry_def)
  qed
qed (simp add: entry_def)

lemma total_member_le: "(k, v) \<in> set al \<Longrightarrow> f k v \<le> total f al"
  by (induction al) auto

lemma entry_le_total: "entry f al k \<le> total f al"
  by (auto simp: entry_def dest: map_of_SomeD intro: total_member_le split: option.splits)

text \<open>Sorting the keys forgets the iteration order.\<close>

lemma sorted_keys_determined:
  fixes xs :: "('k::linorder \<times> 'v) list" and ys :: "('k \<times> 'w) list"
  assumes "distinct (map fst xs)" and "distinct (map fst ys)" and "dom (map_of xs) = dom (map_of ys)"
  shows "sort (map fst xs) = sort (map fst ys)"
proof -
  have "set (map fst xs) = set (map fst ys)"
    using assms(3) by (simp add: dom_map_of_conv_image_fst)
  then have "mset (map fst xs) = mset (map fst ys)"
    using assms(1,2) set_eq_iff_mset_eq_distinct by blast
  then show ?thesis by (metis mset_sort properties_for_sort sorted_sort)
qed

lemma length_determined:
  assumes "distinct (map fst xs)" and "distinct (map fst ys)" and "dom (map_of xs) = dom (map_of ys)"
  shows "length xs = length ys"
proof -
  have "card (set (map fst xs)) = card (set (map fst ys))"
    using assms(3) by (simp add: dom_map_of_conv_image_fst)
  then show ?thesis using assms(1,2) by (metis distinct_card length_map)
qed

end
