(* ===== verification/Fry_Merkle.thy ===== *)
theory Fry_Merkle
  imports Fry_Address Fry_Maps
begin

text \<open>
  \<open>frychain-core/src/merkle.rs\<close>: the Merkle tree over a list of leaf hashes, inclusion
  proofs, and the sparse tree of the state. \<open>None\<close> of the tree construction is the panic
  of \<open>chunk[1]\<close> on an odd level; the first lemmas show that padding to a power of two
  excludes it. The main lemmas: the root is the reference root of the padded leaves, every
  proof the tree hands out verifies, and a proof that verifies is about the leaf or
  the inner node that the tree has where its path ends, up to a collision of the hash function among the strings that are
  hashed.
\<close>

definition hash_pair :: "hash_fn \<Rightarrow> hash256 \<Rightarrow> hash256 \<Rightarrow> hash256" where
  "hash_pair sha3 left right = sha3 (left @ right)"

record merkle_tree =
  mt_nodes :: "hash256 list"
  mt_leaf_count :: nat

text \<open>\<open>usize::next_power_of_two\<close>.\<close>

definition next_power_of_two :: "nat \<Rightarrow> nat" where
  "next_power_of_two n = (if n \<le> 1 then 1 else 2 ^ bit_len (n - 1))"

fun pair_level :: "hash_fn \<Rightarrow> hash256 list \<Rightarrow> hash256 list option" where
  "pair_level sha3 [] = Some []"
| "pair_level sha3 [a] = None"
| "pair_level sha3 (a # b # rest) =
     (case pair_level sha3 rest of None \<Rightarrow> None | Some hs \<Rightarrow> Some (hash_pair sha3 a b # hs))"

lemma length_pair_level: "pair_level sha3 xs = Some ys \<Longrightarrow> 2 * length ys = length xs"
  by (induction sha3 xs arbitrary: ys rule: pair_level.induct) (auto split: option.splits)

function build_levels :: "hash_fn \<Rightarrow> hash256 list \<Rightarrow> hash256 list \<Rightarrow> hash256 list option" where
  "build_levels sha3 current_level all_nodes =
     (if length current_level > 1
      then (case pair_level sha3 current_level of
              None \<Rightarrow> None
            | Some next_level \<Rightarrow> build_levels sha3 next_level (all_nodes @ next_level))
      else Some all_nodes)"
  by pat_completeness auto
termination
proof (relation "measure (\<lambda>(sha3, cur, all). length cur)", simp)
  fix sha3 :: hash_fn and cur all nxt :: "hash256 list"
  assume "1 < length cur" and "pair_level sha3 cur = Some nxt"
  then show "((sha3, nxt, all @ nxt), (sha3, cur, all)) \<in> measure (\<lambda>(sha3, cur, all). length cur)"
    using length_pair_level [of sha3 cur nxt] by simp
qed

declare build_levels.simps [simp del]

definition merkle_from_hashes :: "hash_fn \<Rightarrow> hash256 list \<Rightarrow> merkle_tree option" where
  "merkle_from_hashes sha3 leaves =
     (if leaves = [] then Some \<lparr>mt_nodes = [hash_zero], mt_leaf_count = 0\<rparr>
      else
        let leaf_count = length leaves;
            padded_size = next_power_of_two leaf_count;
            current_level = leaves @ replicate (padded_size - leaf_count) hash_zero
        in case build_levels sha3 current_level current_level of
             None \<Rightarrow> None
           | Some all_nodes \<Rightarrow> Some \<lparr>mt_nodes = all_nodes, mt_leaf_count = leaf_count\<rparr>)"

definition merkle_from_data :: "hash_fn \<Rightarrow> bytes list \<Rightarrow> merkle_tree option" where
  "merkle_from_data sha3 items = merkle_from_hashes sha3 (map sha3 items)"

definition merkle_root :: "merkle_tree \<Rightarrow> hash256" where
  "merkle_root t = (if mt_nodes t = [] then hash_zero else mt_nodes t ! (length (mt_nodes t) - 1))"

record merkle_proof =
  mp_leaf_index :: nat
  mp_leaf_hash :: hash256
  mp_proof_hashes :: "hash256 list"
  mp_root :: hash256

fun proof_loop :: "hash256 list \<Rightarrow> nat \<Rightarrow> nat \<Rightarrow> nat \<Rightarrow> hash256 list" where
  "proof_loop nodes level_start level_size current_index =
     (if level_size > 1
      then let sibling_index = (if current_index mod 2 = 0 then current_index + 1 else current_index - 1);
               h = (if level_start + sibling_index < length nodes
                    then nodes ! (level_start + sibling_index) else hash_zero)
           in h # proof_loop nodes (level_start + level_size) (level_size div 2) (current_index div 2)
      else [])"

declare proof_loop.simps [simp del]

definition get_proof :: "merkle_tree \<Rightarrow> nat \<Rightarrow> merkle_proof option" where
  "get_proof t index =
     (if index \<ge> mt_leaf_count t then None
      else Some \<lparr>mp_leaf_index = index,
                 mp_leaf_hash = mt_nodes t ! index,
                 mp_proof_hashes = proof_loop (mt_nodes t) 0 (next_power_of_two (mt_leaf_count t)) index,
                 mp_root = merkle_root t\<rparr>)"

definition get_leaf :: "merkle_tree \<Rightarrow> nat \<Rightarrow> hash256 option" where
  "get_leaf t index = (if index < mt_leaf_count t then Some (mt_nodes t ! index) else None)"

fun verify_path :: "hash_fn \<Rightarrow> hash256 \<Rightarrow> nat \<Rightarrow> hash256 list \<Rightarrow> hash256" where
  "verify_path sha3 current_hash current_index [] = current_hash"
| "verify_path sha3 current_hash current_index (sibling # rest) =
     verify_path sha3
       (if current_index mod 2 = 0 then hash_pair sha3 current_hash sibling
        else hash_pair sha3 sibling current_hash)
       (current_index div 2) rest"

definition verify :: "hash_fn \<Rightarrow> merkle_proof \<Rightarrow> bool" where
  "verify sha3 p \<longleftrightarrow> verify_path sha3 (mp_leaf_hash p) (mp_leaf_index p) (mp_proof_hashes p) = mp_root p"

definition verify_leaf :: "hash_fn \<Rightarrow> merkle_proof \<Rightarrow> hash256 \<Rightarrow> bool" where
  "verify_leaf sha3 p leaf_hash \<longleftrightarrow> (if leaf_hash \<noteq> mp_leaf_hash p then False else verify sha3 p)"

subsection \<open>Levels of the tree\<close>

fun pairs :: "hash_fn \<Rightarrow> hash256 list \<Rightarrow> hash256 list" where
  "pairs sha3 (a # b # rest) = hash_pair sha3 a b # pairs sha3 rest"
| "pairs sha3 _ = []"

fun level :: "hash_fn \<Rightarrow> nat \<Rightarrow> hash256 list \<Rightarrow> hash256 list" where
  "level sha3 0 xs = xs"
| "level sha3 (Suc j) xs = level sha3 j (pairs sha3 xs)"

text \<open>The reference: split the leaves in two halves and hash the roots of the halves.\<close>

fun ref_root :: "hash_fn \<Rightarrow> nat \<Rightarrow> hash256 list \<Rightarrow> hash256" where
  "ref_root sha3 0 xs = hd xs"
| "ref_root sha3 (Suc k) xs =
     hash_pair sha3 (ref_root sha3 k (take (2 ^ k) xs)) (ref_root sha3 k (drop (2 ^ k) xs))"

lemma pair_level_even: "even (length xs) \<Longrightarrow> pair_level sha3 xs = Some (pairs sha3 xs)"
  by (induction sha3 xs rule: pair_level.induct) auto

lemma length_pairs: "length (pairs sha3 xs) = length xs div 2"
  by (induction sha3 xs rule: pairs.induct) auto

lemma pairs_nth:
  "Suc (2 * i) < length xs \<Longrightarrow> pairs sha3 xs ! i = hash_pair sha3 (xs ! (2 * i)) (xs ! Suc (2 * i))"
proof (induction sha3 xs arbitrary: i rule: pairs.induct)
  case (1 sha3 a b rest)
  then show ?case by (cases i) auto
qed auto

lemma pairs_append:
  "even (length xs) \<Longrightarrow> pairs sha3 (xs @ ys) = pairs sha3 xs @ pairs sha3 ys"
  by (induction sha3 xs rule: pairs.induct) auto

lemma length_level: "length xs = 2 ^ (n + j) \<Longrightarrow> length (level sha3 j xs) = 2 ^ n"
proof (induction j arbitrary: xs)
  case (Suc j)
  then have "length (pairs sha3 xs) = 2 ^ (n + j)" by (simp add: length_pairs)
  with Suc.IH show ?case by simp
qed simp

lemma build_levels_power:
  "length cur = 2 ^ n \<Longrightarrow>
   build_levels sha3 cur all = Some (all @ concat (map (\<lambda>j. level sha3 (Suc j) cur) [0..<n]))"
proof (induction n arbitrary: cur all)
  case 0
  then show ?case by (simp add: build_levels.simps)
next
  case (Suc n)
  have "(1::nat) \<le> 2 ^ n" by simp
  with Suc.prems have "1 < length cur" unfolding power_Suc by linarith
  moreover from Suc.prems have len: "length (pairs sha3 cur) = 2 ^ n" and "even (length cur)"
    by (simp_all add: length_pairs)
  moreover have "[0..<Suc n] = 0 # map Suc [0..<n]"
    by (simp only: map_Suc_upt upt_conv_Cons [OF zero_less_Suc])
  ultimately show ?case
    using Suc.IH [OF len, of "all @ pairs sha3 cur"]
    by (simp add: build_levels.simps [of sha3 cur] pair_level_even o_def del: upt_Suc)
qed

lemma next_power_of_two_power: "\<exists>n. next_power_of_two m = 2 ^ n"
  by (metis next_power_of_two_def power_0)

lemma next_power_of_two_ge: "m \<le> next_power_of_two m"
proof (cases "m \<le> 1")
  case False
  have "\<not> 2 ^ bit_len (m - 1) \<le> m - 1" using bit_len_ge by blast
  with False show ?thesis by (simp add: next_power_of_two_def)
qed (simp add: next_power_of_two_def)

subsection \<open>The root\<close>

lemma ref_root_pairs:
  "length xs = 2 ^ Suc n \<Longrightarrow> ref_root sha3 (Suc n) xs = ref_root sha3 n (pairs sha3 xs)"
proof (induction n arbitrary: xs)
  case 0
  then obtain a b where "xs = [a, b]"
    by (auto simp: numeral_2_eq_2 length_Suc_conv)
  then show ?case by simp
next
  case (Suc n)
  let ?m = "2 ^ Suc n :: nat"
  have split: "xs = take ?m xs @ drop ?m xs" by simp
  have len: "length (take ?m xs) = ?m" "length (drop ?m xs) = ?m" using Suc.prems by simp_all
  have even: "even (length (take ?m xs))" using len by simp
  have p: "pairs sha3 xs = pairs sha3 (take ?m xs) @ pairs sha3 (drop ?m xs)"
    by (metis pairs_append even split)
  have lp: "length (pairs sha3 (take ?m xs)) = 2 ^ n" using len by (simp add: length_pairs)
  have "ref_root sha3 (Suc (Suc n)) xs =
      hash_pair sha3 (ref_root sha3 n (pairs sha3 (take ?m xs))) (ref_root sha3 n (pairs sha3 (drop ?m xs)))"
    using Suc.IH [OF len(1)] Suc.IH [OF len(2)] by simp
  also have "\<dots> = ref_root sha3 (Suc n) (pairs sha3 xs)"
    using lp by (simp add: p)
  finally show ?case .
qed

lemma ref_root_level: "length xs = 2 ^ n \<Longrightarrow> level sha3 n xs = [ref_root sha3 n xs]"
proof (induction n arbitrary: xs)
  case 0
  then show ?case by (cases xs) auto
next
  case (Suc n)
  then have "length (pairs sha3 xs) = 2 ^ n" by (simp add: length_pairs)
  with Suc show ?case by (simp add: ref_root_pairs del: ref_root.simps)
qed

definition padded :: "hash256 list \<Rightarrow> hash256 list" where
  "padded leaves = leaves @ replicate (next_power_of_two (length leaves) - length leaves) hash_zero"

definition tree_depth :: "hash256 list \<Rightarrow> nat" where
  "tree_depth leaves = (if length leaves \<le> 1 then 0 else bit_len (length leaves - 1))"

lemma next_power_of_two_depth: "next_power_of_two (length leaves) = 2 ^ tree_depth leaves"
  by (simp add: next_power_of_two_def tree_depth_def)

lemma length_padded: "length (padded leaves) = 2 ^ tree_depth leaves"
  using next_power_of_two_ge [of "length leaves"]
  by (simp add: padded_def next_power_of_two_depth)

lemma merkle_from_hashes_nodes:
  assumes "leaves \<noteq> []"
  shows "merkle_from_hashes sha3 leaves = Some
    \<lparr>mt_nodes = concat (map (\<lambda>j. level sha3 j (padded leaves)) [0..<Suc (tree_depth leaves)]),
     mt_leaf_count = length leaves\<rparr>"
proof -
  have "map (\<lambda>j. level sha3 j (padded leaves)) [0..<Suc n]
      = padded leaves # map (\<lambda>j. level sha3 (Suc j) (padded leaves)) [0..<n]" for n
    by (simp only: map_Suc_upt [symmetric] upt_conv_Cons [OF zero_less_Suc] list.map map_map o_def level.simps)
  then show ?thesis
    using assms build_levels_power [OF length_padded [of leaves], of sha3 "padded leaves"]
    by (simp add: merkle_from_hashes_def Let_def padded_def [symmetric] del: upt_Suc level.simps)
qed

lemma merkle_root_ref:
  assumes "leaves \<noteq> []" and "merkle_from_hashes sha3 leaves = Some t"
  shows "merkle_root t = ref_root sha3 (tree_depth leaves) (padded leaves)"
proof -
  have nodes: "mt_nodes t = concat (map (\<lambda>j. level sha3 j (padded leaves)) [0..<tree_depth leaves])
      @ [ref_root sha3 (tree_depth leaves) (padded leaves)]"
    using assms ref_root_level [OF length_padded] by (auto simp: merkle_from_hashes_nodes)
  then show ?thesis by (simp add: merkle_root_def)
qed

text \<open>The same for the empty tree, whose root is the zero hash.\<close>

lemma merkle_root_ref':
  "merkle_from_hashes sha3 leaves = Some t \<Longrightarrow> merkle_root t = ref_root sha3 (tree_depth leaves) (padded leaves)"
  using merkle_root_ref [of leaves sha3 t]
  by (cases "leaves = []") (auto simp: merkle_from_hashes_def merkle_root_def tree_depth_def padded_def next_power_of_two_def)

lemma merkle_from_hashes_total: "\<exists>t. merkle_from_hashes sha3 leaves = Some t"
  by (cases "leaves = []") (simp_all add: merkle_from_hashes_def [of _ "[]"] merkle_from_hashes_nodes)

subsection \<open>Proofs\<close>

lemma verify_proof_loop:
  assumes "length cur = 2 ^ n" and "idx < 2 ^ n"
    and "drop start nodes = concat (map (\<lambda>j. level sha3 j cur) [0..<Suc n])"
    and "start + length (concat (map (\<lambda>j. level sha3 j cur) [0..<Suc n])) = length nodes"
  shows "verify_path sha3 (cur ! idx) idx (proof_loop nodes start (2 ^ n) idx) = ref_root sha3 n cur"
  using assms
proof (induction n arbitrary: cur idx start)
  case 0
  then obtain a where "cur = [a]" by (cases cur) auto
  with 0 show ?case by (simp add: proof_loop.simps)
next
  case (Suc n)
  define sib where "sib = (if idx mod 2 = 0 then idx + 1 else idx - 1)"
  have sib: "sib < 2 ^ Suc n" using Suc.prems(2) by (auto simp: sib_def elim!: evenE)
  have lev: "map (\<lambda>j. level sha3 j cur) [0..<Suc (Suc n)]
      = cur # map (\<lambda>j. level sha3 j (pairs sha3 cur)) [0..<Suc n]"
    by (simp only: map_Suc_upt [symmetric] upt_conv_Cons [OF zero_less_Suc] list.map map_map o_def level.simps)
  let ?rest = "concat (map (\<lambda>j. level sha3 j (pairs sha3 cur)) [0..<Suc n])"
  have drop0: "drop start nodes = cur @ ?rest" using Suc.prems(3) lev by (simp del: upt_Suc)
  have len0: "start + length (cur @ ?rest) = length nodes" using Suc.prems(4) lev by (simp del: upt_Suc)
  have inrange: "start + sib < length nodes" using len0 sib Suc.prems(1) by simp
  have nth: "nodes ! (start + sib) = cur ! sib"
    using drop0 inrange sib Suc.prems(1) by (metis nth_append nth_drop add_leE less_imp_le_nat)
  have drop1: "drop (start + 2 ^ Suc n) nodes = ?rest"
    using drop0 Suc.prems(1) by (metis add.commute append_eq_conv_conj drop_drop)
  have len1: "start + 2 ^ Suc n + length ?rest = length nodes" using len0 Suc.prems(1) by simp
  have lenp: "length (pairs sha3 cur) = 2 ^ n" using Suc.prems(1) by (simp add: length_pairs)
  have idx2: "idx div 2 < 2 ^ n" using Suc.prems(2) by simp
  note IH = Suc.IH [OF lenp idx2 drop1 len1]
  have hash: "(if idx mod 2 = 0 then hash_pair sha3 (cur ! idx) (cur ! sib)
      else hash_pair sha3 (cur ! sib) (cur ! idx)) = pairs sha3 cur ! (idx div 2)"
  proof (cases "even idx")
    case True
    then obtain k where k: "idx = 2 * k" by (rule evenE)
    with Suc.prems(1,2) sib show ?thesis by (simp add: sib_def pairs_nth)
  next
    case False
    then obtain k where k: "idx = 2 * k + 1" by (rule oddE)
    with Suc.prems(1,2) sib have "Suc (2 * k) < length cur" by simp
    with k show ?thesis by (simp add: sib_def pairs_nth)
  qed
  have "(1::nat) < 2 ^ Suc n" by (rule one_less_power) simp_all
  then have "proof_loop nodes start (2 ^ Suc n) idx
      = cur ! sib # proof_loop nodes (start + 2 ^ Suc n) (2 ^ n) (idx div 2)"
    using inrange nth by (subst proof_loop.simps) (simp add: Let_def sib_def [symmetric])
  then show ?case
    using IH hash Suc.prems(1) by (simp add: ref_root_pairs del: ref_root.simps)
qed

lemma length_proof_loop: "length (proof_loop nodes start (2 ^ n) idx) = n"
proof (induction n arbitrary: start idx)
  case 0
  show ?case by (simp add: proof_loop.simps)
next
  case (Suc n)
  have "(1::nat) < 2 ^ Suc n" by (rule one_less_power) simp_all
  with Suc show ?case by (subst proof_loop.simps) (simp add: Let_def)
qed

lemma padded_nth: "i < length leaves \<Longrightarrow> padded leaves ! i = leaves ! i"
  by (simp add: padded_def nth_append)

text \<open>The proof that the tree hands out for a leaf, in terms of the leaves.\<close>

lemma get_proof_verify_path:
  assumes "leaves \<noteq> []" and "merkle_from_hashes sha3 leaves = Some t" and "i < length leaves"
  shows "\<exists>p. get_proof t i = Some p \<and> mp_leaf_index p = i \<and> mp_leaf_hash p = leaves ! i
    \<and> mp_root p = merkle_root t \<and> length (mp_proof_hashes p) = tree_depth leaves
    \<and> verify_path sha3 (mp_leaf_hash p) i (mp_proof_hashes p) = merkle_root t"
proof -
  let ?cur = "padded leaves" and ?n = "tree_depth leaves"
  let ?nodes = "concat (map (\<lambda>j. level sha3 j ?cur) [0..<Suc ?n])"
  have t: "mt_nodes t = ?nodes" "mt_leaf_count t = length leaves"
    using assms by (auto simp: merkle_from_hashes_nodes simp del: upt_Suc)
  have "i < 2 ^ ?n"
    using assms(3) next_power_of_two_ge [of "length leaves"] by (simp add: next_power_of_two_depth)
  then have v: "verify_path sha3 (?cur ! i) i (proof_loop ?nodes 0 (2 ^ ?n) i) = ref_root sha3 ?n ?cur"
    by (intro verify_proof_loop) (simp_all add: length_padded del: upt_Suc)
  have "?nodes = ?cur @ concat (map (\<lambda>j. level sha3 (Suc j) ?cur) [0..<?n])"
    by (simp only: map_Suc_upt [symmetric] upt_conv_Cons [OF zero_less_Suc] list.map map_map o_def
        concat.simps level.simps(1))
  with \<open>i < 2 ^ ?n\<close> have "?nodes ! i = leaves ! i"
    using assms(3) by (simp only: nth_append length_padded if_True padded_nth)
  with t v assms merkle_root_ref [OF assms(1,2)] show ?thesis
    by (simp add: get_proof_def next_power_of_two_depth length_proof_loop padded_nth del: upt_Suc)
qed

subsection \<open>What a verifying proof says\<close>

text \<open>
  The strings that are hashed to build a tree over \<open>2 ^ n\<close> nodes, and those that are
  hashed along the path of a proof. A proof for a wrong leaf exhibits two different strings
  among them with the same digest.
\<close>

fun pair_strings :: "hash256 list \<Rightarrow> bytes list" where
  "pair_strings (a # b # rest) = (a @ b) # pair_strings rest"
| "pair_strings _ = []"

fun tree_strings :: "hash_fn \<Rightarrow> nat \<Rightarrow> hash256 list \<Rightarrow> bytes list" where
  "tree_strings sha3 0 xs = []"
| "tree_strings sha3 (Suc n) xs = pair_strings xs @ tree_strings sha3 n (pairs sha3 xs)"

fun path_strings :: "hash_fn \<Rightarrow> hash256 \<Rightarrow> nat \<Rightarrow> hash256 list \<Rightarrow> bytes list" where
  "path_strings sha3 h i [] = []"
| "path_strings sha3 h i (s # rest) =
     (if i mod 2 = 0 then h @ s else s @ h)
     # path_strings sha3 (if i mod 2 = 0 then hash_pair sha3 h s else hash_pair sha3 s h) (i div 2) rest"

definition collision :: "hash_fn \<Rightarrow> bytes list \<Rightarrow> bytes list \<Rightarrow> bool" where
  "collision sha3 xs ys \<longleftrightarrow> (\<exists>x\<in>set xs. \<exists>y\<in>set ys. x \<noteq> y \<and> sha3 x = sha3 y)"

lemma pair_strings_nth:
  "Suc (2 * i) < length xs \<Longrightarrow> xs ! (2 * i) @ xs ! Suc (2 * i) \<in> set (pair_strings xs)"
proof (induction xs arbitrary: i rule: pair_strings.induct)
  case (1 a b rest)
  then show ?case by (cases i) auto
qed auto

lemma collision_Cons:
  "collision sha3 xs ys \<Longrightarrow> collision sha3 (x # xs) (zs @ ys)"
  "y \<in> set zs \<Longrightarrow> x \<noteq> y \<Longrightarrow> sha3 x = sha3 y \<Longrightarrow> collision sha3 (x # xs) (zs @ ys)"
  by (auto simp: collision_def)

lemma wf_pairs: "hash_fn_ok sha3 \<Longrightarrow> list_all wf_hash (pairs sha3 xs)"
  by (induction sha3 xs rule: pairs.induct) (auto simp: hash_pair_def hash_fn_ok_def wf_hash_def)

lemma verify_path_sound:
  assumes "hash_fn_ok sha3"
  shows "length cur = 2 ^ length ps \<Longrightarrow> i < 2 ^ length ps \<Longrightarrow> list_all wf_hash cur \<Longrightarrow>
    wf_hash h \<Longrightarrow> list_all wf_hash ps \<Longrightarrow>
    verify_path sha3 h i ps = ref_root sha3 (length ps) cur \<Longrightarrow>
    h = cur ! i \<or> collision sha3 (path_strings sha3 h i ps) (tree_strings sha3 (length ps) cur)"
proof (induction ps arbitrary: cur h i)
  case Nil
  then obtain a where "cur = [a]" by (cases cur) auto
  with Nil show ?case by simp
next
  case (Cons s ps)
  define x where "x = (if i mod 2 = 0 then h @ s else s @ h)"
  define y where "y = cur ! (2 * (i div 2)) @ cur ! Suc (2 * (i div 2))"
  have "i div 2 < 2 ^ length ps" using Cons.prems(2) by simp
  then have in_range: "Suc (2 * (i div 2)) < length cur" using Cons.prems(1) by simp
  then have y: "y \<in> set (pair_strings cur)" unfolding y_def by (rule pair_strings_nth)
  have p: "pairs sha3 cur ! (i div 2) = sha3 y"
    using in_range by (simp add: pairs_nth hash_pair_def y_def)
  have next_hash: "(if i mod 2 = 0 then hash_pair sha3 h s else hash_pair sha3 s h) = sha3 x"
    by (simp add: x_def hash_pair_def)
  have "sha3 x = pairs sha3 cur ! (i div 2)
      \<or> collision sha3 (path_strings sha3 (sha3 x) (i div 2) ps) (tree_strings sha3 (length ps) (pairs sha3 cur))"
  proof (rule Cons.IH)
    show "verify_path sha3 (sha3 x) (i div 2) ps = ref_root sha3 (length ps) (pairs sha3 cur)"
      using Cons.prems(1,6) next_hash by (simp add: ref_root_pairs del: ref_root.simps)
    show "wf_hash (sha3 x)" using assms by (simp add: wf_hash_def hash_fn_ok_def)
    show "list_all wf_hash (pairs sha3 cur)" using assms by (rule wf_pairs)
  qed (use Cons.prems in \<open>simp_all add: length_pairs\<close>)
  then consider "x = y" | "x \<noteq> y" "sha3 x = sha3 y"
    | "collision sha3 (path_strings sha3 (sha3 x) (i div 2) ps) (tree_strings sha3 (length ps) (pairs sha3 cur))"
    using p by auto
  then show ?case
  proof cases
    case 1
    have wf: "length (cur ! k) = 32" if "k < length cur" for k
      using Cons.prems(3) that by (simp add: list_all_length wf_hash_def)
    have "length h = 32" "length s = 32" using Cons.prems(4,5) by (simp_all add: wf_hash_def)
    with 1 wf [OF in_range] wf [of "2 * (i div 2)"] in_range have "h = cur ! i"
      by (cases "even i") (simp_all add: x_def y_def mod_2_eq_odd odd_two_times_div_two_nat append_eq_append_conv)
    then show ?thesis ..
  next
    case 2
    with y collision_Cons(2) [of y "pair_strings cur" x sha3] show ?thesis
      using next_hash by (simp add: x_def)
  next
    case 3
    with collision_Cons(1) show ?thesis using next_hash by (simp add: x_def)
  qed
qed

lemma wf_padded: "list_all wf_hash leaves \<Longrightarrow> list_all wf_hash (padded leaves)"
  by (auto simp: padded_def list_all_iff)

lemma verify_path_index_mod: "verify_path sha3 h (i + k * 2 ^ length ps) ps = verify_path sha3 h i ps"
proof (induction ps arbitrary: h i)
  case (Cons s ps)
  have "(i + k * 2 ^ length (s # ps)) div 2 = i div 2 + k * 2 ^ length ps"
    by simp
  moreover have "(i + k * 2 ^ length (s # ps)) mod 2 = i mod 2"
    by (simp add: mod_add_right_eq [symmetric] mult.left_commute [of k 2])
  ultimately show ?case using Cons by (simp only: verify_path.simps)
qed simp

text \<open>Proofs that are shorter or longer than the tree is deep: a path falls into a part below the leaves
  and a part inside the tree.\<close>

lemma verify_path_append:
  "verify_path sha3 h i (ps @ qs) = verify_path sha3 (verify_path sha3 h i ps) (i div 2 ^ length ps) qs"
  by (induction ps arbitrary: h i) (simp_all add: div_mult2_eq)

lemma path_strings_append:
  "path_strings sha3 h i (ps @ qs)
     = path_strings sha3 h i ps @ path_strings sha3 (verify_path sha3 h i ps) (i div 2 ^ length ps) qs"
  by (induction ps arbitrary: h i) (simp_all add: div_mult2_eq)

lemma path_strings_index_mod: "path_strings sha3 h (i + k * 2 ^ length ps) ps = path_strings sha3 h i ps"
proof (induction ps arbitrary: h i)
  case (Cons s ps)
  have "(i + k * 2 ^ length (s # ps)) div 2 = i div 2 + k * 2 ^ length ps"
    by simp
  moreover have "(i + k * 2 ^ length (s # ps)) mod 2 = i mod 2"
    by (simp add: mod_add_right_eq [symmetric] mult.left_commute [of k 2])
  ultimately show ?case using Cons by (simp only: path_strings.simps)
qed simp

lemma path_index_mod:
  "verify_path sha3 h (i mod 2 ^ length ps) ps = verify_path sha3 h i ps"
  "path_strings sha3 h (i mod 2 ^ length ps) ps = path_strings sha3 h i ps"
  using verify_path_index_mod [of sha3 h "i mod 2 ^ length ps" "i div 2 ^ length ps" ps]
    path_strings_index_mod [of sha3 h "i mod 2 ^ length ps" "i div 2 ^ length ps" ps]
  unfolding mod_div_mult_eq by simp_all

lemma wf_verify_path: "hash_fn_ok sha3 \<Longrightarrow> wf_hash h \<Longrightarrow> wf_hash (verify_path sha3 h i ps)"
  by (induction ps arbitrary: h i) (simp_all add: hash_pair_def hash_fn_ok_def wf_hash_def)

lemma ref_root_of_level: "length xs = 2 ^ (n + j) \<Longrightarrow> ref_root sha3 n (level sha3 j xs) = ref_root sha3 (n + j) xs"
proof (induction j arbitrary: xs)
  case (Suc j)
  then have "length (pairs sha3 xs) = 2 ^ (n + j)" by (simp add: length_pairs)
  from Suc.IH [OF this] show ?case
    using ref_root_pairs [of xs "n + j" sha3] Suc.prems by (simp del: ref_root.simps)
qed simp

lemma tree_strings_of_level: "set (tree_strings sha3 n (level sha3 j xs)) \<subseteq> set (tree_strings sha3 (n + j) xs)"
  by (induction j arbitrary: xs) auto

lemma wf_level: "hash_fn_ok sha3 \<Longrightarrow> list_all wf_hash xs \<Longrightarrow> list_all wf_hash (level sha3 j xs)"
  by (induction j arbitrary: xs) (simp_all add: wf_pairs)

lemma collision_mono: "collision sha3 xs ys \<Longrightarrow> set xs \<subseteq> set xs' \<Longrightarrow> set ys \<subseteq> set ys' \<Longrightarrow> collision sha3 xs' ys'"
  by (auto simp: collision_def)

text \<open>A verifying path that ends inside the tree starts at the node of the tree at its index.\<close>

lemma verify_path_node:
  assumes "hash_fn_ok sha3" and "length xs = 2 ^ d" and "length ps \<le> d" and "list_all wf_hash xs" and "wf_hash h"
    and "list_all wf_hash ps" and "verify_path sha3 h i ps = ref_root sha3 d xs"
  shows "h = level sha3 (d - length ps) xs ! (i mod 2 ^ length ps)
    \<or> collision sha3 (path_strings sha3 h i ps) (tree_strings sha3 d xs)"
proof -
  let ?cur = "level sha3 (d - length ps) xs"
  have len: "length xs = 2 ^ (length ps + (d - length ps))" using assms(2,3) by simp
  have "verify_path sha3 h (i mod 2 ^ length ps) ps = ref_root sha3 (length ps) ?cur"
    using ref_root_of_level [OF len, of sha3] assms(3,7) by (simp add: path_index_mod)
  from verify_path_sound [OF assms(1) length_level [OF len] _ wf_level [OF assms(1,4)] assms(5,6) this]
  have "h = ?cur ! (i mod 2 ^ length ps)
      \<or> collision sha3 (path_strings sha3 h i ps) (tree_strings sha3 (length ps) ?cur)"
    by (simp add: path_index_mod)
  then show ?thesis
    using tree_strings_of_level [of sha3 "length ps" "d - length ps" xs] assms(3)
    by (auto dest: collision_mono [OF _ subset_refl])
qed

lemma tree_depth_snoc:
  assumes "length leaves < next_power_of_two (length leaves)" and "leaves \<noteq> []"
  shows "tree_depth (leaves @ [x]) = tree_depth leaves"
proof -
  have "length leaves \<noteq> 1" using assms(1) by (auto simp: next_power_of_two_def)
  then have len: "1 < length leaves" using assms(2) by (cases leaves) auto
  then have "length leaves < 2 ^ bit_len (length leaves - 1)"
    using assms(1) by (simp add: next_power_of_two_def)
  then have "bit_len (length leaves) \<le> bit_len (length leaves - 1)" by (rule bit_len_less)
  moreover have "bit_len (length leaves - 1) \<le> bit_len (length leaves)" by (rule bit_len_mono) simp
  ultimately show ?thesis using len by (auto simp: tree_depth_def)
qed

lemma merkle_root_zero_padding:
  assumes ne: "leaves \<noteq> []" and less: "length leaves < next_power_of_two (length leaves)"
  shows "map_option merkle_root (merkle_from_hashes sha3 (leaves @ [hash_zero]))
     = map_option merkle_root (merkle_from_hashes sha3 leaves)"
proof -
  have d: "tree_depth (leaves @ [hash_zero]) = tree_depth leaves"
    using less ne by (rule tree_depth_snoc)
  then have np: "next_power_of_two (Suc (length leaves)) = next_power_of_two (length leaves)"
    using next_power_of_two_depth [of leaves] next_power_of_two_depth [of "leaves @ [hash_zero]"] by simp
  have "padded (leaves @ [hash_zero]) = padded leaves"
    using less by (simp add: padded_def np replicate_Suc [symmetric] Suc_diff_Suc del: replicate_Suc)
  with d show ?thesis
    using merkle_from_hashes_total [of sha3 leaves] merkle_from_hashes_total [of sha3 "leaves @ [hash_zero]"]
      merkle_root_ref [OF ne] merkle_root_ref [of "leaves @ [hash_zero]"]
    by fastforce
qed

subsection \<open>The sparse tree\<close>

text \<open>
  \<open>SparseMerkleTree\<close>: the \<open>HashMap\<close>s are association lists with distinct keys, whose
  order is the unspecified iteration order; the root sorts the keys. \<open>cache\<close> is keyed by
  hash and depth.
\<close>

record sparse_merkle_tree =
  smt_leaves :: "(hash256 \<times> hash256) list"
  smt_cache :: "((hash256 \<times> u16) \<times> hash256) list"
  smt_depth :: u16

definition smt_new :: sparse_merkle_tree where
  "smt_new = \<lparr>smt_leaves = [], smt_cache = [], smt_depth = 256\<rparr>"

fun remove_depths :: "hash256 \<Rightarrow> nat \<Rightarrow> ((hash256 \<times> u16) \<times> hash256) list \<Rightarrow> ((hash256 \<times> u16) \<times> hash256) list" where
  "remove_depths key 0 cache = cache"
| "remove_depths key (Suc d) cache = AList.delete (key, word_of_nat d) (remove_depths key d cache)"

definition invalidate_path :: "hash256 \<Rightarrow> sparse_merkle_tree \<Rightarrow> sparse_merkle_tree" where
  "invalidate_path key t = t\<lparr>smt_cache := remove_depths key (unat (smt_depth t)) (smt_cache t)\<rparr>"

definition smt_insert :: "hash256 \<Rightarrow> hash256 \<Rightarrow> sparse_merkle_tree \<Rightarrow> sparse_merkle_tree" where
  "smt_insert key val t = invalidate_path key (t\<lparr>smt_leaves := AList.update key val (smt_leaves t)\<rparr>)"

definition smt_get :: "hash256 \<Rightarrow> sparse_merkle_tree \<Rightarrow> hash256" where
  "smt_get key t = (case map_of (smt_leaves t) key of None \<Rightarrow> hash_zero | Some v \<Rightarrow> v)"

definition smt_delete :: "hash256 \<Rightarrow> sparse_merkle_tree \<Rightarrow> sparse_merkle_tree" where
  "smt_delete key t = invalidate_path key (t\<lparr>smt_leaves := AList.delete key (smt_leaves t)\<rparr>)"

definition smt_preimage :: "sparse_merkle_tree \<Rightarrow> bytes" where
  "smt_preimage t = concat (map
     (\<lambda>k. case map_of (smt_leaves t) k of None \<Rightarrow> [] | Some v \<Rightarrow> k @ v)
     (sort (map fst (smt_leaves t))))"

definition smt_root :: "hash_fn \<Rightarrow> sparse_merkle_tree \<Rightarrow> hash256" where
  "smt_root sha3 t = (if smt_leaves t = [] then hash_zero else sha3 (smt_preimage t))"

definition smt_leaf_count :: "sparse_merkle_tree \<Rightarrow> nat" where
  "smt_leaf_count t = length (smt_leaves t)"

definition wf_smt :: "sparse_merkle_tree \<Rightarrow> bool" where
  "wf_smt t \<longleftrightarrow> distinct (map fst (smt_leaves t))
     \<and> (\<forall>(k, v) \<in> set (smt_leaves t). wf_hash k \<and> wf_hash v)"

lemma invalidate_path_leaves [simp]: "smt_leaves (invalidate_path k t) = smt_leaves t"
  by (simp add: invalidate_path_def)

lemma wf_smt_ops:
  "wf_smt smt_new"
  "wf_smt t \<Longrightarrow> wf_hash k \<Longrightarrow> wf_hash v \<Longrightarrow> wf_smt (smt_insert k v t)"
  "wf_smt t \<Longrightarrow> wf_smt (smt_delete k t)"
    apply (simp add: wf_smt_def smt_new_def)
   apply (auto simp: wf_smt_def smt_insert_def distinct_update dest!: in_set_update)
  apply (auto simp: wf_smt_def smt_delete_def distinct_delete dest!: in_set_delete)
  done

lemma smt_preimage_determined:
  assumes "wf_smt t" and "wf_smt u" and "map_of (smt_leaves t) = map_of (smt_leaves u)"
  shows "smt_preimage t = smt_preimage u"
  using sorted_keys_determined [of "smt_leaves t" "smt_leaves u"] assms
  by (simp add: smt_preimage_def wf_smt_def)

subsection \<open>Properties\<close>

text \<open>C8: Merkle trees are complete. Building a tree never panics, its root is the root of the
  reference definition by halves over the leaves padded with zero hashes to a power of two, and
  for every leaf the tree hands out a proof that verifies and that \<open>verify_leaf\<close> accepts for
  this leaf; past the last leaf there is none.\<close>

theorem merkle_proofs_complete:
  assumes "leaves \<noteq> []"
  shows "\<exists>t. merkle_from_hashes sha3 leaves = Some t
    \<and> merkle_root t = ref_root sha3 (tree_depth leaves) (padded leaves)
    \<and> (\<forall>i < length leaves. \<exists>p. get_proof t i = Some p \<and> mp_root p = merkle_root t
         \<and> verify sha3 p \<and> verify_leaf sha3 p (leaves ! i) \<and> get_leaf t i = Some (leaves ! i))
    \<and> (\<forall>i \<ge> length leaves. get_proof t i = None \<and> get_leaf t i = None)"
proof -
  obtain t where t: "merkle_from_hashes sha3 leaves = Some t" using merkle_from_hashes_total by blast
  have count: "mt_leaf_count t = length leaves"
    using t assms by (auto simp: merkle_from_hashes_nodes simp del: upt_Suc)
  have "\<exists>p. get_proof t i = Some p \<and> mp_root p = merkle_root t
         \<and> verify sha3 p \<and> verify_leaf sha3 p (leaves ! i) \<and> get_leaf t i = Some (leaves ! i)"
    if "i < length leaves" for i
    using get_proof_verify_path [OF assms t that] count that
    by (auto simp: verify_def verify_leaf_def get_leaf_def get_proof_def)
  moreover have "get_proof t i = None \<and> get_leaf t i = None" if "length leaves \<le> i" for i
    using that count by (simp add: get_proof_def get_leaf_def)
  ultimately show ?thesis using t merkle_root_ref [OF assms t] by blast
qed

definition toy_hash :: hash_fn where
  "toy_hash bs = take 32 (bs @ replicate 32 0)"

theorem merkle_proofs_complete_witness:
  "\<exists>t. merkle_from_hashes toy_hash [replicate 32 1, replicate 32 2, replicate 32 3] = Some t
    \<and> (\<exists>p. get_proof t 2 = Some p \<and> verify_leaf toy_hash p (replicate 32 3))"
proof -
  define ls where "ls = [replicate 32 1, replicate 32 2, replicate 32 (3 :: u8)]"
  have ls: "ls \<noteq> []" "2 < length ls" "ls ! 2 = replicate 32 3" by (simp_all only: ls_def) simp_all
  obtain t where t: "merkle_from_hashes toy_hash ls = Some t"
    and p: "\<forall>i < length ls. \<exists>p. get_proof t i = Some p \<and> mp_root p = merkle_root t
         \<and> verify toy_hash p \<and> verify_leaf toy_hash p (ls ! i) \<and> get_leaf t i = Some (ls ! i)"
    using merkle_proofs_complete [OF ls(1), of toy_hash] by blast
  from p ls(2,3) have "\<exists>p. get_proof t 2 = Some p \<and> verify_leaf toy_hash p (replicate 32 3)" by metis
  with t show ?thesis unfolding ls_def by blast
qed

text \<open>C7: Merkle proofs are sound, up to what the verifier does not check. It compares neither the number of
  hashes of a proof with the depth of the tree nor the index with the number of leaves. So let a proof with any
  number of hashes and any index verify against the root of a tree, and let the strings hashed for it
  and those hashed for the tree contain no collision of the hash function. If it has as many hashes as the tree has
  levels and its index is that of a leaf, its leaf hash is this leaf. If it has fewer hashes, its
  \<open>leaf_hash\<close> is the inner node of the tree at its index, reduced to the width of that level. If it has
  more, the path passes through a leaf of the tree (or its padding): the proof is about a value whose
  hashes lead to that leaf.\<close>

theorem merkle_proofs_sound:
  assumes "hash_fn_ok sha3" and "merkle_from_hashes sha3 leaves = Some t" and "list_all wf_hash leaves"
    and "wf_hash (mp_leaf_hash p)" and "list_all wf_hash (mp_proof_hashes p)"
    and "mp_root p = merkle_root t" and "verify sha3 p"
  shows "let k = length (mp_proof_hashes p); d = tree_depth leaves; i = mp_leaf_index p in
    collision sha3 (path_strings sha3 (mp_leaf_hash p) i (mp_proof_hashes p)) (tree_strings sha3 d (padded leaves))
    \<or> (k = d \<and> i < length leaves \<longrightarrow> mp_leaf_hash p = leaves ! i)
      \<and> (k \<le> d \<longrightarrow> mp_leaf_hash p = level sha3 (d - k) (padded leaves) ! (i mod 2 ^ k))
      \<and> (d < k \<longrightarrow> verify_path sha3 (mp_leaf_hash p) i (take (k - d) (mp_proof_hashes p))
           = padded leaves ! (i div 2 ^ (k - d) mod 2 ^ d))"
proof -
  define ps h i k d where defs: "ps = mp_proof_hashes p" "h = mp_leaf_hash p" "i = mp_leaf_index p"
    "k = length ps" "d = tree_depth leaves"
  let ?C = "collision sha3 (path_strings sha3 h i ps) (tree_strings sha3 d (padded leaves))"
  have run: "verify_path sha3 h i ps = ref_root sha3 d (padded leaves)"
    using assms(6,7) merkle_root_ref' [OF assms(2)] by (simp add: verify_def defs)
  have len: "length (padded leaves) = 2 ^ d" by (simp add: defs length_padded)
  have wf: "list_all wf_hash (padded leaves)" using assms(3) by (rule wf_padded)
  have short: "?C \<or> h = level sha3 (d - k) (padded leaves) ! (i mod 2 ^ k)" if "k \<le> d"
    using verify_path_node [OF assms(1) len _ wf _ _ run] that assms(4,5) by (auto simp: defs)
  have exact: "h = leaves ! i" if "h = level sha3 (d - k) (padded leaves) ! (i mod 2 ^ k)" "k = d" "i < length leaves"
  proof -
    have "i < 2 ^ d" using that(3) next_power_of_two_ge [of "length leaves"] by (simp add: next_power_of_two_depth defs)
    then show ?thesis using that by (simp add: padded_nth)
  qed
  have long: "?C \<or> verify_path sha3 h i (take (k - d) ps) = padded leaves ! (i div 2 ^ (k - d) mod 2 ^ d)" if "d < k"
  proof -
    let ?x = "verify_path sha3 h i (take (k - d) ps)" and ?j = "i div 2 ^ (k - d)"
    have split: "take (k - d) ps @ drop (k - d) ps = ps" "length (take (k - d) ps) = k - d" "length (drop (k - d) ps) = d"
      using that by (simp_all add: defs(4))
    have "verify_path sha3 ?x ?j (drop (k - d) ps) = ref_root sha3 d (padded leaves)"
      using run verify_path_append [of sha3 h i "take (k - d) ps" "drop (k - d) ps"] split by simp
    from verify_path_node [OF assms(1) len _ wf _ _ this]
    have "?x = padded leaves ! (?j mod 2 ^ d)
        \<or> collision sha3 (path_strings sha3 ?x ?j (drop (k - d) ps)) (tree_strings sha3 d (padded leaves))"
      using split assms(4,5) wf_verify_path [OF assms(1)] by (simp add: defs list_all_iff in_set_dropD)
    moreover have "set (path_strings sha3 ?x ?j (drop (k - d) ps)) \<subseteq> set (path_strings sha3 h i ps)"
      using path_strings_append [of sha3 h i "take (k - d) ps" "drop (k - d) ps"] split by simp
    ultimately show ?thesis by (auto dest: collision_mono [OF _ _ subset_refl])
  qed
  show ?thesis
    unfolding Let_def defs(1-3,5) [symmetric] defs(4) [symmetric]
    using short long exact by (cases "k \<le> d") auto
qed

text \<open>The proof that the tree over two leaves hands out for the second of them.\<close>

theorem merkle_proofs_sound_witness:
  "\<exists>t p. merkle_from_hashes toy_hash [replicate 32 1, replicate 32 2] = Some t \<and> get_proof t 1 = Some p
    \<and> length (mp_proof_hashes p) = 1
    \<and> (mp_leaf_hash p = replicate 32 2
       \<or> collision toy_hash (path_strings toy_hash (mp_leaf_hash p) 1 (mp_proof_hashes p)) [replicate 32 1 @ replicate 32 2])"
proof -
  let ?ls = "[replicate 32 1, replicate 32 2] :: hash256 list"
  obtain t where t: "merkle_from_hashes toy_hash ?ls = Some t" using merkle_from_hashes_total by blast
  have d: "tree_depth ?ls = 1" "padded ?ls = ?ls" by code_simp+
  obtain p where p: "get_proof t 1 = Some p" "mp_leaf_index p = 1" "mp_leaf_hash p = ?ls ! 1" "mp_root p = merkle_root t"
      "length (mp_proof_hashes p) = 1" "verify_path toy_hash (mp_leaf_hash p) 1 (mp_proof_hashes p) = merkle_root t"
    using get_proof_verify_path [OF _ t, of 1] d by auto
  have ok: "hash_fn_ok toy_hash" "list_all wf_hash ?ls" by (auto simp: hash_fn_ok_def toy_hash_def wf_hash_def min_def)
  have "proof_loop nodes 0 2 1 = [if 0 < length nodes then nodes ! 0 else hash_zero]" for nodes
    by (subst proof_loop.simps) (subst proof_loop.simps, simp)
  moreover have "next_power_of_two 2 = 2" by code_simp
  moreover have "mt_leaf_count t = 2" "mt_nodes t ! 0 = replicate 32 1" "mt_nodes t \<noteq> []"
    using t by (auto simp: merkle_from_hashes_nodes d upt_conv_Cons)
  ultimately have wfp: "list_all wf_hash (mp_proof_hashes p)"
    using p(1) by (auto simp: get_proof_def wf_hash_def)
  have "wf_hash (mp_leaf_hash p)" "verify toy_hash p" using p by (simp_all add: wf_hash_def verify_def)
  from merkle_proofs_sound [OF ok(1) t ok(2) this(1) wfp p(4) this(2)] p d t
  show ?thesis by (auto simp: Let_def)
qed

text \<open>Two limits of the proof format. The verifier reads only as many bits of the index
  as the proof has hashes, so a valid proof stays valid under every index that differs by a
  multiple of that power of two; and the padding is not separated from the leaves, so a list
  whose length is not a power of two has the root of the same list with a zero hash appended.\<close>

theorem merkle_format_limits:
  "verify sha3 (p\<lparr>mp_leaf_index := mp_leaf_index p + k * 2 ^ length (mp_proof_hashes p)\<rparr>) = verify sha3 p
   \<and> (leaves \<noteq> [] \<and> length leaves < next_power_of_two (length leaves) \<longrightarrow>
       map_option merkle_root (merkle_from_hashes sha3 (leaves @ [hash_zero]))
         = map_option merkle_root (merkle_from_hashes sha3 leaves))"
  using merkle_root_zero_padding [of leaves sha3] by (simp add: verify_def verify_path_index_mod)

theorem merkle_format_limits_witness:
  "map_option merkle_root (merkle_from_hashes toy_hash ([[1], [2], [3]] @ [hash_zero]))
     = map_option merkle_root (merkle_from_hashes toy_hash [[1], [2], [3]])
   \<and> verify toy_hash (\<lparr>mp_leaf_index = 0, mp_leaf_hash = [1], mp_proof_hashes = [], mp_root = [1]\<rparr>
       \<lparr>mp_leaf_index := 0 + 5 * 2 ^ 0\<rparr>)"
  using merkle_format_limits [of toy_hash "\<lparr>mp_leaf_index = 0, mp_leaf_hash = [1], mp_proof_hashes = [], mp_root = [1]\<rparr>" 5
      "[[1], [2], [3]]"]
  by (simp add: next_power_of_two_def bit_len.simps verify_def)

text \<open>C35: The sparse tree is a map with a canonical root: after an insertion the key
  reads as the inserted value and every other key as before, after a deletion the key reads
  as the zero hash, and two trees with the same contents have the same root whatever the
  order in which their hash maps iterate.\<close>

theorem sparse_tree_canonical:
  assumes "wf_smt t" and "wf_smt u"
  shows "smt_get j (smt_insert k v t) = (if j = k then v else smt_get j t)
    \<and> smt_get j (smt_delete k t) = (if j = k then hash_zero else smt_get j t)
    \<and> (map_of (smt_leaves t) = map_of (smt_leaves u) \<longrightarrow> smt_root sha3 t = smt_root sha3 u)"
proof (intro conjI impI)
  show "smt_get j (smt_insert k v t) = (if j = k then v else smt_get j t)"
    "smt_get j (smt_delete k t) = (if j = k then hash_zero else smt_get j t)"
    by (simp_all add: smt_get_def smt_insert_def smt_delete_def map_of_update_apply map_of_delete_apply)
  assume eq: "map_of (smt_leaves t) = map_of (smt_leaves u)"
  then have "smt_leaves t = [] \<longleftrightarrow> smt_leaves u = []"
    by (metis map_of_eq_empty_iff)
  with smt_preimage_determined [OF assms eq] show "smt_root sha3 t = smt_root sha3 u"
    by (simp add: smt_root_def)
qed

theorem sparse_tree_canonical_witness:
  "smt_root toy_hash (smt_insert (replicate 32 1) hash_zero (smt_insert (replicate 32 2) hash_zero smt_new))
   = smt_root toy_hash (smt_insert (replicate 32 2) hash_zero (smt_insert (replicate 32 1) hash_zero smt_new))"
proof -
  have wf: "wf_smt (smt_insert a hash_zero (smt_insert b hash_zero smt_new))"
    if "wf_hash a" "wf_hash b" for a b
    using that by (intro wf_smt_ops) simp_all
  have ab: "wf_hash (replicate 32 1)" "wf_hash (replicate 32 2)" "replicate 32 1 \<noteq> (replicate 32 2 :: u8 list)"
    by (simp_all add: wf_hash_def)
  have "map_of (smt_leaves (smt_insert a hash_zero (smt_insert b hash_zero smt_new)))
      = map_of (smt_leaves (smt_insert b hash_zero (smt_insert a hash_zero smt_new)))" for a b
    by (rule ext) (simp add: smt_insert_def map_of_update_apply)
  then show ?thesis by (intro sparse_tree_canonical [THEN conjunct2, THEN conjunct2, THEN mp] wf ab)
qed

end
