(* ===== verification/Fry_Block.thy ===== *)
theory Fry_Block
  imports Fry_Transaction Fry_Merkle
begin

text \<open>
  \<open>frychain-core/src/block.rs\<close> and the constants of \<open>lib.rs\<close>: header, body, block,
  the two byte strings made from a header (the one that is hashed for the block id and the
  shorter one that is mined), and the structural check of a block. The size that
  \<open>bincode\<close> reports for a block is the parameter \<open>size_of\<close>; the system clock is the
  argument \<open>now\<close>.
\<close>

definition FRY_DECIMALS :: u8 where "FRY_DECIMALS = 18"
definition TARGET_BLOCK_TIME_SECS :: u64 where "TARGET_BLOCK_TIME_SECS = 60"
definition MAX_BLOCK_SIZE :: nat where "MAX_BLOCK_SIZE = 4 * 1024 * 1024"
definition MAX_TXS_PER_BLOCK :: nat where "MAX_TXS_PER_BLOCK = 10000"
definition INITIAL_BLOCK_REWARD :: u128 where "INITIAL_BLOCK_REWARD = 50 * UNITS_PER_FRY"
definition HALVING_INTERVAL :: u64 where "HALVING_INTERVAL = 2100000"
definition DIFFICULTY_ADJUSTMENT_INTERVAL :: u64 where "DIFFICULTY_ADJUSTMENT_INTERVAL = 2016"
definition MAX_SUPPLY :: u128 where "MAX_SUPPLY = 210000000 * UNITS_PER_FRY"

record block_header =
  bh_version :: u32
  bh_height :: block_height
  bh_timestamp :: u64
  bh_parent_hash :: hash256
  bh_transactions_root :: hash256
  bh_state_root :: hash256
  bh_receipts_root :: hash256
  bh_miner :: address
  bh_difficulty :: difficulty
  bh_nonce :: nonce
  bh_extra_data :: bytes
  bh_gas_used :: u64
  bh_gas_limit :: u64

definition header_new :: "u64 \<Rightarrow> block_height \<Rightarrow> hash256 \<Rightarrow> address \<Rightarrow> difficulty \<Rightarrow> block_header" where
  "header_new now height parent miner diff =
     \<lparr>bh_version = 1, bh_height = height, bh_timestamp = now, bh_parent_hash = parent,
      bh_transactions_root = hash_zero, bh_state_root = hash_zero, bh_receipts_root = hash_zero,
      bh_miner = miner, bh_difficulty = diff, bh_nonce = 0, bh_extra_data = [],
      bh_gas_used = 0, bh_gas_limit = 30000000\<rparr>"

definition header_preimage :: "block_header \<Rightarrow> bytes" where
  "header_preimage h =
     le_of_word (bh_version h) @ le_of_word (bh_height h) @ le_of_word (bh_timestamp h)
     @ bh_parent_hash h @ bh_transactions_root h @ bh_state_root h @ bh_receipts_root h
     @ addr_bytes (bh_miner h) @ le_of_word (bh_difficulty h) @ le_of_word (bh_nonce h)
     @ bh_extra_data h @ le_of_word (bh_gas_used h) @ le_of_word (bh_gas_limit h)"

definition header_hash :: "hash_fn \<Rightarrow> block_header \<Rightarrow> hash256" where
  "header_hash sha3 h = sha3 (header_preimage h)"

definition mining_blob :: "block_header \<Rightarrow> bytes" where
  "mining_blob h =
     le_of_word (bh_version h) @ le_of_word (bh_height h) @ le_of_word (bh_timestamp h)
     @ bh_parent_hash h @ bh_transactions_root h @ bh_state_root h @ bh_receipts_root h
     @ addr_bytes (bh_miner h) @ le_of_word (bh_difficulty h) @ le_of_word (bh_nonce h)"

definition header_verify_pow :: "block_header \<Rightarrow> hash256 \<Rightarrow> bool" where
  "header_verify_pow h pow_hash = meets_difficulty pow_hash (to_target (bh_difficulty h))"

definition update_timestamp :: "u64 \<Rightarrow> block_header \<Rightarrow> block_header" where
  "update_timestamp now h = h\<lparr>bh_timestamp := now\<rparr>"

record block_body =
  bb_transactions :: "signed_transaction list"

definition body_empty :: block_body where
  "body_empty = \<lparr>bb_transactions = []\<rparr>"

text \<open>\<open>None\<close> is the panic that the Merkle construction could raise; see
  \<open>calculate_transactions_root_total\<close>.\<close>

definition calculate_transactions_root :: "hash_fn \<Rightarrow> block_body \<Rightarrow> hash256 option" where
  "calculate_transactions_root sha3 body =
     (if bb_transactions body = [] then Some hash_zero
      else map_option merkle_root (merkle_from_hashes sha3 (map (signed_tx_hash sha3) (bb_transactions body))))"

record block =
  b_header :: block_header
  b_body :: block_body

definition block_genesis :: "u64 \<Rightarrow> address \<Rightarrow> difficulty \<Rightarrow> block" where
  "block_genesis now miner initial_difficulty =
     \<lparr>b_header = (header_new now 0 hash_zero miner initial_difficulty)
         \<lparr>bh_timestamp := 1704067200, bh_extra_data := str_bytes ''FryChain Genesis Block''\<rparr>,
      b_body = body_empty\<rparr>"

definition block_hash :: "hash_fn \<Rightarrow> block \<Rightarrow> hash256" where
  "block_hash sha3 b = header_hash sha3 (b_header b)"

definition block_finalize :: "hash_fn \<Rightarrow> block \<Rightarrow> block option" where
  "block_finalize sha3 b =
     map_option (\<lambda>root. b\<lparr>b_header := (b_header b)\<lparr>bh_transactions_root := root\<rparr>\<rparr>)
       (calculate_transactions_root sha3 (b_body b))"

definition verify_structure :: "hash_fn \<Rightarrow> (block \<Rightarrow> nat) \<Rightarrow> block \<Rightarrow> (string, unit) outcome" where
  "verify_structure sha3 size_of b =
     (case calculate_transactions_root sha3 (b_body b) of
        None \<Rightarrow> Panic
      | Some calculated_root \<Rightarrow>
          if calculated_root \<noteq> bh_transactions_root (b_header b) then Err ''Invalid transactions root''
          else if size_of b > MAX_BLOCK_SIZE then Err ''Block too large''
          else if length (bb_transactions (b_body b)) > MAX_TXS_PER_BLOCK then Err ''Too many transactions''
          else if length (bh_extra_data (b_header b)) > 32 then Err ''Extra data too long''
          else Ok ())"

record stored_block =
  sb_block :: block
  sb_pow_hash :: hash256
  sb_total_difficulty :: u128
  sb_is_canonical :: bool

definition stored_block_new :: "block \<Rightarrow> hash256 \<Rightarrow> u128 \<Rightarrow> stored_block" where
  "stored_block_new b pow td =
     \<lparr>sb_block = b, sb_pow_hash = pow, sb_total_difficulty = td, sb_is_canonical = True\<rparr>"

subsection \<open>Lemmas\<close>

lemma calculate_transactions_root_total:
  "\<exists>r. calculate_transactions_root sha3 body = Some r"
  using merkle_from_hashes_total [of sha3 "map (signed_tx_hash sha3) (bb_transactions body)"]
  by (auto simp: calculate_transactions_root_def)

lemma verify_structure_no_panic: "verify_structure sha3 size_of b \<noteq> Panic"
  using calculate_transactions_root_total [of sha3 "b_body b"]
  by (auto simp: verify_structure_def split: if_splits)

lemma verify_structure_Ok_iff:
  "verify_structure sha3 size_of b = Ok u \<longleftrightarrow>
     calculate_transactions_root sha3 (b_body b) = Some (bh_transactions_root (b_header b))
     \<and> size_of b \<le> MAX_BLOCK_SIZE \<and> length (bb_transactions (b_body b)) \<le> MAX_TXS_PER_BLOCK
     \<and> length (bh_extra_data (b_header b)) \<le> 32"
  by (auto simp: verify_structure_def not_less split: option.splits)

lemma header_preimage_blob:
  "header_preimage h = mining_blob h @ bh_extra_data h @ le_of_word (bh_gas_used h) @ le_of_word (bh_gas_limit h)"
  by (simp add: header_preimage_def mining_blob_def)

definition wf_header :: "block_header \<Rightarrow> bool" where
  "wf_header h \<longleftrightarrow> wf_hash (bh_parent_hash h) \<and> wf_hash (bh_transactions_root h)
     \<and> wf_hash (bh_state_root h) \<and> wf_hash (bh_receipts_root h) \<and> wf_address (bh_miner h)"

definition same_mined_fields :: "block_header \<Rightarrow> block_header \<Rightarrow> bool" where
  "same_mined_fields h g \<longleftrightarrow>
     bh_version h = bh_version g \<and> bh_height h = bh_height g \<and> bh_timestamp h = bh_timestamp g
     \<and> bh_parent_hash h = bh_parent_hash g \<and> bh_transactions_root h = bh_transactions_root g
     \<and> bh_state_root h = bh_state_root g \<and> bh_receipts_root h = bh_receipts_root g
     \<and> addr_bytes (bh_miner h) = addr_bytes (bh_miner g) \<and> bh_difficulty h = bh_difficulty g
     \<and> bh_nonce h = bh_nonce g"

lemma length_mining_blob: "wf_header h \<Longrightarrow> length (mining_blob h) = 204"
  by (simp add: wf_header_def wf_hash_def wf_address_def mining_blob_def)

lemma mining_blob_eq_iff:
  assumes "wf_header h" and "wf_header g"
  shows "mining_blob h = mining_blob g \<longleftrightarrow> same_mined_fields h g"
  using assms
  by (simp add: wf_header_def wf_hash_def wf_address_def mining_blob_def same_mined_fields_def)

lemma header_preimage_eq_iff:
  assumes "wf_header h" and "wf_header g"
  shows "header_preimage h = header_preimage g \<longleftrightarrow>
    same_mined_fields h g \<and> bh_extra_data h = bh_extra_data g
    \<and> bh_gas_used h = bh_gas_used g \<and> bh_gas_limit h = bh_gas_limit g"
  using mining_blob_eq_iff [OF assms] assms
  by (simp add: header_preimage_blob length_mining_blob append_fixed_tail_eq conj_assoc)

text \<open>Replacing the last eight bytes of the blob is setting the nonce, as the parallel
  miner does.\<close>

lemma mining_blob_nonce:
  "take (length (mining_blob h) - 8) (mining_blob h) @ le_of_word n = mining_blob (h\<lparr>bh_nonce := n\<rparr>)"
  by (simp add: mining_blob_def)

subsection \<open>Properties\<close>

text \<open>C32: What the block id and the proof of work commit to. Under a hash function that does
  not collide on the two preimages, two headers have the same id exactly when all fields agree
  (of the miner, the 32 bytes); but the string that is mined leaves out the extra data, the gas
  used and the gas limit, so one proof of work serves all headers that differ only there.\<close>

theorem header_hash_and_blob_commit:
  assumes "wf_header h" and "wf_header g" and "inj_on sha3 {header_preimage h, header_preimage g}"
  shows "(header_hash sha3 h = header_hash sha3 g \<longleftrightarrow>
      same_mined_fields h g \<and> bh_extra_data h = bh_extra_data g
      \<and> bh_gas_used h = bh_gas_used g \<and> bh_gas_limit h = bh_gas_limit g)
    \<and> (mining_blob h = mining_blob g \<longleftrightarrow> same_mined_fields h g)
    \<and> mining_blob (h\<lparr>bh_extra_data := xd, bh_gas_used := gu, bh_gas_limit := gl\<rparr>) = mining_blob h"
proof -
  have "header_hash sha3 h = header_hash sha3 g \<longleftrightarrow> header_preimage h = header_preimage g"
    unfolding header_hash_def using assms(3) by (auto dest: inj_onD)
  with header_preimage_eq_iff [OF assms(1,2)] mining_blob_eq_iff [OF assms(1,2)] show ?thesis
    by (simp add: mining_blob_def)
qed

theorem header_hash_and_blob_commit_witness:
  "header_hash id (header_new 0 1 hash_zero address_zero 5) \<noteq> header_hash id (header_new 1 1 hash_zero address_zero 5)"
  using header_hash_and_blob_commit [of "header_new 0 1 hash_zero address_zero 5"
      "header_new 1 1 hash_zero address_zero 5" id]
  by (simp add: header_new_def wf_header_def same_mined_fields_def wf_address_def address_zero_def
      del: replicate.simps)

text \<open>\<open>finalize\<close> makes the transactions root right and changes nothing else, it
  never panics, and a finalized block passes the structural check exactly when it keeps the three size limits.\<close>

theorem finalized_block_structure:
  "\<exists>b'. block_finalize sha3 b = Some b'
     \<and> b_body b' = b_body b
     \<and> b_header b' = (b_header b)\<lparr>bh_transactions_root := bh_transactions_root (b_header b')\<rparr>
     \<and> calculate_transactions_root sha3 (b_body b) = Some (bh_transactions_root (b_header b'))
     \<and> (verify_structure sha3 size_of b' = Ok () \<longleftrightarrow>
          size_of b' \<le> MAX_BLOCK_SIZE \<and> length (bb_transactions (b_body b)) \<le> MAX_TXS_PER_BLOCK
          \<and> length (bh_extra_data (b_header b)) \<le> 32)"
  using calculate_transactions_root_total [of sha3 "b_body b"]
  by (auto simp: block_finalize_def verify_structure_Ok_iff)

end
