(* ===== verification/Fry_Config.thy ===== *)
theory Fry_Config
  imports Fry_Block
begin

text \<open>
  \<open>frychain-core/src/config.rs\<close>: networks, genesis allocations, the chain and the node
  configuration, the block reward. \<open>Panic\<close> of the reward and of the adjustment test is
  the division by a zero interval, which no built-in configuration has. The main lemma bounds
  the coins that a chain of any length issues. JSON (\<open>serde_json\<close>) is not modelled.
\<close>

datatype network_id = Mainnet | Testnet | Devnet | Local

fun chain_id_of :: "network_id \<Rightarrow> u64" where
  "chain_id_of Mainnet = 1"
| "chain_id_of Testnet = 2"
| "chain_id_of Devnet = 3"
| "chain_id_of Local = 1337"

definition from_chain_id :: "u64 \<Rightarrow> network_id option" where
  "from_chain_id i = (if i = 1 then Some Mainnet else if i = 2 then Some Testnet
     else if i = 3 then Some Devnet else if i = 1337 then Some Local else None)"

fun network_name :: "network_id \<Rightarrow> string" where
  "network_name Mainnet = ''mainnet''"
| "network_name Testnet = ''testnet''"
| "network_name Devnet = ''devnet''"
| "network_name Local = ''local''"

record genesis_allocation =
  ga_address :: address
  ga_balance :: token_amount
  ga_code :: "bytes option"
  ga_is_device :: bool

record chain_config =
  cc_network_id :: network_id
  cc_chain_id :: u64
  cc_chain_name :: string
  cc_token_symbol :: string
  cc_token_decimals :: u8
  cc_genesis_timestamp :: u64
  cc_initial_difficulty :: difficulty
  cc_target_block_time :: u64
  cc_difficulty_adjustment_interval :: u64
  cc_initial_block_reward :: token_amount
  cc_halving_interval :: u64
  cc_max_supply :: token_amount
  cc_genesis_allocations :: "genesis_allocation list"
  cc_precompiles :: "address list"
  cc_post_quantum_only :: bool
  cc_depin_enabled :: bool
  cc_min_gas_price :: u128
  cc_block_gas_limit :: u64

definition mainnet :: chain_config where
  "mainnet = \<lparr>cc_network_id = Mainnet, cc_chain_id = 1, cc_chain_name = ''FryChain Mainnet'',
     cc_token_symbol = ''FRY'', cc_token_decimals = 18, cc_genesis_timestamp = 1704067200,
     cc_initial_difficulty = DIFFICULTY_INITIAL, cc_target_block_time = 60,
     cc_difficulty_adjustment_interval = 2016, cc_initial_block_reward = from_fry 50,
     cc_halving_interval = 2100000, cc_max_supply = 210000000 * UNITS_PER_FRY,
     cc_genesis_allocations = [], cc_precompiles = [], cc_post_quantum_only = True,
     cc_depin_enabled = True, cc_min_gas_price = 1000000000, cc_block_gas_limit = 30000000\<rparr>"

definition testnet :: chain_config where
  "testnet = \<lparr>cc_network_id = Testnet, cc_chain_id = 2, cc_chain_name = ''FryChain Testnet'',
     cc_token_symbol = ''tFRY'', cc_token_decimals = 18, cc_genesis_timestamp = 1704067200,
     cc_initial_difficulty = difficulty_new 0x00000FFFFFFFFFFF, cc_target_block_time = 30,
     cc_difficulty_adjustment_interval = 100, cc_initial_block_reward = from_fry 100,
     cc_halving_interval = 100000, cc_max_supply = 1000000000 * UNITS_PER_FRY,
     cc_genesis_allocations = [], cc_precompiles = [], cc_post_quantum_only = False,
     cc_depin_enabled = True, cc_min_gas_price = 1000000, cc_block_gas_limit = 50000000\<rparr>"

definition devnet :: chain_config where
  "devnet = \<lparr>cc_network_id = Devnet, cc_chain_id = 3, cc_chain_name = ''FryChain Devnet'',
     cc_token_symbol = ''dFRY'', cc_token_decimals = 18, cc_genesis_timestamp = 0,
     cc_initial_difficulty = difficulty_new 1, cc_target_block_time = 5,
     cc_difficulty_adjustment_interval = 10, cc_initial_block_reward = from_fry 1000,
     cc_halving_interval = 1000, cc_max_supply = - 1,
     cc_genesis_allocations = [], cc_precompiles = [], cc_post_quantum_only = False,
     cc_depin_enabled = True, cc_min_gas_price = 1, cc_block_gas_limit = 100000000\<rparr>"

definition add_allocation :: "address \<Rightarrow> token_amount \<Rightarrow> chain_config \<Rightarrow> chain_config" where
  "add_allocation a b c = c\<lparr>cc_genesis_allocations := cc_genesis_allocations c
     @ [\<lparr>ga_address = a, ga_balance = b, ga_code = None, ga_is_device = False\<rparr>]\<rparr>"

definition block_reward_at_height :: "chain_config \<Rightarrow> block_height \<Rightarrow> (unit, token_amount) outcome" where
  "block_reward_at_height c h =
     (if cc_halving_interval c = 0 then Panic
      else let halvings = h div cc_halving_interval c
           in if halvings \<ge> 64 then Ok 0
              else Ok (drop_bit (unat halvings) (cc_initial_block_reward c)))"

definition is_mainnet :: "chain_config \<Rightarrow> bool" where
  "is_mainnet c \<longleftrightarrow> cc_network_id c = Mainnet"

definition should_adjust_difficulty :: "chain_config \<Rightarrow> block_height \<Rightarrow> (unit, bool) outcome" where
  "should_adjust_difficulty c h =
     (if h > 0
      then if cc_difficulty_adjustment_interval c = 0 then Panic
           else Ok (h mod cc_difficulty_adjustment_interval c = 0)
      else Ok False)"

record node_config =
  nc_chain :: chain_config
  nc_data_dir :: string
  nc_p2p_listen :: string
  nc_p2p_port :: u16
  nc_rpc_listen :: string
  nc_rpc_port :: u16
  nc_mining_enabled :: bool
  nc_miner_address :: "address option"
  nc_mining_threads :: nat
  nc_max_peers :: nat
  nc_bootstrap_nodes :: "string list"
  nc_metrics_enabled :: bool
  nc_metrics_port :: u16
  nc_log_level :: string

definition node_default_for :: "chain_config \<Rightarrow> node_config" where
  "node_default_for c = \<lparr>nc_chain = c, nc_data_dir = ''./frychain-data'', nc_p2p_listen = ''0.0.0.0'',
     nc_p2p_port = 30303, nc_rpc_listen = ''127.0.0.1'', nc_rpc_port = 8545,
     nc_mining_enabled = False, nc_miner_address = None, nc_mining_threads = 1, nc_max_peers = 50,
     nc_bootstrap_nodes = [], nc_metrics_enabled = False, nc_metrics_port = 9090,
     nc_log_level = ''info''\<rparr>"

definition node_local_dev :: node_config where
  "node_local_dev = node_default_for devnet"

subsection \<open>Issuance\<close>

definition reward_value :: "chain_config \<Rightarrow> nat \<Rightarrow> nat" where
  "reward_value c h = (case block_reward_at_height c (word_of_nat h) of Ok r \<Rightarrow> unat r | _ \<Rightarrow> 0)"

text \<open>The coins issued by the blocks below height \<open>n\<close>.\<close>

definition issued :: "chain_config \<Rightarrow> nat \<Rightarrow> nat" where
  "issued c n = (\<Sum>h<n. reward_value c h)"

lemma reward_value_halved:
  assumes "cc_halving_interval c \<noteq> 0" and "h < 2 ^ 64"
  shows "reward_value c h \<le> unat (cc_initial_block_reward c) div 2 ^ (h div unat (cc_halving_interval c))"
proof -
  have "unat (word_of_nat h :: u64) = h" using assms(2) by (simp add: unat_of_nat)
  then have "unat ((word_of_nat h :: u64) div cc_halving_interval c) = h div unat (cc_halving_interval c)"
    by (simp add: unat_div_distrib)
  with assms(1) show ?thesis
    by (simp add: reward_value_def block_reward_at_height_def Let_def unat_shr)
qed

lemma sum_blocks:
  fixes f :: "nat \<Rightarrow> nat"
  assumes "0 < I"
  shows "(\<Sum>h<K * I. f (h div I)) = I * (\<Sum>k<K. f k)"
proof (induction K)
  case (Suc K)
  have "(\<Sum>h<Suc K * I. f (h div I)) = (\<Sum>h<K * I. f (h div I)) + (\<Sum>h\<in>{K * I..<K * I + I}. f (h div I))"
    using sum.atLeastLessThan_concat [of 0 "K * I" "K * I + I" "\<lambda>h. f (h div I)"]
    by (simp add: lessThan_atLeast0 add.commute)
  also have "(\<Sum>h\<in>{K * I..<K * I + I}. f (h div I)) = (\<Sum>h\<in>{K * I..<K * I + I}. f K)"
  proof (rule sum.cong)
    fix h assume "h \<in> {K * I..<K * I + I}"
    then have "h div I = K" using assms by (intro div_nat_eqI) (simp_all add: algebra_simps)
    then show "f (h div I) = f K" by simp
  qed simp
  finally show ?case using Suc by (simp add: algebra_simps)
qed simp

lemma sum_halves: "(\<Sum>k<K. R div 2 ^ k) \<le> 2 * (R :: nat)"
proof -
  have "(\<Sum>k<K. R div 2 ^ k) + 2 * (R div 2 ^ K) \<le> 2 * R"
  proof (induction K)
    case (Suc K)
    have "R div 2 ^ Suc K = R div 2 ^ K div 2" by (simp only: power_Suc2 div_mult2_eq)
    then have "2 * (R div 2 ^ Suc K) \<le> R div 2 ^ K" by simp
    with Suc.IH show ?case unfolding sum.lessThan_Suc by linarith
  qed simp
  then show ?thesis by simp
qed

lemma issued_bound:
  assumes "cc_halving_interval c \<noteq> 0" and "n \<le> 2 ^ 64"
  shows "issued c n \<le> 2 * (unat (cc_halving_interval c) * unat (cc_initial_block_reward c))"
proof -
  let ?I = "unat (cc_halving_interval c)" and ?R = "unat (cc_initial_block_reward c)"
  have I: "0 < ?I" using assms(1) by (simp add: unat_gt_0)
  have "issued c n \<le> (\<Sum>h<n. ?R div 2 ^ (h div ?I))"
    unfolding issued_def using reward_value_halved [OF assms(1)] assms(2) by (intro sum_mono) simp
  also have "\<dots> \<le> (\<Sum>h<n * ?I. ?R div 2 ^ (h div ?I))"
    using I by (intro sum_mono2) auto
  also have "\<dots> = ?I * (\<Sum>k<n. ?R div 2 ^ k)" by (rule sum_blocks [OF I])
  also have "\<dots> \<le> ?I * (2 * ?R)" by (rule mult_le_mono2) (rule sum_halves)
  finally show ?thesis by (simp add: algebra_simps)
qed

lemma reward_exact:
  assumes "cc_halving_interval c \<noteq> 0"
  shows "\<exists>r. block_reward_at_height c h = Ok r
    \<and> unat r = (if unat h div unat (cc_halving_interval c) < 64
         then unat (cc_initial_block_reward c) div 2 ^ (unat h div unat (cc_halving_interval c)) else 0)"
proof -
  have u: "unat (h div cc_halving_interval c) = unat h div unat (cc_halving_interval c)" by (simp add: unat_div_distrib)
  then have "64 \<le> h div cc_halving_interval c \<longleftrightarrow> \<not> unat h div unat (cc_halving_interval c) < 64"
    by (simp add: word_le_nat_alt not_less)
  with assms u show ?thesis by (simp add: block_reward_at_height_def Let_def unat_shr)
qed

lemma reward_antimono:
  assumes "cc_halving_interval c \<noteq> 0" and "h \<le> h'"
    and "block_reward_at_height c h = Ok r" and "block_reward_at_height c h' = Ok r'"
  shows "r' \<le> r"
proof -
  let ?k = "unat h div unat (cc_halving_interval c)" and ?k' = "unat h' div unat (cc_halving_interval c)"
  have k: "?k \<le> ?k'" using assms(2) by (simp add: div_le_mono word_le_nat_alt)
  have "unat (cc_initial_block_reward c) div 2 ^ ?k' \<le> unat (cc_initial_block_reward c) div 2 ^ ?k"
    using k by (intro div_le_mono2 power_increasing) simp_all
  with k show ?thesis
    using reward_exact [OF assms(1), of h] reward_exact [OF assms(1), of h'] assms(3,4)
    by (auto simp: word_le_nat_alt split: if_splits)
qed

subsection \<open>Properties\<close>

text \<open>C11: The emission schedule respects the declared cap. For each built-in network, the
  coins issued by the blocks of a chain of any length the height type can count stay within
  \<open>max_supply\<close>; the reward is defined at every height, and it is the initial reward divided by two to
  the number of halving intervals passed, rounded down, and zero from the 64th interval on; it never rises
  from one height to a later one, and at the k-th multiple of the interval it is the initial reward shifted
  by k bits.\<close>

theorem issuance_within_max_supply:
  assumes "c \<in> {mainnet, testnet, devnet}"
  shows "(\<forall>n \<le> 2 ^ 64. issued c n \<le> unat (cc_max_supply c))
    \<and> (\<forall>h. \<exists>r. block_reward_at_height c h = Ok r \<and> r \<le> cc_initial_block_reward c
         \<and> unat r = (if unat h div unat (cc_halving_interval c) < 64
              then unat (cc_initial_block_reward c) div 2 ^ (unat h div unat (cc_halving_interval c)) else 0))
    \<and> (\<forall>h h' r r'. h \<le> h' \<and> block_reward_at_height c h = Ok r \<and> block_reward_at_height c h' = Ok r' \<longrightarrow> r' \<le> r)
    \<and> (\<forall>k < 64. block_reward_at_height c (k * cc_halving_interval c)
          = Ok (drop_bit (unat k) (cc_initial_block_reward c)))"
proof (intro conjI allI impI)
  have c: "cc_halving_interval c \<noteq> 0"
    and cap: "2 * (unat (cc_halving_interval c) * unat (cc_initial_block_reward c)) \<le> unat (cc_max_supply c)"
    and small: "unat (cc_halving_interval c) \<le> 2100000"
    using assms by (auto simp: mainnet_def testnet_def devnet_def from_fry_def UNITS_PER_FRY_def unat_minus_one_word)
  show "issued c n \<le> unat (cc_max_supply c)" if "n \<le> 2 ^ 64" for n
    using issued_bound [OF c that] cap by simp
  show "\<exists>r. block_reward_at_height c h = Ok r \<and> r \<le> cc_initial_block_reward c
      \<and> unat r = (if unat h div unat (cc_halving_interval c) < 64
           then unat (cc_initial_block_reward c) div 2 ^ (unat h div unat (cc_halving_interval c)) else 0)" for h
    using reward_exact [OF c, of h] by (auto simp: word_le_nat_alt split: if_splits)
  show "r' \<le> r" if "h \<le> h' \<and> block_reward_at_height c h = Ok r \<and> block_reward_at_height c h' = Ok r'" for h h' r r'
    using reward_antimono [OF c] that by blast
  show "block_reward_at_height c (k * cc_halving_interval c) = Ok (drop_bit (unat k) (cc_initial_block_reward c))"
    if "k < 64" for k :: u64
  proof -
    have k: "unat k < 64" using that by (simp add: word_less_nat_alt)
    then have "unat k * unat (cc_halving_interval c) \<le> 64 * 2100000" by (intro mult_le_mono small) simp
    then have "unat k * unat (cc_halving_interval c) < 2 ^ 64" by simp
    then have "unat (k * cc_halving_interval c) = unat k * unat (cc_halving_interval c)"
      by (simp add: unat_word_ariths)
    then have "unat (k * cc_halving_interval c div cc_halving_interval c) = unat k"
      using c by (simp add: unat_div_distrib unat_gt_0)
    then have "k * cc_halving_interval c div cc_halving_interval c = k" by (simp add: word_unat_eq_iff)
    with c that show ?thesis by (simp add: block_reward_at_height_def Let_def not_le)
  qed
qed

theorem issuance_within_max_supply_witness:
  "issued mainnet (2 ^ 64) \<le> 210000000 * 10 ^ 18
   \<and> block_reward_at_height mainnet (2 * 2100000) = Ok (drop_bit 2 (from_fry 50))"
proof -
  have c: "cc_halving_interval mainnet = 2100000" "cc_initial_block_reward mainnet = from_fry 50"
      "unat (cc_max_supply mainnet) = 210000000 * 10 ^ 18"
    by (simp_all add: mainnet_def UNITS_PER_FRY_def)
  have "issued mainnet (2 ^ 64) \<le> unat (cc_max_supply mainnet)"
    and "block_reward_at_height mainnet (2 * cc_halving_interval mainnet)
      = Ok (drop_bit (unat (2 :: u64)) (cc_initial_block_reward mainnet))"
    using issuance_within_max_supply [of mainnet] by (blast, auto)
  then show ?thesis unfolding c by simp
qed

end
