(* ===== verification/Fry_Keys.thy ===== *)
theory Fry_Keys
  imports Fry_Transaction
begin

text \<open>
  \<open>frychain-crypto/src\<close>: \<open>dilithium.rs\<close>, \<open>sphincs.rs\<close>, \<open>ed25519.rs\<close>,
  \<open>keys.rs\<close> and the error type of \<open>lib.rs\<close>. The primitives (\<open>pqcrypto\<close>,
  \<open>ed25519_dalek\<close>) are the parameters \<open>pq_lib\<close> and \<open>ed_lib\<close>; \<open>pq_laws\<close> and
  \<open>ed_laws\<close> state what their documentation promises. The wrappers, which cut a signature off
  a signed message and glue it back on, are modelled. The trait \<open>SignatureScheme\<close> is the
  locale \<open>signature_scheme\<close>, interpreted on the three wrappers.
\<close>

datatype crypto_error =
    InvalidKeyLength nat nat
  | InvalidSignatureLength nat nat
  | SignatureVerificationFailed
  | KeyGenerationFailed string
  | InvalidPrivateKey
  | InvalidPublicKey
  | UnsupportedAlgorithm string
  | HashError string

subsection \<open>The external primitives\<close>

text \<open>A \<open>pqcrypto\<close> scheme: the key lengths, the three \<open>from_bytes\<close> checks, signing
  (which yields signature and message in one string) and opening of a signed message.\<close>

record pq_lib =
  pq_public_key_bytes :: nat
  pq_secret_key_bytes :: nat
  pq_public_key_ok :: "bytes \<Rightarrow> bool"
  pq_secret_key_ok :: "bytes \<Rightarrow> bool"
  pq_signed_message_ok :: "bytes \<Rightarrow> bool"
  pq_sign :: "bytes \<Rightarrow> bytes \<Rightarrow> bytes"
  pq_open :: "bytes \<Rightarrow> bytes \<Rightarrow> bytes option"
  pq_keypair :: "bytes \<Rightarrow> bytes \<Rightarrow> bool"

definition pq_laws :: "pq_lib \<Rightarrow> bool" where
  "pq_laws P \<longleftrightarrow> (\<forall>pk sk. pq_keypair P pk sk \<longrightarrow>
     length pk = pq_public_key_bytes P \<and> length sk = pq_secret_key_bytes P
     \<and> pq_public_key_ok P pk \<and> pq_secret_key_ok P sk
     \<and> (\<forall>m. (\<exists>sig. pq_sign P m sk = sig @ m) \<and> pq_signed_message_ok P (pq_sign P m sk)
          \<and> pq_open P (pq_sign P m sk) pk = Some m))"

record ed_lib =
  ed_verifying_key :: "bytes \<Rightarrow> bytes"
  ed_sign :: "bytes \<Rightarrow> bytes \<Rightarrow> bytes"
  ed_verifying_key_ok :: "bytes \<Rightarrow> bool"
  ed_verify :: "bytes \<Rightarrow> bytes \<Rightarrow> bytes \<Rightarrow> bool"

definition ed_laws :: "ed_lib \<Rightarrow> bool" where
  "ed_laws E \<longleftrightarrow> (\<forall>sk. length sk = 32 \<longrightarrow>
     length (ed_verifying_key E sk) = 32 \<and> ed_verifying_key_ok E (ed_verifying_key E sk)
     \<and> (\<forall>m. length (ed_sign E sk m) = 64 \<and> ed_verify E (ed_verifying_key E sk) m (ed_sign E sk m)))"

subsection \<open>Dilithium and SPHINCS+\<close>

text \<open>The two wrappers are the same text over two libraries; a key is its bytes.\<close>

definition pq_public_key_from_bytes :: "pq_lib \<Rightarrow> bytes \<Rightarrow> (crypto_error, bytes) outcome" where
  "pq_public_key_from_bytes P bs =
     (if length bs \<noteq> pq_public_key_bytes P then Err (InvalidKeyLength (pq_public_key_bytes P) (length bs))
      else Ok bs)"

definition pq_private_key_from_bytes :: "pq_lib \<Rightarrow> bytes \<Rightarrow> (crypto_error, bytes) outcome" where
  "pq_private_key_from_bytes P bs =
     (if length bs \<noteq> pq_secret_key_bytes P then Err (InvalidKeyLength (pq_secret_key_bytes P) (length bs))
      else Ok bs)"

record raw_keypair =
  kp_public_key :: bytes
  kp_private_key :: bytes

definition pq_keypair_from_bytes :: "pq_lib \<Rightarrow> bytes \<Rightarrow> bytes \<Rightarrow> (crypto_error, raw_keypair) outcome" where
  "pq_keypair_from_bytes P pk sk =
     bindR (pq_public_key_from_bytes P pk) (\<lambda>pk'.
     bindR (pq_private_key_from_bytes P sk) (\<lambda>sk'.
     Ok \<lparr>kp_public_key = pk', kp_private_key = sk'\<rparr>))"

definition pq_wrapper_sign :: "pq_lib \<Rightarrow> bytes \<Rightarrow> bytes \<Rightarrow> (crypto_error, bytes) outcome" where
  "pq_wrapper_sign P sk message =
     (if \<not> pq_secret_key_ok P sk then Panic
      else let signed_message = pq_sign P message sk;
               sig_len = length signed_message - length message
           in if length signed_message < length message then Panic
              else Ok (take sig_len signed_message))"

definition pq_wrapper_verify :: "pq_lib \<Rightarrow> bytes \<Rightarrow> bytes \<Rightarrow> bytes \<Rightarrow> bool" where
  "pq_wrapper_verify P pk message sig =
     (if \<not> pq_public_key_ok P pk then False
      else let signed_msg = sig @ message
           in if \<not> pq_signed_message_ok P signed_msg then False
              else pq_open P signed_msg pk \<noteq> None)"

subsection \<open>Ed25519\<close>

definition ed_public_key_from_bytes :: "bytes \<Rightarrow> (crypto_error, bytes) outcome" where
  "ed_public_key_from_bytes bs = (if length bs \<noteq> 32 then Err (InvalidKeyLength 32 (length bs)) else Ok bs)"

definition ed_private_key_from_bytes :: "bytes \<Rightarrow> (crypto_error, bytes) outcome" where
  "ed_private_key_from_bytes bs = (if length bs \<noteq> 32 then Err (InvalidKeyLength 32 (length bs)) else Ok bs)"

definition ed_signature_from_bytes :: "bytes \<Rightarrow> (crypto_error, bytes) outcome" where
  "ed_signature_from_bytes bs = (if length bs \<noteq> 64 then Err (InvalidSignatureLength 64 (length bs)) else Ok bs)"

definition ed_keypair_from_bytes :: "bytes \<Rightarrow> bytes \<Rightarrow> (crypto_error, raw_keypair) outcome" where
  "ed_keypair_from_bytes pk sk =
     bindR (ed_public_key_from_bytes pk) (\<lambda>pk'.
     bindR (ed_private_key_from_bytes sk) (\<lambda>sk'.
     Ok \<lparr>kp_public_key = pk', kp_private_key = sk'\<rparr>))"

definition ed_keypair_from_private_key :: "ed_lib \<Rightarrow> bytes \<Rightarrow> (crypto_error, raw_keypair) outcome" where
  "ed_keypair_from_private_key E sk =
     bindR (ed_private_key_from_bytes sk) (\<lambda>sk'.
     Ok \<lparr>kp_public_key = ed_verifying_key E sk', kp_private_key = sk'\<rparr>)"

definition ed_wrapper_sign :: "ed_lib \<Rightarrow> bytes \<Rightarrow> bytes \<Rightarrow> (crypto_error, bytes) outcome" where
  "ed_wrapper_sign E sk message = Ok (ed_sign E sk message)"

definition ed_wrapper_verify :: "ed_lib \<Rightarrow> bytes \<Rightarrow> bytes \<Rightarrow> bytes \<Rightarrow> bool" where
  "ed_wrapper_verify E pk message sig =
     (if \<not> ed_verifying_key_ok E pk then False else ed_verify E pk message sig)"

subsection \<open>The unified keys\<close>

text \<open>\<open>KeypairType\<close> has the constructors of \<open>signature_type\<close>, in the same order; the
  enums \<open>PublicKey\<close> and \<open>Keypair\<close> pair it with the key bytes.\<close>

type_synonym keypair_type = signature_type

record crypto_libs =
  cl_dilithium :: pq_lib
  cl_sphincs :: pq_lib
  cl_ed25519 :: ed_lib

fun key_type_post_quantum :: "keypair_type \<Rightarrow> bool" where
  "key_type_post_quantum Dilithium = True"
| "key_type_post_quantum SphincsPlus = True"
| "key_type_post_quantum Ed25519 = False"

fun algorithm_name :: "keypair_type \<Rightarrow> string" where
  "algorithm_name Dilithium = ''Dilithium2''"
| "algorithm_name SphincsPlus = ''SPHINCS+-SHAKE-128s''"
| "algorithm_name Ed25519 = ''Ed25519''"

datatype keypair = Keypair keypair_type raw_keypair

fun keypair_key_type :: "keypair \<Rightarrow> keypair_type" where
  "keypair_key_type (Keypair t kp) = t"

fun keypair_address :: "hash_fn \<Rightarrow> keypair \<Rightarrow> address" where
  "keypair_address sha3 (Keypair t kp) = address_from_public_key sha3 (kp_public_key kp)"

fun keypair_sign :: "crypto_libs \<Rightarrow> keypair \<Rightarrow> bytes \<Rightarrow> (crypto_error, signature) outcome" where
  "keypair_sign L (Keypair t kp) message =
     bindR (case t of
              Dilithium \<Rightarrow> pq_wrapper_sign (cl_dilithium L) (kp_private_key kp) message
            | SphincsPlus \<Rightarrow> pq_wrapper_sign (cl_sphincs L) (kp_private_key kp) message
            | Ed25519 \<Rightarrow> ed_wrapper_sign (cl_ed25519 L) (kp_private_key kp) message)
       (\<lambda>s. Ok \<lparr>sig_type = t, sig_bytes = s, sig_public_key = kp_public_key kp\<rparr>)"

definition verify_signature :: "crypto_libs \<Rightarrow> signature \<Rightarrow> bytes \<Rightarrow> bool" where
  "verify_signature L sg message =
     (case sig_type sg of
        Dilithium \<Rightarrow>
          (case pq_public_key_from_bytes (cl_dilithium L) (sig_public_key sg) of
             Ok pk \<Rightarrow> pq_wrapper_verify (cl_dilithium L) pk message (sig_bytes sg)
           | _ \<Rightarrow> False)
      | SphincsPlus \<Rightarrow>
          (case pq_public_key_from_bytes (cl_sphincs L) (sig_public_key sg) of
             Ok pk \<Rightarrow> pq_wrapper_verify (cl_sphincs L) pk message (sig_bytes sg)
           | _ \<Rightarrow> False)
      | Ed25519 \<Rightarrow>
          (case ed_public_key_from_bytes (sig_public_key sg) of
             Ok pk \<Rightarrow>
               (case ed_signature_from_bytes (sig_bytes sg) of
                  Ok s \<Rightarrow> ed_wrapper_verify (cl_ed25519 L) pk message s
                | _ \<Rightarrow> False)
           | _ \<Rightarrow> False))"

definition address_from_signature :: "hash_fn \<Rightarrow> signature \<Rightarrow> address" where
  "address_from_signature sha3 sg = address_from_public_key sha3 (sig_public_key sg)"

definition is_signature_post_quantum :: "signature \<Rightarrow> bool" where
  "is_signature_post_quantum sg \<longleftrightarrow> sig_type sg = Dilithium \<or> sig_type sg = SphincsPlus"

subsection \<open>The trait \<open>SignatureScheme\<close>\<close>

text \<open>What the unified layer relies on: keys that belong together sign without a panic,
  and what they sign verifies.\<close>

locale signature_scheme =
  fixes belongs :: "bytes \<Rightarrow> bytes \<Rightarrow> bool"
    and sign :: "bytes \<Rightarrow> bytes \<Rightarrow> (crypto_error, bytes) outcome"
    and check_sig :: "bytes \<Rightarrow> bytes \<Rightarrow> bytes \<Rightarrow> bool"
  assumes sign_check: "belongs pk sk \<Longrightarrow> \<exists>s. sign sk m = Ok s \<and> check_sig pk m s"
begin

lemma sign_total: "belongs pk sk \<Longrightarrow> is_ok (sign sk m)"
  using sign_check [of pk sk m] by auto

lemma signed_then_checked: "belongs pk sk \<Longrightarrow> sign sk m = Ok s \<Longrightarrow> check_sig pk m s"
  using sign_check [of pk sk m] by auto

end

definition pq_belongs :: "pq_lib \<Rightarrow> bytes \<Rightarrow> bytes \<Rightarrow> bool" where
  "pq_belongs P pk sk \<longleftrightarrow> pq_laws P \<and> pq_keypair P pk sk"

definition ed_belongs :: "ed_lib \<Rightarrow> bytes \<Rightarrow> bytes \<Rightarrow> bool" where
  "ed_belongs E pk sk \<longleftrightarrow> ed_laws E \<and> length sk = 32 \<and> pk = ed_verifying_key E sk"

lemma pq_sign_check:
  assumes "pq_belongs P pk sk"
  shows "\<exists>s. pq_wrapper_sign P sk m = Ok s \<and> pq_wrapper_verify P pk m s"
proof -
  have laws: "pq_public_key_ok P pk" "pq_secret_key_ok P sk"
      "pq_signed_message_ok P (pq_sign P m sk)" "pq_open P (pq_sign P m sk) pk = Some m"
    and "\<exists>sig. pq_sign P m sk = sig @ m"
    using assms unfolding pq_belongs_def pq_laws_def by blast+
  then obtain sig where "pq_sign P m sk = sig @ m" by blast
  with laws show ?thesis by (simp add: pq_wrapper_sign_def pq_wrapper_verify_def)
qed

interpretation pq: signature_scheme "pq_belongs P" "pq_wrapper_sign P" "pq_wrapper_verify P" for P
  by unfold_locales (rule pq_sign_check)

interpretation ed: signature_scheme "ed_belongs E" "ed_wrapper_sign E" "ed_wrapper_verify E" for E
  by unfold_locales (simp add: ed_belongs_def ed_laws_def ed_wrapper_sign_def ed_wrapper_verify_def)

text \<open>A unified key pair whose two keys belong together in its scheme.\<close>

fun wf_keypair :: "crypto_libs \<Rightarrow> keypair \<Rightarrow> bool" where
  "wf_keypair L (Keypair Dilithium kp) = pq_belongs (cl_dilithium L) (kp_public_key kp) (kp_private_key kp)"
| "wf_keypair L (Keypair SphincsPlus kp) = pq_belongs (cl_sphincs L) (kp_public_key kp) (kp_private_key kp)"
| "wf_keypair L (Keypair Ed25519 kp) = ed_belongs (cl_ed25519 L) (kp_public_key kp) (kp_private_key kp)"

lemma pq_belongs_length: "pq_belongs P pk sk \<Longrightarrow> length pk = pq_public_key_bytes P"
  unfolding pq_belongs_def pq_laws_def by blast

lemma keypair_sign_verifies:
  assumes "wf_keypair L kp"
  shows "\<exists>sg. keypair_sign L kp m = Ok sg \<and> verify_signature L sg m
    \<and> sig_type sg = keypair_key_type kp \<and> keypair_address sha3 kp = address_from_signature sha3 sg"
proof (cases kp)
  case (Keypair t raw)
  show ?thesis
  proof (cases t)
    case Dilithium
    with assms Keypair have b: "pq_belongs (cl_dilithium L) (kp_public_key raw) (kp_private_key raw)" by simp
    then obtain s where "pq_wrapper_sign (cl_dilithium L) (kp_private_key raw) m = Ok s"
      and "pq_wrapper_verify (cl_dilithium L) (kp_public_key raw) m s" using pq.sign_check by blast
    with Keypair Dilithium pq_belongs_length [OF b] show ?thesis
      by (simp add: verify_signature_def pq_public_key_from_bytes_def address_from_signature_def)
  next
    case SphincsPlus
    with assms Keypair have b: "pq_belongs (cl_sphincs L) (kp_public_key raw) (kp_private_key raw)" by simp
    then obtain s where "pq_wrapper_sign (cl_sphincs L) (kp_private_key raw) m = Ok s"
      and "pq_wrapper_verify (cl_sphincs L) (kp_public_key raw) m s" using pq.sign_check by blast
    with Keypair SphincsPlus pq_belongs_length [OF b] show ?thesis
      by (simp add: verify_signature_def pq_public_key_from_bytes_def address_from_signature_def)
  next
    case Ed25519
    with assms Keypair have b: "ed_belongs (cl_ed25519 L) (kp_public_key raw) (kp_private_key raw)" by simp
    then obtain s where s: "ed_wrapper_sign (cl_ed25519 L) (kp_private_key raw) m = Ok s"
      and "ed_wrapper_verify (cl_ed25519 L) (kp_public_key raw) m s" using ed.sign_check by blast
    moreover have "length s = 64" and "length (kp_public_key raw) = 32"
      using b s by (auto simp: ed_belongs_def ed_laws_def ed_wrapper_sign_def)
    ultimately show ?thesis using Keypair Ed25519
      by (simp add: verify_signature_def ed_public_key_from_bytes_def ed_signature_from_bytes_def
          address_from_signature_def)
  qed
qed

text \<open>The wrapper glues signature and message together again, so it cannot tell where one
  ends and the other begins.\<close>

lemma pq_verify_boundary: "pq_wrapper_verify P pk (m1 @ m2) s = pq_wrapper_verify P pk m2 (s @ m1)"
  by (simp add: pq_wrapper_verify_def)

subsection \<open>Properties\<close>

text \<open>C34: What a key pair signs verifies. For every well-formed unified key pair of any of
  the three schemes and every message, signing returns a signature without a panic, the unified
  verification accepts it, it carries the scheme of the key, and the address read from the
  signature is the address of the key pair.\<close>

theorem sign_verify_roundtrip:
  assumes "wf_keypair L kp"
  shows "\<exists>sg. keypair_sign L kp m = Ok sg \<and> verify_signature L sg m
    \<and> sig_type sg = keypair_key_type kp
    \<and> is_signature_post_quantum sg = key_type_post_quantum (keypair_key_type kp)
    \<and> address_from_signature sha3 sg = keypair_address sha3 kp"
proof -
  obtain sg where "keypair_sign L kp m = Ok sg" "verify_signature L sg m"
      "sig_type sg = keypair_key_type kp" "keypair_address sha3 kp = address_from_signature sha3 sg"
    using keypair_sign_verifies [OF assms] by blast
  then show ?thesis
    by (intro exI [of _ sg]) (cases "keypair_key_type kp"; simp add: is_signature_post_quantum_def)
qed

text \<open>Primitives that satisfy the laws: the secret key is the public key, and a signature is
  a copy of it, padded to 64 bytes for Ed25519.\<close>

definition toy_pq :: pq_lib where
  "toy_pq = \<lparr>pq_public_key_bytes = 4, pq_secret_key_bytes = 4, pq_public_key_ok = (\<lambda>pk. length pk = 4),
     pq_secret_key_ok = (\<lambda>sk. length sk = 4), pq_signed_message_ok = (\<lambda>sm. 4 \<le> length sm),
     pq_sign = (\<lambda>m sk. sk @ m), pq_open = (\<lambda>sm pk. if take 4 sm = pk then Some (drop 4 sm) else None),
     pq_keypair = (\<lambda>pk sk. pk = sk \<and> length sk = 4)\<rparr>"

definition toy_ed :: ed_lib where
  "toy_ed = \<lparr>ed_verifying_key = (\<lambda>sk. sk), ed_sign = (\<lambda>sk m. sk @ sk), ed_verifying_key_ok = (\<lambda>pk. length pk = 32),
     ed_verify = (\<lambda>pk m s. s = pk @ pk)\<rparr>"

definition toy_libs :: crypto_libs where
  "toy_libs = \<lparr>cl_dilithium = toy_pq, cl_sphincs = toy_pq, cl_ed25519 = toy_ed\<rparr>"

lemma toy_laws: "pq_laws toy_pq" "ed_laws toy_ed"
  by (simp_all add: pq_laws_def toy_pq_def ed_laws_def toy_ed_def)

definition toy_keypair :: keypair where
  "toy_keypair = Keypair Dilithium \<lparr>kp_public_key = [1, 2, 3, 4], kp_private_key = [1, 2, 3, 4]\<rparr>"

lemma wf_toy_keypair: "wf_keypair toy_libs toy_keypair"
  using toy_laws by (simp add: toy_keypair_def toy_libs_def pq_belongs_def toy_pq_def)

theorem sign_verify_roundtrip_witness:
  "\<exists>sg. keypair_sign toy_libs toy_keypair [7] = Ok sg \<and> verify_signature toy_libs sg [7]"
  using sign_verify_roundtrip [OF wf_toy_keypair] by blast

text \<open>The post-quantum wrappers do not check the length of a signature, so the boundary
  between signature and message is not bound: whenever a Dilithium or SPHINCS+ signature
  verifies for a message, moving any prefix of the message to the end of the signature gives a
  signature that verifies for the rest of the message.\<close>

theorem pq_signature_boundary_moves:
  assumes "sig_type sg = Dilithium \<or> sig_type sg = SphincsPlus"
  shows "verify_signature L sg (m1 @ m2)
    \<longleftrightarrow> verify_signature L (sg\<lparr>sig_bytes := sig_bytes sg @ m1\<rparr>) m2"
  using assms pq_verify_boundary [of _ _ m1 m2]
  by (auto simp: verify_signature_def split: outcome.splits)

theorem pq_signature_boundary_moves_witness:
  "verify_signature toy_libs \<lparr>sig_type = Dilithium, sig_bytes = [1, 2, 3, 4, 5], sig_public_key = [1, 2, 3, 4]\<rparr> [6]"
  using pq_signature_boundary_moves [of "\<lparr>sig_type = Dilithium, sig_bytes = [1, 2, 3, 4], sig_public_key = [1, 2, 3, 4]\<rparr>"
      toy_libs "[5]" "[6]"]
  by (simp add: toy_libs_def toy_pq_def verify_signature_def pq_public_key_from_bytes_def pq_wrapper_verify_def)

end
