(* ===== verification/Fry_Validation.thy ===== *)
theory Fry_Validation
  imports Fry_Config Fry_Keys
begin

text \<open>
  \<open>frychain-consensus/src/validation.rs\<close> and the error types of \<open>frychain-consensus\<close>
  and \<open>frychain-storage\<close>: header, block and transaction validation in the order in which
  the code makes its checks. The environment of the checks (digest, signature libraries, block
  size, clock) is the record \<open>env\<close>. The lemmas characterise what each check accepts.
\<close>

datatype storage_error =
    DatabaseError string
  | BlockNotFound string
  | TransactionNotFound string
  | StoredAccountNotFound string
  | StorageSerializationError string
  | StorageDeserializationError string
  | StorageIoError string

datatype consensus_error =
    InvalidBlockC string
  | InvalidProofOfWorkC
  | InvalidDifficulty
  | InvalidParent
  | BlockTooOld
  | BlockFromFuture
  | StorageError storage_error
  | CryptoError string

definition MAX_FUTURE_TIMESTAMP :: u64 where "MAX_FUTURE_TIMESTAMP = 15 * 60"

record env =
  env_sha3 :: hash_fn
  env_libs :: crypto_libs
  env_size :: "block \<Rightarrow> nat"
  env_now :: u64

definition validate_header ::
    "env \<Rightarrow> block_header \<Rightarrow> block_header option \<Rightarrow> (consensus_error, unit) outcome" where
  "validate_header ev header parent_header =
     (if bh_height header = 0
      then (if parent_header \<noteq> None then Err InvalidParent
            else if \<not> hash_is_zero (bh_parent_hash header)
            then Err (InvalidBlockC ''Genesis parent hash must be zero'')
            else Ok ())
      else bindR (ok_or parent_header InvalidParent) (\<lambda>parent.
        if bh_height header \<noteq> bh_height parent + 1
        then Err (InvalidBlockC (''Invalid height: expected '' @ show_word (bh_height parent + 1)
                    @ '', got '' @ show_word (bh_height header)))
        else if bh_parent_hash header \<noteq> header_hash (env_sha3 ev) parent then Err InvalidParent
        else if bh_timestamp header > env_now ev + MAX_FUTURE_TIMESTAMP then Err BlockFromFuture
        else if bh_timestamp header < bh_timestamp parent then Err BlockTooOld
        else if bh_gas_limit header = 0 then Err (InvalidBlockC ''Gas limit cannot be zero'')
        else if bh_gas_used header > bh_gas_limit header
        then Err (InvalidBlockC ''Gas used exceeds gas limit'')
        else if length (bh_extra_data header) > 32 then Err (InvalidBlockC ''Extra data too long'')
        else Ok ()))"

definition validate_transaction ::
    "env \<Rightarrow> chain_config \<Rightarrow> signed_transaction \<Rightarrow> (consensus_error, unit) outcome" where
  "validate_transaction ev cfg stx =
     (let tx = stx_transaction stx in
      if tx_chain_id tx \<noteq> cc_chain_id cfg
      then Err (InvalidBlockC (''Invalid chain ID: expected '' @ show_word (cc_chain_id cfg)
                  @ '', got '' @ show_word (tx_chain_id tx)))
      else if tx_gas_price tx < cc_min_gas_price cfg
      then Err (InvalidBlockC (''Gas price too low: minimum '' @ show_word (cc_min_gas_price cfg)))
      else if tx_gas_limit tx = 0 then Err (InvalidBlockC ''Gas limit cannot be zero'')
      else if \<not> verify_signature (env_libs ev) (stx_signature stx) (tx_hash (env_sha3 ev) tx)
      then Err (InvalidBlockC ''Invalid transaction signature'')
      else if cc_post_quantum_only cfg \<and> \<not> is_signature_post_quantum (stx_signature stx)
      then Err (InvalidBlockC ''Non-post-quantum signature not allowed'')
      else Ok ())"

fun validate_transactions ::
    "env \<Rightarrow> chain_config \<Rightarrow> signed_transaction list \<Rightarrow> (consensus_error, unit) outcome" where
  "validate_transactions ev cfg [] = Ok ()"
| "validate_transactions ev cfg (t # ts) =
     bindR (validate_transaction ev cfg t) (\<lambda>_. validate_transactions ev cfg ts)"

definition validate_block ::
    "env \<Rightarrow> chain_config \<Rightarrow> block \<Rightarrow> block option \<Rightarrow> (consensus_error, unit) outcome" where
  "validate_block ev cfg b parent =
     bindR (validate_header ev (b_header b) (map_option b_header parent)) (\<lambda>_.
     bindR (map_err InvalidBlockC (verify_structure (env_sha3 ev) (env_size ev) b)) (\<lambda>_.
     if env_size ev b > MAX_BLOCK_SIZE
     then Err (InvalidBlockC (''Block too large: '' @ show_nat (env_size ev b) @ '' bytes''))
     else if length (bb_transactions (b_body b)) > MAX_TXS_PER_BLOCK
     then Err (InvalidBlockC (''Too many transactions: '' @ show_nat (length (bb_transactions (b_body b)))))
     else bindR (validate_transactions ev cfg (bb_transactions (b_body b))) (\<lambda>_.
     case calculate_transactions_root (env_sha3 ev) (b_body b) of
       None \<Rightarrow> Panic
     | Some calculated_root \<Rightarrow>
         if calculated_root \<noteq> bh_transactions_root (b_header b)
         then Err (InvalidBlockC ''Transactions root mismatch'')
         else Ok ())))"

definition validate_pow_hash :: "hash256 \<Rightarrow> hash256 \<Rightarrow> bool" where
  "validate_pow_hash pow_hash target = meets_difficulty pow_hash target"

subsection \<open>What is accepted\<close>

lemma map_err_Ok_iff [simp]: "map_err f r = Ok x \<longleftrightarrow> r = Ok x"
  by (cases r) auto

lemma map_err_not_Panic: "map_err f r = Panic \<longleftrightarrow> r = Panic"
  by (cases r) auto

lemma bindR_no_panic: "m \<noteq> Panic \<Longrightarrow> (\<And>x. m = Ok x \<Longrightarrow> f x \<noteq> Panic) \<Longrightarrow> bindR m f \<noteq> Panic"
  by (cases m) auto

lemma validate_header_Ok_iff:
  "validate_header ev h ph = Ok () \<longleftrightarrow>
     (if bh_height h = 0 then ph = None \<and> hash_is_zero (bh_parent_hash h)
      else (\<exists>p. ph = Some p \<and> bh_height h = bh_height p + 1
        \<and> bh_parent_hash h = header_hash (env_sha3 ev) p
        \<and> bh_timestamp p \<le> bh_timestamp h \<and> bh_timestamp h \<le> env_now ev + MAX_FUTURE_TIMESTAMP
        \<and> bh_gas_limit h \<noteq> 0 \<and> bh_gas_used h \<le> bh_gas_limit h \<and> length (bh_extra_data h) \<le> 32))"
  by (auto simp: validate_header_def not_less bindR_Ok_iff split: if_splits)

lemma validate_transaction_Ok_iff:
  "validate_transaction ev cfg stx = Ok () \<longleftrightarrow>
     tx_chain_id (stx_transaction stx) = cc_chain_id cfg
     \<and> cc_min_gas_price cfg \<le> tx_gas_price (stx_transaction stx)
     \<and> tx_gas_limit (stx_transaction stx) \<noteq> 0
     \<and> verify_signature (env_libs ev) (stx_signature stx) (tx_hash (env_sha3 ev) (stx_transaction stx))
     \<and> (cc_post_quantum_only cfg \<longrightarrow> is_signature_post_quantum (stx_signature stx))"
  by (auto simp: validate_transaction_def Let_def not_less)

lemma validate_transactions_Ok_iff:
  "validate_transactions ev cfg ts = Ok () \<longleftrightarrow> (\<forall>t\<in>set ts. validate_transaction ev cfg t = Ok ())"
  by (induction ts) (auto simp: bindR_Ok_iff)

lemma validate_block_Ok_iff:
  "validate_block ev cfg b parent = Ok () \<longleftrightarrow>
     validate_header ev (b_header b) (map_option b_header parent) = Ok ()
     \<and> verify_structure (env_sha3 ev) (env_size ev) b = Ok ()
     \<and> (\<forall>t\<in>set (bb_transactions (b_body b)). validate_transaction ev cfg t = Ok ())"
  by (auto simp: validate_block_def bindR_Ok_iff verify_structure_Ok_iff
      validate_transactions_Ok_iff [symmetric] split: if_splits option.splits)

lemma validate_no_panic:
  "validate_header ev h ph \<noteq> Panic" "validate_transaction ev cfg stx \<noteq> Panic"
  "validate_transactions ev cfg ts \<noteq> Panic"
proof -
  show "validate_header ev h ph \<noteq> Panic"
    unfolding validate_header_def by (auto intro!: bindR_no_panic split: if_splits)
  show tx: "validate_transaction ev cfg stx \<noteq> Panic" for stx
    by (simp add: validate_transaction_def Let_def)
  show "validate_transactions ev cfg ts \<noteq> Panic"
  proof (induction ts)
    case (Cons t ts)
    then show ?case by (simp only: validate_transactions.simps) (rule bindR_no_panic, rule tx)
  qed simp
qed

lemma validate_block_no_panic: "validate_block ev cfg b parent \<noteq> Panic"
proof -
  obtain r where r: "calculate_transactions_root (env_sha3 ev) (b_body b) = Some r"
    using calculate_transactions_root_total by blast
  show ?thesis
    unfolding validate_block_def r option.case
    apply (rule bindR_no_panic, rule validate_no_panic)
    apply (rule bindR_no_panic, simp add: map_err_not_Panic verify_structure_no_panic)
    apply (simp split: if_splits)
    apply (intro conjI impI bindR_no_panic validate_no_panic)
     apply simp_all
    done
qed

subsection \<open>Properties\<close>

text \<open>C5: Block validation never panics, and it accepts a block on a parent exactly when the
  height is the next one, the parent hash is the hash of the parent, the timestamp is not before
  the parent and not more than fifteen minutes ahead of the clock, the gas used is within a
  nonzero limit, the extra data, the size and the number of transactions are within their limits,
  the transactions root is right and every transaction is valid.\<close>

theorem validate_block_exact:
  assumes "bh_height (b_header b) \<noteq> 0"
  shows "validate_block ev cfg b parent \<noteq> Panic
    \<and> (validate_block ev cfg b parent = Ok () \<longleftrightarrow>
        (\<exists>p. parent = Some p
           \<and> bh_height (b_header b) = bh_height (b_header p) + 1
           \<and> bh_parent_hash (b_header b) = block_hash (env_sha3 ev) p
           \<and> bh_timestamp (b_header p) \<le> bh_timestamp (b_header b)
           \<and> bh_timestamp (b_header b) \<le> env_now ev + MAX_FUTURE_TIMESTAMP)
        \<and> bh_gas_limit (b_header b) \<noteq> 0 \<and> bh_gas_used (b_header b) \<le> bh_gas_limit (b_header b)
        \<and> length (bh_extra_data (b_header b)) \<le> 32
        \<and> env_size ev b \<le> MAX_BLOCK_SIZE
        \<and> length (bb_transactions (b_body b)) \<le> MAX_TXS_PER_BLOCK
        \<and> calculate_transactions_root (env_sha3 ev) (b_body b) = Some (bh_transactions_root (b_header b))
        \<and> (\<forall>t\<in>set (bb_transactions (b_body b)). validate_transaction ev cfg t = Ok ()))"
  using assms
  by (auto simp: validate_block_no_panic validate_block_Ok_iff validate_header_Ok_iff
      verify_structure_Ok_iff block_hash_def)

definition toy_env :: env where
  "toy_env = \<lparr>env_sha3 = toy_hash, env_libs = toy_libs, env_size = (\<lambda>_. 0), env_now = 1704067300\<rparr>"

definition toy_genesis :: block where
  "toy_genesis = block_genesis 0 address_zero 1"

definition toy_child :: block where
  "toy_child = \<lparr>b_header = (header_new 1704067260 1 (block_hash toy_hash toy_genesis) address_zero 1), b_body = body_empty\<rparr>"

theorem validate_block_exact_witness:
  "validate_block toy_env devnet toy_child (Some toy_genesis) = Ok ()"
  using validate_block_exact [of toy_child toy_env devnet "Some toy_genesis"]
  by (simp add: toy_child_def toy_env_def toy_genesis_def block_genesis_def header_new_def body_empty_def
      MAX_FUTURE_TIMESTAMP_def calculate_transactions_root_def)

text \<open>C4: The sender of a transaction is not authenticated. The validation checks the
  signature against the public key that comes with it and never compares that key with the
  \<open>from\<close> address: whoever owns a key pair of an admitted scheme can sign a transaction in the
  name of any address, and it is valid.\<close>

theorem sender_not_authenticated:
  assumes "wf_keypair (env_libs ev) kp"
    and "cc_post_quantum_only cfg \<Longrightarrow> key_type_post_quantum (keypair_key_type kp)"
    and "tx_chain_id tx = cc_chain_id cfg" and "cc_min_gas_price cfg \<le> tx_gas_price tx" and "tx_gas_limit tx \<noteq> 0"
  shows "\<exists>sg. keypair_sign (env_libs ev) kp (tx_hash (env_sha3 ev) (tx\<lparr>tx_from := victim\<rparr>)) = Ok sg
    \<and> validate_transaction ev cfg \<lparr>stx_transaction = tx\<lparr>tx_from := victim\<rparr>, stx_signature = sg\<rparr> = Ok ()"
proof -
  obtain sg where sg: "keypair_sign (env_libs ev) kp (tx_hash (env_sha3 ev) (tx\<lparr>tx_from := victim\<rparr>)) = Ok sg"
      "verify_signature (env_libs ev) sg (tx_hash (env_sha3 ev) (tx\<lparr>tx_from := victim\<rparr>))"
      "sig_type sg = keypair_key_type kp"
    using keypair_sign_verifies [OF assms(1)] by blast
  have "cc_post_quantum_only cfg \<Longrightarrow> is_signature_post_quantum sg"
    using assms(2) sg(3) by (cases "keypair_key_type kp") (auto simp: is_signature_post_quantum_def)
  with sg assms show ?thesis by (auto simp: validate_transaction_Ok_iff)
qed

theorem sender_not_authenticated_witness:
  "\<exists>sg. validate_transaction toy_env mainnet \<lparr>stx_transaction =
     (transfer_tx address_zero address_zero 100 0 GAS_PRICE_MIN 1)\<lparr>tx_from := \<lparr>addr_type = Standard, addr_bytes = replicate 32 9\<rparr>\<rparr>,
     stx_signature = sg\<rparr> = Ok ()"
  using sender_not_authenticated [of toy_env toy_keypair mainnet "transfer_tx address_zero address_zero 100 0 GAS_PRICE_MIN 1"]
    wf_toy_keypair
  by (auto simp: toy_env_def toy_keypair_def mainnet_def transfer_tx_def GAS_PRICE_MIN_def GAS_TRANSFER_MIN_def)

end
