(* ===== verification/Fry_State.thy ===== *)
theory Fry_State
  imports Fry_Address Fry_Maps
begin

text \<open>
  \<open>frychain-core/src/state.rs\<close>: accounts, the change set of a transaction and the
  in-memory account state. Hash maps are association lists with distinct keys
  (\<open>wf_state\<close>), in an order that stands for the iteration order. The lemmas: every operation
  keeps \<open>wf_state\<close>; a transfer conserves the supply, moves exactly the amount and leaves
  the state alone when it fails; the state root does not depend on the iteration order as long
  as no two accounts share their 32 bytes.
\<close>

record account =
  ac_address :: address
  ac_balance :: token_amount
  ac_nonce :: nonce
  ac_code_hash :: hash256
  ac_storage_root :: hash256
  ac_staked :: token_amount
  ac_device_metadata_hash :: "hash256 option"

definition account_new :: "address \<Rightarrow> account" where
  "account_new a = \<lparr>ac_address = a, ac_balance = 0, ac_nonce = 0, ac_code_hash = hash_zero,
     ac_storage_root = hash_zero, ac_staked = 0, ac_device_metadata_hash = None\<rparr>"

definition account_with_balance :: "address \<Rightarrow> token_amount \<Rightarrow> account" where
  "account_with_balance a b = \<lparr>ac_address = a, ac_balance = b, ac_nonce = 0, ac_code_hash = hash_zero,
     ac_storage_root = hash_zero, ac_staked = 0, ac_device_metadata_hash = None\<rparr>"

definition is_contract :: "account \<Rightarrow> bool" where
  "is_contract a \<longleftrightarrow> \<not> hash_is_zero (ac_code_hash a)"

definition is_device :: "account \<Rightarrow> bool" where
  "is_device a \<longleftrightarrow> ac_device_metadata_hash a \<noteq> None"

definition account_is_empty :: "account \<Rightarrow> bool" where
  "account_is_empty a \<longleftrightarrow> ac_balance a = 0 \<and> ac_nonce a = 0 \<and> hash_is_zero (ac_code_hash a)
     \<and> ac_staked a = 0 \<and> ac_device_metadata_hash a = None"

definition account_preimage :: "account \<Rightarrow> bytes" where
  "account_preimage a =
     addr_bytes (ac_address a) @ le_of_word (ac_balance a) @ le_of_word (ac_nonce a)
     @ ac_code_hash a @ ac_storage_root a @ le_of_word (ac_staked a)
     @ (case ac_device_metadata_hash a of None \<Rightarrow> [] | Some h \<Rightarrow> h)"

definition account_hash :: "hash_fn \<Rightarrow> account \<Rightarrow> hash256" where
  "account_hash sha3 a = sha3 (account_preimage a)"

definition add_balance :: "token_amount \<Rightarrow> account \<Rightarrow> (string, account) outcome" where
  "add_balance amount a =
     bindR (ok_or (checked_add (ac_balance a) amount) ''Balance overflow'') (\<lambda>b. Ok (a\<lparr>ac_balance := b\<rparr>))"

definition sub_balance :: "token_amount \<Rightarrow> account \<Rightarrow> (string, account) outcome" where
  "sub_balance amount a =
     bindR (ok_or (checked_sub (ac_balance a) amount) ''Insufficient balance'') (\<lambda>b. Ok (a\<lparr>ac_balance := b\<rparr>))"

definition increment_nonce :: "account \<Rightarrow> account" where
  "increment_nonce a = a\<lparr>ac_nonce := nonce_increment (ac_nonce a)\<rparr>"

subsection \<open>Change sets\<close>

record state_changes =
  ch_modified_accounts :: "(address \<times> account) list"
  ch_deleted_accounts :: "address list"
  ch_created_contracts :: "(address \<times> bytes) list"
  ch_storage_changes :: "(address \<times> (hash256 \<times> hash256) list) list"

definition changes_new :: state_changes where
  "changes_new = \<lparr>ch_modified_accounts = [], ch_deleted_accounts = [], ch_created_contracts = [],
     ch_storage_changes = []\<rparr>"

definition modify_account :: "account \<Rightarrow> state_changes \<Rightarrow> state_changes" where
  "modify_account a c = c\<lparr>ch_modified_accounts := AList.update (ac_address a) a (ch_modified_accounts c)\<rparr>"

definition delete_account :: "address \<Rightarrow> state_changes \<Rightarrow> state_changes" where
  "delete_account a c =
     c\<lparr>ch_deleted_accounts := ch_deleted_accounts c @ [a],
       ch_modified_accounts := AList.delete a (ch_modified_accounts c)\<rparr>"

definition create_contract :: "address \<Rightarrow> bytes \<Rightarrow> state_changes \<Rightarrow> state_changes" where
  "create_contract a code c = c\<lparr>ch_created_contracts := ch_created_contracts c @ [(a, code)]\<rparr>"

text \<open>\<open>map.entry(a).or_default()\<close> followed by an update of the inner map.\<close>

definition update_inner ::
    "'a \<Rightarrow> (('k \<times> 'v) list \<Rightarrow> ('k \<times> 'v) list) \<Rightarrow> ('a \<times> ('k \<times> 'v) list) list \<Rightarrow> ('a \<times> ('k \<times> 'v) list) list" where
  "update_inner a f m = AList.update a (f (case map_of m a of None \<Rightarrow> [] | Some inner \<Rightarrow> inner)) m"

definition changes_set_storage :: "address \<Rightarrow> hash256 \<Rightarrow> hash256 \<Rightarrow> state_changes \<Rightarrow> state_changes" where
  "changes_set_storage a k v c =
     c\<lparr>ch_storage_changes := update_inner a (AList.update k v) (ch_storage_changes c)\<rparr>"

definition extend_map :: "('k \<times> 'v) list \<Rightarrow> ('k \<times> 'v) list \<Rightarrow> ('k \<times> 'v) list" where
  "extend_map new m = fold (\<lambda>(k, v). AList.update k v) new m"

definition changes_merge :: "state_changes \<Rightarrow> state_changes \<Rightarrow> state_changes" where
  "changes_merge other c =
     c\<lparr>ch_modified_accounts := extend_map (ch_modified_accounts other) (ch_modified_accounts c),
       ch_deleted_accounts := ch_deleted_accounts c @ ch_deleted_accounts other,
       ch_created_contracts := ch_created_contracts c @ ch_created_contracts other,
       ch_storage_changes := fold (\<lambda>(a, changes). update_inner a (extend_map changes))
          (ch_storage_changes other) (ch_storage_changes c)\<rparr>"

definition changes_is_empty :: "state_changes \<Rightarrow> bool" where
  "changes_is_empty c \<longleftrightarrow> ch_modified_accounts c = [] \<and> ch_deleted_accounts c = []
     \<and> ch_created_contracts c = [] \<and> ch_storage_changes c = []"

subsection \<open>The account state\<close>

record account_state =
  st_accounts :: "(address \<times> account) list"
  st_contract_code :: "(address \<times> bytes) list"
  st_contract_storage :: "(address \<times> (hash256 \<times> hash256) list) list"

definition state_new :: account_state where
  "state_new = \<lparr>st_accounts = [], st_contract_code = [], st_contract_storage = []\<rparr>"

definition get_account :: "account_state \<Rightarrow> address \<Rightarrow> account" where
  "get_account s a = (case map_of (st_accounts s) a of None \<Rightarrow> account_new a | Some acc \<Rightarrow> acc)"

definition set_account :: "account \<Rightarrow> account_state \<Rightarrow> account_state" where
  "set_account acc s =
     (if account_is_empty acc
      then s\<lparr>st_accounts := AList.delete (ac_address acc) (st_accounts s)\<rparr>
      else s\<lparr>st_accounts := AList.update (ac_address acc) acc (st_accounts s)\<rparr>)"

definition get_balance :: "account_state \<Rightarrow> address \<Rightarrow> token_amount" where
  "get_balance s a = ac_balance (get_account s a)"

definition get_nonce :: "account_state \<Rightarrow> address \<Rightarrow> nonce" where
  "get_nonce s a = ac_nonce (get_account s a)"

definition transfer :: "address \<Rightarrow> address \<Rightarrow> token_amount \<Rightarrow> (account_state, string, unit) prog" where
  "transfer from to amount s =
     (if from = to then (Ok (), s)
      else
        let from_account = get_account s from;
            to_account = get_account s to
        in case sub_balance amount from_account of
             Err e \<Rightarrow> (Err e, s)
           | Panic \<Rightarrow> (Panic, s)
           | Ok from_account' \<Rightarrow>
               (case add_balance amount to_account of
                  Err e \<Rightarrow> (Err e, s)
                | Panic \<Rightarrow> (Panic, s)
                | Ok to_account' \<Rightarrow> (Ok (), set_account to_account' (set_account from_account' s))))"

definition set_code :: "hash_fn \<Rightarrow> address \<Rightarrow> bytes \<Rightarrow> account_state \<Rightarrow> account_state" where
  "set_code sha3 a code s =
     (let acc = (get_account s a)\<lparr>ac_code_hash := sha3 code\<rparr>;
          s' = set_account acc s
      in s'\<lparr>st_contract_code := AList.update a code (st_contract_code s')\<rparr>)"

definition get_code :: "account_state \<Rightarrow> address \<Rightarrow> bytes option" where
  "get_code s a = map_of (st_contract_code s) a"

definition set_storage :: "address \<Rightarrow> hash256 \<Rightarrow> hash256 \<Rightarrow> account_state \<Rightarrow> account_state" where
  "set_storage a k v s =
     s\<lparr>st_contract_storage := update_inner a (AList.update k v) (st_contract_storage s)\<rparr>"

definition get_storage :: "account_state \<Rightarrow> address \<Rightarrow> hash256 \<Rightarrow> hash256" where
  "get_storage s a k =
     (case map_of (st_contract_storage s) a of
        None \<Rightarrow> hash_zero
      | Some storage \<Rightarrow> (case map_of storage k of None \<Rightarrow> hash_zero | Some v \<Rightarrow> v))"

definition remove_account :: "address \<Rightarrow> account_state \<Rightarrow> account_state" where
  "remove_account a s =
     s\<lparr>st_accounts := AList.delete a (st_accounts s),
       st_contract_code := AList.delete a (st_contract_code s),
       st_contract_storage := AList.delete a (st_contract_storage s)\<rparr>"

definition apply_changes :: "hash_fn \<Rightarrow> state_changes \<Rightarrow> account_state \<Rightarrow> account_state" where
  "apply_changes sha3 c s =
     fold (\<lambda>(a, storage). fold (\<lambda>(k, v). set_storage a k v) storage) (ch_storage_changes c)
       (fold (\<lambda>(a, code). set_code sha3 a code) (ch_created_contracts c)
         (fold remove_account (ch_deleted_accounts c)
           (fold (\<lambda>(a, acc). set_account acc) (ch_modified_accounts c) s)))"

definition root_preimage :: "hash_fn \<Rightarrow> account_state \<Rightarrow> bytes" where
  "root_preimage sha3 s = concat (map
     (\<lambda>a. case map_of (st_accounts s) a of None \<Rightarrow> [] | Some acc \<Rightarrow> account_hash sha3 acc)
     (sort_key addr_bytes (map fst (st_accounts s))))"

definition calculate_root :: "hash_fn \<Rightarrow> account_state \<Rightarrow> hash256" where
  "calculate_root sha3 s = sha3 (root_preimage sha3 s)"

definition account_count :: "account_state \<Rightarrow> nat" where
  "account_count s = length (st_accounts s)"

subsection \<open>Well-formed states\<close>

definition wf_accounts :: "(address \<times> account) list \<Rightarrow> bool" where
  "wf_accounts al \<longleftrightarrow> distinct (map fst al)
     \<and> (\<forall>(a, acc) \<in> set al. ac_address acc = a \<and> \<not> account_is_empty acc)"

definition wf_state :: "account_state \<Rightarrow> bool" where
  "wf_state s \<longleftrightarrow> wf_accounts (st_accounts s) \<and> distinct (map fst (st_contract_code s))
     \<and> distinct (map fst (st_contract_storage s))
     \<and> (\<forall>(a, storage) \<in> set (st_contract_storage s). distinct (map fst storage))"

definition total_supply :: "account_state \<Rightarrow> nat" where
  "total_supply s = total (\<lambda>_ acc. unat (ac_balance acc)) (st_accounts s)"

lemma account_new_simps [simp]:
  "ac_address (account_new a) = a" "ac_balance (account_new a) = 0" "ac_nonce (account_new a) = 0"
  "ac_code_hash (account_new a) = hash_zero" "ac_staked (account_new a) = 0"
  "ac_device_metadata_hash (account_new a) = None"
  by (simp_all add: account_new_def)

lemma account_is_empty_new [simp]: "account_is_empty (account_new a)"
  by (simp add: account_is_empty_def hash_is_zero_def hash_zero_def list_all_length)

lemma add_balance_Ok_iff:
  "add_balance n a = Ok b \<longleftrightarrow> unat (ac_balance a) + unat n < 2 ^ 128 \<and> b = a\<lparr>ac_balance := ac_balance a + n\<rparr>"
  by (auto simp: add_balance_def checked_add_def bindR_Ok_iff)

lemma sub_balance_Ok_iff:
  "sub_balance n a = Ok b \<longleftrightarrow> n \<le> ac_balance a \<and> b = a\<lparr>ac_balance := ac_balance a - n\<rparr>"
  by (auto simp: sub_balance_def checked_sub_def bindR_Ok_iff)

lemma balance_ops_cases:
  "add_balance n a = (if unat (ac_balance a) + unat n < 2 ^ 128 then Ok (a\<lparr>ac_balance := ac_balance a + n\<rparr>)
     else Err ''Balance overflow'')"
  "sub_balance n a = (if n \<le> ac_balance a then Ok (a\<lparr>ac_balance := ac_balance a - n\<rparr>)
     else Err ''Insufficient balance'')"
  by (simp_all add: add_balance_def checked_add_def sub_balance_def checked_sub_def)

lemma wf_accounts_update:
  "wf_accounts al \<Longrightarrow> \<not> account_is_empty acc \<Longrightarrow> wf_accounts (AList.update (ac_address acc) acc al)"
  by (auto simp: wf_accounts_def distinct_update dest!: in_set_update)

lemma wf_accounts_delete: "wf_accounts al \<Longrightarrow> wf_accounts (AList.delete a al)"
  by (auto simp: wf_accounts_def distinct_delete dest!: in_set_delete)

lemma get_account_address: "wf_state s \<Longrightarrow> ac_address (get_account s a) = a"
  by (auto simp: get_account_def wf_state_def wf_accounts_def dest!: map_of_SomeD split: option.splits)

lemma wf_state_new: "wf_state state_new"
  by (simp add: wf_state_def state_new_def wf_accounts_def)

lemma wf_set_account: "wf_state s \<Longrightarrow> wf_state (set_account acc s)"
  by (simp add: wf_state_def set_account_def wf_accounts_update wf_accounts_delete)

lemma wf_update_inner:
  assumes "distinct (map fst m)" and "\<forall>(a, inner) \<in> set m. distinct (map fst inner)"
    and "\<And>inner. distinct (map fst inner) \<Longrightarrow> distinct (map fst (f inner))"
  shows "distinct (map fst (update_inner a f m))
    \<and> (\<forall>(a, inner) \<in> set (update_inner a f m). distinct (map fst inner))"
proof -
  have "distinct (map fst (case map_of m a of None \<Rightarrow> [] | Some inner \<Rightarrow> inner))"
    using assms(2) by (auto dest!: map_of_SomeD split: option.splits)
  with assms show ?thesis
    by (auto simp: update_inner_def distinct_update dest!: in_set_update)
qed

lemma wf_set_storage: "wf_state s \<Longrightarrow> wf_state (set_storage a k v s)"
  using wf_update_inner [of "st_contract_storage s" "AList.update k v" a]
  by (simp add: wf_state_def set_storage_def distinct_update)

lemma wf_set_code: "wf_state s \<Longrightarrow> wf_state (set_code sha3 a code s)"
  using wf_set_account [of s] by (simp add: wf_state_def set_code_def Let_def distinct_update)

lemma wf_remove_account: "wf_state s \<Longrightarrow> wf_state (remove_account a s)"
  by (auto simp: wf_state_def remove_account_def wf_accounts_delete distinct_delete dest!: in_set_delete)

lemma fold_invariant:
  "P s \<Longrightarrow> (\<And>x t. x \<in> set xs \<Longrightarrow> P t \<Longrightarrow> P (f x t)) \<Longrightarrow> P (fold f xs s)"
  by (induction xs arbitrary: s) auto

lemma wf_fold_set_storage: "wf_state s \<Longrightarrow> wf_state (fold (\<lambda>(k, v). set_storage a k v) kvs s)"
  by (rule fold_invariant) (simp_all add: wf_set_storage split: prod.splits)

lemma wf_apply_changes: "wf_state s \<Longrightarrow> wf_state (apply_changes sha3 c s)"
  unfolding apply_changes_def
  apply (rule fold_invariant)
   apply (rule fold_invariant)
    apply (rule fold_invariant)
     apply (rule fold_invariant)
      apply assumption
     apply (simp_all add: wf_set_account wf_remove_account wf_set_code wf_fold_set_storage split: prod.splits)
  done

lemma get_account_set:
  "get_account (set_account acc s) a =
     (if a = ac_address acc then (if account_is_empty acc then account_new a else acc) else get_account s a)"
  by (simp add: get_account_def set_account_def map_of_update_apply map_of_delete_apply)

lemma get_balance_set:
  "get_balance (set_account acc s) a = (if a = ac_address acc then ac_balance acc else get_balance s a)"
  by (simp add: get_balance_def get_account_set account_is_empty_def)

lemma get_nonce_set:
  "get_nonce (set_account acc s) a = (if a = ac_address acc then ac_nonce acc else get_nonce s a)"
  by (simp add: get_nonce_def get_account_set account_is_empty_def)

lemma entry_balance: "entry (\<lambda>_ acc. unat (ac_balance acc)) (st_accounts s) a = unat (get_balance s a)"
  by (simp add: entry_def get_balance_def get_account_def split: option.splits)

lemma balance_le_supply: "unat (get_balance s a) \<le> total_supply s"
  unfolding total_supply_def entry_balance [symmetric] by (rule entry_le_total)

lemma supply_set_account:
  assumes "wf_state s"
  shows "total_supply (set_account acc s) + unat (get_balance s (ac_address acc)) = total_supply s + unat (ac_balance acc)"
proof -
  have d: "distinct (map fst (st_accounts s))" using assms by (simp add: wf_state_def wf_accounts_def)
  have "account_is_empty acc \<Longrightarrow> unat (ac_balance acc) = 0" by (simp add: account_is_empty_def)
  with total_update [OF d, of "\<lambda>_ acc. unat (ac_balance acc)" "ac_address acc" acc]
    total_delete [OF d, of "\<lambda>_ acc. unat (ac_balance acc)" "ac_address acc"]
  show ?thesis by (simp add: total_supply_def set_account_def entry_balance)
qed

subsection \<open>Transfers\<close>

lemma transfer_cases:
  "transfer from to amount s =
     (if from = to then (Ok (), s)
      else if \<not> amount \<le> get_balance s from then (Err ''Insufficient balance'', s)
      else if \<not> unat (get_balance s to) + unat amount < 2 ^ 128 then (Err ''Balance overflow'', s)
      else (Ok (), set_account ((get_account s to)\<lparr>ac_balance := get_balance s to + amount\<rparr>)
                    (set_account ((get_account s from)\<lparr>ac_balance := get_balance s from - amount\<rparr>) s)))"
  by (simp add: transfer_def Let_def balance_ops_cases get_balance_def)

lemma transfer_keeps_wf: "wf_state s \<Longrightarrow> wf_state (snd (transfer from to amount s))"
  by (simp add: transfer_cases wf_set_account)

lemma transfer_supply:
  assumes wf: "wf_state s"
  shows "total_supply (snd (transfer from to amount s)) = total_supply s"
proof (cases "from = to \<or> \<not> amount \<le> get_balance s from
    \<or> \<not> unat (get_balance s to) + unat amount < 2 ^ 128")
  case True
  then show ?thesis by (auto simp: transfer_cases)
next
  case False
  define acc1 where "acc1 = (get_account s from)\<lparr>ac_balance := get_balance s from - amount\<rparr>"
  define s1 where "s1 = set_account acc1 s"
  define acc2 where "acc2 = (get_account s to)\<lparr>ac_balance := get_balance s to + amount\<rparr>"
  have adr: "ac_address acc1 = from" "ac_address acc2 = to"
    using wf by (simp_all add: acc1_def acc2_def get_account_address)
  have bal: "unat (ac_balance acc1) = unat (get_balance s from) - unat amount"
    "unat (ac_balance acc2) = unat (get_balance s to) + unat amount"
    using False by (simp_all add: acc1_def acc2_def unat_sub_no_wrap unat_add_no_wrap)
  have "get_balance s1 to = get_balance s to"
    using False adr by (auto simp: s1_def get_balance_set)
  then have "total_supply (set_account acc2 s1) + unat (get_balance s to) = total_supply s1 + unat (ac_balance acc2)"
    using supply_set_account [of s1 acc2] wf adr by (simp add: s1_def wf_set_account)
  moreover have "total_supply s1 + unat (get_balance s from) = total_supply s + unat (ac_balance acc1)"
    using supply_set_account [OF wf, of acc1] adr by (simp add: s1_def)
  moreover have "unat amount \<le> unat (get_balance s from)" using False by (simp add: word_le_nat_alt)
  ultimately have "total_supply (set_account acc2 s1) = total_supply s" using bal by linarith
  with False show ?thesis by (simp add: transfer_cases acc1_def acc2_def s1_def)
qed

lemma transfer_result:
  assumes "wf_state s" and "transfer from to amount s = (Ok (), s')" and "from \<noteq> to"
  shows "amount \<le> get_balance s from \<and> unat (get_balance s to) + unat amount < 2 ^ 128
    \<and> get_account s' a =
       (if a = from then let acc = (get_account s from)\<lparr>ac_balance := get_balance s from - amount\<rparr>
                         in if account_is_empty acc then account_new from else acc
        else if a = to then let acc = (get_account s to)\<lparr>ac_balance := get_balance s to + amount\<rparr>
                         in if account_is_empty acc then account_new to else acc
        else get_account s a)"
  using assms(2,3)
  by (auto simp: transfer_cases get_account_set get_account_address [OF assms(1)] Let_def
      split: if_splits)

lemma transfer_balances:
  assumes "wf_state s" and "transfer from to amount s = (Ok (), s')" and "from \<noteq> to"
  shows "unat (get_balance s' from) + unat amount = unat (get_balance s from)
    \<and> unat (get_balance s' to) = unat (get_balance s to) + unat amount
    \<and> (\<forall>a. a \<noteq> from \<and> a \<noteq> to \<longrightarrow> get_account s' a = get_account s a)
    \<and> (\<forall>a. get_nonce s' a = get_nonce s a)"
proof -
  note res = transfer_result [OF assms]
  let ?f = "(get_account s from)\<lparr>ac_balance := get_balance s from - amount\<rparr>"
  let ?t = "(get_account s to)\<lparr>ac_balance := get_balance s to + amount\<rparr>"
  have empty: "ac_balance acc = 0 \<and> ac_nonce acc = 0" if "account_is_empty acc" for acc
    using that by (simp add: account_is_empty_def)
  have bal: "get_balance s' from = get_balance s from - amount"
      "get_balance s' to = get_balance s to + amount"
    and non: "get_nonce s' from = get_nonce s from" "get_nonce s' to = get_nonce s to"
    using res [of "from"] res [of "to"] empty [of ?f] empty [of ?t] assms(3)
    by (auto simp: get_balance_def get_nonce_def Let_def split: if_splits)
  have other: "get_account s' a = get_account s a" if "a \<noteq> from" "a \<noteq> to" for a
    using res [of a] that by simp
  have "get_nonce s' a = get_nonce s a" for a
    using non other [of a] by (cases "a = from \<or> a = to") (auto simp: get_nonce_def)
  moreover have "amount \<le> get_balance s from" "unat (get_balance s to) + unat amount < 2 ^ 128"
    using res [of "from"] by simp_all
  ultimately show ?thesis
    using bal other by (simp add: unat_sub_no_wrap unat_add_no_wrap word_le_nat_alt)
qed

lemma transfer_no_panic: "fst (transfer from to amount s) \<noteq> Panic"
  by (simp add: transfer_cases)

subsection \<open>The state root\<close>

text \<open>Sorting by the bytes of the address forgets the iteration order when no two addresses
  have the same bytes.\<close>

lemma filter_singleton: "distinct zs \<Longrightarrow> k \<in> set zs \<Longrightarrow> filter (\<lambda>x. x = k) zs = [k]"
  by (induction zs) (auto simp: filter_empty_conv)

lemma sort_key_determined:
  assumes "distinct xs" and "distinct ys" and "set xs = set ys" and "inj_on f (set xs)"
  shows "sort_key f xs = sort_key f ys"
proof (rule properties_for_sort_key)
  show "mset (sort_key f ys) = mset xs"
    using assms(1-3) set_eq_iff_mset_eq_distinct by fastforce
  fix k
  assume "k \<in> set (sort_key f ys)"
  then have k: "k \<in> set xs" using assms(3) by simp
  have one: "filter (\<lambda>x. f k = f x) zs = [k]" if "distinct zs" "set zs = set xs" for zs
  proof -
    have "filter (\<lambda>x. f k = f x) zs = filter (\<lambda>x. x = k) zs"
      using that assms(4) k by (intro filter_cong) (auto dest: inj_onD)
    with that k show ?thesis by (simp add: filter_singleton)
  qed
  show "filter (\<lambda>x. f k = f x) (sort_key f ys) = filter (\<lambda>x. f k = f x) xs"
    using one [of "sort_key f ys"] one [of xs] assms(1-3) by simp
next
  show "sorted (map f (sort_key f ys))" by simp
qed

lemma root_preimage_determined:
  assumes "wf_state s" and "wf_state t" and "map_of (st_accounts s) = map_of (st_accounts t)"
    and "inj_on addr_bytes (dom (map_of (st_accounts s)))"
  shows "root_preimage sha3 s = root_preimage sha3 t"
proof -
  have "set (map fst (st_accounts s)) = set (map fst (st_accounts t))"
    using assms(3) by (metis dom_map_of_conv_image_fst image_set)
  then have "sort_key addr_bytes (map fst (st_accounts s)) = sort_key addr_bytes (map fst (st_accounts t))"
    using assms by (intro sort_key_determined)
      (simp_all add: wf_state_def wf_accounts_def dom_map_of_conv_image_fst)
  with assms(3) show ?thesis by (simp add: root_preimage_def)
qed

subsection \<open>Properties\<close>

text \<open>C1: Transfers keep the books. From a well-formed state, a transfer leaves a
  well-formed state with the same total supply and never panics. When it succeeds between
  two different addresses the sender had the amount, its balance drops by it and the balance of
  the recipient rises by it, without wrapping, no other account and no nonce changes; when it
  fails the state is unchanged and the reason is a short balance or an overflow.\<close>

theorem transfer_keeps_the_books:
  assumes "wf_state s" and "transfer from to amount s = (r, s')"
  shows "wf_state s' \<and> total_supply s' = total_supply s
    \<and> (r = Ok () \<and> from \<noteq> to \<and> amount \<le> get_balance s from
         \<and> unat (get_balance s' from) + unat amount = unat (get_balance s from)
         \<and> unat (get_balance s' to) = unat (get_balance s to) + unat amount
         \<and> (\<forall>a. a \<noteq> from \<and> a \<noteq> to \<longrightarrow> get_account s' a = get_account s a)
         \<and> (\<forall>a. get_nonce s' a = get_nonce s a)
       \<or> s' = s \<and> r = Ok () \<and> from = to
       \<or> s' = s \<and> r = Err ''Insufficient balance'' \<and> from \<noteq> to \<and> get_balance s from < amount
       \<or> s' = s \<and> r = Err ''Balance overflow'' \<and> from \<noteq> to
           \<and> 2 ^ 128 \<le> unat (get_balance s to) + unat amount)"
proof -
  have "wf_state s'" "total_supply s' = total_supply s"
    using transfer_keeps_wf [OF assms(1)] transfer_supply [OF assms(1)] assms(2) by (metis snd_conv)+
  moreover have "r = Ok () \<and> from \<noteq> to \<and> amount \<le> get_balance s from
      \<or> s' = s \<and> r = Ok () \<and> from = to
      \<or> s' = s \<and> r = Err ''Insufficient balance'' \<and> from \<noteq> to \<and> get_balance s from < amount
      \<or> s' = s \<and> r = Err ''Balance overflow'' \<and> from \<noteq> to
         \<and> 2 ^ 128 \<le> unat (get_balance s to) + unat amount"
    using assms(2) unfolding transfer_cases by (auto simp: not_le not_less split: if_splits)
  ultimately show ?thesis using transfer_balances [OF assms(1)] assms(2) by blast
qed

definition alice :: address where "alice = \<lparr>addr_type = Standard, addr_bytes = replicate 32 1\<rparr>"
definition bob :: address where "bob = \<lparr>addr_type = Contract, addr_bytes = replicate 32 1\<rparr>"

definition two_accounts :: account_state where
  "two_accounts = set_account (account_with_balance bob 5) (set_account (account_with_balance alice 100) state_new)"

lemma wf_two_accounts: "wf_state two_accounts"
  by (simp add: two_accounts_def wf_set_account wf_state_new)

lemma two_accounts_balances:
  "alice \<noteq> bob" "get_balance two_accounts alice = 100" "get_balance two_accounts bob = 5"
  by (simp_all add: two_accounts_def get_balance_set account_with_balance_def alice_def bob_def)

theorem transfer_keeps_the_books_witness:
  "\<exists>s'. transfer alice bob 30 two_accounts = (Ok (), s') \<and> total_supply s' = total_supply two_accounts
     \<and> unat (get_balance s' alice) = 70 \<and> unat (get_balance s' bob) = 35"
proof -
  obtain r s' where t: "transfer alice bob 30 two_accounts = (r, s')" by (cases "transfer alice bob 30 two_accounts")
  have "r = Ok ()" using t by (auto simp: transfer_cases two_accounts_balances split: if_splits)
  with transfer_keeps_the_books [OF wf_two_accounts t] t show ?thesis
    by (auto simp: two_accounts_balances)
qed

text \<open>C9: The state root is canonical: two well-formed states with the same accounts have
  the same root whatever the iteration order of their hash maps, provided that no two accounts
  share their 32 address bytes. The sort ignores the kind of an address, and without the
  proviso the root depends on the iteration order: there are two well-formed states with
  the same accounts whose preimages differ for every hash function that tells the two accounts
  apart.\<close>

theorem state_root_canonical:
  assumes "wf_state s" and "wf_state t" and "map_of (st_accounts s) = map_of (st_accounts t)"
  shows "(inj_on addr_bytes (dom (map_of (st_accounts s))) \<longrightarrow> calculate_root sha3 s = calculate_root sha3 t)
    \<and> (\<exists>u v. wf_state u \<and> wf_state v \<and> map_of (st_accounts u) = map_of (st_accounts v)
        \<and> (\<forall>sha3. account_hash sha3 (get_account u alice) @ account_hash sha3 (get_account u bob)
              \<noteq> account_hash sha3 (get_account u bob) @ account_hash sha3 (get_account u alice)
           \<longrightarrow> root_preimage sha3 u \<noteq> root_preimage sha3 v))"
proof (intro conjI impI)
  assume "inj_on addr_bytes (dom (map_of (st_accounts s)))"
  with root_preimage_determined [OF assms] show "calculate_root sha3 s = calculate_root sha3 t"
    by (simp add: calculate_root_def)
next
  let ?a = "account_with_balance alice 100" and ?b = "account_with_balance bob 5"
  define u where "u = state_new\<lparr>st_accounts := [(alice, ?a), (bob, ?b)]\<rparr>"
  define v where "v = state_new\<lparr>st_accounts := [(bob, ?b), (alice, ?a)]\<rparr>"
  have ne: "alice \<noteq> bob" by (rule two_accounts_balances)
  have "wf_state u" "wf_state v"
    using ne by (auto simp: u_def v_def wf_state_def wf_accounts_def state_new_def account_with_balance_def
        account_is_empty_def)
  moreover have "map_of (st_accounts u) = map_of (st_accounts v)"
    using ne by (auto simp: u_def v_def fun_upd_twist)
  moreover have "root_preimage f u = account_hash f (get_account u alice) @ account_hash f (get_account u bob)"
    and "root_preimage f v = account_hash f (get_account u bob) @ account_hash f (get_account u alice)" for f
    using ne by (simp_all add: root_preimage_def get_account_def u_def v_def alice_def bob_def)
  ultimately show "\<exists>u v. wf_state u \<and> wf_state v \<and> map_of (st_accounts u) = map_of (st_accounts v)
        \<and> (\<forall>sha3. account_hash sha3 (get_account u alice) @ account_hash sha3 (get_account u bob)
              \<noteq> account_hash sha3 (get_account u bob) @ account_hash sha3 (get_account u alice)
           \<longrightarrow> root_preimage sha3 u \<noteq> root_preimage sha3 v)"
    by metis
qed

theorem state_root_canonical_witness:
  "calculate_root id (state_new\<lparr>st_accounts := [(alice, account_with_balance alice 1),
       (address_zero, account_with_balance address_zero 2)]\<rparr>)
   = calculate_root id (state_new\<lparr>st_accounts := [(address_zero, account_with_balance address_zero 2),
       (alice, account_with_balance alice 1)]\<rparr>)"
proof -
  have ne: "alice \<noteq> address_zero" "addr_bytes alice \<noteq> addr_bytes address_zero"
    by (auto simp: alice_def address_zero_def)
  have wf: "wf_state (state_new\<lparr>st_accounts := [(a, account_with_balance a x), (b, account_with_balance b y)]\<rparr>)"
    if "a \<noteq> b" "x \<noteq> 0" "y \<noteq> 0" for a b x y
    using that by (simp add: wf_state_def wf_accounts_def state_new_def account_with_balance_def account_is_empty_def)
  show ?thesis
    by (rule state_root_canonical [THEN conjunct1, THEN mp])
       (use ne in \<open>auto intro!: wf simp: fun_upd_twist inj_on_def\<close>)
qed

end
