(* ===== verification/Fry_Storage.thy ===== *)
theory Fry_Storage
  imports Fry_Validation Fry_State
begin

text \<open>
  \<open>frychain-storage/src\<close>: \<open>db.rs\<close> (the RocksDB wrapper and its batches), \<open>chain.rs\<close>
  (blocks, transactions, receipts) and \<open>state.rs\<close> (accounts, code, contract storage).
  RocksDB, \<open>bincode\<close> and \<open>hex\<close> are parameters: \<open>rocks\<close> over a type \<open>'d\<close> of open
  databases, \<open>codecs\<close> and \<open>hex_codec\<close>. \<open>rocks_laws\<close> says that a database is a map from
  column family and key to bytes, that a write which succeeds does what it says and that one
  which fails changes nothing; any operation may fail. The lemmas: what is stored is read
  back, and nothing else is disturbed.
\<close>

definition CF_HEADERS :: string where "CF_HEADERS = ''headers''"
definition CF_BODIES :: string where "CF_BODIES = ''bodies''"
definition CF_HEIGHT_TO_HASH :: string where "CF_HEIGHT_TO_HASH = ''height_to_hash''"
definition CF_TRANSACTIONS :: string where "CF_TRANSACTIONS = ''transactions''"
definition CF_RECEIPTS :: string where "CF_RECEIPTS = ''receipts''"
definition CF_ACCOUNTS :: string where "CF_ACCOUNTS = ''accounts''"
definition CF_CODE :: string where "CF_CODE = ''code''"
definition CF_STORAGE :: string where "CF_STORAGE = ''storage''"
definition CF_META :: string where "CF_META = ''meta''"
definition CF_DEVICES :: string where "CF_DEVICES = ''devices''"

lemmas cf_names = CF_HEADERS_def CF_BODIES_def CF_HEIGHT_TO_HASH_def CF_TRANSACTIONS_def
  CF_RECEIPTS_def CF_ACCOUNTS_def CF_CODE_def CF_STORAGE_def CF_META_def CF_DEVICES_def

definition ALL_CFS :: "string list" where
  "ALL_CFS = [CF_HEADERS, CF_BODIES, CF_HEIGHT_TO_HASH, CF_TRANSACTIONS, CF_RECEIPTS, CF_ACCOUNTS,
     CF_CODE, CF_STORAGE, CF_META, CF_DEVICES]"

subsection \<open>The external libraries\<close>

datatype wb_op = WbPut string bytes bytes | WbDelete string bytes

record 'd rocks =
  rk_has_cf :: "'d \<Rightarrow> string \<Rightarrow> bool"
  rk_get :: "'d \<Rightarrow> string \<Rightarrow> bytes \<Rightarrow> string + bytes option"
  rk_put :: "string \<Rightarrow> bytes \<Rightarrow> bytes \<Rightarrow> 'd \<Rightarrow> (string + unit) \<times> 'd"
  rk_delete :: "string \<Rightarrow> bytes \<Rightarrow> 'd \<Rightarrow> (string + unit) \<times> 'd"
  rk_write :: "wb_op list \<Rightarrow> 'd \<Rightarrow> (string + unit) \<times> 'd"
  rk_iter :: "'d \<Rightarrow> string \<Rightarrow> (string + bytes \<times> bytes) list"

type_synonym view = "string \<Rightarrow> bytes \<Rightarrow> bytes option"

fun apply_wb :: "wb_op \<Rightarrow> view \<Rightarrow> view" where
  "apply_wb (WbPut cf k v) m = m(cf := (m cf)(k := Some v))"
| "apply_wb (WbDelete cf k) m = m(cf := (m cf)(k := None))"

definition rocks_laws :: "'d rocks \<Rightarrow> ('d \<Rightarrow> view) \<Rightarrow> bool" where
  "rocks_laws rk view \<longleftrightarrow>
     (\<forall>d cf. rk_has_cf rk d cf \<longleftrightarrow> cf \<in> set ALL_CFS)
     \<and> (\<forall>d cf k r. rk_get rk d cf k = Inr r \<longrightarrow> r = view d cf k)
     \<and> (\<forall>d cf k v r d'. rk_put rk cf k v d = (r, d') \<longrightarrow>
          view d' = (case r of Inr _ \<Rightarrow> apply_wb (WbPut cf k v) (view d) | Inl _ \<Rightarrow> view d))
     \<and> (\<forall>d cf k r d'. rk_delete rk cf k d = (r, d') \<longrightarrow>
          view d' = (case r of Inr _ \<Rightarrow> apply_wb (WbDelete cf k) (view d) | Inl _ \<Rightarrow> view d))
     \<and> (\<forall>d ops r d'. rk_write rk ops d = (r, d') \<longrightarrow>
          view d' = (case r of Inr _ \<Rightarrow> fold apply_wb ops (view d) | Inl _ \<Rightarrow> view d))"

text \<open>No operation reports an I/O error.\<close>

definition rocks_reliable :: "'d rocks \<Rightarrow> bool" where
  "rocks_reliable rk \<longleftrightarrow>
     (\<forall>d cf k. isl (rk_get rk d cf k) = False)
     \<and> (\<forall>d cf k v. isl (fst (rk_put rk cf k v d)) = False)
     \<and> (\<forall>d cf k. isl (fst (rk_delete rk cf k d)) = False)
     \<and> (\<forall>d ops. isl (fst (rk_write rk ops d)) = False)"

record 'a codec =
  enc :: "'a \<Rightarrow> string + bytes"
  dec :: "bytes \<Rightarrow> string + 'a"

definition codec_ok :: "'a codec \<Rightarrow> bool" where
  "codec_ok c \<longleftrightarrow> (\<forall>x. \<exists>b. enc c x = Inr b \<and> dec c b = Inr x)"

record block_meta =
  bm_pow_hash :: hash256
  bm_total_difficulty :: u128
  bm_is_canonical :: bool

record tx_location =
  tl_block_hash :: hash256
  tl_block_height :: u64
  tl_tx_index :: u32

record codecs =
  cd_header :: "block_header codec"
  cd_body :: "block_body codec"
  cd_meta :: "block_meta codec"
  cd_location :: "tx_location codec"
  cd_receipt :: "transaction_receipt codec"
  cd_account :: "account codec"

definition codecs_ok :: "codecs \<Rightarrow> bool" where
  "codecs_ok c \<longleftrightarrow> codec_ok (cd_header c) \<and> codec_ok (cd_body c) \<and> codec_ok (cd_meta c)
     \<and> codec_ok (cd_location c) \<and> codec_ok (cd_receipt c) \<and> codec_ok (cd_account c)"

subsection \<open>The database wrapper\<close>

definition with_cf :: "'d rocks \<Rightarrow> string \<Rightarrow> ('d, storage_error, 'a) prog \<Rightarrow> ('d, storage_error, 'a) prog" where
  "with_cf rk cf m = (\<lambda>d. if rk_has_cf rk d cf then m d else (Err (DatabaseError (''CF not found: '' @ cf)), d))"

definition db_get :: "'d rocks \<Rightarrow> string \<Rightarrow> bytes \<Rightarrow> ('d, storage_error, bytes option) prog" where
  "db_get rk cf k = with_cf rk cf (\<lambda>d. (from_sum DatabaseError (rk_get rk d cf k), d))"

definition db_put :: "'d rocks \<Rightarrow> string \<Rightarrow> bytes \<Rightarrow> bytes \<Rightarrow> ('d, storage_error, unit) prog" where
  "db_put rk cf k v = with_cf rk cf (\<lambda>d. case rk_put rk cf k v d of (r, d') \<Rightarrow> (from_sum DatabaseError r, d'))"

definition db_delete :: "'d rocks \<Rightarrow> string \<Rightarrow> bytes \<Rightarrow> ('d, storage_error, unit) prog" where
  "db_delete rk cf k = with_cf rk cf (\<lambda>d. case rk_delete rk cf k d of (r, d') \<Rightarrow> (from_sum DatabaseError r, d'))"

definition db_contains :: "'d rocks \<Rightarrow> string \<Rightarrow> bytes \<Rightarrow> ('d, storage_error, bool) prog" where
  "db_contains rk cf k = bindM (db_get rk cf k) (\<lambda>r. ret (r \<noteq> None))"

datatype batch_op_type = BatchPut | BatchDelete

record batch_op =
  bo_cf_name :: string
  bo_op_type :: batch_op_type
  bo_key :: bytes
  bo_value :: "bytes option"

type_synonym storage_batch = "batch_op list"

definition batch_put :: "string \<Rightarrow> bytes \<Rightarrow> bytes \<Rightarrow> storage_batch \<Rightarrow> storage_batch" where
  "batch_put cf k v b = b @ [\<lparr>bo_cf_name = cf, bo_op_type = BatchPut, bo_key = k, bo_value = Some v\<rparr>]"

definition batch_delete :: "string \<Rightarrow> bytes \<Rightarrow> storage_batch \<Rightarrow> storage_batch" where
  "batch_delete cf k b = b @ [\<lparr>bo_cf_name = cf, bo_op_type = BatchDelete, bo_key = k, bo_value = None\<rparr>]"

text \<open>The translation of a batch; \<open>Panic\<close> is the \<open>unwrap\<close> of a put without a value.\<close>

fun build_write_batch :: "'d rocks \<Rightarrow> 'd \<Rightarrow> storage_batch \<Rightarrow> (storage_error, wb_op list) outcome" where
  "build_write_batch rk d [] = Ok []"
| "build_write_batch rk d (op # ops) =
     (if \<not> rk_has_cf rk d (bo_cf_name op) then Err (DatabaseError (''CF not found: '' @ bo_cf_name op))
      else case bo_op_type op of
          BatchPut \<Rightarrow> (case bo_value op of
              None \<Rightarrow> Panic
            | Some v \<Rightarrow> bindR (build_write_batch rk d ops) (\<lambda>rest. Ok (WbPut (bo_cf_name op) (bo_key op) v # rest)))
        | BatchDelete \<Rightarrow> bindR (build_write_batch rk d ops) (\<lambda>rest. Ok (WbDelete (bo_cf_name op) (bo_key op) # rest)))"

definition db_write_batch :: "'d rocks \<Rightarrow> storage_batch \<Rightarrow> ('d, storage_error, unit) prog" where
  "db_write_batch rk batch = (\<lambda>d.
     case build_write_batch rk d batch of
       Ok wb \<Rightarrow> (case rk_write rk wb d of (r, d') \<Rightarrow> (from_sum DatabaseError r, d'))
     | Err e \<Rightarrow> (Err e, d)
     | Panic \<Rightarrow> (Panic, d))"

fun collect_items :: "(string + bytes \<times> bytes) list \<Rightarrow> (storage_error, (bytes \<times> bytes) list) outcome" where
  "collect_items [] = Ok []"
| "collect_items (item # items) =
     bindR (from_sum DatabaseError item) (\<lambda>kv. bindR (collect_items items) (\<lambda>rest. Ok (kv # rest)))"

definition db_iter :: "'d rocks \<Rightarrow> string \<Rightarrow> ('d, storage_error, (bytes \<times> bytes) list) prog" where
  "db_iter rk cf = with_cf rk cf (\<lambda>d. (collect_items (rk_iter rk d cf), d))"

subsection \<open>Blocks and transactions\<close>

record 'd store_env =
  se_rocks :: "'d rocks"
  se_codecs :: codecs
  se_hex :: hex_codec
  se_sha3 :: hash_fn

definition serialize :: "'a codec \<Rightarrow> 'a \<Rightarrow> (storage_error, bytes) outcome" where
  "serialize c x = from_sum StorageSerializationError (enc c x)"

definition deserialize :: "'a codec \<Rightarrow> bytes \<Rightarrow> (storage_error, 'a) outcome" where
  "deserialize c b = from_sum StorageDeserializationError (dec c b)"

definition meta_key :: "hex_codec \<Rightarrow> hash256 \<Rightarrow> bytes" where
  "meta_key hx h = str_bytes (''block:'' @ hash_to_hex hx h)"

fun put_locations ::
    "'d store_env \<Rightarrow> hash256 \<Rightarrow> u64 \<Rightarrow> nat \<Rightarrow> signed_transaction list \<Rightarrow> storage_batch \<Rightarrow> (storage_error, storage_batch) outcome" where
  "put_locations se bh height idx [] batch = Ok batch"
| "put_locations se bh height idx (tx # txs) batch =
     bindR (serialize (cd_location (se_codecs se))
              \<lparr>tl_block_hash = bh, tl_block_height = height, tl_tx_index = word_of_nat idx\<rparr>) (\<lambda>loc_bytes.
     put_locations se bh height (Suc idx) txs
       (batch_put CF_TRANSACTIONS (signed_tx_hash (se_sha3 se) tx) loc_bytes batch))"

definition build_block_batch :: "'d store_env \<Rightarrow> stored_block \<Rightarrow> (storage_error, storage_batch) outcome" where
  "build_block_batch se sb =
     (let b = sb_block sb; h = block_hash (se_sha3 se) b; height = bh_height (b_header b) in
     bindR (serialize (cd_header (se_codecs se)) (b_header b)) (\<lambda>header_bytes.
     let batch1 = batch_put CF_HEADERS h header_bytes [] in
     bindR (serialize (cd_body (se_codecs se)) (b_body b)) (\<lambda>body_bytes.
     let batch2 = batch_put CF_BODIES h body_bytes batch1;
         batch3 = (if sb_is_canonical sb then batch_put CF_HEIGHT_TO_HASH (be_of_word height) h batch2 else batch2) in
     bindR (serialize (cd_meta (se_codecs se))
              \<lparr>bm_pow_hash = sb_pow_hash sb, bm_total_difficulty = sb_total_difficulty sb,
               bm_is_canonical = sb_is_canonical sb\<rparr>) (\<lambda>meta_bytes.
     put_locations se h height 0 (bb_transactions (b_body b))
       (batch_put CF_META (meta_key (se_hex se) h) meta_bytes batch3)))))"

definition put_block :: "'d store_env \<Rightarrow> stored_block \<Rightarrow> ('d, storage_error, unit) prog" where
  "put_block se sb = bindM (lift_out (build_block_batch se sb)) (db_write_batch (se_rocks se))"

text \<open>Reading a value: \<open>match self.db.get(..)? { Some(b) => b, None => return Ok(None) }\<close>
  followed by the decoding of the bytes.\<close>

definition get_decoded ::
    "'d rocks \<Rightarrow> string \<Rightarrow> bytes \<Rightarrow> (bytes \<Rightarrow> (storage_error, 'a) outcome) \<Rightarrow> ('d, storage_error, 'a option) prog" where
  "get_decoded rk cf k decode = bindM (db_get rk cf k) (\<lambda>r.
     case r of None \<Rightarrow> ret None | Some b \<Rightarrow> bindM (lift_out (decode b)) (\<lambda>x. ret (Some x)))"

definition get_header :: "'d store_env \<Rightarrow> hash256 \<Rightarrow> ('d, storage_error, block_header option) prog" where
  "get_header se h = get_decoded (se_rocks se) CF_HEADERS h (deserialize (cd_header (se_codecs se)))"

definition get_block :: "'d store_env \<Rightarrow> hash256 \<Rightarrow> ('d, storage_error, block option) prog" where
  "get_block se h = bindM (get_header se h) (\<lambda>hd.
     case hd of None \<Rightarrow> ret None
     | Some header \<Rightarrow> bindM (db_get (se_rocks se) CF_BODIES h) (\<lambda>bd.
         case bd of None \<Rightarrow> ret None
         | Some body_bytes \<Rightarrow> bindM (lift_out (deserialize (cd_body (se_codecs se)) body_bytes)) (\<lambda>body.
             ret (Some \<lparr>b_header = header, b_body = body\<rparr>))))"

definition get_block_meta :: "'d store_env \<Rightarrow> hash256 \<Rightarrow> ('d, storage_error, block_meta option) prog" where
  "get_block_meta se h =
     get_decoded (se_rocks se) CF_META (meta_key (se_hex se) h) (deserialize (cd_meta (se_codecs se)))"

definition get_stored_block :: "'d store_env \<Rightarrow> hash256 \<Rightarrow> ('d, storage_error, stored_block option) prog" where
  "get_stored_block se h = bindM (get_block se h) (\<lambda>bo.
     case bo of None \<Rightarrow> ret None
     | Some b \<Rightarrow> bindM (get_block_meta se h) (\<lambda>mo.
         case mo of None \<Rightarrow> ret None
         | Some m \<Rightarrow> ret (Some \<lparr>sb_block = b, sb_pow_hash = bm_pow_hash m,
                          sb_total_difficulty = bm_total_difficulty m, sb_is_canonical = bm_is_canonical m\<rparr>)))"

definition decode_hash :: "string \<Rightarrow> bytes \<Rightarrow> (storage_error, hash256) outcome" where
  "decode_hash msg b = (if length b \<noteq> 32 then Err (StorageDeserializationError msg) else Ok b)"

definition get_hash_by_height :: "'d store_env \<Rightarrow> block_height \<Rightarrow> ('d, storage_error, hash256 option) prog" where
  "get_hash_by_height se height =
     get_decoded (se_rocks se) CF_HEIGHT_TO_HASH (be_of_word height) (decode_hash ''Invalid hash length'')"

definition get_block_by_height :: "'d store_env \<Rightarrow> block_height \<Rightarrow> ('d, storage_error, block option) prog" where
  "get_block_by_height se height = bindM (get_hash_by_height se height) (\<lambda>ho.
     case ho of None \<Rightarrow> ret None | Some h \<Rightarrow> get_block se h)"

definition store_has_block :: "'d store_env \<Rightarrow> hash256 \<Rightarrow> ('d, storage_error, bool) prog" where
  "store_has_block se h = db_contains (se_rocks se) CF_HEADERS h"

definition get_tx_location :: "'d store_env \<Rightarrow> hash256 \<Rightarrow> ('d, storage_error, tx_location option) prog" where
  "get_tx_location se h = get_decoded (se_rocks se) CF_TRANSACTIONS h (deserialize (cd_location (se_codecs se)))"

definition get_transaction :: "'d store_env \<Rightarrow> hash256 \<Rightarrow> ('d, storage_error, signed_transaction option) prog" where
  "get_transaction se h = bindM (get_tx_location se h) (\<lambda>lo.
     case lo of None \<Rightarrow> ret None
     | Some loc \<Rightarrow> bindM (get_block se (tl_block_hash loc)) (\<lambda>bo.
         case bo of None \<Rightarrow> ret None
         | Some b \<Rightarrow>
             (let txs = bb_transactions (b_body b); i = unat (tl_tx_index loc)
              in if i < length txs then ret (Some (txs ! i))
                 else fail (TransactionNotFound (hash_to_hex (se_hex se) h)))))"

definition put_receipt :: "'d store_env \<Rightarrow> hash256 \<Rightarrow> transaction_receipt \<Rightarrow> ('d, storage_error, unit) prog" where
  "put_receipt se h r = bindM (lift_out (serialize (cd_receipt (se_codecs se)) r)) (\<lambda>b.
     db_put (se_rocks se) CF_RECEIPTS h b)"

definition get_receipt :: "'d store_env \<Rightarrow> hash256 \<Rightarrow> ('d, storage_error, transaction_receipt option) prog" where
  "get_receipt se h = get_decoded (se_rocks se) CF_RECEIPTS h (deserialize (cd_receipt (se_codecs se)))"

definition decode_height :: "bytes \<Rightarrow> (storage_error, block_height) outcome" where
  "decode_height b = (if length b \<noteq> 8 then Err (StorageDeserializationError ''Invalid height encoding'')
     else Ok (word_of_nat (be_nat b)))"

definition get_latest_height :: "'d store_env \<Rightarrow> ('d, storage_error, block_height option) prog" where
  "get_latest_height se = get_decoded (se_rocks se) CF_META (str_bytes ''latest_height'') decode_height"

definition set_latest_height :: "'d store_env \<Rightarrow> block_height \<Rightarrow> ('d, storage_error, unit) prog" where
  "set_latest_height se height = db_put (se_rocks se) CF_META (str_bytes ''latest_height'') (be_of_word height)"

definition get_latest_hash :: "'d store_env \<Rightarrow> ('d, storage_error, hash256 option) prog" where
  "get_latest_hash se = bindM (get_latest_height se) (\<lambda>ho.
     case ho of None \<Rightarrow> ret None | Some height \<Rightarrow> get_hash_by_height se height)"

definition get_genesis_hash :: "'d store_env \<Rightarrow> ('d, storage_error, hash256 option) prog" where
  "get_genesis_hash se = get_hash_by_height se 0"

definition get_total_difficulty :: "'d store_env \<Rightarrow> hash256 \<Rightarrow> ('d, storage_error, u128 option) prog" where
  "get_total_difficulty se h = bindM (get_block_meta se h) (\<lambda>mo. ret (map_option bm_total_difficulty mo))"

subsection \<open>Accounts, code and contract storage\<close>

definition storage_key :: "address \<Rightarrow> hash256 \<Rightarrow> bytes" where
  "storage_key a k = addr_bytes a @ k"

definition store_get_account :: "'d store_env \<Rightarrow> address \<Rightarrow> ('d, storage_error, account option) prog" where
  "store_get_account se a = get_decoded (se_rocks se) CF_ACCOUNTS (addr_bytes a) (deserialize (cd_account (se_codecs se)))"

definition store_put_account :: "'d store_env \<Rightarrow> account \<Rightarrow> ('d, storage_error, unit) prog" where
  "store_put_account se acc = bindM (lift_out (serialize (cd_account (se_codecs se)) acc)) (\<lambda>b.
     db_put (se_rocks se) CF_ACCOUNTS (addr_bytes (ac_address acc)) b)"

definition store_delete_account :: "'d store_env \<Rightarrow> address \<Rightarrow> ('d, storage_error, unit) prog" where
  "store_delete_account se a = db_delete (se_rocks se) CF_ACCOUNTS (addr_bytes a)"

definition store_has_account :: "'d store_env \<Rightarrow> address \<Rightarrow> ('d, storage_error, bool) prog" where
  "store_has_account se a = db_contains (se_rocks se) CF_ACCOUNTS (addr_bytes a)"

definition store_get_code :: "'d store_env \<Rightarrow> address \<Rightarrow> ('d, storage_error, bytes option) prog" where
  "store_get_code se a = db_get (se_rocks se) CF_CODE (addr_bytes a)"

definition store_put_code :: "'d store_env \<Rightarrow> address \<Rightarrow> bytes \<Rightarrow> ('d, storage_error, unit) prog" where
  "store_put_code se a code = db_put (se_rocks se) CF_CODE (addr_bytes a) code"

definition store_get_code_hash :: "'d store_env \<Rightarrow> address \<Rightarrow> ('d, storage_error, hash256 option) prog" where
  "store_get_code_hash se a = bindM (store_get_account se a) (\<lambda>ao.
     ret (case ao of Some acc \<Rightarrow> if \<not> hash_is_zero (ac_code_hash acc) then Some (ac_code_hash acc) else None
        | None \<Rightarrow> None))"

definition store_get_storage :: "'d store_env \<Rightarrow> address \<Rightarrow> hash256 \<Rightarrow> ('d, storage_error, hash256 option) prog" where
  "store_get_storage se a k =
     get_decoded (se_rocks se) CF_STORAGE (storage_key a k) (decode_hash ''Invalid storage value length'')"

definition store_put_storage :: "'d store_env \<Rightarrow> address \<Rightarrow> hash256 \<Rightarrow> hash256 \<Rightarrow> ('d, storage_error, unit) prog" where
  "store_put_storage se a k v = db_put (se_rocks se) CF_STORAGE (storage_key a k) v"

definition store_delete_storage :: "'d store_env \<Rightarrow> address \<Rightarrow> hash256 \<Rightarrow> ('d, storage_error, unit) prog" where
  "store_delete_storage se a k = db_delete (se_rocks se) CF_STORAGE (storage_key a k)"

fun batch_accounts :: "'d store_env \<Rightarrow> (address \<times> account) list \<Rightarrow> storage_batch \<Rightarrow> (storage_error, storage_batch) outcome" where
  "batch_accounts se [] batch = Ok batch"
| "batch_accounts se ((_, acc) # rest) batch =
     bindR (serialize (cd_account (se_codecs se)) acc) (\<lambda>b.
     batch_accounts se rest (batch_put CF_ACCOUNTS (addr_bytes (ac_address acc)) b batch))"

definition batch_storage :: "address \<Rightarrow> (hash256 \<times> hash256) list \<Rightarrow> storage_batch \<Rightarrow> storage_batch" where
  "batch_storage a storage batch = fold (\<lambda>(k, v) b.
     if hash_is_zero v then batch_delete CF_STORAGE (storage_key a k) b
     else batch_put CF_STORAGE (storage_key a k) v b) storage batch"

definition build_changes_batch :: "'d store_env \<Rightarrow> state_changes \<Rightarrow> (storage_error, storage_batch) outcome" where
  "build_changes_batch se c =
     bindR (batch_accounts se (ch_modified_accounts c) []) (\<lambda>b1.
     let b2 = fold (\<lambda>a b. batch_delete CF_ACCOUNTS (addr_bytes a) b) (ch_deleted_accounts c) b1;
         b3 = fold (\<lambda>(a, code) b. batch_put CF_CODE (addr_bytes a) code b) (ch_created_contracts c) b2;
         b4 = fold (\<lambda>(a, storage). batch_storage a storage) (ch_storage_changes c) b3
     in Ok b4)"

definition store_apply_changes :: "'d store_env \<Rightarrow> state_changes \<Rightarrow> ('d, storage_error, unit) prog" where
  "store_apply_changes se c = bindM (lift_out (build_changes_batch se c)) (db_write_batch (se_rocks se))"

definition get_state_root :: "'d store_env \<Rightarrow> ('d, storage_error, hash256 option) prog" where
  "get_state_root se = get_decoded (se_rocks se) CF_META (str_bytes ''state_root'') (decode_hash ''Invalid state root length'')"

definition set_state_root :: "'d store_env \<Rightarrow> hash256 \<Rightarrow> ('d, storage_error, unit) prog" where
  "set_state_root se root = db_put (se_rocks se) CF_META (str_bytes ''state_root'') root"

fun decode_accounts :: "'d store_env \<Rightarrow> (bytes \<times> bytes) list \<Rightarrow> (storage_error, account list) outcome" where
  "decode_accounts se [] = Ok []"
| "decode_accounts se ((_, v) # rest) =
     bindR (deserialize (cd_account (se_codecs se)) v) (\<lambda>acc.
     bindR (decode_accounts se rest) (\<lambda>accs. Ok (acc # accs)))"

definition get_all_accounts :: "'d store_env \<Rightarrow> ('d, storage_error, account list) prog" where
  "get_all_accounts se = bindM (db_iter (se_rocks se) CF_ACCOUNTS) (\<lambda>entries. lift_out (decode_accounts se entries))"

definition store_account_count :: "'d store_env \<Rightarrow> ('d, storage_error, nat) prog" where
  "store_account_count se = bindM (db_iter (se_rocks se) CF_ACCOUNTS) (\<lambda>entries. ret (length entries))"

subsection \<open>Reading what was written\<close>

definition se_ok :: "'d store_env \<Rightarrow> ('d \<Rightarrow> view) \<Rightarrow> bool" where
  "se_ok se view \<longleftrightarrow> rocks_laws (se_rocks se) view \<and> rocks_reliable (se_rocks se)
     \<and> codecs_ok (se_codecs se) \<and> hex_laws (se_hex se) \<and> hash_fn_ok (se_sha3 se)"

definition encb :: "'a codec \<Rightarrow> 'a \<Rightarrow> bytes" where
  "encb c x = (case enc c x of Inr b \<Rightarrow> b | Inl _ \<Rightarrow> [])"

lemma codec_roundtrip:
  assumes "codec_ok c"
  shows "serialize c x = Ok (encb c x)" "deserialize c (encb c x) = Ok x"
proof -
  obtain b where "enc c x = Inr b" "dec c b = Inr x" using assms unfolding codec_ok_def by blast
  then show "serialize c x = Ok (encb c x)" "deserialize c (encb c x) = Ok x"
    by (simp_all add: serialize_def deserialize_def encb_def)
qed

lemma rocks_lawsD:
  assumes "rocks_laws rk view"
  shows "rk_has_cf rk d cf \<longleftrightarrow> cf \<in> set ALL_CFS"
    and "rk_get rk d cf k = Inr r \<Longrightarrow> r = view d cf k"
    and "rk_put rk cf k v d = (x, d') \<Longrightarrow>
      view d' = (case x of Inr _ \<Rightarrow> apply_wb (WbPut cf k v) (view d) | Inl _ \<Rightarrow> view d)"
    and "rk_write rk ops d = (x, d') \<Longrightarrow>
      view d' = (case x of Inr _ \<Rightarrow> fold apply_wb ops (view d) | Inl _ \<Rightarrow> view d)"
  using assms unfolding rocks_laws_def by (elim conjE, metis)+

lemma db_get_ok:
  assumes "rocks_laws rk view" and "rocks_reliable rk" and "cf \<in> set ALL_CFS"
  shows "db_get rk cf k d = (Ok (view d cf k), d)"
proof -
  have "\<not> isl (rk_get rk d cf k)" using assms(2) by (simp add: rocks_reliable_def)
  then obtain r where r: "rk_get rk d cf k = Inr r" by (cases "rk_get rk d cf k") auto
  then have "r = view d cf k" and "rk_has_cf rk d cf"
    using rocks_lawsD(1,2) [OF assms(1)] assms(3) by blast+
  with r show ?thesis by (simp add: db_get_def with_cf_def)
qed

lemma db_put_view:
  assumes "rocks_laws rk view" and "cf \<in> set ALL_CFS" and "db_put rk cf k v d = (r, d')"
  shows "(r = Ok () \<and> view d' = apply_wb (WbPut cf k v) (view d))
    \<or> (\<exists>e. r = Err (DatabaseError e) \<and> view d' = view d)"
proof -
  obtain x where x: "rk_put rk cf k v d = (x, d')" "r = from_sum DatabaseError x"
    using assms(2,3) rocks_lawsD(1) [OF assms(1)] by (auto simp: db_put_def with_cf_def split: prod.splits)
  with rocks_lawsD(3) [OF assms(1) x(1)] show ?thesis by (cases x) auto
qed

lemma db_put_ok:
  assumes "rocks_laws rk view" and "rocks_reliable rk" and "cf \<in> set ALL_CFS"
  shows "\<exists>d'. db_put rk cf k v d = (Ok (), d') \<and> view d' = apply_wb (WbPut cf k v) (view d)"
proof -
  have "\<not> isl (fst (rk_put rk cf k v d))" and "rk_has_cf rk d cf"
    using assms(2,3) rocks_lawsD(1) [OF assms(1)] by (simp_all add: rocks_reliable_def)
  then obtain d' where "rk_put rk cf k v d = (Inr (), d')" by (cases "rk_put rk cf k v d"; cases "fst (rk_put rk cf k v d)") auto
  then have "db_put rk cf k v d = (Ok (), d')" using \<open>rk_has_cf rk d cf\<close> by (simp add: db_put_def with_cf_def)
  with db_put_view [OF assms(1,3) this] show ?thesis by auto
qed

fun op_ok :: "batch_op \<Rightarrow> bool" where
  "op_ok op \<longleftrightarrow> bo_cf_name op \<in> set ALL_CFS \<and> (bo_op_type op = BatchPut \<longrightarrow> bo_value op \<noteq> None)"

definition wb_of :: "batch_op \<Rightarrow> wb_op" where
  "wb_of op = (case bo_op_type op of
     BatchPut \<Rightarrow> WbPut (bo_cf_name op) (bo_key op) (the (bo_value op)) | BatchDelete \<Rightarrow> WbDelete (bo_cf_name op) (bo_key op))"

lemma build_write_batch_ok:
  assumes "rocks_laws rk view"
  shows "list_all op_ok ops \<Longrightarrow> build_write_batch rk d ops = Ok (map wb_of ops)"
proof (induction ops)
  case (Cons op ops)
  then have "rk_has_cf rk d (bo_cf_name op)" by (simp add: rocks_lawsD(1) [OF assms])
  with Cons show ?case by (auto simp: wb_of_def split: batch_op_type.splits)
qed simp

lemma db_write_batch_view:
  assumes "rocks_laws rk view" and "list_all op_ok ops" and "db_write_batch rk ops d = (r, d')"
  shows "(r = Ok () \<and> view d' = fold apply_wb (map wb_of ops) (view d)) \<or> (\<exists>e. r = Err e \<and> view d' = view d)"
proof -
  obtain x where x: "rk_write rk (map wb_of ops) d = (x, d')" "r = from_sum DatabaseError x"
    using assms(3) build_write_batch_ok [OF assms(1,2)] by (auto simp: db_write_batch_def split: prod.splits)
  with rocks_lawsD(4) [OF assms(1) x(1)] show ?thesis by (cases x) auto
qed

lemma db_write_batch_ok:
  assumes "rocks_laws rk view" and "rocks_reliable rk" and "list_all op_ok ops"
  shows "\<exists>d'. db_write_batch rk ops d = (Ok (), d') \<and> view d' = fold apply_wb (map wb_of ops) (view d)"
proof -
  have "\<not> isl (fst (rk_write rk (map wb_of ops) d))" using assms(2) by (simp add: rocks_reliable_def)
  then obtain d' where "rk_write rk (map wb_of ops) d = (Inr (), d')"
    by (cases "rk_write rk (map wb_of ops) d"; cases "fst (rk_write rk (map wb_of ops) d)") auto
  then have "db_write_batch rk ops d = (Ok (), d')"
    using build_write_batch_ok [OF assms(1,3)] by (simp add: db_write_batch_def)
  with db_write_batch_view [OF assms(1,3) this] show ?thesis by auto
qed

definition put_op :: "string \<Rightarrow> bytes \<Rightarrow> bytes \<Rightarrow> batch_op" where
  "put_op cf k v = \<lparr>bo_cf_name = cf, bo_op_type = BatchPut, bo_key = k, bo_value = Some v\<rparr>"

lemma put_op_simps [simp]:
  "batch_put cf k v b = b @ [put_op cf k v]" "wb_of (put_op cf k v) = WbPut cf k v"
  "op_ok (put_op cf k v) \<longleftrightarrow> cf \<in> set ALL_CFS"
  by (simp_all add: batch_put_def put_op_def wb_of_def)

definition location_ops :: "'d store_env \<Rightarrow> hash256 \<Rightarrow> u64 \<Rightarrow> nat \<Rightarrow> signed_transaction list \<Rightarrow> batch_op list" where
  "location_ops se bh height idx txs = map (\<lambda>(i, tx). put_op CF_TRANSACTIONS (signed_tx_hash (se_sha3 se) tx)
      (encb (cd_location (se_codecs se)) \<lparr>tl_block_hash = bh, tl_block_height = height, tl_tx_index = word_of_nat i\<rparr>))
     (List.enumerate idx txs)"

lemma put_locations_ok:
  assumes "codecs_ok (se_codecs se)"
  shows "put_locations se bh height idx txs batch = Ok (batch @ location_ops se bh height idx txs)"
proof (induction txs arbitrary: idx batch)
  case (Cons tx txs)
  have "codec_ok (cd_location (se_codecs se))" using assms by (simp add: codecs_ok_def)
  then show ?case using Cons by (simp add: codec_roundtrip location_ops_def)
qed (simp add: location_ops_def)

definition block_ops :: "'d store_env \<Rightarrow> stored_block \<Rightarrow> batch_op list" where
  "block_ops se sb = (let b = sb_block sb; h = block_hash (se_sha3 se) b; cs = se_codecs se in
     [put_op CF_HEADERS h (encb (cd_header cs) (b_header b)), put_op CF_BODIES h (encb (cd_body cs) (b_body b))]
     @ (if sb_is_canonical sb then [put_op CF_HEIGHT_TO_HASH (be_of_word (bh_height (b_header b))) h] else [])
     @ [put_op CF_META (meta_key (se_hex se) h) (encb (cd_meta cs) \<lparr>bm_pow_hash = sb_pow_hash sb,
          bm_total_difficulty = sb_total_difficulty sb, bm_is_canonical = sb_is_canonical sb\<rparr>)]
     @ location_ops se h (bh_height (b_header b)) 0 (bb_transactions (b_body b)))"

lemma build_block_batch_ok:
  assumes "codecs_ok (se_codecs se)"
  shows "build_block_batch se sb = Ok (block_ops se sb)"
proof -
  have "codec_ok (cd_header (se_codecs se))" "codec_ok (cd_body (se_codecs se))" "codec_ok (cd_meta (se_codecs se))"
    using assms by (simp_all add: codecs_ok_def)
  then show ?thesis
    by (simp add: build_block_batch_def Let_def codec_roundtrip put_locations_ok [OF assms] block_ops_def)
qed

lemma block_ops_ok: "list_all op_ok (block_ops se sb)"
  by (auto simp: block_ops_def Let_def location_ops_def list_all_iff ALL_CFS_def simp del: op_ok.simps)

text \<open>The effect of the location entries on the view.\<close>

lemma apply_locations_other:
  "cf \<noteq> CF_TRANSACTIONS \<Longrightarrow> fold apply_wb (map wb_of (location_ops se bh height idx txs)) m cf = m cf"
  by (induction txs arbitrary: idx m) (auto simp: location_ops_def)

lemma apply_locations_miss:
  "k \<notin> signed_tx_hash (se_sha3 se) ` set txs \<Longrightarrow>
   fold apply_wb (map wb_of (location_ops se bh height idx txs)) m CF_TRANSACTIONS k = m CF_TRANSACTIONS k"
  by (induction txs arbitrary: idx m) (auto simp: location_ops_def)

lemma apply_locations_hit:
  "i < length txs \<Longrightarrow> distinct (map (signed_tx_hash (se_sha3 se)) txs) \<Longrightarrow>
   fold apply_wb (map wb_of (location_ops se bh height idx txs)) m CF_TRANSACTIONS (signed_tx_hash (se_sha3 se) (txs ! i))
     = Some (encb (cd_location (se_codecs se))
         \<lparr>tl_block_hash = bh, tl_block_height = height, tl_tx_index = word_of_nat (idx + i)\<rparr>)"
proof (induction txs arbitrary: idx m i)
  case (Cons tx txs)
  show ?case
  proof (cases i)
    case 0
    have "signed_tx_hash (se_sha3 se) tx \<notin> signed_tx_hash (se_sha3 se) ` set txs" using Cons.prems by auto
    from apply_locations_miss [OF this] show ?thesis using 0 by (simp add: location_ops_def)
  next
    case (Suc j)
    have "fold apply_wb (map wb_of (location_ops se bh height (Suc idx) txs)) m' CF_TRANSACTIONS
        (signed_tx_hash (se_sha3 se) (txs ! j)) = Some (encb (cd_location (se_codecs se))
         \<lparr>tl_block_hash = bh, tl_block_height = height, tl_tx_index = word_of_nat (Suc idx + j)\<rparr>)" for m'
      using Cons.prems Suc by (intro Cons.IH) simp_all
    with Suc show ?thesis by (simp add: location_ops_def add_ac)
  qed
qed simp

lemma hash_to_hex_inject: "hex_laws hx \<Longrightarrow> hash_to_hex hx h = hash_to_hex hx g \<longleftrightarrow> h = g"
  unfolding hex_laws_def hash_to_hex_def same_append_eq by (metis sum.inject(2))

lemma meta_key_inject: "hex_laws hx \<Longrightarrow> meta_key hx h = meta_key hx g \<longleftrightarrow> h = g"
  by (simp add: meta_key_def hash_to_hex_inject)

lemma meta_key_other: "meta_key hx h \<noteq> str_bytes ''latest_height''" "meta_key hx h \<noteq> str_bytes ''state_root''"
  by (simp_all add: meta_key_def)

text \<open>The view after a block has been stored.\<close>

definition block_view :: "'d store_env \<Rightarrow> stored_block \<Rightarrow> view \<Rightarrow> view" where
  "block_view se sb m = fold apply_wb (map wb_of (block_ops se sb)) m"

lemma put_block_ok:
  assumes "se_ok se view"
  shows "\<exists>d'. put_block se sb d = (Ok (), d') \<and> view d' = block_view se sb (view d)"
  using db_write_batch_ok [of "se_rocks se" view "block_ops se sb" d] block_ops_ok [of se sb] assms
  by (simp add: put_block_def outcome_simps build_block_batch_ok se_ok_def block_view_def)

lemma block_view_at:
  shows "block_view se sb m CF_HEADERS k = (if k = block_hash (se_sha3 se) (sb_block sb) then Some (encb (cd_header (se_codecs se)) (b_header (sb_block sb)))
      else m CF_HEADERS k)"
    and "block_view se sb m CF_BODIES k = (if k = block_hash (se_sha3 se) (sb_block sb) then Some (encb (cd_body (se_codecs se)) (b_body (sb_block sb)))
      else m CF_BODIES k)"
    and "block_view se sb m CF_HEIGHT_TO_HASH k = (if sb_is_canonical sb \<and> k = be_of_word (bh_height (b_header (sb_block sb)))
      then Some (block_hash (se_sha3 se) (sb_block sb)) else m CF_HEIGHT_TO_HASH k)"
    and "block_view se sb m CF_META k = (if k = meta_key (se_hex se) (block_hash (se_sha3 se) (sb_block sb))
      then Some (encb (cd_meta (se_codecs se)) \<lparr>bm_pow_hash = sb_pow_hash sb,
          bm_total_difficulty = sb_total_difficulty sb, bm_is_canonical = sb_is_canonical sb\<rparr>)
      else m CF_META k)"
  by (auto simp: block_view_def block_ops_def Let_def apply_locations_other cf_names)

text \<open>Reads as functions of the view.\<close>

definition decoded :: "bytes option \<Rightarrow> (bytes \<Rightarrow> ('e, 'a) outcome) \<Rightarrow> ('e, 'a option) outcome" where
  "decoded v f = (case v of None \<Rightarrow> Ok None | Some b \<Rightarrow> bindR (f b) (\<lambda>x. Ok (Some x)))"

definition header_at :: "'d store_env \<Rightarrow> view \<Rightarrow> hash256 \<Rightarrow> (storage_error, block_header option) outcome" where
  "header_at se m h = decoded (m CF_HEADERS h) (deserialize (cd_header (se_codecs se)))"

definition block_at :: "'d store_env \<Rightarrow> view \<Rightarrow> hash256 \<Rightarrow> (storage_error, block option) outcome" where
  "block_at se m h = bindR (header_at se m h) (\<lambda>hd.
     case hd of None \<Rightarrow> Ok None
     | Some header \<Rightarrow> (case m CF_BODIES h of None \<Rightarrow> Ok None
         | Some b \<Rightarrow> bindR (deserialize (cd_body (se_codecs se)) b) (\<lambda>body. Ok (Some \<lparr>b_header = header, b_body = body\<rparr>))))"

definition meta_at :: "'d store_env \<Rightarrow> view \<Rightarrow> hash256 \<Rightarrow> (storage_error, block_meta option) outcome" where
  "meta_at se m h = decoded (m CF_META (meta_key (se_hex se) h)) (deserialize (cd_meta (se_codecs se)))"

definition stored_at :: "'d store_env \<Rightarrow> view \<Rightarrow> hash256 \<Rightarrow> (storage_error, stored_block option) outcome" where
  "stored_at se m h = bindR (block_at se m h) (\<lambda>bo.
     case bo of None \<Rightarrow> Ok None
     | Some b \<Rightarrow> bindR (meta_at se m h) (\<lambda>mo.
         case mo of None \<Rightarrow> Ok None
         | Some me \<Rightarrow> Ok (Some \<lparr>sb_block = b, sb_pow_hash = bm_pow_hash me,
                          sb_total_difficulty = bm_total_difficulty me, sb_is_canonical = bm_is_canonical me\<rparr>)))"

definition hash_at :: "view \<Rightarrow> block_height \<Rightarrow> (storage_error, hash256 option) outcome" where
  "hash_at m height = decoded (m CF_HEIGHT_TO_HASH (be_of_word height)) (decode_hash ''Invalid hash length'')"

definition by_height_at :: "'d store_env \<Rightarrow> view \<Rightarrow> block_height \<Rightarrow> (storage_error, block option) outcome" where
  "by_height_at se m height = bindR (hash_at m height) (\<lambda>ho.
     case ho of None \<Rightarrow> Ok None | Some h \<Rightarrow> block_at se m h)"

lemma bindM_ret_outcome:
  "bindM (\<lambda>s. (r, s)) (\<lambda>x. \<lambda>s. (g x, s)) = (\<lambda>s. (bindR r g, s))"
  by (rule ext, cases r) (simp_all add: bindM_apply)

lemma get_decoded_ok:
  assumes "se_ok se view" and "cf \<in> set ALL_CFS"
  shows "get_decoded (se_rocks se) cf k f d = (decoded (view d cf k) f, d)"
  using db_get_ok [of "se_rocks se" view cf k d] assms
  by (cases "view d cf k"; cases "f (the (view d cf k))")
     (simp_all add: get_decoded_def decoded_def se_ok_def outcome_simps)

lemma reads_at:
  assumes "se_ok se view"
  shows "get_header se h d = (header_at se (view d) h, d)"
    and "get_block se h d = (block_at se (view d) h, d)"
    and "get_block_meta se h d = (meta_at se (view d) h, d)"
    and "get_hash_by_height se height d = (hash_at (view d) height, d)"
proof -
  show hd: "get_header se h d = (header_at se (view d) h, d)"
    by (simp add: get_header_def header_at_def get_decoded_ok [OF assms] ALL_CFS_def)
  have bd: "db_get (se_rocks se) CF_BODIES h d = (Ok (view d CF_BODIES h), d)"
    using db_get_ok [of "se_rocks se" view CF_BODIES h d] assms by (simp add: se_ok_def ALL_CFS_def)
  show "get_block se h d = (block_at se (view d) h, d)"
    by (auto simp: get_block_def block_at_def bindM_apply hd bd lift_out_def ret_def
        split: outcome.splits option.splits)
  show "get_block_meta se h d = (meta_at se (view d) h, d)"
    "get_hash_by_height se height d = (hash_at (view d) height, d)"
    by (simp_all add: get_block_meta_def meta_at_def get_hash_by_height_def hash_at_def
        get_decoded_ok [OF assms] ALL_CFS_def)
qed

lemma reads_at':
  assumes "se_ok se view"
  shows "get_stored_block se h d = (stored_at se (view d) h, d)"
    and "get_block_by_height se height d = (by_height_at se (view d) height, d)"
    and "get_total_difficulty se h d = (bindR (meta_at se (view d) h) (\<lambda>mo. Ok (map_option bm_total_difficulty mo)), d)"
    and "store_has_block se h d = (Ok (view d CF_HEADERS h \<noteq> None), d)"
proof -
  note rd = reads_at [OF assms]
  show "get_stored_block se h d = (stored_at se (view d) h, d)"
    by (auto simp: get_stored_block_def stored_at_def bindM_apply rd ret_def split: outcome.splits option.splits)
  show "get_block_by_height se height d = (by_height_at se (view d) height, d)"
    by (auto simp: get_block_by_height_def by_height_at_def bindM_apply rd ret_def split: outcome.splits option.splits)
  show "get_total_difficulty se h d = (bindR (meta_at se (view d) h) (\<lambda>mo. Ok (map_option bm_total_difficulty mo)), d)"
    by (auto simp: get_total_difficulty_def bindM_apply rd ret_def split: outcome.splits)
  have "db_get (se_rocks se) CF_HEADERS h d = (Ok (view d CF_HEADERS h), d)"
    using db_get_ok [of "se_rocks se" view CF_HEADERS h d] assms by (simp add: se_ok_def ALL_CFS_def)
  then show "store_has_block se h d = (Ok (view d CF_HEADERS h \<noteq> None), d)"
    by (simp add: store_has_block_def db_contains_def outcome_simps)
qed

text \<open>A read changes no database and never panics, whether or not the database works.\<close>

interpretation unchanged: step_frame "(=) :: 'd \<Rightarrow> 'd \<Rightarrow> bool"
  by unfold_locales simp_all

lemma deserialize_no_panic: "deserialize c x \<noteq> Panic"
  by (cases "dec c x") (simp_all add: deserialize_def)

lemma db_get_unchanged: "keeps (=) (db_get rk cf k)"
  by (simp add: keeps_def db_get_def with_cf_def)

lemma db_get_never_panics: "never_panics (db_get rk cf k)"
  by (auto simp: never_panics_def db_get_def with_cf_def split: sum.splits)
     (metis from_sum.simps outcome.distinct(3,5) sum.exhaust)

lemma get_decoded_unchanged: "keeps (=) (get_decoded rk cf k f)"
  unfolding get_decoded_def by (intro unchanged.frame_rules db_get_unchanged)

lemma get_decoded_never_panics: "(\<And>b. f b \<noteq> Panic) \<Longrightarrow> never_panics (get_decoded rk cf k f)"
  unfolding get_decoded_def by (intro np_intros db_get_never_panics)

lemma reads_unchanged:
  "keeps (=) (get_block se h)" "keeps (=) (get_total_difficulty se h)" "keeps (=) (store_has_block se h)"
  unfolding get_block_def get_header_def get_total_difficulty_def get_block_meta_def store_has_block_def db_contains_def
  by (intro unchanged.frame_rules db_get_unchanged get_decoded_unchanged)+

lemma reads_never_panic:
  "never_panics (get_block se h)" "never_panics (get_total_difficulty se h)" "never_panics (store_has_block se h)"
  unfolding get_block_def get_header_def get_total_difficulty_def get_block_meta_def store_has_block_def db_contains_def
  by (intro np_intros db_get_never_panics get_decoded_never_panics deserialize_no_panic)+

text \<open>The view after storing a block, read back.\<close>

lemma meta_after_put_block:
  assumes "codecs_ok (se_codecs se)" and "hex_laws (se_hex se)"
  shows "meta_at se (block_view se sb m) h =
    (if h = block_hash (se_sha3 se) (sb_block sb) then Ok (Some \<lparr>bm_pow_hash = sb_pow_hash sb,
          bm_total_difficulty = sb_total_difficulty sb, bm_is_canonical = sb_is_canonical sb\<rparr>) else meta_at se m h)"
proof -
  have "codec_ok (cd_meta (se_codecs se))" using assms(1) by (simp add: codecs_ok_def)
  then show ?thesis
    by (simp add: meta_at_def block_view_at decoded_def codec_roundtrip meta_key_inject [OF assms(2)])
qed

lemma after_put_block:
  fixes se :: "'d store_env" and sb :: stored_block and m :: view
  assumes "se_ok se view"
  defines "m' \<equiv> block_view se sb m" and "h0 \<equiv> block_hash (se_sha3 se) (sb_block sb)"
  shows "stored_at se m' h = (if h = h0 then Ok (Some sb) else stored_at se m h)"
    and "block_at se m' h = (if h = h0 then Ok (Some (sb_block sb)) else block_at se m h)"
    and "meta_at se m' h = (if h = h0 then Ok (Some \<lparr>bm_pow_hash = sb_pow_hash sb,
          bm_total_difficulty = sb_total_difficulty sb, bm_is_canonical = sb_is_canonical sb\<rparr>) else meta_at se m h)"
    and "hash_at m' height = (if sb_is_canonical sb \<and> height = bh_height (b_header (sb_block sb)) then Ok (Some h0)
          else hash_at m height)"
proof -
  have cs: "codec_ok (cd_header (se_codecs se))" "codec_ok (cd_body (se_codecs se))" "codec_ok (cd_meta (se_codecs se))"
    and hx: "hex_laws (se_hex se)" and len: "length h0 = 32"
    using assms(1) by (simp_all add: se_ok_def codecs_ok_def hash_fn_ok_def h0_def block_hash_def header_hash_def)
  note at = block_view_at [of se sb m, folded m'_def h0_def]
  show b: "block_at se m' h = (if h = h0 then Ok (Some (sb_block sb)) else block_at se m h)"
  proof (cases "h = h0")
    case False
    then have eq: "m' CF_HEADERS h = m CF_HEADERS h" "m' CF_BODIES h = m CF_BODIES h" by (simp_all add: at)
    show ?thesis using False unfolding block_at_def header_at_def eq by simp
  qed (simp add: block_at_def header_at_def at decoded_def codec_roundtrip cs)
  show me: "meta_at se m' h = (if h = h0 then Ok (Some \<lparr>bm_pow_hash = sb_pow_hash sb,
          bm_total_difficulty = sb_total_difficulty sb, bm_is_canonical = sb_is_canonical sb\<rparr>) else meta_at se m h)"
    using assms(1) unfolding m'_def h0_def by (intro meta_after_put_block) (simp_all add: se_ok_def)
  show "stored_at se m' h = (if h = h0 then Ok (Some sb) else stored_at se m h)"
  proof (cases "h = h0")
    case False
    then have eq: "block_at se m' h = block_at se m h" "meta_at se m' h = meta_at se m h" by (simp_all only: b me if_False)
    show ?thesis using False unfolding stored_at_def eq by simp
  next
    case True
    from b me True have "block_at se m' h = Ok (Some (sb_block sb))" "meta_at se m' h = Ok (Some \<lparr>bm_pow_hash = sb_pow_hash sb,
          bm_total_difficulty = sb_total_difficulty sb, bm_is_canonical = sb_is_canonical sb\<rparr>)"
      by simp_all
    then show ?thesis using True by (simp add: stored_at_def)
  qed
  show "hash_at m' height = (if sb_is_canonical sb \<and> height = bh_height (b_header (sb_block sb)) then Ok (Some h0)
          else hash_at m height)"
    using len by (simp add: hash_at_def at decoded_def decode_hash_def)
qed

lemma latest_after_put_block:
  "block_view se sb m CF_META (str_bytes ''latest_height'') = m CF_META (str_bytes ''latest_height'')"
  by (simp add: block_view_at meta_key_other [symmetric])

lemma put_block_atomic:
  assumes "rocks_laws (se_rocks se) view" and "codecs_ok (se_codecs se)" and "put_block se sb d = (r, d')"
  shows "(r = Ok () \<and> view d' = block_view se sb (view d)) \<or> (\<exists>e. r = Err e \<and> view d' = view d)"
  using db_write_batch_view [OF assms(1) block_ops_ok [of se sb], of d r d'] assms(3)
  by (simp add: put_block_def outcome_simps build_block_batch_ok [OF assms(2)] block_view_def)

lemma transaction_after_put_block:
  assumes "se_ok se view" and "put_block se sb d = (Ok (), d')" and "i < length (bb_transactions (b_body (sb_block sb)))"
    and "distinct (map (signed_tx_hash (se_sha3 se)) (bb_transactions (b_body (sb_block sb))))"
    and "length (bb_transactions (b_body (sb_block sb))) \<le> 2 ^ 32"
  shows "get_transaction se (signed_tx_hash (se_sha3 se) (bb_transactions (b_body (sb_block sb)) ! i)) d'
    = (Ok (Some (bb_transactions (b_body (sb_block sb)) ! i)), d')"
proof -
  let ?txs = "bb_transactions (b_body (sb_block sb))" and ?h0 = "block_hash (se_sha3 se) (sb_block sb)"
  let ?k = "signed_tx_hash (se_sha3 se) (?txs ! i)"
  let ?loc = "\<lparr>tl_block_hash = ?h0, tl_block_height = bh_height (b_header (sb_block sb)), tl_tx_index = word_of_nat i\<rparr>"
  have view: "view d' = block_view se sb (view d)"
    using put_block_atomic [of se view sb d] assms(1,2) by (auto simp: se_ok_def)
  have "view d' CF_TRANSACTIONS ?k = Some (encb (cd_location (se_codecs se)) ?loc)"
    using apply_locations_hit [OF assms(3,4), of ?h0 "bh_height (b_header (sb_block sb))" 0]
    unfolding view block_view_def block_ops_def Let_def by simp
  moreover have "codec_ok (cd_location (se_codecs se))" using assms(1) by (simp add: se_ok_def codecs_ok_def)
  ultimately have loc: "get_tx_location se ?k d' = (Ok (Some ?loc), d')"
    by (simp add: get_tx_location_def get_decoded_ok [OF assms(1)] ALL_CFS_def decoded_def codec_roundtrip)
  have blk: "get_block se ?h0 d' = (Ok (Some (sb_block sb)), d')"
    using after_put_block(2) [OF assms(1)] by (simp add: reads_at [OF assms(1)] view)
  have "unat (word_of_nat i :: u32) = i" using assms(3,5) by (simp add: unat_of_nat)
  with loc blk assms(3) show ?thesis
    by (simp add: get_transaction_def outcome_simps)
qed

subsection \<open>A concrete store\<close>

definition mem_rocks :: "view rocks" where
  "mem_rocks = \<lparr>rk_has_cf = (\<lambda>d cf. cf \<in> set ALL_CFS), rk_get = (\<lambda>d cf k. Inr (d cf k)),
     rk_put = (\<lambda>cf k v d. (Inr (), apply_wb (WbPut cf k v) d)),
     rk_delete = (\<lambda>cf k d. (Inr (), apply_wb (WbDelete cf k) d)),
     rk_write = (\<lambda>ops d. (Inr (), fold apply_wb ops d)), rk_iter = (\<lambda>d cf. [])\<rparr>"

lemma mem_rocks_ok: "rocks_laws mem_rocks id" "rocks_reliable mem_rocks"
  by (auto simp: rocks_laws_def rocks_reliable_def mem_rocks_def)

definition hex_digit :: "nat \<Rightarrow> char" where
  "hex_digit n = (if n < 10 then char_of (48 + n) else char_of (87 + n))"

definition digit_value :: "char \<Rightarrow> nat" where
  "digit_value c = (if of_char c < (58 :: nat) then of_char c - 48 else of_char c - 87)"

fun unhex :: "string \<Rightarrow> bytes" where
  "unhex (a # b # s) = word_of_nat (16 * digit_value a + digit_value b) # unhex s"
| "unhex _ = []"

definition plain_hex :: hex_codec where
  "plain_hex = \<lparr>hex_encode = (\<lambda>bs. concat (map (\<lambda>b. [hex_digit (unat b div 16), hex_digit (unat b mod 16)]) bs)),
     hex_decode = (\<lambda>s. Inr (unhex s))\<rparr>"

lemma digit_value_hex_digit: "n < 16 \<Longrightarrow> digit_value (hex_digit n) = n"
  by (simp add: digit_value_def hex_digit_def)

lemma hex_digit_in: "n < 16 \<Longrightarrow> hex_digit n \<in> set ''0123456789abcdef''"
proof -
  have "\<forall>n\<in>set [0..<16]. hex_digit n \<in> set ''0123456789abcdef''" by code_simp
  moreover assume "n < 16"
  ultimately show ?thesis by (metis atLeastLessThan_iff atLeastLessThan_upt zero_le)
qed

lemma plain_hex_laws: "hex_laws plain_hex"
proof -
  have byte: "unat (b :: u8) div 16 < 16" for b using unsigned_less [of b, where 'a = nat] by simp
  have "unhex (hex_encode plain_hex bs) = bs" for bs
  proof (induction bs)
    case (Cons b bs)
    have "16 * (unat b div 16) + unat b mod 16 = unat b" by simp
    with Cons byte [of b] show ?case by (simp add: plain_hex_def digit_value_hex_digit del: of_nat_add of_nat_mult)
  qed (simp add: plain_hex_def)
  moreover define H where "H = set ''0123456789abcdef''"
  have "set (hex_encode plain_hex bs) \<subseteq> H" for bs
  proof (induction bs)
    case (Cons b bs)
    have "unat b mod 16 < 16" by simp
    from hex_digit_in [OF this] hex_digit_in [OF byte [of b]] Cons show ?case
      unfolding H_def [symmetric] by (simp add: plain_hex_def)
  qed (simp add: plain_hex_def)
  ultimately show ?thesis unfolding hex_laws_def H_def [symmetric] by (simp add: plain_hex_def)
qed

text \<open>Self-delimiting encodings: a byte string with a marker before every byte.\<close>

fun sd :: "bytes \<Rightarrow> bytes" where
  "sd [] = [0]"
| "sd (b # bs) = 1 # b # sd bs"

lemma sd_inject: "sd xs @ r = sd ys @ r' \<longleftrightarrow> xs = ys \<and> r = r'"
proof (induction xs arbitrary: ys)
  case Nil
  then show ?case by (cases ys) auto
next
  case (Cons x xs)
  then show ?case by (cases ys) auto
qed

lemma sd_eq [simp]: "sd xs = sd ys \<longleftrightarrow> xs = ys"
  using sd_inject [of xs "[]" ys "[]"] by simp

fun sdl :: "('a \<Rightarrow> bytes) \<Rightarrow> 'a list \<Rightarrow> bytes" where
  "sdl f [] = [0]"
| "sdl f (x # xs) = 1 # sd (f x) @ sdl f xs"

lemma sdl_inject: "inj f \<Longrightarrow> sdl f xs @ r = sdl f ys @ r' \<longleftrightarrow> xs = ys \<and> r = r'"
proof (induction xs arbitrary: ys)
  case Nil
  then show ?case by (cases ys) auto
next
  case (Cons x xs)
  then show ?case by (cases ys) (auto simp: sd_inject inj_eq)
qed

definition inj_codec :: "('a \<Rightarrow> bytes) \<Rightarrow> 'a codec" where
  "inj_codec f = \<lparr>enc = (\<lambda>x. Inr (f x)), dec = (\<lambda>b. Inr (inv f b))\<rparr>"

lemma inj_codec_ok: "inj f \<Longrightarrow> codec_ok (inj_codec f)"
  by (simp add: codec_ok_def inj_codec_def)

fun addr_type_byte :: "address_type \<Rightarrow> u8" where
  "addr_type_byte Standard = 0" | "addr_type_byte Contract = 1"
| "addr_type_byte Device = 2" | "addr_type_byte System = 3"

fun sig_type_byte :: "signature_type \<Rightarrow> u8" where
  "sig_type_byte Dilithium = 0" | "sig_type_byte SphincsPlus = 1" | "sig_type_byte Ed25519 = 2"

lemma byte_inject [simp]:
  "addr_type_byte s = addr_type_byte t \<longleftrightarrow> s = t" "sig_type_byte u = sig_type_byte v \<longleftrightarrow> u = v"
  by (cases s; cases t; simp) (cases u; cases v; simp)

definition put_addr :: "address \<Rightarrow> bytes" where
  "put_addr a = addr_type_byte (addr_type a) # sd (addr_bytes a)"

lemma put_addr_inject: "put_addr a @ r = put_addr b @ r' \<longleftrightarrow> a = b \<and> r = r'"
  by (cases a; cases b) (auto simp: put_addr_def sd_inject)

definition put_header :: "block_header \<Rightarrow> bytes" where
  "put_header h = sd (le_of_word (bh_version h)) @ sd (le_of_word (bh_height h)) @ sd (le_of_word (bh_timestamp h))
     @ sd (bh_parent_hash h) @ sd (bh_transactions_root h) @ sd (bh_state_root h) @ sd (bh_receipts_root h)
     @ put_addr (bh_miner h) @ sd (le_of_word (bh_difficulty h)) @ sd (le_of_word (bh_nonce h))
     @ sd (bh_extra_data h) @ sd (le_of_word (bh_gas_used h)) @ le_of_word (bh_gas_limit h)"

definition put_tx :: "signed_transaction \<Rightarrow> bytes" where
  "put_tx x = (let t = stx_transaction x; g = stx_signature x in
     type_id (tx_type t) # put_addr (tx_from t) @ put_addr (tx_to t) @ sd (le_of_word (tx_value t))
     @ sd (le_of_word (tx_nonce t)) @ sd (le_of_word (tx_gas_limit t)) @ sd (le_of_word (tx_gas_price t))
     @ sd (tx_data t) @ sd (le_of_word (tx_chain_id t))
     @ sig_type_byte (sig_type g) # sd (sig_bytes g) @ sig_public_key g)"

definition put_opt :: "('a \<Rightarrow> bytes) \<Rightarrow> 'a option \<Rightarrow> bytes" where
  "put_opt f x = sdl f (case x of None \<Rightarrow> [] | Some y \<Rightarrow> [y])"

lemma put_opt_inject: "inj f \<Longrightarrow> put_opt f x @ r = put_opt f y @ r' \<longleftrightarrow> x = y \<and> r = r'"
  by (simp add: put_opt_def sdl_inject split: option.splits)

definition put_log :: "log_entry \<Rightarrow> bytes" where
  "put_log l = put_addr (log_address l) @ sdl id (log_topics l) @ log_data l"

definition put_receipt_bytes :: "transaction_receipt \<Rightarrow> bytes" where
  "put_receipt_bytes r = sd (rc_tx_hash r) @ sd (rc_block_hash r) @ sd (le_of_word (rc_block_height r))
     @ sd (le_of_word (rc_tx_index r)) @ put_addr (rc_from r) @ put_addr (rc_to r)
     @ put_opt put_addr (rc_contract_address r) @ sd (le_of_word (rc_gas_used r))
     @ (if rc_success r then 1 else 0) # sd (rc_return_data r) @ put_opt str_bytes (rc_error r) @ sdl put_log (rc_logs r)"

definition put_account_bytes :: "account \<Rightarrow> bytes" where
  "put_account_bytes a = put_addr (ac_address a) @ sd (le_of_word (ac_balance a)) @ sd (le_of_word (ac_nonce a))
     @ sd (ac_code_hash a) @ sd (ac_storage_root a) @ sd (le_of_word (ac_staked a))
     @ put_opt id (ac_device_metadata_hash a)"

definition plain_codecs :: codecs where
  "plain_codecs = \<lparr>cd_header = inj_codec put_header,
     cd_body = inj_codec (\<lambda>b. sdl put_tx (bb_transactions b)),
     cd_meta = inj_codec (\<lambda>m. sd (bm_pow_hash m) @ sd (le_of_word (bm_total_difficulty m)) @ [if bm_is_canonical m then 1 else 0]),
     cd_location = inj_codec (\<lambda>l. sd (tl_block_hash l) @ sd (le_of_word (tl_block_height l)) @ le_of_word (tl_tx_index l)),
     cd_receipt = inj_codec put_receipt_bytes, cd_account = inj_codec put_account_bytes\<rparr>"

lemma inj_put_addr: "inj put_addr"
  using put_addr_inject [of _ "[]" _ "[]"] by (simp add: inj_def)

lemma inj_put_tx: "inj put_tx"
proof (rule injI)
  fix x y :: signed_transaction
  assume "put_tx x = put_tx y"
  then have "stx_transaction x = stx_transaction y \<and> stx_signature x = stx_signature y"
    by (cases "stx_transaction x"; cases "stx_transaction y"; cases "stx_signature x"; cases "stx_signature y")
       (simp add: put_tx_def put_addr_inject sd_inject)
  then show "x = y" by (cases x; cases y) simp
qed

lemma inj_put_header: "inj put_header"
proof (rule injI)
  fix g h :: block_header
  assume "put_header g = put_header h"
  then show "g = h" by (cases g; cases h) (simp add: put_header_def put_addr_inject sd_inject)
qed

lemma inj_put_log: "inj put_log"
proof (rule injI)
  fix x y assume "put_log x = put_log y"
  then show "x = y" by (cases x; cases y) (simp add: put_log_def put_addr_inject sdl_inject)
qed

lemma plain_codecs_ok: "codecs_ok plain_codecs"
proof -
  have body: "inj (\<lambda>b :: block_body. sdl put_tx (bb_transactions b))"
  proof (rule injI)
    fix x y :: block_body
    assume "sdl put_tx (bb_transactions x) = sdl put_tx (bb_transactions y)"
    then show "x = y" using sdl_inject [OF inj_put_tx, of _ "[]" _ "[]"] by (cases x; cases y) simp
  qed
  have meta: "inj (\<lambda>m :: block_meta. sd (bm_pow_hash m) @ sd (le_of_word (bm_total_difficulty m)) @ [if bm_is_canonical m then 1 else 0 :: u8])"
  proof (rule injI)
    fix x y :: block_meta
    assume "sd (bm_pow_hash x) @ sd (le_of_word (bm_total_difficulty x)) @ [if bm_is_canonical x then 1 else 0 :: u8]
      = sd (bm_pow_hash y) @ sd (le_of_word (bm_total_difficulty y)) @ [if bm_is_canonical y then 1 else 0]"
    then show "x = y" by (cases x; cases y) (simp add: sd_inject split: if_splits)
  qed
  have loc: "inj (\<lambda>l :: tx_location. sd (tl_block_hash l) @ sd (le_of_word (tl_block_height l)) @ le_of_word (tl_tx_index l))"
  proof (rule injI)
    fix x y :: tx_location
    assume "sd (tl_block_hash x) @ sd (le_of_word (tl_block_height x)) @ le_of_word (tl_tx_index x)
      = sd (tl_block_hash y) @ sd (le_of_word (tl_block_height y)) @ le_of_word (tl_tx_index y)"
    then show "x = y" by (cases x; cases y) (simp add: sd_inject)
  qed
  have rc: "inj put_receipt_bytes"
  proof (rule injI)
    fix x y :: transaction_receipt
    assume eq: "put_receipt_bytes x = put_receipt_bytes y"
    have s: "inj str_bytes" by (simp add: inj_def)
    show "x = y" using eq sdl_inject [OF inj_put_log, of _ "[]" _ "[]"]
      by (cases x; cases y) (simp add: put_receipt_bytes_def put_addr_inject sd_inject
        put_opt_inject [OF s] put_opt_inject [OF inj_put_addr] split: if_splits)
  qed
  have acc: "inj put_account_bytes"
  proof (rule injI)
    fix x y :: account
    assume "put_account_bytes x = put_account_bytes y"
    then show "x = y" using put_opt_inject [OF inj_on_id, of _ "[]" _ "[]"]
      by (cases x; cases y) (simp add: put_account_bytes_def put_addr_inject sd_inject)
  qed
  show ?thesis
    using inj_codec_ok [OF body] inj_codec_ok [OF meta] inj_codec_ok [OF loc] inj_codec_ok [OF rc]
      inj_codec_ok [OF acc] inj_codec_ok [OF inj_put_header]
    by (simp add: codecs_ok_def plain_codecs_def)
qed

definition mem_env :: "view store_env" where
  "mem_env = \<lparr>se_rocks = mem_rocks, se_codecs = plain_codecs, se_hex = plain_hex, se_sha3 = toy_hash\<rparr>"

lemma mem_env_ok: "se_ok mem_env id"
  using mem_rocks_ok plain_codecs_ok plain_hex_laws
  by (auto simp: se_ok_def mem_env_def hash_fn_ok_def toy_hash_def min_def)

subsection \<open>Properties\<close>

text \<open>The entries that storing a block may change: its header and body, its metadata, the index entry
  of its height when it is canonical, and the locations of its transactions.\<close>

definition own_entry :: "'d store_env \<Rightarrow> stored_block \<Rightarrow> string \<Rightarrow> bytes \<Rightarrow> bool" where
  "own_entry se sb cf k \<longleftrightarrow>
     (let h0 = block_hash (se_sha3 se) (sb_block sb) in
      cf = CF_HEADERS \<and> k = h0 \<or> cf = CF_BODIES \<and> k = h0 \<or> cf = CF_META \<and> k = meta_key (se_hex se) h0
      \<or> cf = CF_HEIGHT_TO_HASH \<and> sb_is_canonical sb \<and> k = be_of_word (bh_height (b_header (sb_block sb)))
      \<or> cf = CF_TRANSACTIONS \<and> k \<in> signed_tx_hash (se_sha3 se) ` set (bb_transactions (b_body (sb_block sb))))"

lemma block_view_frame: "\<not> own_entry se sb cf k \<Longrightarrow> block_view se sb m cf k = m cf k"
proof -
  have "cf \<noteq> CF_TRANSACTIONS \<Longrightarrow> \<not> own_entry se sb cf k \<Longrightarrow> block_view se sb m cf k = m cf k"
    by (auto simp: block_view_def block_ops_def Let_def apply_locations_other own_entry_def)
  moreover have "k \<notin> signed_tx_hash (se_sha3 se) ` set (bb_transactions (b_body (sb_block sb))) \<Longrightarrow>
      block_view se sb m CF_TRANSACTIONS k = m CF_TRANSACTIONS k"
    by (simp add: block_view_def block_ops_def Let_def apply_locations_miss) (simp add: cf_names)
  moreover assume "\<not> own_entry se sb cf k"
  ultimately show ?thesis by (cases "cf = CF_TRANSACTIONS") (auto simp: own_entry_def Let_def)
qed

lemma own_entry_cf:
  "own_entry se sb cf k \<Longrightarrow> cf \<in> {CF_HEADERS, CF_BODIES, CF_META, CF_HEIGHT_TO_HASH, CF_TRANSACTIONS}"
  by (auto simp: own_entry_def Let_def)

text \<open>The other readers of the store after \<open>put_block\<close>.\<close>

lemma others_after_put_block:
  assumes "se_ok se view" and "view d' = block_view se sb (view d)"
  shows "fst (get_latest_height se d') = fst (get_latest_height se d)"
    and "fst (get_state_root se d') = fst (get_state_root se d)"
    and "fst (get_receipt se h d') = fst (get_receipt se h d)"
    and "fst (store_get_account se a d') = fst (store_get_account se a d)"
    and "fst (store_get_code se a d') = fst (store_get_code se a d)"
    and "fst (store_get_storage se a h d') = fst (store_get_storage se a h d)"
    and "h \<notin> signed_tx_hash (se_sha3 se) ` set (bb_transactions (b_body (sb_block sb))) \<Longrightarrow>
      fst (get_tx_location se h d') = fst (get_tx_location se h d)"
proof -
  have same: "view d' cf k = view d cf k" if "cf \<in> {CF_RECEIPTS, CF_ACCOUNTS, CF_CODE, CF_STORAGE}" for cf k
    using that own_entry_cf block_view_frame unfolding assms(2) by (fastforce simp: cf_names)
  have meta: "view d' CF_META (str_bytes x) = view d CF_META (str_bytes x)"
    if "x = ''latest_height'' \<or> x = ''state_root''" for x
    using that unfolding assms(2)
    by (auto simp: block_view_at meta_key_other [symmetric])
  note rd = get_decoded_ok [OF assms(1)] ALL_CFS_def
  show "fst (get_latest_height se d') = fst (get_latest_height se d)"
    "fst (get_state_root se d') = fst (get_state_root se d)"
    by (simp_all add: get_latest_height_def get_state_root_def rd meta)
  show "fst (get_receipt se h d') = fst (get_receipt se h d)"
    "fst (store_get_account se a d') = fst (store_get_account se a d)"
    "fst (store_get_storage se a h d') = fst (store_get_storage se a h d)"
    by (simp_all add: get_receipt_def store_get_account_def store_get_storage_def rd same)
  have "db_get (se_rocks se) CF_CODE k d = (Ok (view d CF_CODE k), d)" for k d
    using db_get_ok [of "se_rocks se" view CF_CODE k d] assms(1) by (simp add: se_ok_def ALL_CFS_def)
  then show "fst (store_get_code se a d') = fst (store_get_code se a d)" by (simp add: store_get_code_def same)
  show "fst (get_tx_location se h d') = fst (get_tx_location se h d)"
    if "h \<notin> signed_tx_hash (se_sha3 se) ` set (bb_transactions (b_body (sb_block sb)))"
  proof -
    have "\<not> own_entry se sb CF_TRANSACTIONS h" using that by (auto simp: own_entry_def Let_def cf_names)
    then show ?thesis by (simp add: get_tx_location_def rd assms(2) block_view_frame)
  qed
qed

text \<open>C15: The block store gives back what was put in. On a database whose operations do not fail, storing a
  block succeeds; then reading its hash returns the block with its proof-of-work hash, its
  total difficulty and its canonical flag, its height leads to it when it is canonical, and each
  of its transactions is found by its hash (when the hashes differ). Nothing else reads
  differently: no entry of the database changes except those of \<open>own_entry\<close>, so every other
  block, every other height (all heights for a block that is not canonical), every other transaction
  location, every receipt, account, contract code and storage slot, the latest height and the
  state root are what they were.\<close>

theorem block_store_roundtrip:
  fixes se :: "'d store_env" and sb :: stored_block
  assumes "se_ok se view"
  defines "h0 \<equiv> block_hash (se_sha3 se) (sb_block sb)" and "txs \<equiv> bb_transactions (b_body (sb_block sb))"
  shows "\<exists>d'. put_block se sb d = (Ok (), d')
    \<and> get_stored_block se h0 d' = (Ok (Some sb), d')
    \<and> (sb_is_canonical sb \<longrightarrow>
         get_block_by_height se (bh_height (b_header (sb_block sb))) d' = (Ok (Some (sb_block sb)), d'))
    \<and> (\<forall>i < length txs. distinct (map (signed_tx_hash (se_sha3 se)) txs) \<and> length txs \<le> 2 ^ 32 \<longrightarrow>
         get_transaction se (signed_tx_hash (se_sha3 se) (txs ! i)) d' = (Ok (Some (txs ! i)), d'))
    \<and> (\<forall>cf k. \<not> own_entry se sb cf k \<longrightarrow> view d' cf k = view d cf k)
    \<and> (\<forall>h. h \<noteq> h0 \<longrightarrow> fst (get_stored_block se h d') = fst (get_stored_block se h d))
    \<and> (\<forall>n. n \<noteq> bh_height (b_header (sb_block sb)) \<or> \<not> sb_is_canonical sb \<longrightarrow>
         fst (get_hash_by_height se n d') = fst (get_hash_by_height se n d))
    \<and> (\<forall>h. h \<notin> signed_tx_hash (se_sha3 se) ` set txs \<longrightarrow> fst (get_tx_location se h d') = fst (get_tx_location se h d))
    \<and> (\<forall>h. fst (get_receipt se h d') = fst (get_receipt se h d))
    \<and> (\<forall>a. fst (store_get_account se a d') = fst (store_get_account se a d)
         \<and> fst (store_get_code se a d') = fst (store_get_code se a d)
         \<and> (\<forall>k. fst (store_get_storage se a k d') = fst (store_get_storage se a k d)))
    \<and> fst (get_latest_height se d') = fst (get_latest_height se d)
    \<and> fst (get_state_root se d') = fst (get_state_root se d)"
proof -
  obtain d' where put: "put_block se sb d = (Ok (), d')" and v: "view d' = block_view se sb (view d)"
    using put_block_ok [OF assms(1)] by blast
  note rd = reads_at [OF assms(1)] reads_at' [OF assms(1)]
  note after = after_put_block [OF assms(1), of sb "view d", folded h0_def]
  have "get_transaction se (signed_tx_hash (se_sha3 se) (txs ! i)) d' = (Ok (Some (txs ! i)), d')"
    if "i < length txs" "distinct (map (signed_tx_hash (se_sha3 se)) txs) \<and> length txs \<le> 2 ^ 32" for i
    using transaction_after_put_block [OF assms(1) put] that unfolding txs_def by blast
  moreover have "get_stored_block se h0 d' = (Ok (Some sb), d')" by (simp add: rd v after)
  moreover have "sb_is_canonical sb \<longrightarrow>
      get_block_by_height se (bh_height (b_header (sb_block sb))) d' = (Ok (Some (sb_block sb)), d')"
    by (simp add: rd by_height_at_def v after)
  moreover have "fst (get_stored_block se h d') = fst (get_stored_block se h d)" if "h \<noteq> h0" for h
    using that by (simp add: rd v after)
  moreover have "fst (get_hash_by_height se n d') = fst (get_hash_by_height se n d)"
    if "n \<noteq> bh_height (b_header (sb_block sb)) \<or> \<not> sb_is_canonical sb" for n
    using that by (auto simp: rd v after)
  moreover have "view d' cf k = view d cf k" if "\<not> own_entry se sb cf k" for cf k
    using that by (simp add: v block_view_frame)
  moreover note others_after_put_block [OF assms(1) v, folded txs_def]
  ultimately show ?thesis using put by (intro exI [of _ d']) simp
qed

theorem block_store_roundtrip_witness:
  "\<exists>d'. put_block mem_env (stored_block_new toy_genesis hash_zero 1) (\<lambda>_ _. None) = (Ok (), d')
     \<and> get_block_by_height mem_env 0 d' = (Ok (Some toy_genesis), d')"
  using block_store_roundtrip [OF mem_env_ok, of "stored_block_new toy_genesis hash_zero 1" "\<lambda>_ _. None"]
  by (auto simp: stored_block_new_def toy_genesis_def block_genesis_def header_new_def)

text \<open>The account store is keyed by the 32 bytes of an address only. An account that is
  put is read back, and it is also what every address with the same bytes and another kind
  reads, so it replaces the account of such an address; all other addresses are undisturbed.\<close>

theorem account_store_keyed_by_bytes:
  assumes "se_ok se view"
  shows "\<exists>d'. store_put_account se acc d = (Ok (), d')
    \<and> (\<forall>b. fst (store_get_account se b d') = (if addr_bytes b = addr_bytes (ac_address acc) then Ok (Some acc)
            else fst (store_get_account se b d)))"
proof -
  have c: "codec_ok (cd_account (se_codecs se))" using assms by (simp add: se_ok_def codecs_ok_def)
  obtain d' where d': "db_put (se_rocks se) CF_ACCOUNTS (addr_bytes (ac_address acc)) (encb (cd_account (se_codecs se)) acc) d = (Ok (), d')"
    and v: "view d' = apply_wb (WbPut CF_ACCOUNTS (addr_bytes (ac_address acc)) (encb (cd_account (se_codecs se)) acc)) (view d)"
    using db_put_ok [of "se_rocks se" view CF_ACCOUNTS "addr_bytes (ac_address acc)"
        "encb (cd_account (se_codecs se)) acc" d] assms
    by (auto simp: se_ok_def ALL_CFS_def)
  have "store_put_account se acc d = (Ok (), d')"
    using d' by (simp add: store_put_account_def outcome_simps codec_roundtrip [OF c])
  moreover have "fst (store_get_account se b d') = (if addr_bytes b = addr_bytes (ac_address acc) then Ok (Some acc)
            else fst (store_get_account se b d))" for b
    by (simp add: store_get_account_def get_decoded_ok [OF assms] ALL_CFS_def v decoded_def codec_roundtrip [OF c])
  ultimately show ?thesis by blast
qed

theorem account_store_keyed_by_bytes_witness:
  "\<exists>d'. store_put_account mem_env (account_with_balance alice 7) (\<lambda>_ _. None) = (Ok (), d')
     \<and> fst (store_get_account mem_env bob d') = Ok (Some (account_with_balance alice 7))"
proof -
  obtain d' where "store_put_account mem_env (account_with_balance alice 7) (\<lambda>_ _. None) = (Ok (), d')"
    and r: "\<And>b. fst (store_get_account mem_env b d')
      = (if addr_bytes b = addr_bytes (ac_address (account_with_balance alice 7)) then Ok (Some (account_with_balance alice 7))
         else fst (store_get_account mem_env b (\<lambda>_ _. None)))"
    using account_store_keyed_by_bytes [OF mem_env_ok, of "account_with_balance alice 7" "\<lambda>_ _. None"] by blast
  moreover have "addr_bytes bob = addr_bytes (ac_address (account_with_balance alice 7))"
    by (simp add: account_with_balance_def alice_def bob_def)
  ultimately show ?thesis using r [of bob] by (metis (full_types))
qed

end
