(* ===== verification/Fry_CryptoNight.thy ===== *)
theory Fry_CryptoNight
  imports Fry_Types
begin

text \<open>
  \<open>frychain-crypto/src/cryptonight.rs\<close>: the memory-hard hash of the proof of work.
  Keccak-256 and AES-256 are the parameters of \<open>cn_lib\<close>. The hasher owns a scratchpad that
  is reused from one hash to the next while mining; \<open>None\<close> is the panic of an index out of
  range. The main lemma: no access is out of range, and the digest does not depend on what
  an earlier hash left in the scratchpad.
\<close>

definition SCRATCHPAD_SIZE :: nat where "SCRATCHPAD_SIZE = 2 * 1024 * 1024"
definition ITERATIONS :: nat where "ITERATIONS = 524288"
definition AES_BLOCK_SIZE :: nat where "AES_BLOCK_SIZE = 16"

record cn_lib =
  cn_keccak :: "bytes \<Rightarrow> bytes"
  cn_aes :: "bytes \<Rightarrow> bytes \<Rightarrow> bytes"

definition cn_lib_ok :: "cn_lib \<Rightarrow> bool" where
  "cn_lib_ok C \<longleftrightarrow> (\<forall>x. length (cn_keccak C x) = 32) \<and> (\<forall>k b. length b = 16 \<longrightarrow> length (cn_aes C k b) = 16)"

text \<open>The fresh scratchpad of \<open>CryptoNightStc::new\<close>.\<close>

definition cn_new :: bytes where
  "cn_new = replicate SCRATCHPAD_SIZE 0"

fun expand_state :: "cn_lib \<Rightarrow> bytes \<Rightarrow> nat list \<Rightarrow> bytes option" where
  "expand_state C state [] = Some state"
| "expand_state C state (i # is) =
     Option.bind (slice state ((i - 1) * 32) (i * 32)) (\<lambda>prev.
     let e = min ((i + 1) * 32) 200; len = e - i * 32 in
     Option.bind (slice (cn_keccak C prev) 0 len) (\<lambda>part.
     Option.bind (splice state (i * 32) part) (\<lambda>state'.
     expand_state C state' is)))"

definition keccak_1600 :: "cn_lib \<Rightarrow> bytes \<Rightarrow> bytes option" where
  "keccak_1600 C input =
     Option.bind (splice (replicate 200 0) 0 (cn_keccak C input)) (\<lambda>s0.
     Option.bind (expand_state C s0 [1..<6]) (\<lambda>s1.
     Option.bind (slice s1 0 160) (\<lambda>p1.
     Option.bind (splice s1 160 (cn_keccak C p1)) (\<lambda>s2.
     Option.bind (slice s2 160 192) (\<lambda>p2.
     Option.bind (slice (cn_keccak C p2) 0 8) (\<lambda>part.
     splice s2 192 part))))))"

text \<open>\<open>block[j] = encrypted[j] ^ state[state_offset + j % 64]\<close> for the sixteen \<open>j\<close>.\<close>

definition xor_block :: "bytes \<Rightarrow> bytes \<Rightarrow> nat \<Rightarrow> bytes option" where
  "xor_block encrypted state state_offset =
     (if length encrypted < 16 \<or> length state < state_offset + 16 then None
      else Some (map (\<lambda>j. encrypted ! j XOR state ! (state_offset + j mod 64)) [0..<AES_BLOCK_SIZE]))"

fun init_loop :: "cn_lib \<Rightarrow> bytes \<Rightarrow> bytes \<Rightarrow> bytes \<Rightarrow> bytes \<Rightarrow> nat list \<Rightarrow> bytes option" where
  "init_loop C key state pad block [] = Some pad"
| "init_loop C key state pad block (i # is) =
     (let encrypted = cn_aes C key block in
     Option.bind (splice pad (i * AES_BLOCK_SIZE) encrypted) (\<lambda>pad'.
     Option.bind (xor_block encrypted state (i * AES_BLOCK_SIZE mod 64)) (\<lambda>block'.
     init_loop C key state pad' block' is)))"

definition init_scratchpad :: "cn_lib \<Rightarrow> bytes \<Rightarrow> bytes \<Rightarrow> bytes \<Rightarrow> bytes option" where
  "init_scratchpad C key state pad =
     Option.bind (slice state 64 80) (\<lambda>block.
     init_loop C key state pad block [0..<SCRATCHPAD_SIZE div AES_BLOCK_SIZE])"

definition read_u64 :: "bytes \<Rightarrow> nat \<Rightarrow> u64 option" where
  "read_u64 pad off = map_option (\<lambda>bs. word_of_nat (le_nat bs)) (slice pad off (off + 8))"

definition write_u64 :: "bytes \<Rightarrow> nat \<Rightarrow> u64 \<Rightarrow> bytes option" where
  "write_u64 pad off v = splice pad off (le_of_word v)"

definition mul_128 :: "u64 \<Rightarrow> u64 \<Rightarrow> u64 \<times> u64" where
  "mul_128 a b = (let result = (ucast a * ucast b :: u128) in (ucast result, ucast (drop_bit 64 result)))"

definition scratchpad_mask :: u64 where
  "scratchpad_mask = word_of_nat (SCRATCHPAD_SIZE div 16 - 1)"

text \<open>The working variables \<open>a\<close>, \<open>b\<close>, \<open>c\<close>, \<open>d\<close> and one turn of the loop.\<close>

type_synonym cn_vars = "u64 \<times> u64 \<times> u64 \<times> u64"

definition memory_step :: "bytes \<Rightarrow> cn_vars \<Rightarrow> (bytes \<times> cn_vars) option" where
  "memory_step pad v = (case v of (a, b, c, d) \<Rightarrow>
     let addr1 = unat (a AND scratchpad_mask) * 16 in
     Option.bind (read_u64 pad addr1) (\<lambda>s1.
     Option.bind (read_u64 pad (addr1 + 8)) (\<lambda>s2.
     let t1 = a XOR s1; t2 = b XOR s2 in
     Option.bind (write_u64 pad addr1 (c XOR t1)) (\<lambda>pad1.
     Option.bind (write_u64 pad1 (addr1 + 8) (d XOR t2)) (\<lambda>pad2.
     let addr2 = unat (c AND scratchpad_mask) * 16 in
     Option.bind (read_u64 pad2 addr2) (\<lambda>s3.
     Option.bind (read_u64 pad2 (addr2 + 8)) (\<lambda>s4.
     let (mul_lo, mul_hi) = mul_128 t1 s3;
         a' = a + mul_hi; b' = b XOR s4; c' = c + mul_lo; d' = d * (t2 + 1) in
     Option.bind (write_u64 pad2 addr2 (a' XOR s3)) (\<lambda>pad3.
     Option.bind (write_u64 pad3 (addr2 + 8) (b' XOR s4)) (\<lambda>pad4.
     Some (pad4, (c', b', a', d')))))))))))"

fun memory_loop :: "nat \<Rightarrow> bytes \<Rightarrow> cn_vars \<Rightarrow> (bytes \<times> cn_vars) option" where
  "memory_loop 0 pad v = Some (pad, v)"
| "memory_loop (Suc n) pad v = Option.bind (memory_step pad v) (\<lambda>(pad', v'). memory_loop n pad' v')"

definition memory_hard_loop :: "bytes \<Rightarrow> bytes \<Rightarrow> (bytes \<times> bytes) option" where
  "memory_hard_loop pad state =
     Option.bind (read_u64 state 0) (\<lambda>a.
     Option.bind (read_u64 state 8) (\<lambda>b.
     Option.bind (read_u64 state 16) (\<lambda>c.
     Option.bind (read_u64 state 24) (\<lambda>d.
     Option.bind (memory_loop ITERATIONS pad (a, b, c, d)) (\<lambda>(pad', (a', b', c', d')).
     Option.bind (write_u64 state 0 a') (\<lambda>st1.
     Option.bind (write_u64 st1 8 b') (\<lambda>st2.
     Option.bind (write_u64 st2 16 c') (\<lambda>st3.
     Option.bind (write_u64 st3 24 d') (\<lambda>st4.
     Some (pad', st4))))))))))"

fun fold_pad :: "bytes \<Rightarrow> bytes \<Rightarrow> nat list \<Rightarrow> bytes option" where
  "fold_pad pad final_state [] = Some final_state"
| "fold_pad pad final_state (i # is) =
     Option.bind (read_u64 pad (i * 8)) (\<lambda>scratchpad_val.
     let state_offset = i * 8 mod 200 in
     Option.bind (read_u64 final_state state_offset) (\<lambda>state_val.
     Option.bind (write_u64 final_state state_offset (state_val XOR scratchpad_val)) (\<lambda>st.
     fold_pad pad st is)))"

definition final_hash :: "cn_lib \<Rightarrow> bytes \<Rightarrow> bytes \<Rightarrow> hash256 option" where
  "final_hash C pad state =
     map_option (cn_keccak C) (fold_pad pad state [0..<SCRATCHPAD_SIZE div 8])"

text \<open>\<open>CryptoNightStc::hash\<close>: the digest together with the scratchpad it leaves behind.\<close>

definition cn_hash :: "cn_lib \<Rightarrow> bytes \<Rightarrow> bytes \<Rightarrow> (hash256 \<times> bytes) option" where
  "cn_hash C pad input =
     Option.bind (keccak_1600 C input) (\<lambda>state.
     Option.bind (slice state 0 32) (\<lambda>aes_key.
     Option.bind (init_scratchpad C aes_key state pad) (\<lambda>pad1.
     Option.bind (memory_hard_loop pad1 state) (\<lambda>(pad2, state').
     Option.bind (final_hash C pad2 state') (\<lambda>h.
     Some (h, pad2))))))"

definition verify_hash :: "hash256 \<Rightarrow> hash256 \<Rightarrow> bool" where
  "verify_hash h target = meets_difficulty h target"

definition light_hash :: "cn_lib \<Rightarrow> bytes \<Rightarrow> hash256" where
  "light_hash C input = (cn_keccak C ^^ 1000) (cn_keccak C (str_bytes ''CryptoNight-STC:'' @ input))"

subsection \<open>Every access is in range\<close>

lemma bind_total: "(\<exists>x. m = Some x \<and> P x) \<Longrightarrow> (\<And>x. P x \<Longrightarrow> \<exists>y. f x = Some y \<and> Q y) \<Longrightarrow> \<exists>y. Option.bind m f = Some y \<and> Q y"
  by auto

lemma read_u64_total: "off + 8 \<le> length pad \<Longrightarrow> \<exists>v. read_u64 pad off = Some v"
  by (simp add: read_u64_def slice_Some)

lemma write_u64_total:
  "off + 8 \<le> length pad \<Longrightarrow> \<exists>pad'. write_u64 pad off v = Some pad' \<and> length pad' = length pad"
  unfolding write_u64_def by (rule splice_total) simp

lemma scratchpad_address:
  assumes "length pad = SCRATCHPAD_SIZE"
  shows "unat (x AND scratchpad_mask) * 16 + 16 \<le> length pad"
proof -
  have "x AND scratchpad_mask \<le> scratchpad_mask" by (simp add: word_and_le1)
  moreover have "unat scratchpad_mask = 131071" by (simp add: scratchpad_mask_def SCRATCHPAD_SIZE_def)
  ultimately have "unat (x AND scratchpad_mask) \<le> 131071" by (metis word_le_nat_alt)
  with assms show ?thesis by (simp add: SCRATCHPAD_SIZE_def)
qed

lemma memory_step_total:
  assumes "length pad = SCRATCHPAD_SIZE"
  shows "\<exists>pad' v'. memory_step pad v = Some (pad', v') \<and> length pad' = SCRATCHPAD_SIZE"
proof -
  obtain a b c d where v: "v = (a, b, c, d)" by (cases v)
  define addr1 where "addr1 = unat (a AND scratchpad_mask) * 16"
  define addr2 where "addr2 = unat (c AND scratchpad_mask) * 16"
  have r: "addr1 + 16 \<le> SCRATCHPAD_SIZE" "addr2 + 16 \<le> SCRATCHPAD_SIZE"
    using scratchpad_address [OF assms] assms by (simp_all add: addr1_def addr2_def)
  obtain s1 s2 where s: "read_u64 pad addr1 = Some s1" "read_u64 pad (addr1 + 8) = Some s2"
    using read_u64_total [of addr1 pad] read_u64_total [of "addr1 + 8" pad] r assms by auto
  obtain p1 where p1: "write_u64 pad addr1 (c XOR (a XOR s1)) = Some p1" "length p1 = SCRATCHPAD_SIZE"
    using write_u64_total [of addr1 pad] r assms by fastforce
  obtain p2 where p2: "write_u64 p1 (addr1 + 8) (d XOR (b XOR s2)) = Some p2" "length p2 = SCRATCHPAD_SIZE"
    using write_u64_total [of "addr1 + 8" p1] r p1 by fastforce
  obtain s3 s4 where s': "read_u64 p2 addr2 = Some s3" "read_u64 p2 (addr2 + 8) = Some s4"
    using read_u64_total [of addr2 p2] read_u64_total [of "addr2 + 8" p2] r p2 by auto
  obtain lo hi where m: "mul_128 (a XOR s1) s3 = (lo, hi)" by (cases "mul_128 (a XOR s1) s3")
  obtain p3 where p3: "write_u64 p2 addr2 ((a + hi) XOR s3) = Some p3" "length p3 = SCRATCHPAD_SIZE"
    using write_u64_total [of addr2 p2] r p2 by fastforce
  obtain p4 where p4: "write_u64 p3 (addr2 + 8) ((b XOR s4) XOR s4) = Some p4" "length p4 = SCRATCHPAD_SIZE"
    using write_u64_total [of "addr2 + 8" p3] r p3 by fastforce
  show ?thesis
    unfolding memory_step_def v prod.case Let_def addr1_def [symmetric] addr2_def [symmetric]
    by (simp add: s p1 p2 s' m p3 p4 Let_def)
qed

lemma memory_loop_total:
  "length pad = SCRATCHPAD_SIZE \<Longrightarrow>
   \<exists>pad' v'. memory_loop n pad v = Some (pad', v') \<and> length pad' = SCRATCHPAD_SIZE"
proof (induction n arbitrary: pad v)
  case (Suc n)
  obtain pad1 v1 where "memory_step pad v = Some (pad1, v1)" "length pad1 = SCRATCHPAD_SIZE"
    using memory_step_total [OF Suc.prems] by blast
  with Suc.IH show ?case by simp
qed (cases v, auto)

lemma memory_hard_loop_total:
  assumes "length pad = SCRATCHPAD_SIZE" and "length state = 200"
  shows "\<exists>pad' state'. memory_hard_loop pad state = Some (pad', state')
    \<and> length pad' = SCRATCHPAD_SIZE \<and> length state' = 200"
proof -
  have rd: "\<exists>x. read_u64 state off = Some x" if "off \<in> {0, 8, 16, 24}" for off
    using that assms(2) by (intro read_u64_total) auto
  obtain a b c d where v: "read_u64 state 0 = Some a" "read_u64 state 8 = Some b"
      "read_u64 state 16 = Some c" "read_u64 state 24 = Some d"
    using rd [of 0] rd [of 8] rd [of 16] rd [of 24] by auto
  obtain pad' a' b' c' d' where loop: "memory_loop ITERATIONS pad (a, b, c, d) = Some (pad', (a', b', c', d'))"
      "length pad' = SCRATCHPAD_SIZE"
    using memory_loop_total [OF assms(1), of ITERATIONS "(a, b, c, d)"] by (metis surj_pair)
  obtain s1 where s1: "write_u64 state 0 a' = Some s1" "length s1 = 200"
    using write_u64_total [of 0 state] assms(2) by fastforce
  obtain s2 where s2: "write_u64 s1 8 b' = Some s2" "length s2 = 200"
    using write_u64_total [of 8 s1] s1 by fastforce
  obtain s3 where s3: "write_u64 s2 16 c' = Some s3" "length s3 = 200"
    using write_u64_total [of 16 s2] s2 by fastforce
  obtain s4 where s4: "write_u64 s3 24 d' = Some s4" "length s4 = 200"
    using write_u64_total [of 24 s3] s3 by fastforce
  show ?thesis using loop by (simp add: memory_hard_loop_def v s1 s2 s3 s4)
qed

lemma fold_pad_total:
  assumes "length pad = SCRATCHPAD_SIZE"
  shows "length st = 200 \<Longrightarrow> \<forall>i\<in>set is. i < SCRATCHPAD_SIZE div 8 \<Longrightarrow>
    \<exists>st'. fold_pad pad st is = Some st' \<and> length st' = 200"
proof (induction "is" arbitrary: st)
  case (Cons i "is")
  have "i * 8 + 8 \<le> length pad" using Cons.prems assms by (simp add: SCRATCHPAD_SIZE_def)
  then obtain x where x: "read_u64 pad (i * 8) = Some x" using read_u64_total by blast
  have "i * 8 mod 200 = 8 * (i mod 25)" by (simp add: mult.commute mult_mod_right)
  moreover have "i mod 25 < 25" by simp
  ultimately have off: "i * 8 mod 200 + 8 \<le> length st" using Cons.prems by linarith
  obtain y where y: "read_u64 st (i * 8 mod 200) = Some y" using read_u64_total [OF off] by blast
  obtain st1 where "write_u64 st (i * 8 mod 200) (y XOR x) = Some st1" "length st1 = 200"
    using write_u64_total [OF off] Cons.prems by fastforce
  with x y Cons show ?case by (simp add: Let_def)
qed simp

lemma expand_state_total:
  assumes "cn_lib_ok C"
  shows "length st = 200 \<Longrightarrow> \<forall>i\<in>set is. 1 \<le> i \<and> i < 6 \<Longrightarrow>
    \<exists>st'. expand_state C st is = Some st' \<and> length st' = 200"
proof (induction "is" arbitrary: st)
  case (Cons i "is")
  define prev where "prev = take (i * 32 - (i - 1) * 32) (drop ((i - 1) * 32) st)"
  have prev: "slice st ((i - 1) * 32) (i * 32) = Some prev"
    using Cons.prems unfolding prev_def by (intro slice_Some) auto
  define len where "len = min ((i + 1) * 32) 200 - i * 32"
  have len: "len \<le> 32" "i * 32 + len \<le> 200" using Cons.prems by (auto simp: len_def)
  have k: "length (cn_keccak C prev) = 32" using assms by (simp add: cn_lib_ok_def)
  have part: "slice (cn_keccak C prev) 0 len = Some (take len (cn_keccak C prev))"
    using len k by (simp add: slice_def)
  obtain st1 where "splice st (i * 32) (take len (cn_keccak C prev)) = Some st1" "length st1 = 200"
    using splice_total [of "i * 32" "take len (cn_keccak C prev)" st] len k Cons.prems by auto
  with prev part Cons show ?case by (simp add: Let_def len_def)
qed simp

lemma keccak_1600_total:
  assumes "cn_lib_ok C"
  shows "\<exists>st. keccak_1600 C input = Some st \<and> length st = 200"
proof -
  have k: "length (cn_keccak C x) = 32" for x using assms by (simp add: cn_lib_ok_def)
  obtain s0 where s0: "splice (replicate 200 0) 0 (cn_keccak C input) = Some s0" "length s0 = 200"
    using splice_total [of 0 "cn_keccak C input" "replicate 200 0"] k by auto
  obtain s1 where s1: "expand_state C s0 [1..<6] = Some s1" "length s1 = 200"
    using expand_state_total [OF assms s0(2), of "[1..<6]"] by auto
  obtain s2 where s2: "splice s1 160 (cn_keccak C (take 160 s1)) = Some s2" "length s2 = 200"
    using splice_total [of 160 "cn_keccak C (take 160 s1)" s1] k s1 by auto
  obtain s3 where s3: "splice s2 192 (take 8 (cn_keccak C (take 32 (drop 160 s2)))) = Some s3" "length s3 = 200"
    using splice_total [of 192 "take 8 (cn_keccak C (take 32 (drop 160 s2)))" s2] k s2 by auto
  show ?thesis using s1 s2 s3 k by (simp add: keccak_1600_def s0 slice_def)
qed

subsection \<open>The scratchpad that an earlier hash left is overwritten\<close>

lemma xor_block_total:
  assumes "length enc = 16" and "length st = 200"
  shows "\<exists>b. xor_block enc st (i * AES_BLOCK_SIZE mod 64) = Some b \<and> length b = 16"
proof -
  have "i * AES_BLOCK_SIZE mod 64 < 64" by simp
  with assms show ?thesis by (simp add: xor_block_def AES_BLOCK_SIZE_def)
qed

lemma init_loop_overwrites:
  assumes "cn_lib_ok C" and "length st = 200"
  shows "length p = 16 * n \<Longrightarrow> length q = 16 * n \<Longrightarrow> length block = 16 \<Longrightarrow> k \<le> n \<Longrightarrow>
    take (16 * k) p = take (16 * k) q \<Longrightarrow>
    \<exists>r. init_loop C key st p block [k..<n] = Some r \<and> init_loop C key st q block [k..<n] = Some r
      \<and> length r = 16 * n"
proof (induction "n - k" arbitrary: k p q block)
  case 0
  then show ?case by simp
next
  case (Suc m)
  then have k: "k < n" "m = n - Suc k" by simp_all
  define enc where "enc = cn_aes C key block"
  have enc: "length enc = 16" using assms(1) Suc.prems by (simp add: enc_def cn_lib_ok_def)
  have ps: "splice p (k * AES_BLOCK_SIZE) enc = Some (take (16 * k) p @ enc @ drop (16 * Suc k) p)"
    using k(1) Suc.prems enc by (simp add: splice_def AES_BLOCK_SIZE_def algebra_simps)
  have qs: "splice q (k * AES_BLOCK_SIZE) enc = Some (take (16 * k) p @ enc @ drop (16 * Suc k) q)"
    using k(1) Suc.prems enc by (simp add: splice_def AES_BLOCK_SIZE_def algebra_simps)
  obtain b where b: "xor_block enc st (k * AES_BLOCK_SIZE mod 64) = Some b" "length b = 16"
    using xor_block_total [OF enc assms(2)] by blast
  have "\<exists>r. init_loop C key st (take (16 * k) p @ enc @ drop (16 * Suc k) p) b [Suc k..<n] = Some r
      \<and> init_loop C key st (take (16 * k) p @ enc @ drop (16 * Suc k) q) b [Suc k..<n] = Some r
      \<and> length r = 16 * n"
    using k Suc.prems enc b by (intro Suc.hyps(1)) auto
  with k(1) ps qs b show ?case by (simp add: upt_conv_Cons enc_def [symmetric] Let_def)
qed

lemma init_scratchpad_overwrites:
  assumes "cn_lib_ok C" and "length st = 200"
    and "length p = SCRATCHPAD_SIZE" and "length q = SCRATCHPAD_SIZE"
  shows "\<exists>r. init_scratchpad C key st p = Some r \<and> init_scratchpad C key st q = Some r
    \<and> length r = SCRATCHPAD_SIZE"
proof -
  have n: "SCRATCHPAD_SIZE = 16 * (SCRATCHPAD_SIZE div AES_BLOCK_SIZE)"
    by (simp add: SCRATCHPAD_SIZE_def AES_BLOCK_SIZE_def)
  have "slice st 64 80 = Some (take 16 (drop 64 st))" using assms(2) by (simp add: slice_def)
  with init_loop_overwrites [OF assms(1,2), of p "SCRATCHPAD_SIZE div AES_BLOCK_SIZE" q "take 16 (drop 64 st)" 0 key]
    assms(2-4) n show ?thesis
    by (simp add: init_scratchpad_def del: upt_conv_Cons)
qed

lemma cn_hash_total:
  assumes "cn_lib_ok C" and "length p = SCRATCHPAD_SIZE" and "length q = SCRATCHPAD_SIZE"
  shows "\<exists>h pad. cn_hash C p input = Some (h, pad) \<and> cn_hash C q input = Some (h, pad)
    \<and> length pad = SCRATCHPAD_SIZE \<and> wf_hash h"
proof -
  obtain st where st: "keccak_1600 C input = Some st" "length st = 200"
    using keccak_1600_total [OF assms(1)] by blast
  obtain r where r: "init_scratchpad C (take 32 st) st p = Some r" "init_scratchpad C (take 32 st) st q = Some r"
      "length r = SCRATCHPAD_SIZE"
    using init_scratchpad_overwrites [OF assms(1) st(2) assms(2,3)] by blast
  obtain pad st' where m: "memory_hard_loop r st = Some (pad, st')" "length pad = SCRATCHPAD_SIZE" "length st' = 200"
    using memory_hard_loop_total [OF r(3) st(2)] by blast
  obtain f where f: "fold_pad pad st' [0..<SCRATCHPAD_SIZE div 8] = Some f"
    using fold_pad_total [OF m(2,3), of "[0..<SCRATCHPAD_SIZE div 8]"] by auto
  have k: "length (cn_keccak C x) = 32" for x using assms(1) by (simp add: cn_lib_ok_def)
  show ?thesis using st r m f k by (simp add: cn_hash_def slice_def final_hash_def wf_hash_def)
qed

lemma mul_128_value: "unat (fst (mul_128 a b)) + 2 ^ 64 * unat (snd (mul_128 a b)) = unat a * unat b"
proof -
  have a: "unat a < 2 ^ 64" and b: "unat b < 2 ^ 64" using unsigned_less [of a] unsigned_less [of b] by simp_all
  have "unat a * unat b < 2 ^ 64 * 2 ^ 64" using a b by (intro mult_strict_mono) simp_all
  then have p: "unat (ucast a * ucast b :: u128) = unat a * unat b"
    using a b by (simp add: unat_word_ariths unsigned_ucast_eq take_bit_eq_mod)
  define n where "n = unat a * unat b"
  have "n div 2 ^ 64 < 2 ^ 64" using \<open>unat a * unat b < 2 ^ 64 * 2 ^ 64\<close> unfolding n_def
    by (simp add: less_mult_imp_div_less)
  then have "unat (snd (mul_128 a b)) = n div 2 ^ 64"
    using p by (simp add: mul_128_def Let_def unsigned_ucast_eq unat_shr n_def take_bit_eq_mod)
  moreover have "unat (fst (mul_128 a b)) = n mod 2 ^ 64"
    using p by (simp add: mul_128_def Let_def unsigned_ucast_eq n_def take_bit_eq_mod)
  ultimately show ?thesis by (simp add: n_def)
qed

subsection \<open>Properties\<close>

text \<open>C31: The proof-of-work hash is a function of its input. For primitives with the output
  lengths of Keccak-256 and AES, hashing never goes out of range, returns 32 bytes and leaves a
  scratchpad of the same size; the digest does not depend on what the scratchpad held before,
  so the hash that a miner finds with a reused hasher is the one that a verifier computes
  with a fresh one.\<close>

theorem cryptonight_deterministic:
  assumes "cn_lib_ok C" and "length pad = SCRATCHPAD_SIZE"
  shows "\<exists>h pad'. cn_hash C pad input = Some (h, pad') \<and> cn_hash C cn_new input = Some (h, pad')
    \<and> length pad' = SCRATCHPAD_SIZE \<and> wf_hash h"
  by (rule cn_hash_total) (use assms in \<open>simp_all add: cn_new_def\<close>)

definition toy_cn :: cn_lib where
  "toy_cn = \<lparr>cn_keccak = (\<lambda>bs. take 32 (bs @ replicate 32 0)), cn_aes = (\<lambda>k b. b)\<rparr>"

lemma toy_cn_ok: "cn_lib_ok toy_cn"
  by (auto simp: cn_lib_ok_def toy_cn_def min_def)

theorem cryptonight_deterministic_witness:
  "\<exists>h pad'. cn_hash toy_cn (replicate SCRATCHPAD_SIZE 255) [1, 2, 3] = Some (h, pad')
     \<and> cn_hash toy_cn cn_new [1, 2, 3] = Some (h, pad')"
  using cryptonight_deterministic [OF toy_cn_ok, of "replicate SCRATCHPAD_SIZE 255" "[1, 2, 3]"]
  by auto

end
