(* ===== verification/Fry_Pow.thy ===== *)
theory Fry_Pow
  imports Fry_CryptoNight Fry_Validation
begin

text \<open>
  \<open>frychain-consensus/src/pow.rs\<close>: mining with one and with several threads, and the
  verification of a solution. Mining loops may run for ever, so they are partial functions:
  \<open>None\<close> is "does not return". What the environment decides is a sequence indexed by the
  turn of the loop: \<open>stop k\<close> is the value of the stop signal (for a worker thread: stop or
  found) at turn \<open>k\<close>, \<open>clock k\<close> the time of an update at turn \<open>k\<close>, \<open>elapsed k\<close> the
  milliseconds at turn \<open>k\<close>. The lemmas: a miner returns when it is stopped, and what it
  returns passes the verification.
\<close>

record mining_result =
  mr_nonce :: nonce
  mr_pow_hash :: hash256
  mr_hashes :: u64
  mr_time_ms :: u64

partial_function (option) mine_loop ::
    "cn_lib \<Rightarrow> (nat \<Rightarrow> bool) \<Rightarrow> (nat \<Rightarrow> u64) \<Rightarrow> (nat \<Rightarrow> u64) \<Rightarrow> hash256 \<Rightarrow> nat \<Rightarrow> block_header \<Rightarrow> bytes \<Rightarrow> nonce \<Rightarrow> u64
     \<Rightarrow> ((consensus_error, mining_result option) outcome \<times> block_header) option" where
  "mine_loop C stop clock elapsed target k header pad nonce hashes =
     (if stop k then Some (Ok None, header)
      else let header1 = header\<lparr>bh_nonce := nonce\<rparr> in
        (case cn_hash C pad (mining_blob header1) of
           None \<Rightarrow> Some (Panic, header1)
         | Some (pow_hash, pad') \<Rightarrow>
             let hashes' = hashes + 1 in
             if meets_difficulty pow_hash target
             then Some (Ok (Some \<lparr>mr_nonce = nonce, mr_pow_hash = pow_hash, mr_hashes = hashes',
                                  mr_time_ms = elapsed k\<rparr>), header1)
             else mine_loop C stop clock elapsed target (Suc k)
                    (if hashes' mod 10000 = 0 then update_timestamp (clock k) header1 else header1)
                    pad' (nonce + 1) hashes'))"

definition mine_block ::
    "cn_lib \<Rightarrow> (nat \<Rightarrow> bool) \<Rightarrow> (nat \<Rightarrow> u64) \<Rightarrow> (nat \<Rightarrow> u64) \<Rightarrow> block_header
     \<Rightarrow> ((consensus_error, mining_result option) outcome \<times> block_header) option" where
  "mine_block C stop clock elapsed header =
     mine_loop C stop clock elapsed (to_target (bh_difficulty header)) 0 header cn_new (bh_nonce header) 0"

text \<open>One worker thread: it writes its nonce over the last eight bytes of its copy of the
  blob. The result is the solution and the number of hashes it adds to the shared counter.\<close>

partial_function (option) worker_loop ::
    "cn_lib \<Rightarrow> (nat \<Rightarrow> bool) \<Rightarrow> hash256 \<Rightarrow> u64 \<Rightarrow> nat \<Rightarrow> bytes \<Rightarrow> bytes \<Rightarrow> nonce \<Rightarrow> u64
     \<Rightarrow> (consensus_error, (nonce \<times> hash256) option \<times> u64) outcome option" where
  "worker_loop C quit target step k blob pad nonce local_hashes =
     (if quit k then Some (Ok (None, local_hashes))
      else (case splice blob (length blob - 8) (le_of_word nonce) of
              None \<Rightarrow> Some Panic
            | Some blob' \<Rightarrow>
                (case cn_hash C pad blob' of
                   None \<Rightarrow> Some Panic
                 | Some (pow_hash, pad') \<Rightarrow>
                     if meets_difficulty pow_hash target
                     then Some (Ok (Some (nonce, pow_hash), local_hashes + 1))
                     else worker_loop C quit target step (Suc k) blob' pad' (nonce + step) (local_hashes + 1))))"

text \<open>The threads are joined in order; the first solution is taken. \<open>quit t k\<close> is what
  thread \<open>t\<close> reads at its turn \<open>k\<close>.\<close>

fun run_workers ::
    "cn_lib \<Rightarrow> (nat \<Rightarrow> nat \<Rightarrow> bool) \<Rightarrow> hash256 \<Rightarrow> bytes \<Rightarrow> u64 \<Rightarrow> nat list
     \<Rightarrow> (consensus_error, (nonce \<times> hash256) option list) outcome option" where
  "run_workers C quit target blob step [] = Some (Ok [])"
| "run_workers C quit target blob step (t # ts) =
     (case worker_loop C (quit t) target step 0 blob cn_new (word_of_nat t) 0 of
        None \<Rightarrow> None
      | Some r \<Rightarrow>
          (case run_workers C quit target blob step ts of
             None \<Rightarrow> None
           | Some rs \<Rightarrow> Some (bindR r (\<lambda>(sol, _). bindR rs (\<lambda>sols. Ok (sol # sols))))))"

fun first_solution :: "'a option list \<Rightarrow> 'a option" where
  "first_solution [] = None"
| "first_solution (None # rest) = first_solution rest"
| "first_solution (Some x # rest) = Some x"

definition mine_block_parallel ::
    "cn_lib \<Rightarrow> (nat \<Rightarrow> nat \<Rightarrow> bool) \<Rightarrow> u64 \<Rightarrow> u64 \<Rightarrow> block_header \<Rightarrow> nat
     \<Rightarrow> (consensus_error, mining_result option) outcome option" where
  "mine_block_parallel C quit total_hashes time_ms header num_threads =
     map_option (\<lambda>rs. bindR rs (\<lambda>sols.
         Ok (map_option (\<lambda>(n, pow_hash). \<lparr>mr_nonce = n, mr_pow_hash = pow_hash, mr_hashes = total_hashes,
                                          mr_time_ms = time_ms\<rparr>) (first_solution sols))))
       (run_workers C quit (to_target (bh_difficulty header)) (mining_blob header)
          (word_of_nat num_threads) [0..<num_threads])"

definition verify_pow :: "cn_lib \<Rightarrow> block_header \<Rightarrow> (consensus_error, hash256) outcome" where
  "verify_pow C header =
     (case cn_hash C cn_new (mining_blob header) of
        None \<Rightarrow> Panic
      | Some (pow_hash, _) \<Rightarrow>
          if \<not> meets_difficulty pow_hash (to_target (bh_difficulty header)) then Err InvalidProofOfWorkC
          else Ok pow_hash)"

definition verify_pow_light :: "cn_lib \<Rightarrow> block_header \<Rightarrow> bool" where
  "verify_pow_light C header =
     meets_difficulty (light_hash C (mining_blob header)) (to_target (bh_difficulty header))"

subsection \<open>Lemmas\<close>

definition pow_digest :: "cn_lib \<Rightarrow> bytes \<Rightarrow> hash256" where
  "pow_digest C input = (case cn_hash C cn_new input of None \<Rightarrow> [] | Some (h, _) \<Rightarrow> h)"

lemma cn_hash_digest:
  assumes "cn_lib_ok C" and "length pad = SCRATCHPAD_SIZE"
  shows "\<exists>pad'. cn_hash C pad input = Some (pow_digest C input, pad') \<and> length pad' = SCRATCHPAD_SIZE"
  using cn_hash_total [OF assms(1), of pad cn_new input] assms(2)
  by (auto simp: pow_digest_def cn_new_def)

lemma verify_pow_digest:
  assumes "cn_lib_ok C"
  shows "verify_pow C h =
    (if meets_difficulty (pow_digest C (mining_blob h)) (to_target (bh_difficulty h))
     then Ok (pow_digest C (mining_blob h)) else Err InvalidProofOfWorkC)"
  using cn_hash_digest [OF assms, of cn_new "mining_blob h"]
  by (auto simp: verify_pow_def cn_new_def)

definition same_but_nonce_time :: "block_header \<Rightarrow> block_header \<Rightarrow> bool" where
  "same_but_nonce_time h g \<longleftrightarrow>
     g\<lparr>bh_nonce := 0, bh_timestamp := 0\<rparr> = h\<lparr>bh_nonce := 0, bh_timestamp := 0\<rparr>"

lemma same_but_nonce_time_rules:
  "same_but_nonce_time h h"
  "same_but_nonce_time h (g\<lparr>bh_nonce := n\<rparr>) \<longleftrightarrow> same_but_nonce_time h g"
  "same_but_nonce_time h (g\<lparr>bh_timestamp := t\<rparr>) \<longleftrightarrow> same_but_nonce_time h g"
  "same_but_nonce_time (h\<lparr>bh_nonce := n\<rparr>) g \<longleftrightarrow> same_but_nonce_time h g"
  "same_but_nonce_time (h\<lparr>bh_timestamp := t\<rparr>) g \<longleftrightarrow> same_but_nonce_time h g"
  by (simp_all add: same_but_nonce_time_def)

lemma mine_loop_returns_when_stopped:
  assumes "stop (k + m)"
  shows "\<exists>r g. mine_loop C stop clock elapsed target k header pad nonce hashes = Some (r, g)"
  using assms
proof (induction m arbitrary: k header pad nonce hashes)
  case 0
  then show ?case by (simp add: mine_loop.simps)
next
  case (Suc m)
  then have IH: "\<exists>r g. mine_loop C stop clock elapsed target (Suc k) header pad nonce hashes = Some (r, g)"
    for header pad nonce hashes by simp
  show ?case
    by (subst mine_loop.simps) (auto simp: Let_def intro: IH split: option.splits prod.splits)
qed

definition mined :: "cn_lib \<Rightarrow> block_header \<Rightarrow> (consensus_error, mining_result option) outcome \<times> block_header \<Rightarrow> bool" where
  "mined C h res \<longleftrightarrow> (case res of (r, g) \<Rightarrow> same_but_nonce_time h g
     \<and> (r = Ok None \<or> (\<exists>m. r = Ok (Some m) \<and> bh_nonce g = mr_nonce m \<and> verify_pow C g = Ok (mr_pow_hash m))))"

lemma mine_loop_mined:
  "mine_loop C stop clock elapsed target k header pad nonce hashes = Some res \<Longrightarrow>
   cn_lib_ok C \<longrightarrow> length pad = SCRATCHPAD_SIZE \<longrightarrow> target = to_target (bh_difficulty header) \<longrightarrow>
   mined C header res"
proof (rule mine_loop.raw_induct [where P = "\<lambda>C stop clock elapsed target k header pad nonce hashes res.
     cn_lib_ok C \<longrightarrow> length pad = SCRATCHPAD_SIZE \<longrightarrow> target = to_target (bh_difficulty header) \<longrightarrow>
     mined C header res"], goal_cases)
  case (1 rec C stop clock elapsed target k header pad nonce hashes res)
  note step = 1
  show ?case
  proof (intro impI)
  assume ok: "cn_lib_ok C" and len: "length pad = SCRATCHPAD_SIZE" and tgt: "target = to_target (bh_difficulty header)"
  define h1 where "h1 = header\<lparr>bh_nonce := nonce\<rparr>"
  obtain pad' where run: "cn_hash C pad (mining_blob h1) = Some (pow_digest C (mining_blob h1), pad')"
      "length pad' = SCRATCHPAD_SIZE"
    using cn_hash_digest [OF ok len] by blast
  define h2 where "h2 = (if (hashes + 1) mod 10000 = 0 then update_timestamp (clock k) h1 else h1)"
  have same: "same_but_nonce_time header h1" "bh_difficulty h1 = bh_difficulty header" "bh_nonce h1 = nonce"
    "bh_difficulty h2 = bh_difficulty header" "same_but_nonce_time h2 g \<longleftrightarrow> same_but_nonce_time header g" for g
    by (simp_all add: h1_def h2_def same_but_nonce_time_rules update_timestamp_def)
  consider "stop k" | "\<not> stop k" "meets_difficulty (pow_digest C (mining_blob h1)) target"
    | "\<not> stop k" "\<not> meets_difficulty (pow_digest C (mining_blob h1)) target" by blast
  then show "mined C header res"
  proof cases
    case 1
    with step(3) show ?thesis by (auto simp: mined_def same_but_nonce_time_rules)
  next
    case 2
    with step(3) run same tgt show ?thesis
      by (auto simp: h1_def [symmetric] Let_def mined_def verify_pow_digest [OF ok])
  next
    case 3
    with step(3) run have "rec C stop clock elapsed target (Suc k) h2 pad' (nonce + 1) (hashes + 1) = Some res"
      by (simp add: h1_def [symmetric] h2_def Let_def)
    from step(2) [OF this] ok run(2) same tgt have "mined C h2 res" by simp
    with same show ?thesis by (auto simp: mined_def)
  qed
  qed
qed

text \<open>The workers: whatever they wrote into the last eight bytes before, the blob they hash
  is the blob of the header with their nonce.\<close>

definition blob_of :: "block_header \<Rightarrow> bytes \<Rightarrow> bool" where
  "blob_of h blob \<longleftrightarrow> (\<exists>n. blob = mining_blob (h\<lparr>bh_nonce := n\<rparr>))"

lemma splice_nonce:
  assumes "blob_of h blob"
  shows "splice blob (length blob - 8) (le_of_word n) = Some (mining_blob (h\<lparr>bh_nonce := n\<rparr>))"
proof -
  obtain m where b: "blob = mining_blob (h\<lparr>bh_nonce := m\<rparr>)" using assms by (auto simp: blob_of_def)
  have "8 \<le> length blob" by (simp add: b mining_blob_def)
  then have "splice blob (length blob - 8) (le_of_word n) = Some (take (length blob - 8) blob @ le_of_word n)"
    by (simp add: splice_def)
  then show ?thesis using mining_blob_nonce [of "h\<lparr>bh_nonce := m\<rparr>" n] by (simp add: b)
qed

definition worker_found :: "cn_lib \<Rightarrow> block_header \<Rightarrow> nonce \<times> hash256 \<Rightarrow> bool" where
  "worker_found C h sol \<longleftrightarrow> (case sol of (n, pow_hash) \<Rightarrow> verify_pow C (h\<lparr>bh_nonce := n\<rparr>) = Ok pow_hash)"

lemma worker_loop_sound:
  "worker_loop C quit target step k blob pad nonce hashes = Some res \<Longrightarrow>
   cn_lib_ok C \<longrightarrow> length pad = SCRATCHPAD_SIZE \<longrightarrow> target = to_target (bh_difficulty h) \<longrightarrow> blob_of h blob \<longrightarrow>
   (\<exists>sol n. res = Ok (sol, n) \<and> (\<forall>s. sol = Some s \<longrightarrow> worker_found C h s))"
proof (rule worker_loop.raw_induct [where P = "\<lambda>C quit target step k blob pad nonce hashes res.
     cn_lib_ok C \<longrightarrow> length pad = SCRATCHPAD_SIZE \<longrightarrow> target = to_target (bh_difficulty h) \<longrightarrow> blob_of h blob \<longrightarrow>
     (\<exists>sol n. res = Ok (sol, n) \<and> (\<forall>s. sol = Some s \<longrightarrow> worker_found C h s))"], goal_cases)
  case (1 rec C quit target step k blob pad nonce hashes res)
  note turn = 1
  show ?case
  proof (intro impI)
    assume ok: "cn_lib_ok C" and len: "length pad = SCRATCHPAD_SIZE"
      and tgt: "target = to_target (bh_difficulty h)" and blob: "blob_of h blob"
    define h1 where "h1 = h\<lparr>bh_nonce := nonce\<rparr>"
    obtain pad' where run: "cn_hash C pad (mining_blob h1) = Some (pow_digest C (mining_blob h1), pad')"
        "length pad' = SCRATCHPAD_SIZE"
      using cn_hash_digest [OF ok len] by blast
    note sp = splice_nonce [OF blob, of nonce, folded h1_def]
    have d: "bh_difficulty h1 = bh_difficulty h" by (simp add: h1_def)
    consider "quit k" | "\<not> quit k" "meets_difficulty (pow_digest C (mining_blob h1)) target"
      | "\<not> quit k" "\<not> meets_difficulty (pow_digest C (mining_blob h1)) target" by blast
    then show "\<exists>sol n. res = Ok (sol, n) \<and> (\<forall>s. sol = Some s \<longrightarrow> worker_found C h s)"
    proof cases
      case 1
      with turn(3) show ?thesis by auto
    next
      case 2
      have "verify_pow C h1 = Ok (pow_digest C (mining_blob h1))"
        using 2 tgt d by (simp add: verify_pow_digest [OF ok])
      moreover have "res = Ok (Some (nonce, pow_digest C (mining_blob h1)), hashes + 1)"
        using turn(3) run sp 2 by simp
      ultimately show ?thesis by (simp add: worker_found_def h1_def)
    next
      case 3
      have "blob_of h (mining_blob h1)" by (auto simp: blob_of_def h1_def)
      moreover have "rec C quit target step (Suc k) (mining_blob h1) pad' (nonce + step) (hashes + 1) = Some res"
        using turn(3) run sp 3 by simp
      ultimately show ?thesis using turn(2) ok run(2) tgt by blast
    qed
  qed
qed

lemma run_workers_sound:
  assumes "cn_lib_ok C"
  shows "run_workers C quit (to_target (bh_difficulty h)) (mining_blob h) step ts = Some res \<Longrightarrow>
    \<exists>sols. res = Ok sols \<and> (\<forall>s. Some s \<in> set sols \<longrightarrow> worker_found C h s)"
proof (induction ts arbitrary: res)
  case (Cons t ts)
  then obtain r rs where w: "worker_loop C (quit t) (to_target (bh_difficulty h)) step 0 (mining_blob h) cn_new (word_of_nat t) 0 = Some r"
    and rs: "run_workers C quit (to_target (bh_difficulty h)) (mining_blob h) step ts = Some rs"
    and res: "res = bindR r (\<lambda>(sol, _). bindR rs (\<lambda>sols. Ok (sol # sols)))"
    by (auto split: option.splits)
  have "h = h\<lparr>bh_nonce := bh_nonce h\<rparr>" by simp
  then have "blob_of h (mining_blob h)" unfolding blob_of_def by metis
  then obtain sol n where "r = Ok (sol, n)" "\<forall>s. sol = Some s \<longrightarrow> worker_found C h s"
    using worker_loop_sound [OF w, of h] assms by (auto simp: cn_new_def)
  with Cons.IH [OF rs] res show ?case by auto
qed simp

lemma first_solution_member: "first_solution sols = Some s \<Longrightarrow> Some s \<in> set sols"
  by (induction sols rule: first_solution.induct) auto

subsection \<open>Properties\<close>

text \<open>C29: Mining with one thread is correct. If the miner returns it has not panicked, has
  changed only the nonce and the timestamp of the header, and either was stopped or returns the
  nonce now in the header with a hash that \<open>verify_pow\<close> computes and accepts for it; and it
  does return as soon as the stop signal is raised at some turn.\<close>

theorem mine_block_correct:
  assumes "cn_lib_ok C"
  shows "(mine_block C stop clock elapsed h = Some (r, g) \<longrightarrow>
      same_but_nonce_time h g
      \<and> (r = Ok None \<or> (\<exists>m. r = Ok (Some m) \<and> bh_nonce g = mr_nonce m \<and> verify_pow C g = Ok (mr_pow_hash m))))
    \<and> (\<forall>k. stop k \<longrightarrow> (\<exists>r g. mine_block C stop clock elapsed h = Some (r, g)))"
proof (intro conjI allI impI)
  assume "mine_block C stop clock elapsed h = Some (r, g)"
  then have "mined C h (r, g)"
    using mine_loop_mined assms unfolding mine_block_def by (metis cn_new_def length_replicate)
  then show "same_but_nonce_time h g" 
    and "r = Ok None \<or> (\<exists>m. r = Ok (Some m) \<and> bh_nonce g = mr_nonce m \<and> verify_pow C g = Ok (mr_pow_hash m))"
    by (simp_all add: mined_def)
next
  fix k assume "stop k"
  then show "\<exists>r g. mine_block C stop clock elapsed h = Some (r, g)"
    unfolding mine_block_def using mine_loop_returns_when_stopped [of stop 0 k] by simp
qed

theorem mine_block_correct_witness:
  "\<exists>r g. mine_block toy_cn (\<lambda>k. k = 3) (\<lambda>_. 0) (\<lambda>_. 0) (b_header toy_genesis) = Some (r, g)
     \<and> same_but_nonce_time (b_header toy_genesis) g"
  using mine_block_correct [OF toy_cn_ok, of "\<lambda>k. k = 3" "\<lambda>_. 0" "\<lambda>_. 0" "b_header toy_genesis"] by metis

text \<open>Mining with several threads is correct. Whatever the threads read from the shared
  flags, a parallel run that returns has not panicked, and if it returns a solution, the header
  with that nonce passes \<open>verify_pow\<close> with that hash.\<close>

theorem mine_block_parallel_correct:
  assumes "cn_lib_ok C" and "mine_block_parallel C quit total_hashes time_ms h num_threads = Some res"
  shows "\<exists>sol. res = Ok sol
    \<and> (\<forall>m. sol = Some m \<longrightarrow> verify_pow C (h\<lparr>bh_nonce := mr_nonce m\<rparr>) = Ok (mr_pow_hash m))"
proof -
  obtain rs where rs: "run_workers C quit (to_target (bh_difficulty h)) (mining_blob h)
      (word_of_nat num_threads) [0..<num_threads] = Some rs"
    using assms(2) by (auto simp: mine_block_parallel_def)
  from run_workers_sound [OF assms(1) this] obtain sols
    where s: "rs = Ok sols" "\<forall>s. Some s \<in> set sols \<longrightarrow> worker_found C h s" by blast
  with rs assms(2) show ?thesis
    by (fastforce simp: mine_block_parallel_def worker_found_def dest: first_solution_member)
qed

theorem mine_block_parallel_correct_witness:
  "\<exists>sol. mine_block_parallel toy_cn (\<lambda>t k. True) 0 0 (b_header toy_genesis) 2 = Some (Ok sol)"
proof -
  have "\<exists>res. mine_block_parallel toy_cn (\<lambda>t k. True) 0 0 (b_header toy_genesis) 2 = Some res"
    by (simp add: mine_block_parallel_def numeral_2_eq_2 worker_loop.simps)
  then show ?thesis using mine_block_parallel_correct [OF toy_cn_ok] by blast
qed

end
