(* ===== verification/Fry_Difficulty.thy ===== *)
theory Fry_Difficulty
  imports Fry_Block
begin

text \<open>
  \<open>frychain-consensus/src/difficulty.rs\<close>. The code computes in \<open>f64\<close>. Every number that
  occurs is nonnegative, at most \<open>2 ^ 131\<close> and, when it is not zero, at least \<open>2 ^ - 65\<close>, so
  it is a normal binary64 number and IEEE arithmetic is the exact result rounded to 53
  significant bits, ties to even. A float is its value times \<open>2 ^ 128\<close>, a natural number.
  The lemmas bound the adjustment by the factor of four and show that a window on target
  keeps the difficulty.
\<close>

subsection \<open>Binary64 arithmetic\<close>

type_synonym f64 = nat

text \<open>\<open>n\<close> and a remainder smaller than 1 (\<open>sticky\<close>) rounded to 53 bits.\<close>

definition round53 :: "nat \<Rightarrow> bool \<Rightarrow> nat" where
  "round53 n sticky =
     (if bit_len n \<le> 53 then n
      else let s = bit_len n - 53; q = n div 2 ^ s; r = n mod 2 ^ s; half = 2 ^ (s - 1)
           in (if r > half \<or> r = half \<and> (sticky \<or> odd q) then q + 1 else q) * 2 ^ s)"

definition f64_one :: f64 where "f64_one = 2 ^ 128"

definition f64_of_nat :: "nat \<Rightarrow> f64" where
  "f64_of_nat n = round53 n False * f64_one"

definition f64_div :: "f64 \<Rightarrow> f64 \<Rightarrow> f64" where
  "f64_div a b = round53 (a * f64_one div b) (a * f64_one mod b \<noteq> 0)"

text \<open>One factor is an integer here, so the product is a multiple of \<open>f64_one\<close>.\<close>

definition f64_mul :: "f64 \<Rightarrow> f64 \<Rightarrow> f64" where
  "f64_mul a b = round53 (a * b) False div f64_one"

definition f64_clamp :: "f64 \<Rightarrow> f64 \<Rightarrow> f64 \<Rightarrow> f64" where
  "f64_clamp x lo hi = (if x < lo then lo else if x > hi then hi else x)"

text \<open>\<open>as u128\<close> truncates and saturates.\<close>

definition f64_to_u128 :: "f64 \<Rightarrow> u128" where
  "f64_to_u128 x = (if x div f64_one < 2 ^ 128 then word_of_nat (x div f64_one) else - 1)"

subsection \<open>The adjuster\<close>

record difficulty_adjuster =
  da_target_block_time :: u64
  da_adjustment_interval :: u64
  da_max_adjustment_factor :: f64
  da_min_difficulty :: difficulty

definition adjuster_new :: "u64 \<Rightarrow> u64 \<Rightarrow> difficulty_adjuster" where
  "adjuster_new target_block_time adjustment_interval =
     \<lparr>da_target_block_time = target_block_time, da_adjustment_interval = adjustment_interval,
      da_max_adjustment_factor = 4 * f64_one, da_min_difficulty = DIFFICULTY_MIN\<rparr>"

definition adjuster_default :: difficulty_adjuster where
  "adjuster_default = adjuster_new TARGET_BLOCK_TIME_SECS DIFFICULTY_ADJUSTMENT_INTERVAL"

text \<open>\<open>Panic\<close> is the remainder by a zero interval.\<close>

definition should_adjust :: "difficulty_adjuster \<Rightarrow> block_height \<Rightarrow> (unit, bool) outcome" where
  "should_adjust da h =
     (if h > 0
      then if da_adjustment_interval da = 0 then Panic else Ok (h mod da_adjustment_interval da = 0)
      else Ok False)"

definition calculate_new_difficulty :: "difficulty_adjuster \<Rightarrow> difficulty \<Rightarrow> u64 \<Rightarrow> u64 \<Rightarrow> difficulty" where
  "calculate_new_difficulty da current first_block_time last_block_time =
     (let actual_time = saturating_sub last_block_time first_block_time;
          expected_time = da_adjustment_interval da * da_target_block_time da
      in if actual_time = 0
         then difficulty_new (f64_to_u128 (f64_mul (f64_of_nat (unat current)) (da_max_adjustment_factor da)))
         else let ratio = f64_div (f64_of_nat (unat expected_time)) (f64_of_nat (unat actual_time));
                  clamped_ratio = f64_clamp ratio (f64_div f64_one (da_max_adjustment_factor da))
                                    (da_max_adjustment_factor da);
                  new_difficulty = f64_to_u128 (f64_mul (f64_of_nat (unat current)) clamped_ratio)
              in difficulty_new (max new_difficulty (da_min_difficulty da)))"

definition adjuster_next_difficulty ::
    "difficulty_adjuster \<Rightarrow> block_header list \<Rightarrow> (unit, difficulty) outcome" where
  "adjuster_next_difficulty da parent_headers =
     (if parent_headers = [] then Ok DIFFICULTY_INITIAL
      else let next_height = height_next (bh_height (last parent_headers))
           in bindR (should_adjust da next_height) (\<lambda>adjust.
              if \<not> adjust then Ok (bh_difficulty (last parent_headers))
              else let window_start = saturating_sub next_height (da_adjustment_interval da);
                       first_header = (case find (\<lambda>h. bh_height h = window_start) parent_headers of
                                         None \<Rightarrow> hd parent_headers | Some h \<Rightarrow> h);
                       last_header = last parent_headers
                   in Ok (calculate_new_difficulty da (bh_difficulty last_header)
                            (bh_timestamp first_header) (bh_timestamp last_header))))"

definition estimate_network_hashrate :: "block_header list \<Rightarrow> f64" where
  "estimate_network_hashrate blocks =
     (if length blocks < 2 then 0
      else let time_span = saturating_sub (bh_timestamp (last blocks)) (bh_timestamp (hd blocks))
           in if time_span = 0 then 0
              else let total_difficulty = sum_list (map bh_difficulty blocks)
                   in f64_div (f64_of_nat (unat total_difficulty)) (f64_of_nat (unat time_span)))"

subsection \<open>Rounding\<close>

lemma round53_small: "n < 2 ^ 53 \<Longrightarrow> round53 n st = n"
  using bit_len_less [of n 53] by (simp add: round53_def)

lemma bit_len_bounds: "n < 2 ^ bit_len n" "0 < n \<Longrightarrow> 2 ^ (bit_len n - 1) \<le> n"
proof -
  show "n < 2 ^ bit_len n" using bit_len_ge [of "bit_len n" n] by (meson linorder_not_le less_irrefl)
  assume "0 < n"
  then have "0 < bit_len n" by (simp add: bit_len.simps [of n])
  then show "2 ^ (bit_len n - 1) \<le> n" using bit_len_less [of n "bit_len n - 1"] by (meson linorder_not_le diff_less less_one)
qed

lemma bit_len_mult_power: "0 < m \<Longrightarrow> bit_len (m * 2 ^ k) = bit_len m + k"
proof (induction k)
  case (Suc k)
  have "bit_len (2 * (m * 2 ^ k)) = Suc (bit_len (m * 2 ^ k))"
    using Suc.prems by (simp add: bit_len.simps [of "2 * (m * 2 ^ k)"])
  with Suc show ?case by (simp add: mult.left_commute)
qed simp

text \<open>Rounding to a multiple of \<open>2 ^ s\<close>.\<close>

definition round_at :: "nat \<Rightarrow> nat \<Rightarrow> bool \<Rightarrow> nat" where
  "round_at s n st =
     (let q = n div 2 ^ s; r = n mod 2 ^ s; half = 2 ^ (s - 1)
      in (if r > half \<or> r = half \<and> (st \<or> odd q) then q + 1 else q) * 2 ^ s)"

lemma round53_round_at: "round53 n st = (if bit_len n \<le> 53 then n else round_at (bit_len n - 53) n st)"
  by (simp add: round53_def round_at_def Let_def)

lemma round_at_range: "n div 2 ^ s * 2 ^ s \<le> round_at s n st" "round_at s n st \<le> (n div 2 ^ s + 1) * 2 ^ s"
  by (simp_all add: round_at_def Let_def)

lemma round_at_mono:
  assumes "n \<le> n'"
  shows "round_at s n False \<le> round_at s n' False"
proof (cases "n div 2 ^ s = n' div 2 ^ s")
  case True
  have "n mod 2 ^ s \<le> n' mod 2 ^ s"
  proof -
    have "n div 2 ^ s * 2 ^ s + n mod 2 ^ s \<le> n' div 2 ^ s * 2 ^ s + n' mod 2 ^ s"
      using assms by (simp only: div_mult_mod_eq)
    with True show ?thesis by simp
  qed
  with True show ?thesis by (auto simp: round_at_def Let_def)
next
  case False
  with assms have "n div 2 ^ s + 1 \<le> n' div 2 ^ s" by (simp add: div_le_mono order_neq_le_trans Suc_leI)
  then have "(n div 2 ^ s + 1) * 2 ^ s \<le> n' div 2 ^ s * 2 ^ s" by (rule mult_le_mono1)
  with round_at_range(2) [of s n False] round_at_range(1) [of n' s False] show ?thesis by linarith
qed

lemma round53_range:
  assumes "0 < n"
  shows "2 ^ (bit_len n - 1) \<le> round53 n st" and "round53 n st \<le> 2 ^ bit_len n"
proof -
  have lo: "2 ^ (bit_len n - 1) \<le> n" and hi: "n < 2 ^ bit_len n"
    using bit_len_bounds [of n] assms by simp_all
  have "2 ^ (bit_len n - 1) \<le> round53 n st \<and> round53 n st \<le> 2 ^ bit_len n"
  proof (cases "bit_len n \<le> 53")
    case True
    with lo hi show ?thesis
      by (simp_all add: round53_round_at)
  next
    case False
    define s where "s = bit_len n - 53"
    have e: "bit_len n = 53 + s" "bit_len n - 1 = 52 + s" using False by (simp_all add: s_def)
    have p: "(2::nat) ^ (bit_len n - 1) = 2 ^ 52 * 2 ^ s" "(2::nat) ^ bit_len n = 2 ^ 53 * 2 ^ s"
      by (simp only: e(2) power_add) (simp only: e(1) power_add)
    have "2 ^ 52 * 2 ^ s \<le> n" "n < 2 ^ 53 * 2 ^ s" using lo hi unfolding p .
    then have "2 ^ 52 \<le> n div 2 ^ s" and q: "n div 2 ^ s < 2 ^ 53"
      by (simp_all add: less_eq_div_iff_mult_less_eq div_less_iff_less_mult)
    then have "2 ^ 52 * 2 ^ s \<le> n div 2 ^ s * 2 ^ s" by (intro mult_le_mono1)
    moreover have "(n div 2 ^ s + 1) * 2 ^ s \<le> 2 ^ 53 * 2 ^ s" using q by (intro mult_le_mono1) simp
    moreover have "round53 n st = round_at s n st" using False by (simp add: round53_round_at s_def)
    ultimately show ?thesis
      using round_at_range(1) [of n s st] round_at_range(2) [of s n st] unfolding p by linarith
  qed
  then show "2 ^ (bit_len n - 1) \<le> round53 n st" and "round53 n st \<le> 2 ^ bit_len n" by simp_all
qed

lemma round53_mono:
  assumes "n \<le> n'"
  shows "round53 n False \<le> round53 n' False"
proof (cases "n = 0")
  case True
  then show ?thesis by (simp add: round53_small)
next
  case False
  with assms have pos: "0 < n" "0 < n'" by simp_all
  have le: "bit_len n \<le> bit_len n'" using assms by (rule bit_len_mono)
  show ?thesis
  proof (cases "bit_len n = bit_len n'")
    case True
    with assms show ?thesis by (auto simp: round53_round_at intro: round_at_mono)
  next
    case False
    with le have "bit_len n \<le> bit_len n' - 1" by simp
    then have "(2::nat) ^ bit_len n \<le> 2 ^ (bit_len n' - 1)" by (rule power_increasing) simp
    with round53_range [OF pos(1), of False] round53_range [OF pos(2), of False] show ?thesis by linarith
  qed
qed

lemma round53_exact:
  assumes "m < 2 ^ 53"
  shows "round53 (m * 2 ^ k) False = m * 2 ^ k"
proof (cases "m = 0 \<or> bit_len (m * 2 ^ k) \<le> 53")
  case True
  then show ?thesis by (auto simp: round53_round_at bit_len.simps [of 0])
next
  case False
  define s where "s = bit_len (m * 2 ^ k) - 53"
  have "bit_len m \<le> 53" using assms by (rule bit_len_less)
  with False have "s \<le> k" by (auto simp: s_def bit_len_mult_power)
  then have "2 ^ s dvd m * (2::nat) ^ k" by (simp add: le_imp_power_dvd)
  then have "(m * 2 ^ k) mod 2 ^ s = 0" and "m * 2 ^ k div 2 ^ s * 2 ^ s = m * 2 ^ k" by simp_all
  with False show ?thesis by (simp add: round53_round_at s_def [symmetric] round_at_def Let_def)
qed

text \<open>A rounded number has at most 53 significant bits.\<close>

lemma round53_significant: "\<exists>m k. round53 n st = m * 2 ^ k \<and> m \<le> 2 ^ 53 \<and> (m = 2 ^ 53 \<or> m < 2 ^ 53)"
proof (cases "bit_len n \<le> 53")
  case True
  have "n < 2 ^ bit_len n" by (rule bit_len_bounds)
  also have "\<dots> \<le> 2 ^ 53" using True by (intro power_increasing) simp_all
  finally show ?thesis using True by (intro exI [of _ n] exI [of _ 0]) (simp add: round53_round_at)
next
  case False
  define s where "s = bit_len n - 53"
  have "round53 n st \<le> 2 ^ bit_len n" using round53_range(2) [of n st] False by (cases "n = 0") (simp_all add: bit_len.simps)
  moreover have "\<exists>m. round53 n st = m * 2 ^ s" using False by (auto simp: round53_round_at s_def round_at_def Let_def)
  then obtain m where m: "round53 n st = m * 2 ^ s" by blast
  moreover have "bit_len n = 53 + s" using False by (simp add: s_def)
  then have "(2::nat) ^ bit_len n = 2 ^ 53 * 2 ^ s" by (simp only: power_add)
  ultimately have "m * 2 ^ s \<le> 2 ^ 53 * 2 ^ s" by simp
  then have "m \<le> 2 ^ 53" by simp
  with m show ?thesis by (intro exI [of _ m] exI [of _ s]) auto
qed

lemma round53_round53_shift: "round53 (round53 n st * 2 ^ k) False = round53 n st * 2 ^ k"
proof -
  obtain m j where r: "round53 n st = m * 2 ^ j" "m = 2 ^ 53 \<or> m < 2 ^ 53"
    using round53_significant by blast
  have eq: "round53 n st * 2 ^ k = m * 2 ^ (j + k)" by (simp add: r power_add)
  show ?thesis
  proof (cases "m < 2 ^ 53")
    case True
    then show ?thesis unfolding eq by (rule round53_exact)
  next
    case False
    with r have "m * 2 ^ (j + k) = 1 * 2 ^ (53 + (j + k))" by (simp add: power_add)
    then show ?thesis unfolding eq using round53_exact [of 1 "53 + (j + k)"] by simp
  qed
qed

subsection \<open>The adjustment\<close>

lemma f64_mul_bounds:
  assumes "2 ^ 126 \<le> c" and "c \<le> 2 ^ 130"
  shows "round53 d False div 4 \<le> f64_mul (f64_of_nat d) c div f64_one"
    and "f64_mul (f64_of_nat d) c div f64_one \<le> 4 * round53 d False"
proof -
  let ?D = "round53 d False"
  have lo: "?D * 2 ^ 254 \<le> f64_of_nat d * c"
  proof -
    have "?D * 2 ^ 128 * 2 ^ 126 \<le> ?D * 2 ^ 128 * c" using assms(1) by (rule mult_le_mono2)
    then show ?thesis by (simp add: f64_of_nat_def f64_one_def)
  qed
  have hi: "f64_of_nat d * c \<le> ?D * 2 ^ 258"
  proof -
    have "?D * 2 ^ 128 * c \<le> ?D * 2 ^ 128 * 2 ^ 130" using assms(2) by (rule mult_le_mono2)
    then show ?thesis by (simp add: f64_of_nat_def f64_one_def)
  qed
  have "?D * 2 ^ 254 \<le> round53 (f64_of_nat d * c) False"
    using round53_mono [OF lo] round53_round53_shift [of d False 254] by simp
  then have "?D * 2 ^ 254 div 2 ^ 128 \<le> round53 (f64_of_nat d * c) False div 2 ^ 128" by (rule div_le_mono)
  then have "?D * 2 ^ 126 \<le> f64_mul (f64_of_nat d) c" by (simp add: f64_mul_def f64_one_def)
  then have "?D * 2 ^ 126 div 2 ^ 128 \<le> f64_mul (f64_of_nat d) c div 2 ^ 128" by (rule div_le_mono)
  moreover have "?D * 2 ^ 126 div 2 ^ 128 = ?D div 4"
    using div_mult_mult2 [of "2 ^ 126" ?D 4] by simp
  ultimately show "?D div 4 \<le> f64_mul (f64_of_nat d) c div f64_one" by (simp add: f64_one_def)
  have "round53 (f64_of_nat d * c) False \<le> ?D * 2 ^ 258"
    using round53_mono [OF hi] round53_round53_shift [of d False 258] by simp
  then have "round53 (f64_of_nat d * c) False div 2 ^ 128 \<le> ?D * 2 ^ 258 div 2 ^ 128" by (rule div_le_mono)
  then have "f64_mul (f64_of_nat d) c \<le> ?D * 2 ^ 130" by (simp add: f64_mul_def f64_one_def)
  then have "f64_mul (f64_of_nat d) c div 2 ^ 128 \<le> ?D * 2 ^ 130 div 2 ^ 128" by (rule div_le_mono)
  then show "f64_mul (f64_of_nat d) c div f64_one \<le> 4 * ?D" by (simp add: f64_one_def)
qed

lemma f64_to_u128_value: "unat (f64_to_u128 x) = min (x div f64_one) (2 ^ 128 - 1)"
  by (auto simp: f64_to_u128_def unat_of_nat unat_minus_one_word)

lemma unat_difficulty_new: "unat (difficulty_new v) = max (unat v) 1"
  by (auto simp: difficulty_new_def max_def word_le_nat_alt)

lemma clamp_range: "2 ^ 126 \<le> f64_clamp x (2 ^ 126) (2 ^ 130) \<and> f64_clamp x (2 ^ 126) (2 ^ 130) \<le> 2 ^ 130"
  by (auto simp: f64_clamp_def)

lemma quarter: "f64_div f64_one (4 * f64_one) = 2 ^ 126"
proof -
  have "f64_one * f64_one div (4 * f64_one) = 1 * 2 ^ 126" "f64_one * f64_one mod (4 * f64_one) = 0"
    by (simp_all add: f64_one_def)
  then show ?thesis using round53_exact [of 1 126] by (simp add: f64_div_def)
qed

lemma f64_div_self:
  assumes "0 < a" and "a < 2 ^ 53"
  shows "f64_div (f64_of_nat a) (f64_of_nat a) = f64_one"
proof -
  have "f64_of_nat a = a * 2 ^ 128" using assms by (simp add: f64_of_nat_def round53_small f64_one_def)
  then have "f64_of_nat a * f64_one div f64_of_nat a = 1 * 2 ^ 128" "f64_of_nat a * f64_one mod f64_of_nat a = 0"
    using assms by (simp_all add: f64_one_def)
  then show ?thesis using round53_exact [of 1 128] by (simp add: f64_div_def f64_one_def)
qed

lemma f64_mul_one: "f64_mul (f64_of_nat d) f64_one = f64_of_nat d"
proof -
  have "f64_of_nat d * f64_one = round53 d False * 2 ^ 256" by (simp add: f64_of_nat_def f64_one_def)
  then have "f64_mul (f64_of_nat d) f64_one = round53 d False * 2 ^ 256 div f64_one"
    by (simp only: f64_mul_def round53_round53_shift)
  then show ?thesis by (simp add: f64_of_nat_def f64_one_def)
qed

lemma clip: "a \<le> x \<Longrightarrow> x \<le> b \<Longrightarrow> max 1 (min a m) \<le> max (min x m) 1 \<and> max (min x m) 1 \<le> max 1 (min b (m :: nat))"
  by auto

lemma new_difficulty_range:
  defines "D d \<equiv> round53 (unat d) False"
  shows "max 1 (min (D d div 4) (2 ^ 128 - 1)) \<le> unat (calculate_new_difficulty (adjuster_new t i) d a b)
    \<and> unat (calculate_new_difficulty (adjuster_new t i) d a b) \<le> max 1 (min (4 * D d) (2 ^ 128 - 1))"
proof -
  have f: "da_max_adjustment_factor (adjuster_new t i) = 4 * f64_one" "da_min_difficulty (adjuster_new t i) = 1"
    by (simp_all add: adjuster_new_def DIFFICULTY_MIN_def)
  have four: "4 * f64_one = 2 ^ 130" by (simp add: f64_one_def)
  have *: "max 1 (min (D d div 4) (2 ^ 128 - 1)) \<le> max (unat (f64_to_u128 (f64_mul (f64_of_nat (unat d)) c))) 1
    \<and> max (unat (f64_to_u128 (f64_mul (f64_of_nat (unat d)) c))) 1 \<le> max 1 (min (4 * D d) (2 ^ 128 - 1))"
    if "2 ^ 126 \<le> c" "c \<le> 2 ^ 130" for c
    unfolding f64_to_u128_value D_def
    by (rule clip) (rule f64_mul_bounds [OF that])+
  show ?thesis
  proof (cases "saturating_sub b a = 0")
    case True
    then show ?thesis using * [of "2 ^ 130"]
      by (simp add: calculate_new_difficulty_def f four unat_difficulty_new del: power_numeral)
  next
    case False
    obtain c where c: "2 ^ 126 \<le> c" "c \<le> 2 ^ 130"
      "unat (calculate_new_difficulty (adjuster_new t i) d a b)
         = max (unat (max (f64_to_u128 (f64_mul (f64_of_nat (unat d)) c)) 1)) 1"
      using False clamp_range quarter
      by (simp add: calculate_new_difficulty_def f four unat_difficulty_new Let_def del: power_numeral) metis
    have "unat (max x 1) = max (unat x) 1" for x :: u128 by (auto simp: max_def word_le_nat_alt)
    with c * [OF c(1,2)] show ?thesis by simp
  qed
qed

subsection \<open>Properties\<close>

text \<open>C10: The retarget is bounded and has a fixed point. Let \<open>D\<close> be the current
  difficulty rounded to 53 bits (the difficulty itself below \<open>2 ^ 53\<close>). Whatever the
  timestamps, the new difficulty is at least 1, at least a quarter of \<open>D\<close> and at most four
  times \<open>D\<close>, capped at the largest 128-bit number; a window that takes no time multiplies by
  exactly four; and when the window took exactly the expected time (below \<open>2 ^ 53\<close> seconds) the
  new difficulty is \<open>D\<close>, so that difficulties below \<open>2 ^ 53\<close> are kept.\<close>

theorem retarget_bounded:
  defines "D d \<equiv> round53 (unat d) False"
  shows "max 1 (min (D d div 4) (2 ^ 128 - 1)) \<le> unat (calculate_new_difficulty (adjuster_new t i) d a b)
    \<and> unat (calculate_new_difficulty (adjuster_new t i) d a b) \<le> max 1 (min (4 * D d) (2 ^ 128 - 1))
    \<and> (b \<le> a \<longrightarrow> unat (calculate_new_difficulty (adjuster_new t i) d a b) = max 1 (min (4 * D d) (2 ^ 128 - 1)))
    \<and> (a \<le> b \<and> b - a = i * t \<and> 0 < unat (b - a) \<and> unat (b - a) < 2 ^ 53 \<longrightarrow>
         unat (calculate_new_difficulty (adjuster_new t i) d a b) = max 1 (min (D d) (2 ^ 128 - 1)))
    \<and> (unat d < 2 ^ 53 \<longrightarrow> D d = unat d)"
proof (intro conjI impI)
  show "max 1 (min (D d div 4) (2 ^ 128 - 1)) \<le> unat (calculate_new_difficulty (adjuster_new t i) d a b)"
    and "unat (calculate_new_difficulty (adjuster_new t i) d a b) \<le> max 1 (min (4 * D d) (2 ^ 128 - 1))"
    using new_difficulty_range unfolding D_def by blast+
  show "D d = unat d" if "unat d < 2 ^ 53" using that by (simp add: D_def round53_small)
  have mul4: "f64_mul (f64_of_nat (unat d)) (4 * f64_one) div f64_one = 4 * D d"
  proof -
    have "f64_of_nat (unat d) * (4 * f64_one) = D d * 2 ^ 258" by (simp add: f64_of_nat_def f64_one_def D_def)
    then have "f64_mul (f64_of_nat (unat d)) (4 * f64_one) = D d * 2 ^ 258 div f64_one"
      by (simp only: f64_mul_def D_def round53_round53_shift)
    then show ?thesis by (simp add: f64_one_def)
  qed
  show "unat (calculate_new_difficulty (adjuster_new t i) d a b) = max 1 (min (4 * D d) (2 ^ 128 - 1))"
    if "b \<le> a"
  proof -
    have z: "saturating_sub b a = 0" using that by (auto simp: saturating_sub_def)
    show ?thesis
      by (simp only: calculate_new_difficulty_def z Let_def if_True simp_thms unat_difficulty_new f64_to_u128_value
          adjuster_new_def difficulty_adjuster.simps mul4 max.commute)
  qed
  show "unat (calculate_new_difficulty (adjuster_new t i) d a b) = max 1 (min (D d) (2 ^ 128 - 1))"
    if w: "a \<le> b \<and> b - a = i * t \<and> 0 < unat (b - a) \<and> unat (b - a) < 2 ^ 53"
  proof -
    have sub: "saturating_sub b a = i * t" "i * t \<noteq> 0" using w by (auto simp: saturating_sub_def)
    have ratio: "f64_div (f64_of_nat (unat (i * t))) (f64_of_nat (unat (i * t))) = f64_one"
    proof -
      have e: "b - a = i * t" using w by blast
      have "0 < unat (i * t)" "unat (i * t) < 2 ^ 53" using w unfolding e [symmetric] by blast+
      then show ?thesis by (rule f64_div_self)
    qed
    have clamp: "f64_clamp f64_one (2 ^ 126) (4 * f64_one) = f64_one"
      by (simp add: f64_clamp_def f64_one_def)
    have one: "f64_mul (f64_of_nat (unat d)) f64_one div f64_one = D d"
      by (simp only: f64_mul_one) (simp add: f64_of_nat_def f64_one_def D_def)
    have "unat (max x DIFFICULTY_MIN) = max (unat x) 1" for x :: u128
      by (auto simp: max_def word_le_nat_alt DIFFICULTY_MIN_def)
    then show ?thesis
      using sub(2)
      by (simp only: calculate_new_difficulty_def sub(1) Let_def if_False simp_thms unat_difficulty_new f64_to_u128_value
          adjuster_new_def difficulty_adjuster.simps quarter ratio clamp one)
  qed
qed

theorem retarget_bounded_witness:
  "unat (calculate_new_difficulty (adjuster_new 60 2016) 1000 500 (500 + 120960)) = 1000
   \<and> unat (calculate_new_difficulty (adjuster_new 60 2016) 1000 500 500) = 4000"
  using retarget_bounded [of 1000 60 2016 500 "500 + 120960"] retarget_bounded [of 1000 60 2016 500 500]
  by (simp add: round53_small word_le_nat_alt)

end
