(* ===== verification/Fry_Chain.thy ===== *)
theory Fry_Chain
  imports Fry_Storage Fry_Pow Fry_Difficulty
begin

text \<open>
  \<open>frychain-consensus/src/chain.rs\<close>: the blockchain object. Its state is the database, the
  head, the orphans (a map from the missing parent to one waiting block), the set of known
  hashes and the in-memory account state; the configuration and the external libraries are
  the record \<open>chain_env\<close>. The state is explicit and survives an error. The lemmas: the
  head always has the largest total difficulty seen (also on a database that fails, save after an I/O error), importing terminates although it
  calls itself for a waiting child, and what an import stores.
\<close>

record 'd chain_env =
  ce_config :: chain_config
  ce_store :: "'d store_env"
  ce_env :: env
  ce_cn :: cn_lib

record 'd chain =
  ch_db :: 'd
  ch_head :: "stored_block option"
  ch_pending :: "(hash256 \<times> block) list"
  ch_known :: "hash256 list"
  ch_state :: account_state

text \<open>A storage operation inside a chain operation: \<open>?\<close> converts the error.\<close>

definition on_db :: "('d, storage_error, 'a) prog \<Rightarrow> ('d chain, consensus_error, 'a) prog" where
  "on_db m = (\<lambda>c. case m (ch_db c) of (r, d') \<Rightarrow> (map_err StorageError r, c\<lparr>ch_db := d'\<rparr>))"

definition load_head :: "'d chain_env \<Rightarrow> ('d chain, consensus_error, unit) prog" where
  "load_head ce = bindM (on_db (get_latest_height (ce_store ce))) (\<lambda>ho.
     case ho of None \<Rightarrow> ret ()
     | Some height \<Rightarrow> bindM (on_db (get_hash_by_height (ce_store ce) height)) (\<lambda>hho.
         case hho of None \<Rightarrow> ret ()
         | Some h \<Rightarrow> bindM (on_db (get_stored_block (ce_store ce) h)) (\<lambda>so.
             case so of None \<Rightarrow> ret () | Some sb \<Rightarrow> modify (ch_head_update (\<lambda>_. Some sb)))))"

definition chain_new :: "'d chain_env \<Rightarrow> 'd \<Rightarrow> (consensus_error, unit) outcome \<times> 'd chain" where
  "chain_new ce d = load_head ce
     \<lparr>ch_db = d, ch_head = None, ch_pending = [], ch_known = [], ch_state = state_new\<rparr>"

fun apply_allocations :: "hash_fn \<Rightarrow> genesis_allocation list \<Rightarrow> account_state \<Rightarrow> account_state" where
  "apply_allocations sha3 [] s = s"
| "apply_allocations sha3 (alloc # rest) s =
     (let s1 = set_account (account_with_balance (ga_address alloc) (ga_balance alloc)) s;
          s2 = (case ga_code alloc of None \<Rightarrow> s1 | Some code \<Rightarrow> set_code sha3 (ga_address alloc) code s1)
      in apply_allocations sha3 rest s2)"

definition init_genesis :: "'d chain_env \<Rightarrow> address \<Rightarrow> ('d chain, consensus_error, block) prog" where
  "init_genesis ce miner = bindM (on_db (get_genesis_hash (ce_store ce))) (\<lambda>existing.
     if existing \<noteq> None then fail (InvalidBlockC ''Genesis already exists'')
     else
       let cfg = ce_config ce; sha3 = env_sha3 (ce_env ce);
           genesis = block_genesis (env_now (ce_env ce)) miner (cc_initial_difficulty cfg);
           stored = stored_block_new genesis (block_hash sha3 genesis) (cc_initial_difficulty cfg)
       in thenM (modify (ch_state_update (apply_allocations sha3 (cc_genesis_allocations cfg))))
          (thenM (on_db (put_block (ce_store ce) stored))
          (thenM (on_db (set_latest_height (ce_store ce) 0))
          (thenM (modify (ch_head_update (\<lambda>_. Some stored)))
          (ret genesis)))))"

definition chain_height :: "'d chain \<Rightarrow> block_height" where
  "chain_height c = (case ch_head c of None \<Rightarrow> 0 | Some h \<Rightarrow> bh_height (b_header (sb_block h)))"

definition chain_difficulty :: "'d chain_env \<Rightarrow> 'd chain \<Rightarrow> difficulty" where
  "chain_difficulty ce c = (case ch_head c of None \<Rightarrow> cc_initial_difficulty (ce_config ce)
     | Some h \<Rightarrow> bh_difficulty (b_header (sb_block h)))"

definition chain_total_difficulty :: "'d chain \<Rightarrow> u128" where
  "chain_total_difficulty c = (case ch_head c of None \<Rightarrow> 0 | Some h \<Rightarrow> sb_total_difficulty h)"

definition chain_get_block :: "'d chain_env \<Rightarrow> hash256 \<Rightarrow> ('d chain, consensus_error, block option) prog" where
  "chain_get_block ce h = on_db (get_block (ce_store ce) h)"

definition chain_get_block_by_height :: "'d chain_env \<Rightarrow> block_height \<Rightarrow> ('d chain, consensus_error, block option) prog" where
  "chain_get_block_by_height ce n = on_db (get_block_by_height (ce_store ce) n)"

text \<open>\<open>known || has_block(..).unwrap_or(false)\<close>.\<close>

definition chain_has_block :: "'d chain_env \<Rightarrow> hash256 \<Rightarrow> ('d chain, consensus_error, bool) prog" where
  "chain_has_block ce h = (\<lambda>c.
     if h \<in> set (ch_known c) then (Ok True, c)
     else case store_has_block (ce_store ce) h (ch_db c) of
            (Ok b, d') \<Rightarrow> (Ok b, c\<lparr>ch_db := d'\<rparr>)
          | (Err _, d') \<Rightarrow> (Ok False, c\<lparr>ch_db := d'\<rparr>)
          | (Panic, d') \<Rightarrow> (Panic, c\<lparr>ch_db := d'\<rparr>))"

definition set_head :: "'d chain_env \<Rightarrow> stored_block \<Rightarrow> ('d chain, consensus_error, unit) prog" where
  "set_head ce stored =
     thenM (on_db (set_latest_height (ce_store ce) (bh_height (b_header (sb_block stored)))))
       (modify (ch_head_update (\<lambda>_. Some stored)))"

text \<open>\<open>import_block\<close> after the parent has been found: validation, proof of work, total
  difficulty, storage, the head.\<close>

definition import_on_parent :: "'d chain_env \<Rightarrow> block \<Rightarrow> hash256 \<Rightarrow> block \<Rightarrow> ('d chain, consensus_error, unit) prog" where
  "import_on_parent ce b pow_hash parent =
     (let sha3 = env_sha3 (ce_env ce); bhash = block_hash sha3 b in
      thenM (lift_out (validate_block (ce_env ce) (ce_config ce) b (Some parent)))
      (if \<not> header_verify_pow (b_header b) pow_hash then fail InvalidProofOfWorkC
       else bindM (on_db (get_total_difficulty (ce_store ce) (block_hash sha3 parent))) (\<lambda>tdo.
         let parent_td = (case tdo of None \<Rightarrow> 0 | Some t \<Rightarrow> t);
             total_difficulty = parent_td + bh_difficulty (b_header b);
             stored = stored_block_new b pow_hash total_difficulty
         in thenM (on_db (put_block (ce_store ce) stored))
            (thenM (modify (ch_known_update (\<lambda>ks. bhash # ks)))
            (bindM (gets chain_total_difficulty) (\<lambda>current_td.
             whenM (total_difficulty > current_td) (set_head ce stored)))))))"

text \<open>\<open>import_block\<close> up to the processing of waiting children; the result says whether the
  block was stored, that is, whether the function goes on to them.\<close>

definition import_one :: "'d chain_env \<Rightarrow> block \<Rightarrow> hash256 \<Rightarrow> ('d chain, consensus_error, bool) prog" where
  "import_one ce b pow_hash =
     bindM (chain_has_block ce (block_hash (env_sha3 (ce_env ce)) b)) (\<lambda>known.
     if known then ret False
     else bindM (chain_get_block ce (bh_parent_hash (b_header b))) (\<lambda>po.
       case po of
         None \<Rightarrow> thenM (modify (ch_pending_update (AList.update (bh_parent_hash (b_header b)) b))) (ret False)
       | Some parent \<Rightarrow> thenM (import_on_parent ce b pow_hash parent) (ret True)))"

subsection \<open>The waiting children\<close>

interpretation pend: step_frame "\<lambda>c c' :: 'd chain. ch_pending c' = ch_pending c"
  by unfold_locales simp_all

lemma pending_on_db: "keeps (\<lambda>c c'. ch_pending c' = ch_pending c) (on_db m)"
  by (simp add: keeps_def on_db_def split: prod.splits)

lemma pending_set_head: "keeps (\<lambda>c c'. ch_pending c' = ch_pending c) (set_head ce sb)"
  unfolding set_head_def by (intro pend.frame_rules pending_on_db keeps_modify) simp

lemma pending_import_on_parent: "keeps (\<lambda>c c'. ch_pending c' = ch_pending c) (import_on_parent ce b pow parent)"
  unfolding import_on_parent_def Let_def
  by (intro pend.frame_rules pending_on_db keeps_modify pending_set_head) simp

lemma import_one_pending:
  assumes "import_one ce b pow c = (Ok True, c')"
  shows "ch_pending c' = ch_pending c"
proof -
  have 1: "ch_pending (snd (chain_has_block ce h c)) = ch_pending c" for h c
    by (simp add: chain_has_block_def split: prod.splits outcome.splits)
  have 2: "ch_pending (snd (chain_get_block ce h c)) = ch_pending c" for h c
    using pending_on_db [of "get_block (ce_store ce) h"] by (simp add: chain_get_block_def keeps_def)
  have 3: "ch_pending (snd (import_on_parent ce b pow parent c)) = ch_pending c" for parent c
    using pending_import_on_parent [of ce b pow parent] by (simp add: keeps_def)
  show ?thesis
    using assms 1 2 3
    by (auto simp: import_one_def outcome_simps split: outcome.splits if_splits option.splits)
qed

lemma delete_shorter: "map_of al k = Some v \<Longrightarrow> length (AList.delete k al) < length al"
proof (induction al)
  case (Cons p al)
  show ?case
  proof (cases "fst p = k")
    case True
    then show ?thesis using length_delete_le [of k al] by simp
  next
    case False
    with Cons show ?thesis by (cases p) auto
  qed
qed simp

text \<open>\<open>import_block\<close> with \<open>process_pending_blocks\<close>: a stored block releases the one block
  that waits for it, which is removed from the orphans before it is imported.\<close>

function import_block :: "'d chain_env \<Rightarrow> block \<Rightarrow> hash256 \<Rightarrow> ('d chain, consensus_error, unit) prog" where
  "import_block ce b pow_hash c =
     (case import_one ce b pow_hash c of
        (Err e, c') \<Rightarrow> (Err e, c')
      | (Panic, c') \<Rightarrow> (Panic, c')
      | (Ok False, c') \<Rightarrow> (Ok (), c')
      | (Ok True, c') \<Rightarrow>
          (case map_of (ch_pending c') (block_hash (env_sha3 (ce_env ce)) b) of
             None \<Rightarrow> (Ok (), c')
           | Some child \<Rightarrow>
               let c'' = ch_pending_update (AList.delete (block_hash (env_sha3 (ce_env ce)) b)) c'
               in (case verify_pow (ce_cn ce) (b_header child) of
                     Err e \<Rightarrow> (Err e, c'')
                   | Panic \<Rightarrow> (Panic, c'')
                   | Ok child_pow \<Rightarrow> import_block ce child child_pow c'')))"
  by pat_completeness auto

termination
  by (relation "measure (\<lambda>(ce, b, pow, c). length (ch_pending c))")
     (auto dest!: import_one_pending [OF sym] delete_shorter)

declare import_block.simps [simp del]

subsection \<open>The account state during an import\<close>

interpretation accounts: step_frame "\<lambda>c c' :: 'd chain. ch_state c' = ch_state c"
  by unfold_locales simp_all

lemma accounts_on_db: "keeps (\<lambda>c c'. ch_state c' = ch_state c) (on_db m)"
  by (simp add: keeps_def on_db_def split: prod.splits)

lemma accounts_reads:
  "keeps (\<lambda>c c'. ch_state c' = ch_state c) (chain_has_block ce h)"
  "keeps (\<lambda>c c'. ch_state c' = ch_state c) (chain_get_block ce h)"
  using accounts_on_db [of "get_block (ce_store ce) h"]
  by (simp_all add: keeps_def chain_has_block_def chain_get_block_def split: prod.splits outcome.splits)

lemma accounts_import_one: "keeps (\<lambda>c c'. ch_state c' = ch_state c) (import_one ce b pow)"
  unfolding import_one_def import_on_parent_def set_head_def Let_def
  by (intro accounts.frame_rules accounts_on_db accounts_reads keeps_modify) simp_all

lemma accounts_import: "ch_state (snd (import_block ce b pow c)) = ch_state c"
proof (induction ce b pow c rule: import_block.induct)
  case (1 ce b pow c)
  have one: "ch_state c' = ch_state c" if "import_one ce b pow c = (r, c')" for r c'
    using accounts_import_one [of ce b pow] that unfolding keeps_def by (metis snd_conv)
  show ?case
    using 1 one by (subst import_block.simps) (auto simp: Let_def split: prod.splits outcome.splits bool.splits option.splits)
qed

definition next_difficulty :: "'d chain_env \<Rightarrow> ('d chain, consensus_error, difficulty) prog" where
  "next_difficulty ce = (\<lambda>c.
     case ch_head c of
       None \<Rightarrow> (Ok (cc_initial_difficulty (ce_config ce)), c)
     | Some head \<Rightarrow>
         let da = adjuster_new (cc_target_block_time (ce_config ce)) (cc_difficulty_adjustment_interval (ce_config ce));
             hdr = b_header (sb_block head);
             next_height = height_next (bh_height hdr)
         in case should_adjust da next_height of
              Ok False \<Rightarrow> (Ok (bh_difficulty hdr), c)
            | Ok True \<Rightarrow>
                (let window_start = saturating_sub next_height (cc_difficulty_adjustment_interval (ce_config ce))
                 in case chain_get_block_by_height ce window_start c of
                      (Panic, c1) \<Rightarrow> (Panic, c1)
                    | (first_block, c1) \<Rightarrow>
                        (case chain_get_block_by_height ce (bh_height hdr) c1 of
                           (Panic, c2) \<Rightarrow> (Panic, c2)
                         | (last_block, c2) \<Rightarrow>
                             (case (first_block, last_block) of
                                (Ok (Some fb), Ok (Some lb)) \<Rightarrow>
                                  (Ok (calculate_new_difficulty da (bh_difficulty hdr)
                                        (bh_timestamp (b_header fb)) (bh_timestamp (b_header lb))), c2)
                              | _ \<Rightarrow> (Ok (bh_difficulty hdr), c2))))
            | _ \<Rightarrow> (Panic, c))"

definition chain_block_reward :: "'d chain_env \<Rightarrow> 'd chain \<Rightarrow> (unit, token_amount) outcome" where
  "chain_block_reward ce c = block_reward_at_height (ce_config ce) (chain_height c)"

subsection \<open>Steps on a working database\<close>

definition ce_ok :: "'d chain_env \<Rightarrow> ('d \<Rightarrow> view) \<Rightarrow> bool" where
  "ce_ok ce view \<longleftrightarrow> se_ok (ce_store ce) view \<and> se_sha3 (ce_store ce) = env_sha3 (ce_env ce)"

definition stored_of :: "'d chain_env \<Rightarrow> view \<Rightarrow> block \<Rightarrow> hash256 \<Rightarrow> block \<Rightarrow> stored_block option" where
  "stored_of ce m b pow parent =
     (case meta_at (ce_store ce) m (block_hash (env_sha3 (ce_env ce)) parent) of
        Ok mo \<Rightarrow> Some (stored_block_new b pow
          ((case mo of None \<Rightarrow> 0 | Some me \<Rightarrow> bm_total_difficulty me) + bh_difficulty (b_header b)))
      | _ \<Rightarrow> None)"

lemma on_db_read: "m (ch_db c) = (r, ch_db c) \<Longrightarrow> on_db m c = (map_err StorageError r, c)"
  by (simp add: on_db_def)

lemma set_latest_height_ok:
  assumes "se_ok se view"
  shows "\<exists>d'. set_latest_height se n d = (Ok (), d')
    \<and> view d' = apply_wb (WbPut CF_META (str_bytes ''latest_height'') (be_of_word n)) (view d)"
  using db_put_ok [of "se_rocks se" view CF_META "str_bytes ''latest_height''" "be_of_word n" d] assms
  by (simp add: set_latest_height_def se_ok_def ALL_CFS_def)

text \<open>Setting the latest height touches no block.\<close>

definition same_blocks :: "view \<Rightarrow> view \<Rightarrow> bool" where
  "same_blocks m m' \<longleftrightarrow> (\<forall>cf k. cf \<noteq> CF_META \<or> k \<noteq> str_bytes ''latest_height'' \<longrightarrow> m' cf k = m cf k)"

lemma same_blocks_latest: "same_blocks m (apply_wb (WbPut CF_META (str_bytes ''latest_height'') v) m)"
  by (auto simp: same_blocks_def)

lemma same_blocks_reads:
  assumes "same_blocks m m'"
  shows "meta_at se m' h = meta_at se m h" "block_at se m' h = block_at se m h"
    "stored_at se m' h = stored_at se m h" "hash_at m' n = hash_at m n" "m' CF_HEADERS h = m CF_HEADERS h"
proof -
  have eq: "m' CF_HEADERS = m CF_HEADERS" "m' CF_BODIES = m CF_BODIES" "m' CF_HEIGHT_TO_HASH = m CF_HEIGHT_TO_HASH"
    using assms by (auto simp: same_blocks_def cf_names)
  have meta: "m' CF_META (meta_key hx h) = m CF_META (meta_key hx h)" for hx h
    using assms meta_key_other(1) by (simp add: same_blocks_def)
  show m: "meta_at se m' h = meta_at se m h" by (simp add: meta_at_def meta)
  show b: "block_at se m' h = block_at se m h" unfolding block_at_def header_at_def eq ..
  show "stored_at se m' h = stored_at se m h" unfolding stored_at_def m b ..
  show "hash_at m' n = hash_at m n" "m' CF_HEADERS h = m CF_HEADERS h" by (simp_all add: hash_at_def eq)
qed

lemma meta_at_no_panic: "meta_at se m h \<noteq> Panic"
proof -
  have "bindR (deserialize (cd_meta (se_codecs se)) x) (\<lambda>y. Ok (Some y)) \<noteq> Panic" for x
    using deserialize_no_panic [of "cd_meta (se_codecs se)" x]
    by (cases "deserialize (cd_meta (se_codecs se)) x") simp_all
  then show ?thesis
    by (simp add: meta_at_def decoded_def split: option.splits)
qed

lemma import_on_parent_result:
  assumes ok: "ce_ok ce view" and run: "import_on_parent ce b pow parent c = (r, c')"
  defines "m \<equiv> view (ch_db c)" and "m' \<equiv> view (ch_db c')"
  shows "(\<exists>e. r = Err e \<and> c' = c
      \<and> (validate_block (ce_env ce) (ce_config ce) b (Some parent) \<noteq> Ok ()
         \<or> \<not> header_verify_pow (b_header b) pow \<or> stored_of ce m b pow parent = None))
    \<or> (\<exists>sb. r = Ok () \<and> validate_block (ce_env ce) (ce_config ce) b (Some parent) = Ok ()
        \<and> header_verify_pow (b_header b) pow \<and> stored_of ce m b pow parent = Some sb
        \<and> same_blocks (block_view (ce_store ce) sb m) m'
        \<and> ch_known c' = block_hash (env_sha3 (ce_env ce)) b # ch_known c
        \<and> ch_pending c' = ch_pending c \<and> ch_state c' = ch_state c
        \<and> (if sb_total_difficulty sb > chain_total_difficulty c
           then ch_head c' = Some sb
                \<and> m' CF_META (str_bytes ''latest_height'') = Some (be_of_word (bh_height (b_header b)))
           else ch_head c' = ch_head c
                \<and> m' CF_META (str_bytes ''latest_height'') = m CF_META (str_bytes ''latest_height'')))"
proof -
  let ?se = "ce_store ce" and ?d = "ch_db c"
  have se: "se_ok ?se view" and sha: "se_sha3 ?se = env_sha3 (ce_env ce)" using ok by (simp_all add: ce_ok_def)
  let ?V = "validate_block (ce_env ce) (ce_config ce) b (Some parent)"
  let ?M = "meta_at ?se m (block_hash (env_sha3 (ce_env ce)) parent)"
  have td: "on_db (get_total_difficulty ?se h) c = (map_err StorageError (bindR (meta_at ?se m h)
      (\<lambda>mo. Ok (map_option bm_total_difficulty mo))), c)" for h
    by (rule on_db_read) (simp add: reads_at' [OF se] m_def)
  consider (invalid) e where "?V = Err e" | (badpow) "?V = Ok ()" "\<not> header_verify_pow (b_header b) pow"
    | (nometa) e where "?V = Ok ()" "header_verify_pow (b_header b) pow" "?M = Err e"
    | (go) mo where "?V = Ok ()" "header_verify_pow (b_header b) pow" "?M = Ok mo"
    using validate_block_no_panic meta_at_no_panic by (metis (full_types) outcome.exhaust old.unit.exhaust)
  then show ?thesis
  proof cases
    case invalid
    with run have "r = Err e" "c' = c" by (simp_all add: import_on_parent_def Let_def outcome_simps)
    with invalid show ?thesis by simp
  next
    case badpow
    with run show ?thesis by (auto simp: import_on_parent_def Let_def outcome_simps)
  next
    case nometa
    with run show ?thesis by (auto simp: import_on_parent_def Let_def outcome_simps td stored_of_def)
  next
    case go
    define sb where "sb = stored_block_new b pow
      ((case mo of None \<Rightarrow> 0 | Some me \<Rightarrow> bm_total_difficulty me) + bh_difficulty (b_header b))"
    have sbd: "stored_of ce m b pow parent = Some sb" using go by (simp add: stored_of_def sb_def)
    have sb: "sb_block sb = b" by (simp add: sb_def stored_block_new_def)
    have tdv: "(case mo of None \<Rightarrow> 0 | Some x \<Rightarrow> ((\<lambda>t. t) \<circ> bm_total_difficulty) x) + bh_difficulty (b_header b)
        = sb_total_difficulty sb" by (cases mo) (simp_all add: sb_def stored_block_new_def)
    have sbn: "stored_block_new b pow (sb_total_difficulty sb) = sb" by (simp add: sb_def stored_block_new_def)
    obtain d1 where put: "put_block ?se sb ?d = (Ok (), d1)" and v1: "view d1 = block_view ?se sb m"
      using put_block_ok [OF se] m_def by blast
    define c1 where "c1 = c\<lparr>ch_db := d1, ch_known := block_hash (env_sha3 (ce_env ce)) b # ch_known c\<rparr>"
    have c1u: "ch_known_update ((#) (block_hash (env_sha3 (ce_env ce)) b)) (c\<lparr>ch_db := d1\<rparr>) = c1"
      by (cases c) (simp add: c1_def)
    have put1: "on_db (put_block ?se sb) c = (Ok (), c\<lparr>ch_db := d1\<rparr>)"
      using put by (simp add: on_db_def)
    have td1: "chain_total_difficulty c1 = chain_total_difficulty c"
      by (simp add: chain_total_difficulty_def c1_def)
    have run1: "import_on_parent ce b pow parent c =
        (if sb_total_difficulty sb > chain_total_difficulty c then set_head ce sb c1 else (Ok (), c1))"
      using go by (simp add: import_on_parent_def Let_def outcome_simps td tdv sbn put1 c1u td1 whenM_def)
    show ?thesis
    proof (cases "sb_total_difficulty sb > chain_total_difficulty c")
      case False
      then have "r = Ok ()" "c' = c1" using run run1 by simp_all
      with False go sbd v1 show ?thesis
        by (simp add: c1_def m'_def same_blocks_def latest_after_put_block)
    next
      case True
      obtain d2 where lh: "set_latest_height ?se (bh_height (b_header b)) d1 = (Ok (), d2)"
        and v2: "view d2 = apply_wb (WbPut CF_META (str_bytes ''latest_height'') (be_of_word (bh_height (b_header b)))) (view d1)"
        using set_latest_height_ok [OF se] by blast
      have "set_head ce sb c1 = (Ok (), c1\<lparr>ch_db := d2, ch_head := Some sb\<rparr>)"
        using lh by (simp add: set_head_def outcome_simps on_db_def sb c1_def)
      then have r: "r = Ok ()" "c' = c1\<lparr>ch_db := d2, ch_head := Some sb\<rparr>" using run run1 True by simp_all
      have "same_blocks (block_view ?se sb m) (view d2)"
        unfolding v2 v1 by (rule same_blocks_latest)
      with True go sbd r v2 show ?thesis by (simp add: c1_def m'_def)
    qed
  qed
qed

text \<open>What an import finds and does when the parent is stored.\<close>

lemma chain_has_block_ok:
  assumes "ce_ok ce view"
  shows "chain_has_block ce h c = (Ok (h \<in> set (ch_known c) \<or> view (ch_db c) CF_HEADERS h \<noteq> None), c)"
  using reads_at'(4) [of "ce_store ce" view h "ch_db c"] assms
  by (simp add: chain_has_block_def ce_ok_def)

lemma chain_get_block_ok:
  assumes "ce_ok ce view"
  shows "chain_get_block ce h c = (map_err StorageError (block_at (ce_store ce) (view (ch_db c)) h), c)"
  unfolding chain_get_block_def
  by (rule on_db_read) (use assms in \<open>simp add: reads_at ce_ok_def\<close>)

lemma block_at_no_panic: "block_at se m h \<noteq> Panic"
proof -
  have "bindR (deserialize (cd_header (se_codecs se)) x) (\<lambda>y. Ok (Some y)) \<noteq> Panic" for x
    by (rule bindR_no_panic) (simp_all add: deserialize_no_panic)
  moreover have "bindR (deserialize (cd_body (se_codecs se)) x) (\<lambda>y. Ok (Some (f y))) \<noteq> Panic" for x and f :: "block_body \<Rightarrow> block"
    by (rule bindR_no_panic) (simp_all add: deserialize_no_panic)
  ultimately show ?thesis
    unfolding block_at_def by (intro bindR_no_panic) (simp_all add: header_at_def decoded_def split: option.splits)
qed

text \<open>\<open>importable\<close>: the block is new, its parent is stored and it passes validation and the
  proof-of-work check; \<open>parent_td\<close> is the total difficulty recorded for the parent.\<close>

definition importable :: "'d chain_env \<Rightarrow> view \<Rightarrow> 'd chain \<Rightarrow> block \<Rightarrow> hash256 \<Rightarrow> u128 \<Rightarrow> bool" where
  "importable ce m c b pow parent_td \<longleftrightarrow>
     (let se = ce_store ce; h = block_hash (env_sha3 (ce_env ce)) b in
      h \<notin> set (ch_known c) \<and> m CF_HEADERS h = None \<and> header_verify_pow (b_header b) pow
      \<and> (\<exists>parent. block_at se m (bh_parent_hash (b_header b)) = Ok (Some parent)
          \<and> block_hash (env_sha3 (ce_env ce)) parent = bh_parent_hash (b_header b)
          \<and> validate_block (ce_env ce) (ce_config ce) b (Some parent) = Ok ())
      \<and> (\<exists>me. meta_at se m (bh_parent_hash (b_header b)) = Ok (Some me) \<and> bm_total_difficulty me = parent_td))"

lemma import_one_importable:
  assumes ok: "ce_ok ce view" and imp: "importable ce (view (ch_db c)) c b pow td"
  defines "sb \<equiv> stored_block_new b pow (td + bh_difficulty (b_header b))"
  obtains c' where "import_one ce b pow c = (Ok True, c')"
    "same_blocks (block_view (ce_store ce) sb (view (ch_db c))) (view (ch_db c'))"
    "ch_known c' = block_hash (env_sha3 (ce_env ce)) b # ch_known c" "ch_pending c' = ch_pending c"
    "if sb_total_difficulty sb > chain_total_difficulty c
     then ch_head c' = Some sb \<and> view (ch_db c') CF_META (str_bytes ''latest_height'') = Some (be_of_word (bh_height (b_header b)))
     else ch_head c' = ch_head c
       \<and> view (ch_db c') CF_META (str_bytes ''latest_height'') = view (ch_db c) CF_META (str_bytes ''latest_height'')"
proof -
  obtain parent me where p: "block_at (ce_store ce) (view (ch_db c)) (bh_parent_hash (b_header b)) = Ok (Some parent)"
      "block_hash (env_sha3 (ce_env ce)) parent = bh_parent_hash (b_header b)"
      "validate_block (ce_env ce) (ce_config ce) b (Some parent) = Ok ()"
    and me: "meta_at (ce_store ce) (view (ch_db c)) (bh_parent_hash (b_header b)) = Ok (Some me)" "bm_total_difficulty me = td"
    using imp by (auto simp: importable_def Let_def)
  have st: "stored_of ce (view (ch_db c)) b pow parent = Some sb"
    using me p(2) by (simp add: stored_of_def sb_def)
  obtain r c' where run: "import_on_parent ce b pow parent c = (r, c')" by (cases "import_on_parent ce b pow parent c")
  have one: "import_one ce b pow c = (case r of Ok _ \<Rightarrow> (Ok True, c') | Err e \<Rightarrow> (Err e, c') | Panic \<Rightarrow> (Panic, c'))"
    using imp run by (simp add: import_one_def outcome_simps chain_has_block_ok [OF ok] chain_get_block_ok [OF ok] p
        importable_def Let_def split: outcome.splits)
  from import_on_parent_result [OF ok run] p(3) st imp have
    "r = Ok ()" "same_blocks (block_view (ce_store ce) sb (view (ch_db c))) (view (ch_db c'))"
    "ch_known c' = block_hash (env_sha3 (ce_env ce)) b # ch_known c" "ch_pending c' = ch_pending c"
    "if sb_total_difficulty sb > chain_total_difficulty c
     then ch_head c' = Some sb \<and> view (ch_db c') CF_META (str_bytes ''latest_height'') = Some (be_of_word (bh_height (b_header b)))
     else ch_head c' = ch_head c
       \<and> view (ch_db c') CF_META (str_bytes ''latest_height'') = view (ch_db c) CF_META (str_bytes ''latest_height'')"
    by (auto simp: importable_def Let_def)
  with one show thesis using that by simp
qed


subsection \<open>Heaviest head\<close>

text \<open>Every block imported since the start is stored with a total difficulty that is at most
  that of the head.\<close>

definition head_heaviest :: "'d chain_env \<Rightarrow> ('d \<Rightarrow> view) \<Rightarrow> 'd chain \<Rightarrow> bool" where
  "head_heaviest ce view c \<longleftrightarrow> (\<forall>h\<in>set (ch_known c). \<exists>me.
     meta_at (ce_store ce) (view (ch_db c)) h = Ok (Some me) \<and> bm_total_difficulty me \<le> chain_total_difficulty c)"

text \<open>The same for every such block but one.\<close>

definition head_heaviest_but :: "'d chain_env \<Rightarrow> ('d \<Rightarrow> view) \<Rightarrow> hash256 \<Rightarrow> 'd chain \<Rightarrow> bool" where
  "head_heaviest_but ce view x c \<longleftrightarrow> (\<forall>h\<in>set (ch_known c) - {x}. \<exists>me.
     meta_at (ce_store ce) (view (ch_db c)) h = Ok (Some me) \<and> bm_total_difficulty me \<le> chain_total_difficulty c)"

text \<open>What the chain relies on of the libraries when the database may fail: the database is a map, a
  failed write changes nothing, and the encodings of stored blocks are read back.\<close>

definition ce_laws :: "'d chain_env \<Rightarrow> ('d \<Rightarrow> view) \<Rightarrow> bool" where
  "ce_laws ce view \<longleftrightarrow> rocks_laws (se_rocks (ce_store ce)) view \<and> codecs_ok (se_codecs (ce_store ce))
     \<and> hex_laws (se_hex (ce_store ce)) \<and> se_sha3 (ce_store ce) = env_sha3 (ce_env ce)"

lemma ce_ok_laws: "ce_ok ce view \<Longrightarrow> ce_laws ce view"
  by (simp add: ce_ok_def ce_laws_def se_ok_def)

text \<open>The step of an import that ends in \<open>r\<close>: the head does not get lighter and stays
  heaviest, except that an I/O error may leave one block heavier.\<close>

definition heavier ::
    "'d chain_env \<Rightarrow> ('d \<Rightarrow> view) \<Rightarrow> 'd chain \<Rightarrow> (consensus_error, 'a) outcome \<Rightarrow> 'd chain \<Rightarrow> bool" where
  "heavier ce view c r c' \<longleftrightarrow> r \<noteq> Panic \<and> chain_total_difficulty c \<le> chain_total_difficulty c'
     \<and> set (ch_known c) \<subseteq> set (ch_known c')
     \<and> (head_heaviest ce view c \<longrightarrow> head_heaviest ce view c'
          \<or> (\<exists>e x. r = Err (StorageError (DatabaseError e)) \<and> head_heaviest_but ce view x c'))"

lemma heavier_refl: "r \<noteq> Panic \<Longrightarrow> heavier ce view c r c"
  by (simp add: heavier_def)

lemma heavier_trans: "heavier ce view c (Ok x) c' \<Longrightarrow> heavier ce view c' r c'' \<Longrightarrow> heavier ce view c r c''"
  unfolding heavier_def by (auto intro: order_trans)

lemma heavier_result:
  "heavier ce view c (Ok x) c' \<Longrightarrow> r \<noteq> Panic \<Longrightarrow> heavier ce view c r c'"
  "heavier ce view c (Err e) c' \<Longrightarrow> heavier ce view c (Err e) c'"
  by (auto simp: heavier_def)

lemma heavier_pending: "r \<noteq> Panic \<Longrightarrow> heavier ce view c r (ch_pending_update f c)"
  by (simp add: heavier_def head_heaviest_def chain_total_difficulty_def)

lemma chain_reads_pure:
  fixes c :: "'d chain"
  shows "\<exists>r. on_db (get_total_difficulty (ce_store ce) h) c = (r, c) \<and> r \<noteq> Panic"
  "\<exists>r. chain_get_block ce h c = (r, c) \<and> r \<noteq> Panic"
  "\<exists>b. chain_has_block ce h c = (Ok b, c)"
proof -
  have *: "\<exists>r. m d = (r, d) \<and> r \<noteq> Panic" if "keeps (=) m" "never_panics m" for m :: "('s, 'e, 'x) prog" and d
    using that unfolding keeps_def never_panics_def by (metis prod.collapse)
  have 1: "\<exists>r. on_db m c = (r, c) \<and> r \<noteq> Panic" if "keeps (=) m" "never_panics m" for m :: "('d, storage_error, 'x) prog"
    using * [OF that, of "ch_db c"] by (auto simp: on_db_def map_err_not_Panic)
  show "\<exists>r. on_db (get_total_difficulty (ce_store ce) h) c = (r, c) \<and> r \<noteq> Panic"
    "\<exists>r. chain_get_block ce h c = (r, c) \<and> r \<noteq> Panic"
    unfolding chain_get_block_def by (intro 1 reads_unchanged reads_never_panic)+
  show "\<exists>b. chain_has_block ce h c = (Ok b, c)"
    using * [OF reads_unchanged(3) reads_never_panic(3), of "ce_store ce" h "ch_db c"]
    by (auto simp: chain_has_block_def split: outcome.splits)
qed

text \<open>The last steps of an import, the choice of the head, after the block has been stored.\<close>

lemma choose_head_heavier:
  assumes laws: "ce_laws ce view"
    and v1: "view (ch_db c1) = block_view (ce_store ce) sb (view (ch_db c))"
    and c1: "ch_head c1 = ch_head c" "ch_known c1 = block_hash (env_sha3 (ce_env ce)) (sb_block sb) # ch_known c"
    and run: "whenM (sb_total_difficulty sb > chain_total_difficulty c1) (set_head ce sb) c1 = (r, c')"
  shows "heavier ce view c r c'"
proof -
  let ?se = "ce_store ce" and ?m = "view (ch_db c)" and ?h = "block_hash (env_sha3 (ce_env ce)) (sb_block sb)"
  have L: "rocks_laws (se_rocks ?se) view" "codecs_ok (se_codecs ?se)" "hex_laws (se_hex ?se)" "se_sha3 ?se = env_sha3 (ce_env ce)"
    using laws by (simp_all add: ce_laws_def)
  have td1: "chain_total_difficulty c1 = chain_total_difficulty c" using c1 by (simp add: chain_total_difficulty_def)
  have me1: "meta_at ?se (view (ch_db c1)) h = (if h = ?h then Ok (Some \<lparr>bm_pow_hash = sb_pow_hash sb,
      bm_total_difficulty = sb_total_difficulty sb, bm_is_canonical = sb_is_canonical sb\<rparr>) else meta_at ?se ?m h)" for h
    unfolding v1 using meta_after_put_block [OF L(2,3)] by (simp add: L(4))
  show ?thesis
  proof (cases "sb_total_difficulty sb > chain_total_difficulty c1")
    case False
    with run have "r = Ok ()" "c' = c1" by (simp_all add: outcome_simps)
    with False td1 c1 me1 show ?thesis by (auto simp: heavier_def head_heaviest_def)
  next
    case True
    obtain x d2 where lh: "set_latest_height ?se (bh_height (b_header (sb_block sb))) (ch_db c1) = (x, d2)"
      by (cases "set_latest_height ?se (bh_height (b_header (sb_block sb))) (ch_db c1)")
    from db_put_view [OF L(1) _ lh [unfolded set_latest_height_def]]
    have "(x = Ok () \<and> same_blocks (view (ch_db c1)) (view d2))
        \<or> (\<exists>e. x = Err (DatabaseError e) \<and> view d2 = view (ch_db c1))"
      using same_blocks_latest by (fastforce simp: ALL_CFS_def simp del: apply_wb.simps)
    then consider (ok) "x = Ok ()" "same_blocks (view (ch_db c1)) (view d2)"
      | (err) e where "x = Err (DatabaseError e)" "view d2 = view (ch_db c1)"
      by blast
    then show ?thesis
    proof cases
      case ok
      with run True lh have r: "r = Ok ()" "c' = c1\<lparr>ch_db := d2, ch_head := Some sb\<rparr>"
        by (simp_all add: outcome_simps set_head_def on_db_def)
      have me2: "meta_at ?se (view d2) h = meta_at ?se (view (ch_db c1)) h" for h by (rule same_blocks_reads(1) [OF ok(2)])
      have "chain_total_difficulty c' = sb_total_difficulty sb" by (simp add: r chain_total_difficulty_def)
      with True r td1 c1 me1 me2 show ?thesis
        by (auto simp: heavier_def head_heaviest_def intro: order_trans [OF _ less_imp_le])
    next
      case err
      with run True lh have r: "r = Err (StorageError (DatabaseError e))" "c' = c1\<lparr>ch_db := d2\<rparr>"
        by (simp_all add: outcome_simps set_head_def on_db_def)
      have "chain_total_difficulty c' = chain_total_difficulty c" using td1 by (simp add: r chain_total_difficulty_def)
      with r c1 me1 err have "head_heaviest ce view c \<longrightarrow> head_heaviest_but ce view ?h c'"
        by (auto simp: head_heaviest_def head_heaviest_but_def)
      with \<open>chain_total_difficulty c' = chain_total_difficulty c\<close> r c1 show ?thesis by (auto simp: heavier_def)
    qed
  qed
qed

lemma import_on_parent_heavier:
  assumes laws: "ce_laws ce view" and run: "import_on_parent ce b pow parent c = (r, c')"
  shows "heavier ce view c r c'"
proof -
  let ?se = "ce_store ce" and ?V = "validate_block (ce_env ce) (ce_config ce) b (Some parent)"
  obtain t where t: "on_db (get_total_difficulty ?se (block_hash (env_sha3 (ce_env ce)) parent)) c = (t, c)" "t \<noteq> Panic"
    using chain_reads_pure(1) by blast
  consider (stop) "(\<exists>e. ?V = Err e) \<or> \<not> header_verify_pow (b_header b) pow \<or> (\<exists>e. t = Err e)"
    | (go) tdo where "?V = Ok ()" "header_verify_pow (b_header b) pow" "t = Ok tdo"
    using validate_block_no_panic t(2) by (metis (full_types) outcome.exhaust old.unit.exhaust)
  then show ?thesis
  proof cases
    case stop
    with run t have "r \<noteq> Panic \<and> c' = c"
      using validate_block_no_panic [of "ce_env ce" "ce_config ce" b "Some parent"]
      by (cases ?V; cases "header_verify_pow (b_header b) pow")
         (auto simp: import_on_parent_def Let_def outcome_simps)
    then show ?thesis by (simp add: heavier_refl)
  next
    case go
    define sb where "sb = stored_block_new b pow ((case tdo of None \<Rightarrow> 0 | Some t \<Rightarrow> t) + bh_difficulty (b_header b))"
    have sb: "sb_block sb = b" "sb_total_difficulty sb = (case tdo of None \<Rightarrow> 0 | Some t \<Rightarrow> t) + bh_difficulty (b_header b)"
      by (simp_all add: sb_def stored_block_new_def)
    have sbn: "stored_block_new b pow (sb_total_difficulty sb) = sb" by (simp add: sb_def stored_block_new_def)
    obtain x d1 where put: "put_block ?se sb (ch_db c) = (x, d1)" by (cases "put_block ?se sb (ch_db c)")
    then have put1: "on_db (put_block ?se sb) c = (map_err StorageError x, c\<lparr>ch_db := d1\<rparr>)" by (simp add: on_db_def)
    have L: "rocks_laws (se_rocks ?se) view" "codecs_ok (se_codecs ?se)" using laws by (simp_all add: ce_laws_def)
    from put_block_atomic [OF L put]
    consider (ok) "x = Ok ()" "view d1 = block_view ?se sb (view (ch_db c))" | (err) e where "x = Err e" "view d1 = view (ch_db c)"
      by blast
    then show ?thesis
    proof cases
      case ok
      define c1 where "c1 = c\<lparr>ch_db := d1, ch_known := block_hash (env_sha3 (ce_env ce)) b # ch_known c\<rparr>"
      have c1u: "ch_known_update ((#) (block_hash (env_sha3 (ce_env ce)) b)) (c\<lparr>ch_db := d1\<rparr>) = c1"
        by (cases c) (simp add: c1_def)
      have "whenM (sb_total_difficulty sb > chain_total_difficulty c1) (set_head ce sb) c1 = (r, c')"
        using run go t put1 ok c1u
        by (simp add: import_on_parent_def Let_def outcome_simps sb(2) [symmetric] sbn)
      then show ?thesis
        using ok by (intro choose_head_heavier [OF laws, of c1 sb]) (simp_all add: c1_def sb)
    next
      case err
      with run go t put1 have "r = Err (StorageError e)" "c' = c\<lparr>ch_db := d1\<rparr>"
        by (simp_all add: import_on_parent_def Let_def outcome_simps sb(2) [symmetric] sbn)
      with err show ?thesis by (simp add: heavier_def head_heaviest_def chain_total_difficulty_def)
    qed
  qed
qed

lemma import_one_heavier:
  assumes laws: "ce_laws ce view" and run: "import_one ce b pow c = (r, c')"
  shows "heavier ce view c r c'"
proof -
  obtain known where k: "chain_has_block ce (block_hash (env_sha3 (ce_env ce)) b) c = (Ok known, c)"
    using chain_reads_pure(3) by blast
  obtain po where p: "chain_get_block ce (bh_parent_hash (b_header b)) c = (po, c)" "po \<noteq> Panic"
    using chain_reads_pure(2) by blast
  show ?thesis
  proof (cases "\<not> known \<and> (\<exists>parent. po = Ok (Some parent))")
    case True
    then obtain parent where po: "po = Ok (Some parent)" by blast
    obtain r1 c1 where one: "import_on_parent ce b pow parent c = (r1, c1)" by (cases "import_on_parent ce b pow parent c")
    with import_on_parent_heavier [OF laws one] True run k p po show ?thesis
      by (auto simp: import_one_def outcome_simps heavier_def split: outcome.splits)
  next
    case False
    with run k p show ?thesis
      by (auto simp: import_one_def outcome_simps split: outcome.splits if_splits option.splits
          intro!: heavier_refl heavier_pending)
  qed
qed

lemma import_block_heavier:
  assumes laws: "ce_laws ce view" and cn: "cn_lib_ok (ce_cn ce)"
  shows "import_block ce b pow c = (r, c') \<Longrightarrow> heavier ce view c r c'"
  using assms
proof (induction ce b pow c arbitrary: r c' rule: import_block.induct)
  case (1 ce b pow c)
  obtain r1 c1 where one: "import_one ce b pow c = (r1, c1)" by (cases "import_one ce b pow c")
  note h1 = import_one_heavier [OF 1(3) one]
  show ?case
  proof (cases "r1 = Ok True")
    case False
    with 1(2) one h1 show ?thesis
      by (subst (asm) import_block.simps) (auto simp: heavier_def split: outcome.splits bool.splits)
  next
    case True
    let ?h = "block_hash (env_sha3 (ce_env ce)) b"
    show ?thesis
    proof (cases "map_of (ch_pending c1) ?h")
      case None
      with 1(2) one h1 True show ?thesis by (subst (asm) import_block.simps) (auto simp: heavier_def)
    next
      case (Some child)
      let ?c2 = "ch_pending_update (AList.delete ?h) c1"
      have h2: "heavier ce view c (Ok ()) ?c2"
        using heavier_trans [OF h1 [unfolded True] heavier_pending [of "Ok ()"]] by simp
      show ?thesis
      proof (cases "verify_pow (ce_cn ce) (b_header child)")
        case (Ok child_pow)
        have run: "import_block ce child child_pow ?c2 = (r, c')"
          using 1(2) one True Some Ok by (subst (asm) import_block.simps) simp
        have "heavier ce view ?c2 r c'"
          using 1(1) [OF one [symmetric] True _ Some refl Ok run 1(3,4)] True by simp
        with h2 show ?thesis by (rule heavier_trans)
      next
        case (Err e)
        with 1(2) one True Some have "r = Err e" "c' = ?c2" by (subst (asm) import_block.simps, auto)+
        then show ?thesis by (simp add: heavier_result(1) [OF h2])
      next
        case Panic
        then show ?thesis using verify_pow_digest [OF 1(4)] by (simp split: if_splits)
      qed
    qed
  qed
qed

text \<open>What happens after the block itself has been stored: only the waiting children.\<close>

lemma import_block_children:
  assumes laws: "ce_laws ce view" and cn: "cn_lib_ok (ce_cn ce)" and one: "import_one ce b pow c = (Ok True, c1)"
    and run: "import_block ce b pow c = (r, c')"
  shows "heavier ce view c1 r c'
    \<and> (map_of (ch_pending c) (block_hash (env_sha3 (ce_env ce)) b) = None \<longrightarrow> r = Ok () \<and> c' = c1)"
proof (cases "map_of (ch_pending c1) (block_hash (env_sha3 (ce_env ce)) b)")
  case None
  with one run have "r = Ok () \<and> c' = c1" by (simp add: import_block.simps)
  then show ?thesis by (simp add: heavier_refl)
next
  case (Some child)
  let ?c2 = "ch_pending_update (AList.delete (block_hash (env_sha3 (ce_env ce)) b)) c1"
  have "heavier ce view c1 r c'"
  proof (cases "verify_pow (ce_cn ce) (b_header child)")
    case (Ok child_pow)
    with one run Some have "import_block ce child child_pow ?c2 = (r, c')"
      by (subst (asm) import_block.simps) simp
    from import_block_heavier [OF laws cn this] heavier_pending [of "Ok ()"] show ?thesis
      by (rule heavier_trans [rotated]) simp
  next
    case (Err e)
    with one run Some have "r = Err e" "c' = ?c2" by (subst (asm) import_block.simps, simp)+
    then show ?thesis by (simp add: heavier_pending)
  next
    case Panic
    then show ?thesis using verify_pow_digest [OF cn] by (simp split: if_splits)
  qed
  then show ?thesis using Some import_one_pending [OF one] by simp
qed

subsection \<open>A concrete chain\<close>

lemma stored_block_new_simps [simp]:
  "sb_block (stored_block_new b pow td) = b" "sb_pow_hash (stored_block_new b pow td) = pow"
  "sb_total_difficulty (stored_block_new b pow td) = td" "sb_is_canonical (stored_block_new b pow td)"
  by (simp_all add: stored_block_new_def)

definition rival :: block where
  "rival = \<lparr>b_header = (header_new 1704067261 1 (block_hash toy_hash toy_genesis) address_zero 1), b_body = body_empty\<rparr>"

definition toy_chain_env :: "view chain_env" where
  "toy_chain_env = \<lparr>ce_config = devnet, ce_store = mem_env, ce_env = toy_env, ce_cn = toy_cn\<rparr>"

lemma toy_chain_env_ok: "ce_ok toy_chain_env id" "cn_lib_ok (ce_cn toy_chain_env)"
  by (simp_all add: ce_ok_def toy_chain_env_def mem_env_ok toy_cn_ok) (simp_all add: mem_env_def toy_env_def)

lemma toy_hash_header:
  assumes "header_hash toy_hash g = header_hash toy_hash h"
  shows "bh_timestamp g = bh_timestamp h \<and> bh_height g = bh_height h"
proof -
  have "take 32 (header_preimage g) = take 32 (header_preimage h)"
    using assms by (simp add: header_hash_def toy_hash_def header_preimage_def)
  then show ?thesis by (simp add: header_preimage_def)
qed

lemma toy_hashes:
  "block_hash toy_hash toy_child \<noteq> block_hash toy_hash toy_genesis"
  "block_hash toy_hash rival \<noteq> block_hash toy_hash toy_child"
  "block_hash toy_hash rival \<noteq> block_hash toy_hash toy_genesis"
  using toy_hash_header [of "b_header toy_child" "b_header toy_genesis"]
    toy_hash_header [of "b_header rival" "b_header toy_child"] toy_hash_header [of "b_header rival" "b_header toy_genesis"]
  by (auto simp: block_hash_def toy_child_def rival_def toy_genesis_def block_genesis_def header_new_def)

lemma toy_valid:
  "validate_block toy_env devnet rival (Some toy_genesis) = Ok ()"
  "validate_block toy_env devnet toy_child (Some toy_genesis) = Ok ()"
  by (simp_all add: validate_block_Ok_iff validate_header_Ok_iff verify_structure_Ok_iff toy_child_def rival_def
      toy_env_def toy_genesis_def block_genesis_def header_new_def body_empty_def
      MAX_FUTURE_TIMESTAMP_def calculate_transactions_root_def block_hash_def)

text \<open>A proof-of-work hash of zeros meets every target.\<close>

lemma meets_zero: "meets_difficulty (replicate n 0) t"
proof (induction n arbitrary: t)
  case (Suc n)
  then show ?case by (cases t) (auto simp: word_less_nat_alt)
qed simp

lemma zero_pow: "header_verify_pow h hash_zero"
  by (simp add: header_verify_pow_def hash_zero_def meets_zero)

text \<open>The chain that holds the genesis block and one child, the head.\<close>

definition genesis_view :: view where
  "genesis_view = block_view mem_env (stored_block_new toy_genesis hash_zero 1) (\<lambda>_ _. None)"

definition genesis_chain :: "view chain" where
  "genesis_chain = \<lparr>ch_db = genesis_view, ch_head = Some (stored_block_new toy_genesis hash_zero 1),
     ch_pending = [], ch_known = [], ch_state = state_new\<rparr>"

lemma mem_sha3 [simp]: "se_sha3 mem_env = toy_hash" "env_sha3 toy_env = toy_hash"
  by (simp_all add: mem_env_def toy_env_def)

lemma genesis_importable:
  assumes "b = toy_child \<or> b = rival"
  shows "importable toy_chain_env genesis_view genesis_chain b hash_zero 1"
proof -
  note after = after_put_block [OF mem_env_ok, of "stored_block_new toy_genesis hash_zero 1" "\<lambda>_ _. None"]
  have b: "block_hash toy_hash b \<noteq> block_hash toy_hash toy_genesis" "bh_parent_hash (b_header b) = block_hash toy_hash toy_genesis"
    "validate_block toy_env devnet b (Some toy_genesis) = Ok ()"
    using assms toy_hashes toy_valid by (auto simp: toy_child_def rival_def header_new_def)
  then show ?thesis
    by (simp add: importable_def toy_chain_env_def genesis_chain_def zero_pow genesis_view_def after
        block_view_at)
qed

text \<open>The same chain after the import of the child.\<close>

definition child_view :: view where
  "child_view = apply_wb (WbPut CF_META (str_bytes ''latest_height'') (be_of_word (1 :: u64)))
     (block_view mem_env (stored_block_new toy_child hash_zero 2) genesis_view)"

definition child_chain :: "view chain" where
  "child_chain = \<lparr>ch_db = child_view, ch_head = Some (stored_block_new toy_child hash_zero 2),
     ch_pending = [], ch_known = [block_hash toy_hash toy_child], ch_state = state_new\<rparr>"

lemma rival_importable: "importable toy_chain_env child_view child_chain rival hash_zero 1"
proof -
  have sm: "same_blocks (block_view mem_env (stored_block_new toy_child hash_zero 2) genesis_view) child_view"
    unfolding child_view_def by (rule same_blocks_latest)
  have r: "bh_parent_hash (b_header rival) = block_hash toy_hash toy_genesis"
    by (simp add: rival_def header_new_def)
  show ?thesis
    by (simp add: importable_def toy_chain_env_def child_chain_def zero_pow genesis_view_def r toy_hashes
        toy_hashes(1) [symmetric] same_blocks_reads [OF sm] after_put_block [OF mem_env_ok] toy_valid block_view_at)
qed

subsection \<open>Properties\<close>

text \<open>A database on which every single write fails, as on a full disk, while batches still succeed.\<close>

definition full_disk :: "view rocks" where
  "full_disk = mem_rocks\<lparr>rk_put := (\<lambda>cf k v d. (Inl ''No space left on device'', d))\<rparr>"

definition full_disk_env :: "view chain_env" where
  "full_disk_env = toy_chain_env\<lparr>ce_store := mem_env\<lparr>se_rocks := full_disk\<rparr>\<rparr>"

lemma full_disk_laws: "ce_laws full_disk_env id"
  using toy_chain_env_ok(1)
  by (auto simp: ce_ok_def se_ok_def ce_laws_def full_disk_env_def toy_chain_env_def mem_env_def rocks_laws_def
      full_disk_def mem_rocks_def)

text \<open>C2: Importing a block never panics, keeps the total difficulty of the head from falling, forgets
  no block and keeps the head heaviest: if every block imported before is stored with a total
  difficulty that is at most the head's, so is every block imported afterwards, whatever the
  block, its parent, the waiting children it releases, and whether the import succeeds. The one
  exception is an import that returns an I/O error of the database: a write that fails between the storing
  of a block and the update of the head may leave that one block heavier than the head. Nothing is assumed
  about whether operations of the database fail.\<close>

theorem import_keeps_head_heaviest:
  assumes "ce_laws ce view" and "cn_lib_ok (ce_cn ce)" and "import_block ce b pow c = (r, c')"
  shows "r \<noteq> Panic \<and> chain_total_difficulty c \<le> chain_total_difficulty c'
    \<and> set (ch_known c) \<subseteq> set (ch_known c')
    \<and> (head_heaviest ce view c \<longrightarrow> head_heaviest ce view c'
         \<or> (\<exists>e x. r = Err (StorageError (DatabaseError e)) \<and> head_heaviest_but ce view x c'))"
  using import_block_heavier [OF assms(1,2,3)] by (simp add: heavier_def)

theorem import_keeps_head_heaviest_witness:
  "head_heaviest toy_chain_env id (snd (import_block toy_chain_env toy_child hash_zero genesis_chain))"
proof -
  obtain c1 where "import_one toy_chain_env toy_child hash_zero genesis_chain = (Ok True, c1)"
    "ch_pending c1 = ch_pending genesis_chain"
    by (rule import_one_importable [OF toy_chain_env_ok(1), of genesis_chain toy_child hash_zero 1])
       (use genesis_importable [of toy_child] in \<open>simp_all add: genesis_chain_def\<close>)
  then have "import_block toy_chain_env toy_child hash_zero genesis_chain = (Ok (), c1)"
    by (simp add: import_block.simps genesis_chain_def)
  with import_keeps_head_heaviest [OF ce_ok_laws [OF toy_chain_env_ok(1)] toy_chain_env_ok(2) this]
  show ?thesis by (simp add: head_heaviest_def genesis_chain_def)
qed

text \<open>The exception is real: on the full disk the child is stored as known with total difficulty 2, the import
  fails, and the head keeps the total difficulty 1.\<close>

lemma put_locations_rocks: "put_locations (se\<lparr>se_rocks := rk\<rparr>) bh n i txs batch = put_locations se bh n i txs batch"
  by (induction txs arbitrary: i batch) simp_all

lemma build_write_batch_full_disk: "build_write_batch full_disk d ops = build_write_batch mem_rocks d ops"
proof -
  have "rk_has_cf full_disk = rk_has_cf mem_rocks" by (simp add: full_disk_def)
  then show ?thesis by (induction ops) (auto split: batch_op_type.splits option.splits)
qed

lemma full_disk_same:
  "put_block (se\<lparr>se_rocks := full_disk\<rparr>) = put_block (se\<lparr>se_rocks := mem_rocks\<rparr>)"
  "get_block (se\<lparr>se_rocks := full_disk\<rparr>) = get_block (se\<lparr>se_rocks := mem_rocks\<rparr>)"
  "get_total_difficulty (se\<lparr>se_rocks := full_disk\<rparr>) = get_total_difficulty (se\<lparr>se_rocks := mem_rocks\<rparr>)"
  "store_has_block (se\<lparr>se_rocks := full_disk\<rparr>) = store_has_block (se\<lparr>se_rocks := mem_rocks\<rparr>)"
proof -
  have wb: "db_write_batch full_disk = db_write_batch mem_rocks"
  proof -
    have "rk_write full_disk = rk_write mem_rocks" by (simp add: full_disk_def)
    then show ?thesis unfolding db_write_batch_def build_write_batch_full_disk by presburger
  qed
  have get: "db_get full_disk = db_get mem_rocks"
    by (intro ext) (simp add: db_get_def with_cf_def full_disk_def)
  show "put_block (se\<lparr>se_rocks := full_disk\<rparr>) = put_block (se\<lparr>se_rocks := mem_rocks\<rparr>)"
    by (intro ext) (simp add: put_block_def build_block_batch_def put_locations_rocks wb)
  show "get_block (se\<lparr>se_rocks := full_disk\<rparr>) = get_block (se\<lparr>se_rocks := mem_rocks\<rparr>)"
    "get_total_difficulty (se\<lparr>se_rocks := full_disk\<rparr>) = get_total_difficulty (se\<lparr>se_rocks := mem_rocks\<rparr>)"
    "store_has_block (se\<lparr>se_rocks := full_disk\<rparr>) = store_has_block (se\<lparr>se_rocks := mem_rocks\<rparr>)"
    by (intro ext, simp add: get_block_def get_header_def get_decoded_def get get_total_difficulty_def
        get_block_meta_def store_has_block_def db_contains_def cong: option.case_cong)+
qed

lemma full_disk_leaves_heavier_block:
  "\<exists>c'. import_block full_disk_env toy_child hash_zero genesis_chain
       = (Err (StorageError (DatabaseError ''No space left on device'')), c')
     \<and> block_hash toy_hash toy_child \<in> set (ch_known c') \<and> chain_total_difficulty c' = 1
     \<and> \<not> head_heaviest full_disk_env id c'"
proof -
  let ?sb = "stored_block_new toy_child hash_zero 2" and ?h = "block_hash toy_hash toy_child"
  let ?d = "block_view mem_env ?sb genesis_view"
  let ?c = "genesis_chain\<lparr>ch_db := ?d, ch_known := [?h]\<rparr>"
  have mem: "mem_env\<lparr>se_rocks := mem_rocks\<rparr> = mem_env" by (simp add: mem_env_def)
  note same = full_disk_same [of mem_env, unfolded mem]
  have imp: "importable toy_chain_env genesis_view genesis_chain toy_child hash_zero 1" using genesis_importable by blast
  have parent: "bh_parent_hash (b_header toy_child) = block_hash toy_hash toy_genesis"
    by (simp add: toy_child_def header_new_def)
  have diff: "bh_difficulty (b_header toy_child) = 1" by (simp add: toy_child_def header_new_def)
  note rd = reads_at [OF mem_env_ok] reads_at' [OF mem_env_ok]
  note at = after_put_block [OF mem_env_ok, of "stored_block_new toy_genesis hash_zero 1" "\<lambda>_ _. None", folded genesis_view_def]
  obtain d' where put: "put_block mem_env ?sb genesis_view = (Ok (), d')" and d': "d' = ?d"
    using put_block_ok [OF mem_env_ok, of ?sb genesis_view] by auto
  have fail: "set_latest_height (mem_env\<lparr>se_rocks := full_disk\<rparr>) n d = (Err (DatabaseError ''No space left on device''), d)" for n d
    by (simp add: set_latest_height_def db_put_def with_cf_def full_disk_def mem_rocks_def ALL_CFS_def)
  have "import_on_parent full_disk_env toy_child hash_zero toy_genesis genesis_chain
      = (Err (StorageError (DatabaseError ''No space left on device'')), ?c)"
    using toy_valid(2)
    by (simp add: import_on_parent_def Let_def outcome_simps full_disk_env_def toy_chain_env_def on_db_def same rd
        genesis_chain_def at zero_pow put d' set_head_def fail chain_total_difficulty_def diff)
  then have "import_one full_disk_env toy_child hash_zero genesis_chain
      = (Err (StorageError (DatabaseError ''No space left on device'')), ?c)"
    using imp
    by (simp add: import_one_def outcome_simps chain_has_block_def chain_get_block_def full_disk_env_def
        toy_chain_env_def on_db_def same rd importable_def parent genesis_chain_def at)
  then have "import_block full_disk_env toy_child hash_zero genesis_chain
      = (Err (StorageError (DatabaseError ''No space left on device'')), ?c)"
    by (simp add: import_block.simps)
  moreover have "\<not> head_heaviest full_disk_env id ?c"
    using meta_after_put_block [of mem_env ?sb genesis_view ?h] mem_env_ok
    by (simp add: head_heaviest_def full_disk_env_def meta_at_def se_ok_def chain_total_difficulty_def genesis_chain_def
        mem_env_def word_le_nat_alt)
  ultimately show ?thesis
    by (intro exI [of _ ?c]) (simp add: chain_total_difficulty_def genesis_chain_def)
qed

text \<open>C3: The work of an imported block is not checked against the chain. \<open>import_block\<close> takes the
  proof-of-work hash from its caller without recomputing it and never compares the difficulty
  in the header with the one the chain asks for. So on a database whose operations do not fail every
  new block that is valid apart from its work is imported with the all-zero hash, and the total difficulty of
  the head is afterwards at least that of its parent plus whatever difficulty the block claims. When no
  child waits for the block, the import succeeds, and the block becomes the head exactly when the
  difficulty it claims lifts the total over the head's.\<close>

theorem forged_work_accepted:
  assumes "ce_ok ce view" and "cn_lib_ok (ce_cn ce)" and "importable ce (view (ch_db c)) c b pow parent_td"
    and "import_block ce b hash_zero c = (r, c')"
  shows "r \<noteq> Panic \<and> block_hash (env_sha3 (ce_env ce)) b \<in> set (ch_known c')
    \<and> parent_td + bh_difficulty (b_header b) \<le> chain_total_difficulty c'
    \<and> (map_of (ch_pending c) (block_hash (env_sha3 (ce_env ce)) b) = None \<longrightarrow>
         r = Ok ()
         \<and> ch_head c' = (if parent_td + bh_difficulty (b_header b) > chain_total_difficulty c
             then Some (stored_block_new b hash_zero (parent_td + bh_difficulty (b_header b))) else ch_head c))"
proof -
  have "importable ce (view (ch_db c)) c b hash_zero parent_td"
    using assms(3) by (simp add: importable_def Let_def zero_pow)
  then obtain c1 where one: "import_one ce b hash_zero c = (Ok True, c1)"
    and kn: "ch_known c1 = block_hash (env_sha3 (ce_env ce)) b # ch_known c"
    and hd: "ch_head c1 = (if parent_td + bh_difficulty (b_header b) > chain_total_difficulty c
       then Some (stored_block_new b hash_zero (parent_td + bh_difficulty (b_header b))) else ch_head c)"
    by (rule import_one_importable [OF assms(1)]) (simp split: if_splits)
  from hd have td: "parent_td + bh_difficulty (b_header b) \<le> chain_total_difficulty c1"
    by (auto simp: chain_total_difficulty_def split: if_splits)
  from import_block_children [OF ce_ok_laws [OF assms(1)] assms(2) one assms(4)] kn hd td show ?thesis
    by (auto simp: heavier_def intro: order_trans)
qed

theorem forged_work_accepted_witness:
  "\<exists>c'. import_block toy_chain_env toy_child hash_zero genesis_chain = (Ok (), c')
     \<and> ch_head c' = Some (stored_block_new toy_child hash_zero 2)"
proof -
  obtain r c' where run: "import_block toy_chain_env toy_child hash_zero genesis_chain = (r, c')"
    by (cases "import_block toy_chain_env toy_child hash_zero genesis_chain")
  have imp: "importable toy_chain_env (id (ch_db genesis_chain)) genesis_chain toy_child hash_zero 1"
    using genesis_importable [of toy_child] by (simp add: genesis_chain_def)
  have "r = Ok () \<and> ch_head c' = Some (stored_block_new toy_child hash_zero 2)"
    using forged_work_accepted [OF toy_chain_env_ok imp run]
    by (simp add: genesis_chain_def chain_total_difficulty_def toy_child_def header_new_def)
  with run show ?thesis by simp
qed

text \<open>C12: A side block at the height of the head replaces the head after a restart. The store
  marks every imported block canonical, so a block that is not heavier than the head and has
  its height overwrites the height index; the running node keeps its head, but a node
  that opens the same database loads the side block, although it is not heavier.\<close>

theorem side_block_wins_after_restart:
  assumes "ce_ok ce view" and "importable ce (view (ch_db c)) c b pow parent_td"
    and "map_of (ch_pending c) (block_hash (env_sha3 (ce_env ce)) b) = None"
    and "parent_td + bh_difficulty (b_header b) \<le> chain_total_difficulty c"
    and "view (ch_db c) CF_META (str_bytes ''latest_height'') = Some (be_of_word (bh_height (b_header b)))"
  shows "\<exists>c' c2 sb. import_block ce b pow c = (Ok (), c') \<and> ch_head c' = ch_head c
    \<and> chain_new ce (ch_db c') = (Ok (), c2) \<and> ch_head c2 = Some sb
    \<and> sb_block sb = b \<and> sb_total_difficulty sb \<le> chain_total_difficulty c"
proof -
  let ?se = "ce_store ce" and ?sb = "stored_block_new b pow (parent_td + bh_difficulty (b_header b))"
  have se: "se_ok ?se view" and sha: "se_sha3 ?se = env_sha3 (ce_env ce)" using assms(1) by (simp_all add: ce_ok_def)
  from import_one_importable [OF assms(1,2)] assms(4) obtain c' where
    one: "import_one ce b pow c = (Ok True, c')" "ch_pending c' = ch_pending c" "ch_head c' = ch_head c"
    and sm: "same_blocks (block_view ?se ?sb (view (ch_db c))) (view (ch_db c'))"
    and lt: "view (ch_db c') CF_META (str_bytes ''latest_height'') = Some (be_of_word (bh_height (b_header b)))"
    using assms(5) by (force simp: stored_block_new_def)
  have run: "import_block ce b pow c = (Ok (), c')" using one assms(3) by (simp add: import_block.simps)
  note rd = reads_at [OF se] reads_at' [OF se] same_blocks_reads [OF sm] after_put_block [OF se]
  have hgt: "get_latest_height ?se (ch_db c') = (Ok (Some (bh_height (b_header b))), ch_db c')"
    by (simp add: get_latest_height_def get_decoded_ok [OF se] ALL_CFS_def lt decoded_def decode_height_def)
  have "chain_new ce (ch_db c') = (Ok (), \<lparr>ch_db = ch_db c', ch_head = Some ?sb, ch_pending = [],
      ch_known = [], ch_state = state_new\<rparr>)"
    by (simp add: chain_new_def load_head_def outcome_simps on_db_def hgt rd sha)
  with run one(3) assms(4) show ?thesis
    by (intro exI [of _ c'] exI [of _ "\<lparr>ch_db = ch_db c', ch_head = Some ?sb, ch_pending = [],
      ch_known = [], ch_state = state_new\<rparr>"] exI [of _ ?sb]) (simp add: stored_block_new_def)
qed

theorem side_block_wins_after_restart_witness:
  "\<exists>c' c2 sb. import_block toy_chain_env rival hash_zero child_chain = (Ok (), c')
     \<and> chain_new toy_chain_env (ch_db c') = (Ok (), c2) \<and> ch_head c2 = Some sb \<and> sb_block sb = rival"
proof -
  have "view_of = id \<Longrightarrow> view_of (ch_db child_chain) CF_META (str_bytes ''latest_height'') = Some (be_of_word (bh_height (b_header rival)))"
    for view_of :: "view \<Rightarrow> view"
    by (simp add: child_chain_def child_view_def rival_def header_new_def)
  then show ?thesis
    using side_block_wins_after_restart [of toy_chain_env id child_chain rival hash_zero 1, OF toy_chain_env_ok(1)]
      rival_importable
    by (force simp: child_chain_def chain_total_difficulty_def rival_def header_new_def)
qed

lemma genesis_restart:
  assumes "ce_ok ce view" and "hash_at (view (ch_db c)) 0 = Ok None"
    and "ce_store ce2 = ce_store ce" and "env_sha3 (ce_env ce2) = env_sha3 (ce_env ce)"
  shows "\<exists>g sb c' c2. init_genesis ce miner c = (Ok g, c') \<and> ch_head c' = Some sb \<and> sb_block sb = g
    \<and> sb_total_difficulty sb = cc_initial_difficulty (ce_config ce) \<and> bh_height (b_header g) = 0
    \<and> ch_state c' = apply_allocations (env_sha3 (ce_env ce)) (cc_genesis_allocations (ce_config ce)) (ch_state c)
    \<and> chain_new ce2 (ch_db c') = (Ok (), c2) \<and> ch_head c2 = Some sb \<and> ch_state c2 = state_new
    \<and> init_genesis ce2 miner2 c2 = (Err (InvalidBlockC ''Genesis already exists''), c2)"
proof -
  let ?se = "ce_store ce" and ?m = "view (ch_db c)"
  define g where "g = block_genesis (env_now (ce_env ce)) miner (cc_initial_difficulty (ce_config ce))"
  define sb where "sb = stored_block_new g (block_hash (env_sha3 (ce_env ce)) g) (cc_initial_difficulty (ce_config ce))"
  have se: "se_ok ?se view" and sha: "se_sha3 ?se = env_sha3 (ce_env ce)" using assms(1) by (simp_all add: ce_ok_def)
  have g0: "bh_height (b_header g) = 0" by (simp add: g_def block_genesis_def header_new_def)
  obtain d1 where put: "put_block ?se sb (ch_db c) = (Ok (), d1)" and v1: "view d1 = block_view ?se sb ?m"
    using put_block_ok [OF se] by blast
  obtain d2 where lh: "set_latest_height ?se 0 d1 = (Ok (), d2)"
    and v2: "view d2 = apply_wb (WbPut CF_META (str_bytes ''latest_height'') (be_of_word (0 :: u64))) (view d1)"
    using set_latest_height_ok [OF se] by blast
  let ?c' = "c\<lparr>ch_db := d2, ch_head := Some sb,
      ch_state := apply_allocations (env_sha3 (ce_env ce)) (cc_genesis_allocations (ce_config ce)) (ch_state c)\<rparr>"
  let ?c2 = "\<lparr>ch_db = d2, ch_head = Some sb, ch_pending = [], ch_known = [], ch_state = state_new\<rparr>"
  have sm: "same_blocks (block_view ?se sb ?m) (view d2)" unfolding v2 v1 by (rule same_blocks_latest)
  note rd = reads_at [OF se] reads_at' [OF se] same_blocks_reads [OF sm] after_put_block [OF se]
  have sbs: "sb_block sb = g" "sb_is_canonical sb" by (simp_all add: sb_def stored_block_new_def)
  have hgt: "get_latest_height ?se d2 = (Ok (Some 0), d2)"
    by (simp add: get_latest_height_def get_decoded_ok [OF se] ALL_CFS_def v2 decoded_def decode_height_def)
  have "init_genesis ce miner c = (Ok g, ?c')"
    by (cases c) (use assms(2) put lh in \<open>simp add: init_genesis_def Let_def outcome_simps on_db_def
        get_genesis_hash_def reads_at [OF se] g_def [symmetric] sb_def [symmetric]\<close>)
  moreover have "chain_new ce2 d2 = (Ok (), ?c2)"
    by (simp add: chain_new_def load_head_def outcome_simps on_db_def hgt rd sha sbs g0 assms(3))
  moreover have "init_genesis ce2 miner2 ?c2 = (Err (InvalidBlockC ''Genesis already exists''), ?c2)"
    by (simp add: init_genesis_def Let_def outcome_simps on_db_def get_genesis_hash_def rd sha sbs g0 assms(3))
  ultimately show ?thesis using sbs g0
    by (intro exI [of _ g] exI [of _ sb] exI [of _ ?c'] exI [of _ ?c2]) (simp add: sb_def stored_block_new_def)
qed

text \<open>The genesis block can be created once, and only the running node knows its accounts. On a
  database without a block at height 0 it is stored as the head with the allocations in memory; a restart on
  that database finds the same head, rejects a second genesis, and starts from an empty account state.\<close>

theorem genesis_then_restart:
  assumes "ce_ok ce view" and "hash_at (view (ch_db c)) 0 = Ok None"
  shows "\<exists>g sb c' c2. init_genesis ce miner c = (Ok g, c') \<and> ch_head c' = Some sb \<and> sb_block sb = g
    \<and> sb_total_difficulty sb = cc_initial_difficulty (ce_config ce) \<and> bh_height (b_header g) = 0
    \<and> ch_state c' = apply_allocations (env_sha3 (ce_env ce)) (cc_genesis_allocations (ce_config ce)) (ch_state c)
    \<and> chain_new ce (ch_db c') = (Ok (), c2) \<and> ch_head c2 = Some sb \<and> ch_state c2 = state_new
    \<and> init_genesis ce miner2 c2 = (Err (InvalidBlockC ''Genesis already exists''), c2)"
  using genesis_restart [OF assms refl refl] .

theorem genesis_then_restart_witness:
  "\<exists>g c'. init_genesis toy_chain_env address_zero (genesis_chain\<lparr>ch_db := \<lambda>_ _. None, ch_head := None\<rparr>) = (Ok g, c')"
proof -
  have "hash_at (id (ch_db (genesis_chain\<lparr>ch_db := \<lambda>_ _. None, ch_head := None\<rparr>))) 0 = Ok None"
    by (simp add: hash_at_def decoded_def)
  with genesis_then_restart [of toy_chain_env id "genesis_chain\<lparr>ch_db := \<lambda>_ _. None, ch_head := None\<rparr>" address_zero address_zero]
    toy_chain_env_ok(1)
  show ?thesis by blast
qed

text \<open>C13: No transaction is ever executed. Importing any sequence of blocks, whatever they contain and whether the imports
  succeed, leaves the account state of the node as it was: no value moves, no fee is charged, no block
  reward is credited, and the state root of a header is compared with nothing.\<close>

theorem import_executes_nothing:
  "ch_state (fold (\<lambda>(b, pow) c. snd (import_block ce b pow c)) blocks c) = ch_state c"
  by (induction blocks arbitrary: c) (auto simp: accounts_import)

text \<open>Of the blocks that wait for the same parent only the last one is kept, and a waiting
  child that fails its own proof of work makes the import of its parent, which has been
  stored, report the child's error.\<close>

theorem one_orphan_per_parent:
  assumes "ce_ok ce view" and "importable ce (view (ch_db c)) c b pow parent_td"
    and "block_at (ce_store ce) (view (ch_db c)) (block_hash (env_sha3 (ce_env ce)) b) = Ok None"
    and "\<forall>x\<in>{orphan1, orphan2}. bh_parent_hash (b_header x) = block_hash (env_sha3 (ce_env ce)) b
       \<and> block_hash (env_sha3 (ce_env ce)) x \<notin> set (ch_known c)
       \<and> view (ch_db c) CF_HEADERS (block_hash (env_sha3 (ce_env ce)) x) = None"
    and "verify_pow (ce_cn ce) (b_header orphan2) = Err e"
  shows "\<exists>c1 c2 c3. import_block ce orphan1 p1 c = (Ok (), c1) \<and> import_block ce orphan2 p2 c1 = (Ok (), c2)
    \<and> map_of (ch_pending c2) (block_hash (env_sha3 (ce_env ce)) b) = Some orphan2
    \<and> c2\<lparr>ch_pending := ch_pending c\<rparr> = c
    \<and> import_block ce b pow c2 = (Err e, c3) \<and> block_hash (env_sha3 (ce_env ce)) b \<in> set (ch_known c3)"
proof -
  let ?h = "block_hash (env_sha3 (ce_env ce)) b"
  let ?wait = "\<lambda>x c. ch_pending_update (AList.update ?h x) c"
  have orphan: "import_block ce x p (c\<lparr>ch_pending := q\<rparr>) = (Ok (), ?wait x (c\<lparr>ch_pending := q\<rparr>))"
    if "x \<in> {orphan1, orphan2}" for x p q
    using assms(3,4) that
    by (subst import_block.simps)
       (auto simp: import_one_def outcome_simps chain_has_block_ok [OF assms(1)] chain_get_block_ok [OF assms(1)])
  define c2 where "c2 = c\<lparr>ch_pending := AList.update ?h orphan2 (AList.update ?h orphan1 (ch_pending c))\<rparr>"
  have r1: "import_block ce orphan1 p1 c = (Ok (), c\<lparr>ch_pending := AList.update ?h orphan1 (ch_pending c)\<rparr>)"
    using orphan [of orphan1 p1 "ch_pending c"] by (cases c) simp
  have r2: "import_block ce orphan2 p2 (c\<lparr>ch_pending := AList.update ?h orphan1 (ch_pending c)\<rparr>) = (Ok (), c2)"
    using orphan [of orphan2 p2 "AList.update ?h orphan1 (ch_pending c)"] by (cases c) (simp add: c2_def)
  have "importable ce (view (ch_db c2)) c2 b pow parent_td"
    using assms(2) by (simp add: c2_def importable_def)
  from import_one_importable [OF assms(1) this] obtain c3 where
    one: "import_one ce b pow c2 = (Ok True, c3)" "ch_pending c3 = ch_pending c2" "ch_known c3 = ?h # ch_known c2"
    by blast
  have r3: "import_block ce b pow c2 = (Err e, ch_pending_update (AList.delete ?h) c3)"
    using one assms(5) by (subst import_block.simps) (simp add: c2_def update_conv)
  have "map_of (ch_pending c2) ?h = Some orphan2" "c2\<lparr>ch_pending := ch_pending c\<rparr> = c"
    "?h \<in> set (ch_known (ch_pending_update (AList.delete ?h) c3))"
    using one(3) by (simp_all add: c2_def update_conv)
  with r1 r2 r3 show ?thesis by blast
qed

text \<open>A proof of work that never succeeds on the lowest difficulty.\<close>

definition dull_cn :: cn_lib where
  "dull_cn = \<lparr>cn_keccak = (\<lambda>_. replicate 32 1), cn_aes = (\<lambda>k b. b)\<rparr>"

definition grandchild :: "u64 \<Rightarrow> block" where
  "grandchild t = \<lparr>b_header = header_new t 2 (block_hash toy_hash toy_child) address_zero 1, b_body = body_empty\<rparr>"

lemma dull_verify_pow: "bh_difficulty h = 1 \<Longrightarrow> verify_pow dull_cn h = Err InvalidProofOfWorkC"
proof -
  assume d: "bh_difficulty h = 1"
  have ok: "cn_lib_ok dull_cn" by (simp add: cn_lib_ok_def dull_cn_def)
  have "cn_hash dull_cn pad x = Some (g, p) \<Longrightarrow> g = replicate 32 1" for pad x g p
    by (auto simp: cn_hash_def final_hash_def bind_eq_Some_conv dull_cn_def split: prod.splits)
  with cn_hash_digest [OF ok, of cn_new] have "pow_digest dull_cn (mining_blob h) = replicate 32 1"
    by (metis cn_new_def length_replicate)
  moreover have "\<not> meets_difficulty (replicate 32 1) (to_target 1)" by code_simp
  ultimately show ?thesis by (simp add: verify_pow_digest [OF ok] d)
qed

theorem one_orphan_per_parent_witness:
  "\<exists>c1 c2 c3. import_block (toy_chain_env\<lparr>ce_cn := dull_cn\<rparr>) (grandchild 1) hash_zero genesis_chain = (Ok (), c1)
     \<and> import_block (toy_chain_env\<lparr>ce_cn := dull_cn\<rparr>) (grandchild 2) hash_zero c1 = (Ok (), c2)
     \<and> import_block (toy_chain_env\<lparr>ce_cn := dull_cn\<rparr>) toy_child hash_zero c2 = (Err InvalidProofOfWorkC, c3)"
proof -
  let ?ce = "toy_chain_env\<lparr>ce_cn := dull_cn\<rparr>"
  have ok: "ce_ok ?ce id" using toy_chain_env_ok(1) by (simp add: ce_ok_def)
  have imp: "importable ?ce (id (ch_db genesis_chain)) genesis_chain toy_child hash_zero 1"
    using genesis_importable [of toy_child] by (simp add: importable_def genesis_chain_def)
  have g: "block_hash toy_hash (grandchild t) \<noteq> block_hash toy_hash toy_genesis" for t
    using toy_hash_header [of "b_header (grandchild t)" "b_header toy_genesis"]
    by (auto simp: block_hash_def grandchild_def toy_genesis_def block_genesis_def header_new_def)
  have none: "block_at (ce_store ?ce) (id (ch_db genesis_chain)) (block_hash (env_sha3 (ce_env ?ce)) toy_child) = Ok None"
    using toy_hashes(1)
    by (simp add: toy_chain_env_def genesis_chain_def genesis_view_def after_put_block [OF mem_env_ok]
        block_at_def header_at_def decoded_def block_view_at)
  have orphans: "\<forall>x\<in>{grandchild 1, grandchild 2}. bh_parent_hash (b_header x) = block_hash (env_sha3 (ce_env ?ce)) toy_child
       \<and> block_hash (env_sha3 (ce_env ?ce)) x \<notin> set (ch_known genesis_chain)
       \<and> id (ch_db genesis_chain) CF_HEADERS (block_hash (env_sha3 (ce_env ?ce)) x) = None"
    by (simp add: toy_chain_env_def genesis_chain_def genesis_view_def block_view_at g)
       (simp add: grandchild_def header_new_def)
  have pow: "verify_pow (ce_cn ?ce) (b_header (grandchild 2)) = Err InvalidProofOfWorkC"
    by (simp add: dull_verify_pow grandchild_def header_new_def)
  from one_orphan_per_parent [of ?ce id, OF ok imp none orphans pow] show ?thesis by blast
qed

end
