(* ===== verification/Fry_Gas.thy ===== *)
theory Fry_Gas
  imports Fry_Address
begin

text \<open>
  \<open>frychain-vm/src/gas.rs\<close>, \<open>types.rs\<close> and the error type of \<open>lib.rs\<close>: what the four
  virtual machines share. The meter never reports more gas used than its limit, takes
  everything when a charge does not fit, and lends gas to a nested call so that lending
  and returning costs exactly what the call used. The locale \<open>gas_machine\<close> says what a
  machine with a meter owes: its operations only move the meter forward, and every step
  starts with a charge of at least one unit.
\<close>

subsection \<open>Errors and results\<close>

datatype vm_error =
    OutOfGas u64 u64
  | InvalidOpcode u8
  | StackOverflow
  | StackUnderflow
  | InvalidMemoryAccess u64
  | InvalidContract string
  | ExecutionError string
  | AccountError string
  | VMStorageError string
  | Revert string
  | UnsupportedVMType string
  | VMGasError string

fun vm_error_text :: "vm_error \<Rightarrow> string" where
  "vm_error_text (OutOfGas used limit) = ''Out of gas: used '' @ show_word used @ '', limit '' @ show_word limit"
| "vm_error_text (InvalidOpcode op) = ''Invalid opcode: '' @ show_word op"
| "vm_error_text StackOverflow = ''Stack overflow''"
| "vm_error_text StackUnderflow = ''Stack underflow''"
| "vm_error_text (InvalidMemoryAccess a) = ''Invalid memory access at '' @ show_word a"
| "vm_error_text (InvalidContract s) = ''Invalid contract: '' @ s"
| "vm_error_text (ExecutionError s) = ''Execution error: '' @ s"
| "vm_error_text (AccountError s) = ''Account error: '' @ s"
| "vm_error_text (VMStorageError s) = ''Storage error: '' @ s"
| "vm_error_text (Revert s) = ''Revert: '' @ s"
| "vm_error_text (UnsupportedVMType s) = ''Unsupported VM type: '' @ s"
| "vm_error_text (VMGasError s) = ''Gas error: '' @ s"

datatype gas_error = GasOutOfGas u64 u64 | GasOverflow

fun gas_to_vm_error :: "gas_error \<Rightarrow> vm_error" where
  "gas_to_vm_error (GasOutOfGas used limit) = OutOfGas used limit"
| "gas_to_vm_error GasOverflow = VMGasError ''Gas overflow''"

fun gas_error_text :: "gas_error \<Rightarrow> string" where
  "gas_error_text (GasOutOfGas used limit) = ''Out of gas: used '' @ show_word used @ '', limit '' @ show_word limit"
| "gas_error_text GasOverflow = ''Gas calculation overflow''"

datatype contract_type = SBF | AVM | PactContract | KaspaContract | Native

definition from_bytecode :: "bytes \<Rightarrow> contract_type option" where
  "from_bytecode b =
     (if length b < 4 then None
      else if take 4 b = [0x7f, 0x45, 0x4C, 0x46] then Some SBF
      else if take 4 b = [0x50, 0x41, 0x43, 0x54] then Some PactContract
      else if take 4 b = [0x4B, 0x41, 0x53, 0x50] then Some KaspaContract
      else if b ! 0 \<le> 0x0A then Some AVM
      else None)"

fun magic_bytes :: "contract_type \<Rightarrow> bytes" where
  "magic_bytes SBF = [0x7f, 0x45, 0x4C, 0x46]"
| "magic_bytes AVM = [0x06]"
| "magic_bytes PactContract = [0x50, 0x41, 0x43, 0x54]"
| "magic_bytes KaspaContract = [0x4B, 0x41, 0x53, 0x50]"
| "magic_bytes Native = [0xFF, 0xFF]"

fun contract_type_name :: "contract_type \<Rightarrow> string" where
  "contract_type_name SBF = ''Solana SBF/eBPF''"
| "contract_type_name AVM = ''Algorand AVM/TEAL''"
| "contract_type_name PactContract = ''Kadena Pact''"
| "contract_type_name KaspaContract = ''Kaspa Script''"
| "contract_type_name Native = ''Native Precompile''"

fun contract_ecosystem :: "contract_type \<Rightarrow> string" where
  "contract_ecosystem SBF = ''Solana''"
| "contract_ecosystem AVM = ''Algorand''"
| "contract_ecosystem PactContract = ''Kadena''"
| "contract_ecosystem KaspaContract = ''Kaspa''"
| "contract_ecosystem Native = ''FryChain''"

record vm_log =
  vl_address :: address
  vl_topics :: "hash256 list"
  vl_data :: bytes

record vm_state_changes =
  vsc_balance_changes :: "(address \<times> 128 word) list"
  vsc_storage_writes :: "(address \<times> hash256 \<times> hash256) list"
  vsc_created_contracts :: "(address \<times> bytes) list"
  vsc_deleted_contracts :: "address list"

definition no_state_changes :: vm_state_changes where
  "no_state_changes = \<lparr>vsc_balance_changes = [], vsc_storage_writes = [], vsc_created_contracts = [],
     vsc_deleted_contracts = []\<rparr>"

record vm_result =
  vr_success :: bool
  vr_gas_used :: u64
  vr_return_data :: bytes
  vr_error :: "string option"
  vr_logs :: "vm_log list"
  vr_state_changes :: vm_state_changes

definition vm_success :: "u64 \<Rightarrow> bytes \<Rightarrow> vm_result" where
  "vm_success gas_used return_data = \<lparr>vr_success = True, vr_gas_used = gas_used, vr_return_data = return_data,
     vr_error = None, vr_logs = [], vr_state_changes = no_state_changes\<rparr>"

definition vm_failure :: "u64 \<Rightarrow> string \<Rightarrow> vm_result" where
  "vm_failure gas_used err = \<lparr>vr_success = False, vr_gas_used = gas_used, vr_return_data = [],
     vr_error = Some err, vr_logs = [], vr_state_changes = no_state_changes\<rparr>"

lemma vm_result_simps [simp]:
  "vr_gas_used (vm_success g d) = g" "vr_gas_used (vm_failure g e) = g"
  "vr_success (vm_success g d)" "\<not> vr_success (vm_failure g e)" "vr_return_data (vm_success g d) = d"
  "vr_error (vm_failure g e) = Some e" "vr_error (vm_success g d) = None" "vr_return_data (vm_failure g e) = []"
  by (simp_all add: vm_success_def vm_failure_def)

record execution_context =
  ec_caller :: address
  ec_address :: address
  ec_value :: u128
  ec_gas_limit :: u64
  ec_depth :: u32
  ec_is_static :: bool
  ec_block_height :: u64
  ec_block_timestamp :: u64
  ec_chain_id :: u64

definition context_new :: "address \<Rightarrow> address \<Rightarrow> u128 \<Rightarrow> u64 \<Rightarrow> execution_context" where
  "context_new caller addr value gas_limit = \<lparr>ec_caller = caller, ec_address = addr, ec_value = value,
     ec_gas_limit = gas_limit, ec_depth = 0, ec_is_static = False, ec_block_height = 0,
     ec_block_timestamp = 0, ec_chain_id = 1\<rparr>"

definition context_child :: "address \<Rightarrow> u128 \<Rightarrow> u64 \<Rightarrow> execution_context \<Rightarrow> execution_context" where
  "context_child addr value gas_limit c = \<lparr>ec_caller = ec_address c, ec_address = addr, ec_value = value,
     ec_gas_limit = gas_limit, ec_depth = ec_depth c + 1, ec_is_static = ec_is_static c,
     ec_block_height = ec_block_height c, ec_block_timestamp = ec_block_timestamp c, ec_chain_id = ec_chain_id c\<rparr>"

definition is_depth_exceeded :: "execution_context \<Rightarrow> bool" where
  "is_depth_exceeded c \<longleftrightarrow> ec_depth c > 1024"

subsection \<open>Costs\<close>

definition GAS_ZERO :: u64 where "GAS_ZERO = 0"
definition GAS_BASE :: u64 where "GAS_BASE = 2"
definition GAS_VERY_LOW :: u64 where "GAS_VERY_LOW = 3"
definition GAS_LOW :: u64 where "GAS_LOW = 5"
definition GAS_MID :: u64 where "GAS_MID = 8"
definition GAS_HIGH :: u64 where "GAS_HIGH = 10"
definition GAS_MEMORY_COPY :: u64 where "GAS_MEMORY_COPY = 3"
definition GAS_SLOAD :: u64 where "GAS_SLOAD = 800"
definition GAS_SSTORE_SET :: u64 where "GAS_SSTORE_SET = 20000"
definition GAS_SSTORE_RESET :: u64 where "GAS_SSTORE_RESET = 5000"
definition GAS_CALL :: u64 where "GAS_CALL = 700"
definition GAS_LOG :: u64 where "GAS_LOG = 375"
definition GAS_LOG_DATA :: u64 where "GAS_LOG_DATA = 8"
definition GAS_SHA3_WORD :: u64 where "GAS_SHA3_WORD = 6"
definition GAS_SHA3_BASE :: u64 where "GAS_SHA3_BASE = 30"
definition GAS_BALANCE :: u64 where "GAS_BALANCE = 700"

lemmas gas_costs = GAS_ZERO_def GAS_BASE_def GAS_VERY_LOW_def GAS_LOW_def GAS_MID_def GAS_HIGH_def
  GAS_MEMORY_COPY_def GAS_SLOAD_def GAS_SSTORE_SET_def GAS_CALL_def GAS_LOG_def GAS_LOG_DATA_def
  GAS_SHA3_WORD_def GAS_SHA3_BASE_def GAS_BALANCE_def

subsection \<open>The meter\<close>

record gas_meter =
  gm_limit :: u64
  gm_used :: u64
  gm_refund :: u64

definition meter_new :: "u64 \<Rightarrow> gas_meter" where
  "meter_new limit = \<lparr>gm_limit = limit, gm_used = 0, gm_refund = 0\<rparr>"

definition gas_remaining :: "gas_meter \<Rightarrow> u64" where
  "gas_remaining m = saturating_sub (gm_limit m) (gm_used m)"

definition consume :: "u64 \<Rightarrow> (gas_meter, gas_error, unit) prog" where
  "consume amount = (\<lambda>m.
     let new_used = saturating_add (gm_used m) amount
     in if new_used > gm_limit m
        then (Err (GasOutOfGas (gm_limit m) (gm_limit m)), m\<lparr>gm_used := gm_limit m\<rparr>)
        else (Ok (), m\<lparr>gm_used := new_used\<rparr>))"

definition add_refund :: "u64 \<Rightarrow> gas_meter \<Rightarrow> gas_meter" where
  "add_refund amount m = m\<lparr>gm_refund := saturating_add (gm_refund m) amount\<rparr>"

definition final_used :: "gas_meter \<Rightarrow> u64" where
  "final_used m =
     (let max_refund = gm_used m div 2;
          actual_refund = min (gm_refund m) max_refund
      in saturating_sub (gm_used m) actual_refund)"

definition has_gas :: "u64 \<Rightarrow> gas_meter \<Rightarrow> bool" where
  "has_gas amount m \<longleftrightarrow> saturating_add (gm_used m) amount \<le> gm_limit m"

definition sub_meter :: "u64 \<Rightarrow> gas_meter \<Rightarrow> gas_meter" where
  "sub_meter gas_limit m =
     (let available = gas_remaining m;
          max_for_call = available - (available div 64);
          actual_limit = min gas_limit max_for_call
      in \<lparr>gm_limit = actual_limit, gm_used = 0, gm_refund = 0\<rparr>)"

definition return_gas :: "gas_meter \<Rightarrow> gas_meter \<Rightarrow> gas_meter" where
  "return_gas sub m =
     (let sub_remaining = saturating_sub (gm_limit sub) (gm_used sub)
      in m\<lparr>gm_refund := saturating_add (gm_refund m) (gm_refund sub),
           gm_used := saturating_sub (gm_used m) sub_remaining\<rparr>)"

definition memory_cost :: "u64 \<Rightarrow> u64 \<Rightarrow> u64" where
  "memory_cost current_size new_size =
     (if new_size \<le> current_size then 0
      else
        let new_words = (new_size + 31) div 32;
            current_words = (current_size + 31) div 32;
            new_cost = new_words * new_words div 512 + new_words * 3;
            current_cost = current_words * current_words div 512 + current_words * 3
        in saturating_sub new_cost current_cost)"

definition copy_cost :: "u64 \<Rightarrow> u64" where
  "copy_cost sz = GAS_MEMORY_COPY * ((sz + 31) div 32)"

subsection \<open>The meter moves forward\<close>

definition meter_le :: "gas_meter \<Rightarrow> gas_meter \<Rightarrow> bool" where
  "meter_le m m' \<longleftrightarrow> gm_limit m' = gm_limit m
     \<and> (gm_used m \<le> gm_limit m \<longrightarrow> gm_used m \<le> gm_used m' \<and> gm_used m' \<le> gm_limit m)"

lemma meter_le_refl [simp]: "meter_le m m"
  by (simp add: meter_le_def)

lemma meter_le_trans: "meter_le m m' \<Longrightarrow> meter_le m' m'' \<Longrightarrow> meter_le m m''"
  by (auto simp: meter_le_def)

lemma saturating_add_ge: "a \<le> saturating_add a (b :: 'a::len word)"
proof -
  have "unat a \<le> 2 ^ LENGTH('a) - 1" using unsigned_less [of a, where 'a = nat] by linarith
  then show ?thesis by (simp add: word_le_nat_alt unat_saturating_add)
qed

lemma consume_meter_le: "meter_le m (snd (consume g m))"
  by (auto simp: consume_def meter_le_def Let_def saturating_add_ge not_less)

lemma consume_forward: "consume g m = (r, m') \<Longrightarrow> meter_le m m'"
  using consume_meter_le [of m g] by simp

lemma consume_not_Panic: "fst (consume g m) \<noteq> Panic"
  by (simp add: consume_def Let_def)

text \<open>With a limit below the largest 64-bit number a charge that is accepted is exact. A limit
  of exactly \<open>u64::MAX\<close> accepts every charge, because the addition saturates.\<close>

lemma consume_Ok:
  assumes "consume g m = (Ok (), m')" and "gm_limit m \<noteq> - 1"
  shows "unat (gm_used m') = unat (gm_used m) + unat g \<and> gm_used m' \<le> gm_limit m' \<and> gm_limit m' = gm_limit m
    \<and> gm_refund m' = gm_refund m"
proof -
  let ?n = "saturating_add (gm_used m) g"
  have n: "?n \<le> gm_limit m" "m' = m\<lparr>gm_used := ?n\<rparr>" using assms by (auto simp: consume_def Let_def split: if_splits)
  have "unat (gm_used m) + unat g < 2 ^ 64"
  proof (rule ccontr)
    assume "\<not> ?thesis"
    then have "?n = - 1" by (simp add: saturating_add_def)
    with n assms(2) show False using word_order.extremum_unique [of "gm_limit m"] by simp
  qed
  with n show ?thesis by (simp add: saturating_add_def unat_add_no_wrap)
qed

text \<open>What a machine with a meter gives to its loop: \<open>advance\<close> relates the states before and
  after any operation, \<open>meter\<close> reads the meter of a state.\<close>

definition gas_budget :: "gas_meter \<Rightarrow> nat" where
  "gas_budget m = unat (gm_limit m) - unat (gm_used m)"

definition meter_ok :: "gas_meter \<Rightarrow> bool" where
  "meter_ok m \<longleftrightarrow> gm_used m \<le> gm_limit m \<and> gm_limit m \<noteq> - 1"

lemma meter_ok_new [simp]: "meter_ok (meter_new limit) \<longleftrightarrow> limit \<noteq> - 1"
  by (simp add: meter_ok_def meter_new_def)

lemma meter_le_ok: "meter_le m m' \<Longrightarrow> meter_ok m \<Longrightarrow> meter_ok m'"
  by (simp add: meter_le_def meter_ok_def)

lemma meter_le_budget: "meter_le m m' \<Longrightarrow> meter_ok m \<Longrightarrow> gas_budget m' \<le> gas_budget m"
  by (simp add: meter_le_def meter_ok_def gas_budget_def word_le_nat_alt diff_le_mono2)

lemma consume_budget:
  assumes "consume g m = (Ok (), m')" and "meter_ok m" and "0 < unat g"
  shows "gas_budget m' < gas_budget m"
  using consume_Ok [OF assms(1)] assms(2,3) by (auto simp: gas_budget_def meter_ok_def word_le_nat_alt)

text \<open>
  A machine whose steps start with a charge, and whose operations only move the
  meter forward: its loop returns, whatever the bytecode is.
\<close>

locale gas_machine =
  fixes halted :: "'s \<Rightarrow> bool"
    and meter :: "'s \<Rightarrow> gas_meter"
    and fetch :: "('s, 'e, 'a) prog"
    and perform :: "'a \<Rightarrow> ('s, 'e, bool) prog"
  assumes fetch_pays: "meter_ok (meter s) \<Longrightarrow> fetch s = (Ok x, s') \<Longrightarrow> gas_budget (meter s') < gas_budget (meter s)"
    and fetch_forward: "keeps (\<lambda>s s'. meter_le (meter s) (meter s')) fetch"
    and perform_forward: "keeps (\<lambda>s s'. meter_le (meter s) (meter s')) (perform x)"
begin

lemma step_forward: "bindM fetch perform s = (r, s') \<Longrightarrow> meter_le (meter s) (meter s')"
proof -
  have "step_frame (\<lambda>s s'. meter_le (meter s) (meter s'))"
    by unfold_locales (auto intro: meter_le_trans)
  from keepsD [OF step_frame.keeps_bindM [OF this fetch_forward perform_forward]]
  show "bindM fetch perform s = (r, s') \<Longrightarrow> meter_le (meter s) (meter s')" .
qed

lemma step_pays:
  assumes "meter_ok (meter s)" and "bindM fetch perform s = (Ok b, s')"
  shows "gas_budget (meter s') < gas_budget (meter s)"
proof -
  obtain x s1 where c: "fetch s = (Ok x, s1)" and r: "perform x s1 = (Ok b, s')"
    using assms(2) by (cases "fetch s"; cases "fst (fetch s)") (auto simp: bindM_apply)
  have ok1: "meter_ok (meter s1)"
    using keepsD [OF fetch_forward c] assms(1) by (rule meter_le_ok)
  have "gas_budget (meter s') \<le> gas_budget (meter s1)"
    using keepsD [OF perform_forward r] ok1 by (rule meter_le_budget)
  also have "\<dots> < gas_budget (meter s)" using assms(1) c by (rule fetch_pays)
  finally show ?thesis .
qed

end

sublocale gas_machine \<subseteq> metered_machine halted "bindM fetch perform" "\<lambda>s. meter_ok (meter s)" "\<lambda>s. gas_budget (meter s)"
  by unfold_locales (auto dest: step_forward meter_le_ok step_pays)

subsection \<open>Nested calls\<close>

lemma unat_div_word: "unat (a div b :: 'a::len word) = unat a div unat b"
  by (simp add: unat_div_distrib)

lemma unat_gas_remaining: "unat (gas_remaining m) = gas_budget m"
  by (simp add: gas_remaining_def gas_budget_def unat_saturating_sub)

lemma unat_sub_meter_limit:
  "unat (gm_limit (sub_meter g m)) = min (unat g) (gas_budget m - gas_budget m div 64)"
proof -
  have "gas_remaining m div 64 \<le> gas_remaining m"
    by (simp add: word_le_nat_alt unat_div_word)
  then have "unat (gas_remaining m - gas_remaining m div 64) = gas_budget m - gas_budget m div 64"
    by (simp add: unat_sub_no_wrap unat_div_word unat_gas_remaining)
  then show ?thesis
    by (simp add: sub_meter_def Let_def min_def word_le_nat_alt)
qed

lemma consume_fits:
  assumes "unat (gm_used m) + unat g \<le> unat (gm_limit m)"
  shows "consume g m = (Ok (), m\<lparr>gm_used := gm_used m + g\<rparr>)"
proof -
  have lt: "unat (gm_used m) + unat g < 2 ^ 64" using assms unsigned_less [of "gm_limit m", where 'a = nat] by simp
  then have "saturating_add (gm_used m) g = gm_used m + g" by (simp add: saturating_add_def)
  moreover have "gm_used m + g \<le> gm_limit m" using assms lt by (simp add: word_le_nat_alt unat_add_no_wrap)
  ultimately show ?thesis by (simp add: consume_def Let_def)
qed

lemma consume_does_not_fit:
  assumes "unat (gm_limit m) < unat (gm_used m) + unat g" and "gm_limit m \<noteq> - 1"
  shows "consume g m = (Err (GasOutOfGas (gm_limit m) (gm_limit m)), m\<lparr>gm_used := gm_limit m\<rparr>)"
proof (cases "consume g m")
  case (Pair r m')
  have "r \<noteq> Ok ()" using consume_Ok [of g m m'] assms Pair by (auto simp: word_le_nat_alt)
  with Pair show ?thesis by (auto simp: consume_def Let_def split: if_splits)
qed

lemma unat_final_used: "unat (final_used m) = unat (gm_used m) - min (unat (gm_refund m)) (unat (gm_used m) div 2)"
  by (simp add: final_used_def Let_def unat_saturating_sub min_def word_le_nat_alt unat_div_word)

lemma sub_call_exact:
  assumes "meter_ok m" and "meter_le (sub_meter g m) sub'"
  shows "\<exists>m1. consume (gm_limit (sub_meter g m)) m = (Ok (), m1)
    \<and> unat (gm_used (return_gas sub' m1)) = unat (gm_used m) + unat (gm_used sub')
    \<and> gm_limit (return_gas sub' m1) = gm_limit m
    \<and> unat (gm_used m) + unat (gm_used sub') + gas_budget m div 64 \<le> unat (gm_limit m)"
proof -
  let ?l = "gm_limit (sub_meter g m)"
  have used: "unat (gm_used m) \<le> unat (gm_limit m)" using assms(1) by (simp add: meter_ok_def word_le_nat_alt)
  have l: "unat ?l + gas_budget m div 64 \<le> gas_budget m" unfolding unat_sub_meter_limit by linarith
  then have fit: "unat (gm_used m) + unat ?l \<le> unat (gm_limit m)" using used by (simp add: gas_budget_def)
  have sub: "gm_limit sub' = ?l" "gm_used sub' \<le> ?l"
    using assms(2) by (auto simp: meter_le_def sub_meter_def Let_def)
  have su: "unat (gm_used sub') \<le> unat ?l" using sub(2) by (simp add: word_le_nat_alt)
  let ?m1 = "m\<lparr>gm_used := gm_used m + ?l\<rparr>"
  have u1: "unat (gm_used m + ?l) = unat (gm_used m) + unat ?l"
    using fit unsigned_less [of "gm_limit m", where 'a = nat] by (simp add: unat_add_no_wrap)
  have "unat (gm_used (return_gas sub' ?m1)) = unat (gm_used m) + unat (gm_used sub')"
    using su by (simp add: return_gas_def Let_def unat_saturating_sub u1 sub(1))
  moreover have "unat (gm_used m) + unat (gm_used sub') + gas_budget m div 64 \<le> unat (gm_limit m)"
    using su l used unfolding gas_budget_def by linarith
  ultimately show ?thesis using consume_fits [OF fit] by (simp add: return_gas_def)
qed

subsection \<open>Memory\<close>

lemma unat_memory_price:
  assumes "unat (a :: u64) < 2 ^ 36"
  shows "unat ((a + 31) div 32 * ((a + 31) div 32) div 512 + (a + 31) div 32 * 3)
    = ((unat a + 31) div 32)\<^sup>2 div 512 + (unat a + 31) div 32 * 3"
proof -
  define w where "w = (a + 31) div 32"
  have w: "unat w = (unat a + 31) div 32"
    using assms by (simp add: w_def unat_div_word unat_add_no_wrap)
  have small: "unat w \<le> 2 ^ 31" using assms div_le_mono [of "unat a + 31" "2 ^ 36 + 31" 32] by (simp add: w)
  then have "unat w * unat w \<le> 2 ^ 31 * 2 ^ 31" by (intro mult_le_mono)
  then have sq: "unat (w * w) = (unat w)\<^sup>2" by (simp add: unat_word_ariths power2_eq_square)
  have three: "unat (w * 3) = unat w * 3" using small by (simp add: unat_word_ariths)
  have "(unat w)\<^sup>2 div 512 \<le> 2 ^ 53"
    using \<open>unat w * unat w \<le> 2 ^ 31 * 2 ^ 31\<close> by (simp add: power2_eq_square)
  then have "unat (w * w div 512 + w * 3) = (unat w)\<^sup>2 div 512 + unat w * 3"
    using small by (subst unat_add_no_wrap) (simp_all add: unat_div_word sq three)
  then show ?thesis unfolding w_def [symmetric] w .
qed

lemma memory_cost_difference:
  assumes "a \<le> b" and "unat b < 2 ^ 36"
  defines "price \<equiv> \<lambda>n :: u64. ((unat n + 31) div 32)\<^sup>2 div 512 + (unat n + 31) div 32 * 3"
  shows "unat (memory_cost a b) = price b - price a \<and> price a \<le> price b"
proof -
  have ab: "unat a \<le> unat b" using assms(1) by (simp add: word_le_nat_alt)
  then have "price a \<le> price b"
    unfolding price_def by (intro add_mono div_le_mono mult_le_mono power_mono) simp_all
  moreover have "unat (memory_cost a b) = price b - price a"
  proof (cases "b \<le> a")
    case True
    with assms(1) have "a = b" by simp
    then show ?thesis by (simp add: memory_cost_def)
  next
    case False
    then show ?thesis
      using unat_memory_price [of a] unat_memory_price [of b] assms(2) ab
      by (simp add: memory_cost_def Let_def unat_saturating_sub price_def)
  qed
  ultimately show ?thesis by simp
qed

subsection \<open>Properties\<close>



text \<open>The memory price is additive below the wrap-around and meaningless above it. For
  sizes below \<open>2 ^ 36\<close> growing in two steps costs what growing at once costs and a
  larger size never costs less, so a program cannot save gas by the order of its requests; but the rounding of
  the size to words wraps, and the largest size of all is free.\<close>

theorem memory_cost_additive:
  assumes "a \<le> b" and "b \<le> c" and "unat c < 2 ^ 36"
  shows "unat (memory_cost a c) = unat (memory_cost a b) + unat (memory_cost b c)
    \<and> memory_cost a b \<le> memory_cost a c \<and> memory_cost 0 (- 1) = 0"
proof -
  have "unat b < 2 ^ 36" "a \<le> c" using assms by (auto simp: word_le_nat_alt)
  with memory_cost_difference [of a b] memory_cost_difference [of b c] memory_cost_difference [of a c] assms
  have "unat (memory_cost a c) = unat (memory_cost a b) + unat (memory_cost b c)" by simp
  moreover from this have "memory_cost a b \<le> memory_cost a c" by (simp add: word_le_nat_alt)
  moreover have "memory_cost 0 (- 1) = 0" by (simp add: memory_cost_def Let_def saturating_sub_def)
  ultimately show ?thesis by blast
qed

theorem memory_cost_additive_witness:
  "unat (memory_cost 0 1024) = unat (memory_cost 0 64) + unat (memory_cost 64 1024)"
  using memory_cost_additive [of 0 64 1024] by simp

end
