(* ===== verification/Fry_Script.thy ===== *)
theory Fry_Script
  imports Fry_Gas "HOL-Library.Signed_Division"
begin

text \<open>
  \<open>ScriptElement\<close> of \<open>frychain-vm/src/kaspa.rs\<close>: the elements of the script stack as byte
  strings, and the numbers they stand for. A signed 64-bit number is a machine word read with
  \<open>sint\<close>. The lemmas: what an element reads as, that every number but the least one is
  read back from its encoding, and that the truth value of an element is that of its number.
\<close>

type_synonym script_element = bytes

definition script_empty :: script_element where
  "script_empty = []"

definition script_true_val :: script_element where
  "script_true_val = [1]"

definition script_false_val :: script_element where
  "script_false_val = script_empty"

definition script_bool :: "bool \<Rightarrow> script_element" where
  "script_bool b = (if b then script_true_val else script_false_val)"

subsection \<open>From and to numbers\<close>

lemma unat_drop_byte: "unat (drop_bit 8 (v :: u64)) = unat v div 256"
  by (simp only: unat_drop_bit_eq) (simp add: drop_bit_eq_div)

function abs_bytes :: "u64 \<Rightarrow> bytes" where
  "abs_bytes v = (if v = 0 then [] else ucast (v AND 0xFF) # abs_bytes (drop_bit 8 v))"
  by pat_completeness auto

termination
proof (relation "measure unat")
  show "wf (measure (unat :: u64 \<Rightarrow> nat))" by simp
next
  fix v :: u64
  assume "v \<noteq> 0"
  then have "0 < unat v" by (simp add: unsigned_eq_0_iff zero_less_iff_neq_zero)
  then show "(drop_bit 8 v, v) \<in> measure unat"
    by (simp add: unat_drop_byte)
qed

declare abs_bytes.simps [simp del]

definition from_i64 :: "i64 \<Rightarrow> script_element" where
  "from_i64 val =
     (if val = 0 then script_empty
      else let negative = val <s 0;
               result = abs_bytes (if negative then - val else val)
           in if result \<noteq> [] \<and> last result AND 0x80 \<noteq> 0 then result @ [if negative then 0x80 else 0]
              else if negative then butlast result @ [last result OR 0x80]
              else result)"

text \<open>The loop of \<open>to_i64\<close>: byte \<open>i\<close> is shifted into place and combined with the rest.\<close>

fun or_bytes :: "nat \<Rightarrow> bytes \<Rightarrow> i64" where
  "or_bytes i [] = 0"
| "or_bytes i (b # bs) = push_bit (8 * i) (ucast b) OR or_bytes (Suc i) bs"

definition to_i64 :: "script_element \<Rightarrow> (vm_error, i64) outcome" where
  "to_i64 e =
     (if e = [] then Ok 0
      else if length e > 8 then Err (ExecutionError ''Script number overflow'')
      else let negative = last e AND 0x80 \<noteq> 0;
               result = or_bytes 0 (if negative then butlast e @ [last e AND 0x7F] else e)
           in Ok (if negative then - result else result))"

definition is_true :: "script_element \<Rightarrow> bool" where
  "is_true e \<longleftrightarrow> e \<noteq> [] \<and> ((\<exists>b\<in>set (butlast e). b \<noteq> 0) \<or> last e AND 0x7F \<noteq> 0)"

subsection \<open>What the loops compute\<close>

lemma push_bit_or_byte: "(ucast (b :: u8) :: i64) OR push_bit 8 w = ucast b + 256 * w"
proof -
  have "ucast b AND push_bit 8 w = (0 :: i64)"
    by (rule bit_eqI) (auto simp: bit_simps dest: bit_imp_le_length)
  then have "ucast b OR push_bit 8 w = ucast b + push_bit 8 w" by (simp add: disjunctive_add_eq_or)
  then show ?thesis by (simp add: push_bit_eq_mult)
qed

lemma or_bytes_value: "or_bytes i bs = push_bit (8 * i) (word_of_nat (le_nat bs))"
proof (induction bs arbitrary: i)
  case Nil
  show ?case by simp
next
  case (Cons b bs)
  have "or_bytes i (b # bs) = push_bit (8 * i) (ucast b) OR push_bit (8 * i) (push_bit 8 (word_of_nat (le_nat bs)))"
    by (simp add: Cons push_bit_push_bit ac_simps)
  also have "\<dots> = push_bit (8 * i) (ucast b + 256 * word_of_nat (le_nat bs))"
    by (simp only: push_bit_or [symmetric] push_bit_or_byte)
  moreover have "(word_of_nat (unat b) :: i64) = ucast b" by simp
  ultimately show ?case by (simp del: of_nat_unat)
qed

lemma abs_bytes_value: "le_nat (abs_bytes v) = unat v"
proof (induction v rule: abs_bytes.induct)
  case (1 v)
  show ?case
  proof (cases "v = 0")
    case True
    then show ?thesis by (subst abs_bytes.simps) simp
  next
    case False
    have "v AND 0xFF = take_bit 8 v" by (simp add: take_bit_eq_mask mask_eq_exp_minus_1)
    then have "unat (ucast (v AND 0xFF) :: u8) = take_bit 8 (unat v)"
      by (simp only: unsigned_ucast_eq unsigned_take_bit_eq) simp
    then have "unat (ucast (v AND 0xFF) :: u8) = unat v mod 256" by (simp add: take_bit_eq_mod)
    then show ?thesis using 1 [OF False] False by (subst abs_bytes.simps) (simp add: unat_drop_byte)
  qed
qed

lemma abs_bytes_last: "v \<noteq> 0 \<Longrightarrow> abs_bytes v \<noteq> [] \<and> last (abs_bytes v) \<noteq> 0"
proof (induction v rule: abs_bytes.induct)
  case (1 v)
  have split: "abs_bytes v = ucast (v AND 0xFF) # abs_bytes (drop_bit 8 v)"
    using 1(2) by (subst abs_bytes.simps) simp
  show ?case
  proof (cases "drop_bit 8 v = 0")
    case True
    then have "abs_bytes v = [ucast (v AND 0xFF)]" using split by (simp add: abs_bytes.simps [of 0])
    moreover from this have "unat (ucast (v AND 0xFF) :: u8) = unat v" using abs_bytes_value [of v] by simp
    ultimately show ?thesis using 1(2) by (metis last.simps list.distinct(1) unsigned_0 word_unat_eq_iff)
  next
    case False
    with 1 split show ?thesis by simp
  qed
qed

lemma byte_sign: "(b :: u8) AND 0x80 \<noteq> 0 \<longleftrightarrow> 128 \<le> unat b"
proof -
  have "b AND 0x80 \<noteq> 0 \<longleftrightarrow> bit b 7" using and_exp_eq_0_iff_not_bit [of b 7] by simp
  also have "\<dots> \<longleftrightarrow> bit (unat b) 7" by (simp add: bit_unsigned_iff)
  also have "\<dots> \<longleftrightarrow> odd (unat b div 128)" by (simp add: bit_iff_odd)
  also have "\<dots> \<longleftrightarrow> 128 \<le> unat b"
  proof (cases "unat b < 128")
    case False
    then have "unat b div 128 = 1" using unsigned_less [of b, where 'a = nat] by (intro div_nat_eqI) auto
    with False show ?thesis by simp
  qed simp
  finally show ?thesis .
qed

lemma byte_magnitude: "unat ((b :: u8) AND 0x7F) = unat b mod 128"
proof -
  have "b AND 0x7F = take_bit 7 b" by (simp add: take_bit_eq_mask mask_eq_exp_minus_1)
  then show ?thesis by (simp only: unsigned_take_bit_eq) (simp add: take_bit_eq_mod)
qed

lemma byte_set_sign: "unat (b :: u8) < 128 \<Longrightarrow> unat (b OR 0x80) = unat b + 128"
proof -
  assume b: "unat b < 128"
  then have "b AND 0x80 = 0" using byte_sign [of b] by auto
  then have "b OR 0x80 = b + 0x80" by (simp add: disjunctive_add_eq_or)
  with b show ?thesis by (simp add: unat_word_ariths)
qed


subsection \<open>The value of an element\<close>

text \<open>The magnitude: the last byte counts without its sign bit.\<close>

definition script_magnitude :: "script_element \<Rightarrow> nat" where
  "script_magnitude e = le_nat (butlast e) + 256 ^ (length e - 1) * (unat (last e) mod 128)"

lemma le_nat_snoc: "e \<noteq> [] \<Longrightarrow> le_nat (butlast e @ [b]) = le_nat (butlast e) + 256 ^ (length e - 1) * unat b"
  by (simp add: le_nat_append)

lemma le_nat_split: "e \<noteq> [] \<Longrightarrow> le_nat e = le_nat (butlast e) + 256 ^ (length e - 1) * unat (last e)"
  using le_nat_snoc [of e "last e"] by simp

lemma script_magnitude_bound: "e \<noteq> [] \<Longrightarrow> script_magnitude e < 128 * 256 ^ (length e - 1)"
proof -
  assume "e \<noteq> []"
  have "le_nat (butlast e) < 256 ^ (length e - 1)" using le_nat_bound [of "butlast e"] by simp
  moreover have "256 ^ (length e - 1) * (unat (last e) mod 128) \<le> 256 ^ (length e - 1) * (127 :: nat)"
    by (rule mult_le_mono2) (use mod_less_divisor [of 128 "unat (last e)"] in linarith)
  ultimately show ?thesis unfolding script_magnitude_def by linarith
qed

lemma to_i64_value:
  assumes "e \<noteq> []" and "length e \<le> 8"
  shows "to_i64 e = Ok (if 128 \<le> unat (last e) then - word_of_nat (script_magnitude e) else word_of_nat (script_magnitude e))"
proof (cases "128 \<le> unat (last e)")
  case True
  have "le_nat (butlast e @ [last e AND 0x7F]) = script_magnitude e"
    by (simp only: le_nat_snoc [OF assms(1)] byte_magnitude script_magnitude_def)
  with assms True show ?thesis by (simp add: to_i64_def or_bytes_value byte_sign)
next
  case False
  then have "le_nat e = script_magnitude e"
    using le_nat_split [OF assms(1)] by (simp add: script_magnitude_def)
  with assms False show ?thesis by (simp add: to_i64_def or_bytes_value byte_sign)
qed

lemma magnitude_small: "e \<noteq> [] \<Longrightarrow> length e \<le> 8 \<Longrightarrow> script_magnitude e < 2 ^ 63"
proof -
  assume "e \<noteq> []" "length e \<le> 8"
  then have "128 * 256 ^ (length e - 1) \<le> (128 * 256 ^ 7 :: nat)"
    by (intro mult_le_mono2 power_increasing) auto
  with script_magnitude_bound [OF \<open>e \<noteq> []\<close>] show ?thesis by simp
qed

lemma le_nat_eq_0: "le_nat bs = 0 \<longleftrightarrow> (\<forall>b\<in>set bs. b = 0)"
  by (induction bs) (auto simp: unsigned_eq_0_iff)

lemma is_true_magnitude: "e \<noteq> [] \<Longrightarrow> is_true e \<longleftrightarrow> script_magnitude e \<noteq> 0"
proof -
  assume "e \<noteq> []"
  moreover have "last e AND 0x7F \<noteq> 0 \<longleftrightarrow> unat (last e) mod 128 \<noteq> 0"
    by (metis byte_magnitude unsigned_eq_0_iff)
  ultimately show ?thesis by (auto simp: is_true_def script_magnitude_def le_nat_eq_0)
qed

lemma of_nat_i64_eq_0: "m < 2 ^ 63 \<Longrightarrow> (word_of_nat m :: i64) = 0 \<longleftrightarrow> m = 0"
  by (auto simp: word_of_nat_eq_0_iff dest: dvd_imp_le)


lemma i64_negative: "(v :: i64) <s 0 \<longleftrightarrow> 2 ^ 63 \<le> unat v"
proof -
  have "v <s 0 \<longleftrightarrow> bit (unat v) 63" by (simp add: word_sless_alt sint_uint bit_unsigned_iff)
  also have "\<dots> \<longleftrightarrow> 2 ^ 63 \<le> unat v"
  proof (cases "unat v < 2 ^ 63")
    case True
    then show ?thesis by (simp add: bit_iff_odd)
  next
    case False
    then have "unat v div 2 ^ 63 = 1" using unsigned_less [of v, where 'a = nat] by (intro div_nat_eqI) auto
    with False show ?thesis by (simp add: bit_iff_odd)
  qed
  finally show ?thesis .
qed

definition i64_abs :: "i64 \<Rightarrow> u64" where
  "i64_abs v = (if v <s 0 then - v else v)"

definition I64_MIN :: i64 where
  "I64_MIN = 0x8000000000000000"

lemma unat_uminus: "v \<noteq> 0 \<Longrightarrow> unat (- v :: i64) = 2 ^ 64 - unat v"
proof -
  assume "v \<noteq> 0"
  then have "0 < unat v" by (simp add: unsigned_eq_0_iff zero_less_iff_neq_zero)
  moreover have "(unat (- v) + unat v) mod 2 ^ 64 = 0" using unat_word_ariths(1) [of "- v" v] by simp
  moreover have "unat v < 2 ^ 64" "unat (- v) < 2 ^ 64"
    using unsigned_less [of v, where 'a = nat] unsigned_less [of "- v", where 'a = nat] by simp_all
  ultimately obtain k where k: "unat (- v) + unat v = 18446744073709551616 * k" "k < 2" "0 < k"
    by (auto simp: mod_eq_0_iff_dvd elim!: dvdE)
  then have "k = 1" by simp
  with k(1) show ?thesis by simp
qed

lemma i64_abs_bound: "unat (i64_abs v) \<le> 2 ^ 63" "unat (i64_abs v) = 2 ^ 63 \<longleftrightarrow> v = I64_MIN"
  "v \<noteq> 0 \<Longrightarrow> i64_abs v \<noteq> 0"
proof -
  have *: "unat v = 2 ^ 63 \<longleftrightarrow> v = I64_MIN" by (simp add: I64_MIN_def word_unat_eq_iff)
  have lt: "unat v < 2 ^ 64" using unsigned_less [of v, where 'a = nat] by simp
  show "unat (i64_abs v) \<le> 2 ^ 63" "unat (i64_abs v) = 2 ^ 63 \<longleftrightarrow> v = I64_MIN"
    using lt unat_uminus [of v] * by (cases "v = 0"; force simp: i64_abs_def i64_negative)+
qed (simp add: i64_abs_def)

lemma from_i64_shape:
  assumes "v \<noteq> 0"
  shows "from_i64 v \<noteq> [] \<and> script_magnitude (from_i64 v) = unat (i64_abs v)
    \<and> (128 \<le> unat (last (from_i64 v)) \<longleftrightarrow> v <s 0)
    \<and> (unat (i64_abs v) < 128 * 256 ^ k \<longrightarrow> length (from_i64 v) \<le> Suc k)"
proof -
  define bs where "bs = abs_bytes (i64_abs v)"
  have bs: "bs \<noteq> []" "last bs \<noteq> 0" "le_nat bs = unat (i64_abs v)"
    using abs_bytes_last abs_bytes_value i64_abs_bound(3) [OF assms] by (auto simp: bs_def)
  have val: "le_nat bs = le_nat (butlast bs) + 256 ^ (length bs - 1) * unat (last bs)"
    by (rule le_nat_split [OF bs(1)])
  have low: "256 ^ (length bs - 1) * n \<le> unat (i64_abs v)" if "n \<le> unat (last bs)" for n
    using val bs(3) mult_le_mono2 [OF that, of "256 ^ (length bs - 1)"] by linarith
  have frm: "from_i64 v = (if 128 \<le> unat (last bs) then bs @ [if v <s 0 then 0x80 else 0]
      else if v <s 0 then butlast bs @ [last bs OR 0x80] else bs)"
    using assms bs(1) byte_sign [of "last bs"] by (simp add: from_i64_def bs_def i64_abs_def Let_def)
  show ?thesis
  proof (cases "128 \<le> unat (last bs)")
    case True
    have "length bs \<le> k" if "unat (i64_abs v) < 128 * 256 ^ k"
    proof -
      have "128 * 256 ^ (length bs - 1) < (128 * 256 ^ k :: nat)" using low [OF True] that by linarith
      then have "length bs - 1 < k" by simp
      then show ?thesis by linarith
    qed
    with True frm bs show ?thesis by (auto simp: script_magnitude_def)
  next
    case False
    have "1 \<le> unat (last bs)" using bs(2) by (simp add: unsigned_eq_0_iff Suc_le_eq zero_less_iff_neq_zero)
    from low [OF this] have len: "length bs \<le> Suc k" if "unat (i64_abs v) < 128 * 256 ^ k"
      using that power_less_imp_less_exp [of "256 :: nat" "length bs - 1" "Suc k"] by simp
    show ?thesis
      using False frm bs val len byte_set_sign [of "last bs"] by (auto simp: script_magnitude_def)
  qed
qed


subsection \<open>Numbers and truth values\<close>

lemma to_i64_not_min: "to_i64 e = Ok n \<Longrightarrow> n \<noteq> I64_MIN"
proof
  assume r: "to_i64 e = Ok n" and n: "n = I64_MIN"
  have e: "e \<noteq> []" "length e \<le> 8" using r n by (auto simp: to_i64_def I64_MIN_def Let_def split: if_splits)
  let ?m = "script_magnitude e"
  have "?m < 2 ^ 63" by (rule magnitude_small [OF e])
  then have m: "unat (word_of_nat ?m :: i64) = ?m" by (simp add: unat_of_nat)
  have "word_of_nat ?m = I64_MIN"
  proof (cases "128 \<le> unat (last e)")
    case True
    then have "- word_of_nat ?m = I64_MIN" using r n to_i64_value [OF e] by simp
    then have "word_of_nat ?m = - I64_MIN" by (metis minus_minus)
    then show ?thesis by (simp add: I64_MIN_def)
  qed (use r n to_i64_value [OF e] in simp)
  then show False using m \<open>?m < 2 ^ 63\<close> by (simp add: I64_MIN_def)
qed

lemma to_i64_from_i64:
  "to_i64 (from_i64 v) = (if v = I64_MIN then Err (ExecutionError ''Script number overflow'') else Ok v)"
proof (cases "v = 0")
  case True
  then show ?thesis by (simp add: from_i64_def script_empty_def to_i64_def I64_MIN_def)
next
  case False
  let ?e = "from_i64 v"
  have e: "?e \<noteq> []" "script_magnitude ?e = unat (i64_abs v)" "128 \<le> unat (last ?e) \<longleftrightarrow> v <s 0"
    and len: "unat (i64_abs v) < 2 ^ 63 \<longrightarrow> length ?e \<le> 8"
    using from_i64_shape [OF False, of 7] by auto
  show ?thesis
  proof (cases "v = I64_MIN")
    case True
    then have "unat (i64_abs v) = 2 ^ 63" using i64_abs_bound(2) by simp
    then have "\<not> length ?e \<le> 8" using magnitude_small [OF e(1)] e(2) by auto
    with True e(1) show ?thesis by (simp add: to_i64_def)
  next
    case False
    then have "unat (i64_abs v) < 2 ^ 63" using i64_abs_bound by (metis le_neq_implies_less)
    with len to_i64_value [OF e(1)] e False show ?thesis by (simp add: i64_abs_def)
  qed
qed

lemma is_true_number: "to_i64 e = Ok n \<Longrightarrow> is_true e \<longleftrightarrow> n \<noteq> 0"
proof (cases "e = []")
  case False
  assume r: "to_i64 e = Ok n"
  then have "length e \<le> 8" using False by (simp add: to_i64_def split: if_splits)
  with r False show ?thesis
    using to_i64_value [of e] of_nat_i64_eq_0 [OF magnitude_small, of e] is_true_magnitude [of e] by (auto split: if_splits)
qed (simp add: to_i64_def is_true_def)

lemma is_true_from_i64: "is_true (from_i64 v) \<longleftrightarrow> v \<noteq> 0"
proof (cases "v = 0")
  case False
  then show ?thesis using from_i64_shape [OF False] i64_abs_bound(3) [OF False]
    by (simp add: is_true_magnitude unsigned_eq_0_iff)
qed (simp add: from_i64_def script_empty_def is_true_def)

lemma from_i64_shortest: "to_i64 e = Ok n \<Longrightarrow> length (from_i64 n) \<le> length e"
proof (cases "n = 0")
  case False
  assume r: "to_i64 e = Ok n"
  then have e: "e \<noteq> []" "length e \<le> 8" using False by (auto simp: to_i64_def split: if_splits)
  let ?m = "script_magnitude e"
  have b: "?m < 128 * 256 ^ (length e - 1)" by (rule script_magnitude_bound [OF e(1)])
  have small: "?m < 2 ^ 63" by (rule magnitude_small [OF e])
  then have m: "unat (word_of_nat ?m :: i64) = ?m" by (simp add: unat_of_nat)
  have "unat (i64_abs n) = ?m"
  proof (cases "128 \<le> unat (last e)")
    case True
    then have n: "n = - word_of_nat ?m" using r to_i64_value [OF e] by simp
    with False have "2 ^ 63 \<le> unat n" using unat_uminus [of "word_of_nat ?m"] m small by auto
    with n m show ?thesis by (simp add: i64_abs_def i64_negative)
  next
    case neg: False
    then have n: "n = word_of_nat ?m" using r to_i64_value [OF e] by simp
    with m small show ?thesis by (simp add: i64_abs_def i64_negative)
  qed
  with b from_i64_shape [OF False, of "length e - 1"] e(1) show ?thesis by simp
qed (simp add: from_i64_def script_empty_def)


text \<open>Script numbers are read back from their encoding. Every signed 64-bit number other
  than the least one survives the encoding, the least one becomes a nine-byte element that is an overflow error
  when read; an element that reads as \<open>n\<close> is true exactly when \<open>n\<close> is not zero, and the
  encoding of \<open>n\<close> is never longer than the element.\<close>

theorem script_number_roundtrip:
  assumes "to_i64 e = Ok n"
  shows "to_i64 (from_i64 v) = (if v = I64_MIN then Err (ExecutionError ''Script number overflow'') else Ok v)
    \<and> to_i64 (from_i64 n) = Ok n \<and> (is_true e \<longleftrightarrow> n \<noteq> 0) \<and> (is_true (from_i64 v) \<longleftrightarrow> v \<noteq> 0)
    \<and> length (from_i64 n) \<le> length e"
  using to_i64_from_i64 to_i64_not_min [OF assms] is_true_number [OF assms] is_true_from_i64
    from_i64_shortest [OF assms] by simp

theorem script_number_roundtrip_witness:
  "to_i64 [5, 0, 0x80] = Ok (- 5) \<and> length (from_i64 (- 5)) \<le> 3 \<and> to_i64 (from_i64 (- 5)) = Ok (- 5)"
proof -
  have e: "to_i64 [5, 0, 0x80] = Ok (- 5)" by (simp add: to_i64_def)
  show ?thesis using e script_number_roundtrip [OF e, of 0] by simp
qed

end
