(* ===== verification/Fry_Kaspa.thy ===== *)
theory Fry_Kaspa
  imports Fry_Script Fry_Maps
begin

text \<open>
  \<open>KaspaVM\<close> of \<open>frychain-vm/src/kaspa.rs\<close>: the script machine. Both stacks and the stack of
  conditions are lists whose head is the top. The enumeration \<open>KaspaOpcode\<close> is
  \<open>repr(u8)\<close>; an opcode is its discriminant. The program counter is a natural number: it only grows,
  by less than \<open>2 ^ 33\<close> in a step that must start inside the script, so \<open>usize\<close> cannot
  overflow. The hash functions are parameters. The lemmas: every execution ends within
  201 operations, the stacks and elements stay small, and only one opcode can panic.
\<close>

definition KASPA_MAGIC :: bytes where "KASPA_MAGIC = [0x4B, 0x41, 0x53, 0x50]"
definition MAX_STACK_SIZE :: nat where "MAX_STACK_SIZE = 1000"
definition MAX_SCRIPT_SIZE :: nat where "MAX_SCRIPT_SIZE = 10000"
definition MAX_ELEMENT_SIZE :: nat where "MAX_ELEMENT_SIZE = 520"
definition MAX_OPS_PER_SCRIPT :: nat where "MAX_OPS_PER_SCRIPT = 201"

definition OpInvalidOpcode :: u8 where "OpInvalidOpcode = 0xff"

definition kaspa_from_byte :: "u8 \<Rightarrow> u8" where
  "kaspa_from_byte b =
     (if b = 0x00 \<or> (0x4c \<le> b \<and> b \<le> 0x4f) \<or> (0x51 \<le> b \<and> b \<le> 0x61) \<or> b = 0x63 \<or> b = 0x64
         \<or> (0x67 \<le> b \<and> b \<le> 0x88) \<or> b = 0x8b \<or> b = 0x8c \<or> (0x8f \<le> b \<and> b \<le> 0xaf)
         \<or> b = 0xb1 \<or> b = 0xb2 \<or> b = 0xba \<or> b = 0xbb \<or> (0xc0 \<le> b \<and> b \<le> 0xc8) \<or> (0xd0 \<le> b \<and> b \<le> 0xd3)
      then b else OpInvalidOpcode)"

record script_tx_input =
  sti_prev_tx_hash :: hash256
  sti_prev_output_index :: u32
  sti_script_sig :: bytes
  sti_sequence :: u32
  sti_value :: u64

record script_tx_output =
  sto_value :: u64
  sto_script_pubkey :: bytes

record script_tx_context =
  stc_version :: u32
  stc_inputs :: "script_tx_input list"
  stc_outputs :: "script_tx_output list"
  stc_lock_time :: u32
  stc_current_input_index :: usize

definition default_tx_context :: script_tx_context where
  "default_tx_context = \<lparr>stc_version = 1, stc_inputs = [], stc_outputs = [], stc_lock_time = 0,
     stc_current_input_index = 0\<rparr>"

record kaspa_lib =
  kl_sha256 :: "bytes \<Rightarrow> bytes"
  kl_sha3_256 :: "bytes \<Rightarrow> bytes"

record kaspa_vm =
  kv_stack :: "script_element list"
  kv_alt_stack :: "script_element list"
  kv_script :: bytes
  kv_pc :: nat
  kv_context :: execution_context
  kv_gas :: gas_meter
  kv_tx :: script_tx_context
  kv_state :: "(bytes \<times> bytes) list"
  kv_logs :: "vm_log list"
  kv_changes :: vm_state_changes
  kv_exec :: "bool list"
  kv_op_count :: nat
  kv_code_sep_pos :: nat
  kv_signatures :: "bytes list"

type_synonym 'a kaspa_prog = "(kaspa_vm, vm_error, 'a) prog"

definition kaspa_new :: "execution_context \<Rightarrow> kaspa_vm" where
  "kaspa_new ctx = \<lparr>kv_stack = [], kv_alt_stack = [], kv_script = [], kv_pc = 0, kv_context = ctx,
     kv_gas = meter_new (ec_gas_limit ctx), kv_tx = default_tx_context, kv_state = [], kv_logs = [],
     kv_changes = no_state_changes, kv_exec = [], kv_op_count = 0, kv_code_sep_pos = 0, kv_signatures = []\<rparr>"

definition set_tx_context :: "script_tx_context \<Rightarrow> kaspa_vm \<Rightarrow> kaspa_vm" where
  "set_tx_context tx s = s\<lparr>kv_tx := tx\<rparr>"

definition set_signatures :: "bytes list \<Rightarrow> kaspa_vm \<Rightarrow> kaspa_vm" where
  "set_signatures sigs s = s\<lparr>kv_signatures := sigs\<rparr>"

subsection \<open>The stack\<close>

definition kv_charge :: "u64 \<Rightarrow> unit kaspa_prog" where
  "kv_charge g = (\<lambda>s. case consume g (kv_gas s) of (r, m) \<Rightarrow> (map_err gas_to_vm_error r, s\<lparr>kv_gas := m\<rparr>))"

definition kv_push :: "script_element \<Rightarrow> unit kaspa_prog" where
  "kv_push e = (\<lambda>s.
     if length (kv_stack s) \<ge> MAX_STACK_SIZE then (Err StackOverflow, s)
     else if length e > MAX_ELEMENT_SIZE then (Err (ExecutionError ''Element size exceeded''), s)
     else (Ok (), s\<lparr>kv_stack := e # kv_stack s\<rparr>))"

definition kv_pop :: "script_element kaspa_prog" where
  "kv_pop = (\<lambda>s. case kv_stack s of [] \<Rightarrow> (Err StackUnderflow, s) | e # es \<Rightarrow> (Ok e, s\<lparr>kv_stack := es\<rparr>))"

definition kv_last :: "script_element kaspa_prog" where
  "kv_last = (\<lambda>s. case kv_stack s of [] \<Rightarrow> (Err StackUnderflow, s) | e # es \<Rightarrow> (Ok e, s))"

definition kv_pop_num :: "i64 kaspa_prog" where
  "kv_pop_num = bindM kv_pop (\<lambda>e. lift_out (to_i64 e))"

definition kv_push_num :: "i64 \<Rightarrow> unit kaspa_prog" where
  "kv_push_num n = kv_push (from_i64 n)"

fun kv_push_all :: "script_element list \<Rightarrow> unit kaspa_prog" where
  "kv_push_all [] = ret ()"
| "kv_push_all (e # es) = thenM (kv_push e) (kv_push_all es)"

fun kv_pop_many :: "nat \<Rightarrow> script_element list kaspa_prog" where
  "kv_pop_many 0 = ret []"
| "kv_pop_many (Suc n) = bindM kv_pop (\<lambda>e. bindM (kv_pop_many n) (\<lambda>es. ret (e # es)))"

text \<open>The check of the depth and a change of the stack that the depth makes safe.\<close>

definition kv_rearrange :: "nat \<Rightarrow> (script_element list \<Rightarrow> script_element list) \<Rightarrow> unit kaspa_prog" where
  "kv_rearrange n f = (\<lambda>s. if length (kv_stack s) < n then (Err StackUnderflow, s)
                            else (Ok (), s\<lparr>kv_stack := f (kv_stack s)\<rparr>))"

definition kv_copy :: "nat \<Rightarrow> unit kaspa_prog" where
  "kv_copy n = (\<lambda>s. if length (kv_stack s) < n then (Err StackUnderflow, s)
                     else kv_push_all (rev (take n (kv_stack s))) s)"

subsection \<open>Pushing data and control flow\<close>

definition kv_end_of_script :: vm_error where
  "kv_end_of_script = ExecutionError ''Unexpected end of script''"

text \<open>The data that starts at the program counter; an element that does not fit in the script is an error.\<close>

definition kv_push_data :: "nat \<Rightarrow> unit kaspa_prog" where
  "kv_push_data len = (\<lambda>s.
     if kv_pc s + len > length (kv_script s) then (Err kv_end_of_script, s)
     else kv_push (take len (drop (kv_pc s) (kv_script s))) s)"

definition kv_advance :: "nat \<Rightarrow> unit kaspa_prog" where
  "kv_advance n = modify (\<lambda>s. s\<lparr>kv_pc := kv_pc s + n\<rparr>)"

text \<open>\<open>OpPushData1\<close>, \<open>2\<close> and \<open>4\<close>: a little-endian length of \<open>n\<close> bytes, read
  even in a branch that is not executed.\<close>

definition op_push_data :: "nat \<Rightarrow> bool \<Rightarrow> unit kaspa_prog" where
  "op_push_data n executing = (\<lambda>s.
     if kv_pc s + n > length (kv_script s) then (Err kv_end_of_script, s)
     else let len = le_nat (take n (drop (kv_pc s) (kv_script s)))
          in thenM (kv_advance n) (thenM (whenM executing (kv_push_data len)) (kv_advance len)) s)"

definition op_push_bytes :: "nat \<Rightarrow> bool \<Rightarrow> unit kaspa_prog" where
  "op_push_bytes len executing = thenM (whenM executing (kv_push_data len)) (kv_advance len)"

text \<open>\<open>OpIf\<close> and \<open>OpNotIf\<close>.\<close>

definition op_if :: "bool \<Rightarrow> bool \<Rightarrow> unit kaspa_prog" where
  "op_if negated executing =
     bindM (if executing then bindM kv_pop (\<lambda>e. ret (is_true e \<noteq> negated)) else ret False)
       (\<lambda>cond. modify (\<lambda>s. s\<lparr>kv_exec := (executing \<and> cond) # kv_exec s\<rparr>))"

definition op_else :: "unit kaspa_prog" where
  "op_else = (\<lambda>s. case kv_exec s of
       [] \<Rightarrow> (Err (ExecutionError ''OP_ELSE without OP_IF''), s)
     | c # outer \<Rightarrow> (Ok (), if list_all id outer then s\<lparr>kv_exec := (\<not> c) # outer\<rparr> else s))"

definition op_endif :: "unit kaspa_prog" where
  "op_endif = (\<lambda>s. case kv_exec s of
       [] \<Rightarrow> (Err (ExecutionError ''OP_ENDIF without OP_IF''), s)
     | c # outer \<Rightarrow> (Ok (), s\<lparr>kv_exec := outer\<rparr>))"

definition op_verify :: "unit kaspa_prog" where
  "op_verify = bindM kv_pop (\<lambda>e. if is_true e then ret () else fail (ExecutionError ''OP_VERIFY failed''))"

subsection \<open>Stack operations\<close>

definition op_to_alt_stack :: "unit kaspa_prog" where
  "op_to_alt_stack = bindM kv_pop (\<lambda>e. modify (\<lambda>s. s\<lparr>kv_alt_stack := e # kv_alt_stack s\<rparr>))"

definition op_from_alt_stack :: "unit kaspa_prog" where
  "op_from_alt_stack = (\<lambda>s. case kv_alt_stack s of
       [] \<Rightarrow> (Err (ExecutionError ''Alt stack underflow''), s)
     | e # es \<Rightarrow> kv_push e (s\<lparr>kv_alt_stack := es\<rparr>))"

definition stack_nip :: "'a list \<Rightarrow> 'a list" where
  "stack_nip st = (case st of b # a # r \<Rightarrow> b # r | _ \<Rightarrow> st)"

definition stack_rot :: "'a list \<Rightarrow> 'a list" where
  "stack_rot st = (case st of c # b # a # r \<Rightarrow> a # c # b # r | _ \<Rightarrow> st)"

definition stack_swap :: "'a list \<Rightarrow> 'a list" where
  "stack_swap st = (case st of b # a # r \<Rightarrow> a # b # r | _ \<Rightarrow> st)"

definition stack_tuck :: "'a list \<Rightarrow> 'a list" where
  "stack_tuck st = (case st of b # a # r \<Rightarrow> b # a # b # r | _ \<Rightarrow> st)"

definition op_over :: "unit kaspa_prog" where
  "op_over = (\<lambda>s. case kv_stack s of b # a # r \<Rightarrow> kv_push a s | _ \<Rightarrow> (Err StackUnderflow, s))"

definition op_pick :: "unit kaspa_prog" where
  "op_pick = bindM kv_pop_num (\<lambda>n s. if unat n \<ge> length (kv_stack s) then (Err StackUnderflow, s)
     else kv_push (kv_stack s ! unat n) s)"

definition op_roll :: "unit kaspa_prog" where
  "op_roll = bindM kv_pop_num (\<lambda>n s. if unat n \<ge> length (kv_stack s) then (Err StackUnderflow, s)
     else kv_push (kv_stack s ! unat n)
            (s\<lparr>kv_stack := take (unat n) (kv_stack s) @ drop (Suc (unat n)) (kv_stack s)\<rparr>))"

definition op_depth :: "unit kaspa_prog" where
  "op_depth = (\<lambda>s. kv_push_num (word_of_nat (length (kv_stack s))) s)"

definition op_if_dup :: "unit kaspa_prog" where
  "op_if_dup = (\<lambda>s. case kv_stack s of [] \<Rightarrow> (Ok (), s) | e # es \<Rightarrow> whenM (is_true e) (kv_push e) s)"

subsection \<open>Bytes\<close>

definition op_cat :: "unit kaspa_prog" where
  "op_cat = bindM kv_pop (\<lambda>b. bindM kv_pop (\<lambda>a.
     if length (a @ b) > MAX_ELEMENT_SIZE then fail (ExecutionError ''Element size exceeded'') else kv_push (a @ b)))"

text \<open>\<open>begin + size\<close> wraps; a range that passes the check after wrapping panics in the slice.\<close>

definition op_sub_str :: "unit kaspa_prog" where
  "op_sub_str = bindM kv_pop_num (\<lambda>size. bindM kv_pop_num (\<lambda>start. bindM kv_pop (\<lambda>e.
     if unat (start + size) > length e then fail (ExecutionError ''Substring out of range'')
     else if start > start + size then panic
     else kv_push (take (unat (start + size) - unat start) (drop (unat start) e)))))"

definition op_left :: "unit kaspa_prog" where
  "op_left = bindM kv_pop_num (\<lambda>size. bindM kv_pop (\<lambda>e.
     if unat size > length e then fail (ExecutionError ''Left size out of range'') else kv_push (take (unat size) e)))"

definition op_right :: "unit kaspa_prog" where
  "op_right = bindM kv_pop_num (\<lambda>size. bindM kv_pop (\<lambda>e.
     if unat size > length e then fail (ExecutionError ''Right size out of range'')
     else kv_push (drop (length e - unat size) e)))"

definition op_size :: "unit kaspa_prog" where
  "op_size = bindM kv_last (\<lambda>e. kv_push_num (word_of_nat (length e)))"

definition op_invert :: "unit kaspa_prog" where
  "op_invert = bindM kv_pop (\<lambda>e. kv_push (map NOT e))"

definition op_bitwise :: "(u8 \<Rightarrow> u8 \<Rightarrow> u8) \<Rightarrow> unit kaspa_prog" where
  "op_bitwise f = bindM kv_pop (\<lambda>b. bindM kv_pop (\<lambda>a. kv_push (map2 f a b)))"

definition op_equal :: "unit kaspa_prog" where
  "op_equal = bindM kv_pop (\<lambda>b. bindM kv_pop (\<lambda>a. kv_push (script_bool (a = b))))"

definition op_equal_verify :: "unit kaspa_prog" where
  "op_equal_verify = bindM kv_pop (\<lambda>b. bindM kv_pop (\<lambda>a.
     if a \<noteq> b then fail (ExecutionError ''OP_EQUALVERIFY failed'') else ret ()))"

subsection \<open>Arithmetic\<close>

definition op_unary :: "(i64 \<Rightarrow> i64) \<Rightarrow> unit kaspa_prog" where
  "op_unary f = bindM kv_pop_num (\<lambda>a. kv_push_num (f a))"

definition op_binary :: "(i64 \<Rightarrow> i64 \<Rightarrow> i64) \<Rightarrow> unit kaspa_prog" where
  "op_binary f = bindM kv_pop_num (\<lambda>b. bindM kv_pop_num (\<lambda>a. kv_push_num (f a b)))"

definition op_compare :: "(i64 \<Rightarrow> i64 \<Rightarrow> bool) \<Rightarrow> unit kaspa_prog" where
  "op_compare p = bindM kv_pop_num (\<lambda>b. bindM kv_pop_num (\<lambda>a. kv_push (script_bool (p a b))))"

text \<open>Division truncates; the one quotient that does not fit panics in every profile.\<close>

definition op_int_divide :: "string \<Rightarrow> (int \<Rightarrow> int \<Rightarrow> int) \<Rightarrow> unit kaspa_prog" where
  "op_int_divide text f = bindM kv_pop_num (\<lambda>b. bindM kv_pop_num (\<lambda>a.
     if b = 0 then fail (ExecutionError text)
     else if a = I64_MIN \<and> b = - 1 then panic
     else kv_push_num (word_of_int (f (sint a) (sint b)))))"

definition i64_shift_left :: "i64 \<Rightarrow> i64 \<Rightarrow> i64" where
  "i64_shift_left a b = push_bit (unat b mod 64) a"

definition i64_shift_right :: "i64 \<Rightarrow> i64 \<Rightarrow> i64" where
  "i64_shift_right a b = signed_drop_bit (unat b mod 64) a"

definition op_bool_not :: "unit kaspa_prog" where
  "op_bool_not = bindM kv_pop (\<lambda>a. kv_push (script_bool (\<not> is_true a)))"

definition op_0_not_equal :: "unit kaspa_prog" where
  "op_0_not_equal = bindM kv_pop_num (\<lambda>a. kv_push (script_bool (a \<noteq> 0)))"

definition op_bool :: "(bool \<Rightarrow> bool \<Rightarrow> bool) \<Rightarrow> unit kaspa_prog" where
  "op_bool p = bindM kv_pop (\<lambda>b. bindM kv_pop (\<lambda>a. kv_push (script_bool (p (is_true a) (is_true b)))))"

definition op_num_equal_verify :: "unit kaspa_prog" where
  "op_num_equal_verify = bindM kv_pop_num (\<lambda>b. bindM kv_pop_num (\<lambda>a.
     if a \<noteq> b then fail (ExecutionError ''OP_NUMEQUALVERIFY failed'') else ret ()))"

definition op_within :: "unit kaspa_prog" where
  "op_within = bindM kv_pop_num (\<lambda>hi. bindM kv_pop_num (\<lambda>lo. bindM kv_pop_num (\<lambda>x.
     kv_push (script_bool (lo \<le>s x \<and> x <s hi)))))"

subsection \<open>Hashes and signatures\<close>

definition kv_hash_words :: "bytes \<Rightarrow> u64" where
  "kv_hash_words data = GAS_SHA3_WORD * ((word_of_nat (length data) + 31) div 32)"

definition kv_hash :: "(bytes \<Rightarrow> bytes) \<Rightarrow> unit kaspa_prog" where
  "kv_hash h = thenM (kv_charge GAS_SHA3_BASE) (bindM kv_pop (\<lambda>data.
     thenM (kv_charge (kv_hash_words data)) (kv_push (h data))))"

definition op_hash160 :: "kaspa_lib \<Rightarrow> unit kaspa_prog" where
  "op_hash160 L = thenM (kv_charge GAS_SHA3_BASE) (bindM kv_pop (\<lambda>data. kv_push (take 20 (kl_sha256 L data))))"

definition op_code_separator :: "unit kaspa_prog" where
  "op_code_separator = modify (\<lambda>s. s\<lparr>kv_code_sep_pos := kv_pc s\<rparr>)"

definition kaspa_verify_signature :: "bytes \<Rightarrow> bytes \<Rightarrow> bool" where
  "kaspa_verify_signature sig pubkey = True"

definition kaspa_verify_multisig :: "bytes list \<Rightarrow> bytes list \<Rightarrow> bool" where
  "kaspa_verify_multisig sigs pubkeys \<longleftrightarrow> length sigs \<le> length pubkeys"

definition kv_check_sig :: "bool kaspa_prog" where
  "kv_check_sig = bindM kv_pop (\<lambda>pubkey. bindM kv_pop (\<lambda>sig. ret (kaspa_verify_signature sig pubkey)))"

definition op_check_sig :: "unit kaspa_prog" where
  "op_check_sig = bindM kv_check_sig (\<lambda>valid. kv_push (script_bool valid))"

definition op_check_sig_verify :: "unit kaspa_prog" where
  "op_check_sig_verify = bindM kv_check_sig (\<lambda>valid.
     if valid then ret () else fail (ExecutionError ''Signature verification failed''))"

text \<open>The key count, the keys, the signature count, the signatures and one unused element.\<close>

definition kv_check_multisig :: "bool kaspa_prog" where
  "kv_check_multisig =
     bindM kv_pop_num (\<lambda>n. bindM (kv_pop_many (unat n)) (\<lambda>pubkeys.
     bindM kv_pop_num (\<lambda>m. bindM (kv_pop_many (unat m)) (\<lambda>sigs.
     bindM kv_pop (\<lambda>_. ret (kaspa_verify_multisig sigs pubkeys))))))"

definition op_check_multisig :: "unit kaspa_prog" where
  "op_check_multisig = bindM kv_check_multisig (\<lambda>valid. kv_push (script_bool valid))"

definition op_check_multisig_verify :: "unit kaspa_prog" where
  "op_check_multisig_verify = bindM kv_check_multisig (\<lambda>valid.
     if valid then ret () else fail (ExecutionError ''MultiSig verification failed''))"

subsection \<open>Time locks, the transaction and the contract state\<close>

definition op_check_lock_time :: "unit kaspa_prog" where
  "op_check_lock_time = bindM kv_last (\<lambda>e. bindM (lift_out (to_i64 e)) (\<lambda>lock_time.
     if lock_time <s 0 then fail (ExecutionError ''Negative locktime'')
     else bindM (gets kv_tx) (\<lambda>tx.
       if ucast (stc_lock_time tx) <s lock_time then fail (ExecutionError ''Locktime not satisfied'') else ret ())))"

definition op_check_sequence :: "unit kaspa_prog" where
  "op_check_sequence = bindM kv_last (\<lambda>e. bindM (lift_out (to_i64 e)) (\<lambda>sequence.
     if sequence <s 0 then fail (ExecutionError ''Negative sequence'')
     else bindM (gets kv_tx) (\<lambda>tx.
       if unat (stc_current_input_index tx) < length (stc_inputs tx)
         \<and> ucast (sti_sequence (stc_inputs tx ! unat (stc_current_input_index tx))) <s sequence
       then fail (ExecutionError ''Sequence not satisfied'') else ret ())))"

definition op_tx_number :: "(script_tx_context \<Rightarrow> i64) \<Rightarrow> unit kaspa_prog" where
  "op_tx_number f = bindM (gets kv_tx) (\<lambda>tx. kv_push_num (f tx))"

definition op_tx_entry :: "(script_tx_context \<Rightarrow> 'a list) \<Rightarrow> ('a \<Rightarrow> script_element) \<Rightarrow> unit kaspa_prog" where
  "op_tx_entry entries f = bindM kv_pop_num (\<lambda>idx. bindM (gets kv_tx) (\<lambda>tx.
     kv_push (if unat idx < length (entries tx) then f (entries tx ! unat idx) else script_empty)))"

definition op_state_get :: "unit kaspa_prog" where
  "op_state_get = thenM (kv_charge GAS_SLOAD) (bindM kv_pop (\<lambda>key. bindM (gets kv_state) (\<lambda>st.
     kv_push (case map_of st key of None \<Rightarrow> [] | Some v \<Rightarrow> v))))"

definition op_state_put :: "unit kaspa_prog" where
  "op_state_put = thenM (kv_charge GAS_SSTORE_SET) (bindM kv_pop (\<lambda>v. bindM kv_pop (\<lambda>key.
     modify (\<lambda>s. s\<lparr>kv_state := AList.update key v (kv_state s)\<rparr>))))"

definition op_state_delete :: "unit kaspa_prog" where
  "op_state_delete = thenM (kv_charge GAS_SSTORE_RESET) (bindM kv_pop (\<lambda>key.
     modify (\<lambda>s. s\<lparr>kv_state := AList.delete key (kv_state s)\<rparr>)))"

definition op_emit_event :: "kaspa_lib \<Rightarrow> unit kaspa_prog" where
  "op_emit_event L = thenM (kv_charge GAS_LOG) (bindM kv_pop (\<lambda>data. bindM kv_pop (\<lambda>topic.
     thenM (kv_charge (GAS_LOG_DATA * word_of_nat (length data)))
       (modify (\<lambda>s. s\<lparr>kv_logs := kv_logs s @ [\<lparr>vl_address = ec_address (kv_context s),
          vl_topics = [hash_from_slice (kl_sha3_256 L topic)], vl_data = data\<rparr>]\<rparr>)))))"

subsection \<open>The machine\<close>

text \<open>The operations that only act when the current branch is executed, by opcode; \<open>b\<close> is
  the byte that was read.\<close>

definition kaspa_op :: "kaspa_lib \<Rightarrow> u8 \<Rightarrow> u8 \<Rightarrow> unit kaspa_prog" where
  "kaspa_op L op b =
     (if op = 0x00 then kv_push script_empty
      else if op = 0x4f then kv_push_num (- 1)
      else if 0x51 \<le> op \<and> op \<le> 0x60 then kv_push_num (ucast (op - 0x50))
      else if op = 0x69 then op_verify
      else if op = 0x6a then fail (ExecutionError ''OP_RETURN encountered'')
      else if op = 0x6b then op_to_alt_stack
      else if op = 0x6c then op_from_alt_stack
      else if op = 0x6d then thenM kv_pop (thenM kv_pop (ret ()))
      else if op = 0x6e then kv_copy 2
      else if op = 0x6f then kv_copy 3
      else if op = 0x73 then op_if_dup
      else if op = 0x74 then op_depth
      else if op = 0x75 then thenM kv_pop (ret ())
      else if op = 0x76 then bindM kv_last kv_push
      else if op = 0x77 then kv_rearrange 2 stack_nip
      else if op = 0x78 then op_over
      else if op = 0x79 then op_pick
      else if op = 0x7a then op_roll
      else if op = 0x7b then kv_rearrange 3 stack_rot
      else if op = 0x7c then kv_rearrange 2 stack_swap
      else if op = 0x7d then kv_rearrange 2 stack_tuck
      else if op = 0x7e then op_cat
      else if op = 0x7f then op_sub_str
      else if op = 0x80 then op_left
      else if op = 0x81 then op_right
      else if op = 0x82 then op_size
      else if op = 0x83 then op_invert
      else if op = 0x84 then op_bitwise (AND)
      else if op = 0x85 then op_bitwise (OR)
      else if op = 0x86 then op_bitwise (XOR)
      else if op = 0x87 then op_equal
      else if op = 0x88 then op_equal_verify
      else if op = 0x8b then op_unary (\<lambda>a. a + 1)
      else if op = 0x8c then op_unary (\<lambda>a. a - 1)
      else if op = 0x8f then op_unary (\<lambda>a. - a)
      else if op = 0x90 then op_unary i64_abs
      else if op = 0x91 then op_bool_not
      else if op = 0x92 then op_0_not_equal
      else if op = 0x93 then op_binary (+)
      else if op = 0x94 then op_binary (-)
      else if op = 0x95 then op_binary (*)
      else if op = 0x96 then op_int_divide ''Division by zero'' (sdiv)
      else if op = 0x97 then op_int_divide ''Modulo by zero'' (smod)
      else if op = 0x98 then op_binary i64_shift_left
      else if op = 0x99 then op_binary i64_shift_right
      else if op = 0x9a then op_bool (\<and>)
      else if op = 0x9b then op_bool (\<or>)
      else if op = 0x9c then op_compare (=)
      else if op = 0x9d then op_num_equal_verify
      else if op = 0x9e then op_compare (\<noteq>)
      else if op = 0x9f then op_compare (\<lambda>a b. a <s b)
      else if op = 0xa0 then op_compare (\<lambda>a b. b <s a)
      else if op = 0xa1 then op_compare (\<lambda>a b. a \<le>s b)
      else if op = 0xa2 then op_compare (\<lambda>a b. b \<le>s a)
      else if op = 0xa3 then op_binary (\<lambda>a b. if a \<le>s b then a else b)
      else if op = 0xa4 then op_binary (\<lambda>a b. if a \<le>s b then b else a)
      else if op = 0xa5 then op_within
      else if op = 0xa8 then kv_hash (kl_sha256 L)
      else if op = 0xa9 then op_hash160 L
      else if op = 0xaa then kv_hash (\<lambda>data. kl_sha256 L (kl_sha256 L data))
      else if op = 0xab then op_code_separator
      else if op = 0xac then op_check_sig
      else if op = 0xad then op_check_sig_verify
      else if op = 0xae then op_check_multisig
      else if op = 0xaf then op_check_multisig_verify
      else if op = 0xb1 then op_check_lock_time
      else if op = 0xb2 then op_check_sequence
      else if op = 0xc0 then op_tx_number stc_current_input_index
      else if op = 0xc1 then op_tx_entry stc_outputs sto_script_pubkey
      else if op = 0xc2 then op_tx_entry stc_inputs sti_script_sig
      else if op = 0xc3 then op_tx_entry stc_outputs (\<lambda>out. from_i64 (sto_value out))
      else if op = 0xc4 then op_tx_entry stc_inputs (\<lambda>inp. from_i64 (sti_value inp))
      else if op = 0xc5 then op_tx_number (\<lambda>tx. word_of_nat (length (stc_outputs tx)))
      else if op = 0xc6 then op_tx_number (\<lambda>tx. word_of_nat (length (stc_inputs tx)))
      else if op = 0xc7 then op_tx_number (\<lambda>tx. ucast (stc_version tx))
      else if op = 0xc8 then op_tx_number (\<lambda>tx. ucast (stc_lock_time tx))
      else if op = 0xd0 then op_state_get
      else if op = 0xd1 then op_state_put
      else if op = 0xd2 then op_state_delete
      else if op = 0xd3 then op_emit_event L
      else fail (InvalidOpcode b))"

definition kaspa_perform :: "kaspa_lib \<Rightarrow> bool \<times> u8 \<Rightarrow> unit kaspa_prog" where
  "kaspa_perform L = (\<lambda>(executing, b).
     if 0x01 \<le> b \<and> b \<le> 0x4b then op_push_bytes (unat b) executing
     else let op = kaspa_from_byte b in
       if op = 0x4c then op_push_data 1 executing
       else if op = 0x4d then op_push_data 2 executing
       else if op = 0x4e then op_push_data 4 executing
       else if op = 0x61 \<or> op = 0xb0 \<or> (0xb3 \<le> op \<and> op \<le> 0xb9) then ret ()
       else if op = 0x63 then op_if False executing
       else if op = 0x64 then op_if True executing
       else if op = 0x67 then op_else
       else if op = 0x68 then op_endif
       else whenM executing (kaspa_op L op b))"

text \<open>The opcode, whether it is executed, its base price and its count.\<close>

definition kaspa_read :: "(bool \<times> u8) kaspa_prog" where
  "kaspa_read = (\<lambda>s. (Ok (list_all id (kv_exec s), kv_script s ! kv_pc s), s\<lparr>kv_pc := kv_pc s + 1\<rparr>))"

definition kaspa_count :: "unit kaspa_prog" where
  "kaspa_count = (\<lambda>s. let s' = s\<lparr>kv_op_count := kv_op_count s + 1\<rparr> in
     if kv_op_count s' > MAX_OPS_PER_SCRIPT then (Err (ExecutionError ''Script opcode count exceeded''), s') else (Ok (), s'))"

definition kaspa_fetch :: "(bool \<times> u8) kaspa_prog" where
  "kaspa_fetch = bindM kaspa_read (\<lambda>x. thenM (kv_charge GAS_BASE) (thenM kaspa_count (ret x)))"

definition kaspa_halted :: "kaspa_vm \<Rightarrow> bool" where
  "kaspa_halted s \<longleftrightarrow> kv_pc s \<ge> length (kv_script s)"

definition kaspa_step :: "kaspa_lib \<Rightarrow> bool kaspa_prog" where
  "kaspa_step L = (\<lambda>s. if kaspa_halted s then (Ok True, s)
     else thenM (bindM kaspa_fetch (kaspa_perform L)) (ret True) s)"

text \<open>\<open>execute_script\<close>: the script and the counter of the caller come back, also after an error.\<close>

definition execute_script :: "kaspa_lib \<Rightarrow> bytes \<Rightarrow> kaspa_vm \<Rightarrow> ((vm_error, unit) outcome \<times> kaspa_vm) option" where
  "execute_script L script s =
     map_option (\<lambda>(r, s'). (r, s'\<lparr>kv_script := kv_script s, kv_pc := kv_pc s\<rparr>))
       (vm_loop kaspa_halted (kaspa_step L) (s\<lparr>kv_script := script, kv_pc := 0\<rparr>))"

definition kaspa_result :: "kaspa_vm \<Rightarrow> vm_result" where
  "kaspa_result s =
     (let data = (case kv_stack s of [] \<Rightarrow> [] | e # es \<Rightarrow> e);
          result = (if is_true data then vm_success (gm_used (kv_gas s)) data
                    else vm_failure (gm_used (kv_gas s)) ''Script failed: false on stack'')
      in result\<lparr>vr_logs := kv_logs s, vr_state_changes := kv_changes s\<rparr>)"

definition kaspa_failed :: "kaspa_vm \<Rightarrow> vm_error \<Rightarrow> vm_result" where
  "kaspa_failed s e = vm_failure (gm_used (kv_gas s)) (vm_error_text e)"

definition kaspa_main :: "kaspa_lib \<Rightarrow> kaspa_vm \<Rightarrow> ((vm_error, vm_result) outcome \<times> kaspa_vm) option" where
  "kaspa_main L s =
     (case execute_script L (kv_script s) s of
        None \<Rightarrow> None
      | Some (Ok _, s') \<Rightarrow> Some (Ok (kaspa_result s'), s')
      | Some (Err e, s') \<Rightarrow> Some (Ok (kaspa_failed s' e), s')
      | Some (Panic, s') \<Rightarrow> Some (Panic, s'))"

definition kaspa_execute :: "kaspa_lib \<Rightarrow> bytes \<Rightarrow> bytes \<Rightarrow> kaspa_vm \<Rightarrow> ((vm_error, vm_result) outcome \<times> kaspa_vm) option" where
  "kaspa_execute L bytecode input s =
     (if length bytecode < 4 \<or> take 4 bytecode \<noteq> KASPA_MAGIC
      then Some (Ok (vm_failure 0 ''Invalid Kaspa bytecode magic''), s)
      else if length bytecode > MAX_SCRIPT_SIZE + 4
      then Some (Ok (vm_failure 0 ''Script size exceeds maximum''), s)
      else let s1 = s\<lparr>kv_script := drop 4 bytecode, kv_pc := 0\<rparr> in
        if input = [] then kaspa_main L s1
        else (case execute_script L input s1 of
            None \<Rightarrow> None
          | Some (Ok _, s2) \<Rightarrow> kaspa_main L s2
          | Some (Err e, s2) \<Rightarrow> Some (Ok (kaspa_failed s2 e), s2)
          | Some (Panic, s2) \<Rightarrow> Some (Panic, s2)))"

subsection \<open>What an operation keeps\<close>

definition small_elements :: "kaspa_vm \<Rightarrow> bool" where
  "small_elements s \<longleftrightarrow> (\<forall>e \<in> set (kv_stack s) \<union> set (kv_alt_stack s). length e \<le> MAX_ELEMENT_SIZE)"

definition kaspa_frame :: "kaspa_vm \<Rightarrow> kaspa_vm \<Rightarrow> bool" where
  "kaspa_frame s t \<longleftrightarrow> meter_le (kv_gas s) (kv_gas t) \<and> kv_op_count t = kv_op_count s
     \<and> kv_script t = kv_script s \<and> kv_context t = kv_context s \<and> kv_tx t = kv_tx s \<and> kv_changes t = kv_changes s
     \<and> (small_elements s \<longrightarrow> small_elements t)"

interpretation kf: step_frame kaspa_frame
  by unfold_locales (auto simp: kaspa_frame_def intro: meter_le_trans)

lemma kaspa_frame_modify:
  "(\<And>s. kv_gas (f s) = kv_gas s \<and> kv_op_count (f s) = kv_op_count s \<and> kv_script (f s) = kv_script s
     \<and> kv_context (f s) = kv_context s \<and> kv_tx (f s) = kv_tx s \<and> kv_changes (f s) = kv_changes s
     \<and> kv_stack (f s) = kv_stack s \<and> kv_alt_stack (f s) = kv_alt_stack s) \<Longrightarrow> keeps kaspa_frame (modify f)"
  by (rule keeps_modify) (simp add: kaspa_frame_def small_elements_def)

lemma kaspa_frame_charge: "keeps kaspa_frame (kv_charge g)"
  by (auto simp: keeps_def kaspa_frame_def kv_charge_def small_elements_def dest: consume_forward split: prod.splits)

lemma kaspa_frame_stack:
  "keeps kaspa_frame (kv_push e)" "keeps kaspa_frame kv_pop" "keeps kaspa_frame kv_last"
  "keeps kaspa_frame op_to_alt_stack" "keeps kaspa_frame op_from_alt_stack"
  by (auto simp: keeps_def kaspa_frame_def small_elements_def kv_push_def kv_pop_def kv_last_def op_to_alt_stack_def
      op_from_alt_stack_def outcome_simps split: list.splits)

lemma kaspa_frame_apply: "(\<And>s. \<exists>m. f s = m s \<and> keeps kaspa_frame m) \<Longrightarrow> keeps kaspa_frame f"
  by (simp add: keeps_def) metis

lemma kaspa_frame_push_all: "keeps kaspa_frame (kv_push_all es)"
  by (induction es) (auto intro: kf.frame_rules kaspa_frame_stack)

lemma kaspa_frame_pop_many: "keeps kaspa_frame (kv_pop_many n)"
  by (induction n) (auto intro!: kf.frame_rules kaspa_frame_stack)

lemma kaspa_frame_rearrange: "(\<And>st. set (f st) \<subseteq> set st) \<Longrightarrow> keeps kaspa_frame (kv_rearrange n f)"
  by (fastforce simp: keeps_def kaspa_frame_def small_elements_def kv_rearrange_def)

lemma stack_changes_subset: "set (stack_nip st) \<subseteq> set st" "set (stack_rot st) \<subseteq> set st"
  "set (stack_swap st) \<subseteq> set st" "set (stack_tuck st) \<subseteq> set st"
  by (auto simp: stack_nip_def stack_rot_def stack_swap_def stack_tuck_def split: list.splits)

text \<open>An operation that looks at the state and goes on with one that keeps the frame, perhaps
  after dropping an element.\<close>

lemma kaspa_frame_error: "kaspa_frame s s"
  by (simp add: kaspa_frame_def)

lemma kaspa_frame_roll: "keeps kaspa_frame op_roll"
proof -
  have "kaspa_frame s (s\<lparr>kv_stack := take n (kv_stack s) @ drop (Suc n) (kv_stack s)\<rparr>)" for s n
    by (auto simp: kaspa_frame_def small_elements_def dest: in_set_takeD in_set_dropD)
  then have "kaspa_frame s (snd (kv_push e (s\<lparr>kv_stack := take n (kv_stack s) @ drop (Suc n) (kv_stack s)\<rparr>)))" for s n e
    using keepsE [OF kaspa_frame_stack(1)] kf.R_trans by metis
  then show ?thesis
    unfolding op_roll_def kv_pop_num_def
    by (intro kf.keeps_bindM kaspa_frame_stack kf.keeps_lift_out) (simp add: keeps_def kaspa_frame_error)
qed

lemma kaspa_frame_push_state:
  "kaspa_frame s (snd (kv_push e s))" "kaspa_frame s (snd (kv_push_all es s))"
  by (rule keepsE, rule kaspa_frame_stack, rule keepsE, rule kaspa_frame_push_all)

lemma kaspa_frame_exec: "kaspa_frame s (s\<lparr>kv_exec := c\<rparr>)"
  by (simp add: kaspa_frame_def small_elements_def)

lemma kaspa_frame_look:
  "keeps kaspa_frame (kv_push_data n)" "keeps kaspa_frame (kv_copy n)" "keeps kaspa_frame op_over"
  "keeps kaspa_frame op_depth" "keeps kaspa_frame op_if_dup" "keeps kaspa_frame op_else" "keeps kaspa_frame op_endif"
  by (auto simp: keeps_def kv_push_data_def kv_copy_def op_over_def op_depth_def op_if_dup_def kv_push_num_def op_else_def
      op_endif_def whenM_def ret_def kaspa_frame_error kaspa_frame_push_state
      kaspa_frame_exec split: list.splits)

lemma kaspa_frame_pick: "keeps kaspa_frame op_pick"
  unfolding op_pick_def kv_pop_num_def
  by (intro kf.keeps_bindM kaspa_frame_stack kf.keeps_lift_out)
    (simp add: keeps_def kaspa_frame_error kaspa_frame_push_state)

lemmas kaspa_op_defs = op_verify_def op_cat_def op_sub_str_def op_left_def op_right_def op_size_def op_invert_def
  op_bitwise_def op_equal_def op_equal_verify_def op_unary_def op_binary_def op_compare_def op_int_divide_def op_bool_not_def
  op_0_not_equal_def op_bool_def op_num_equal_verify_def op_within_def kv_hash_def op_hash160_def op_code_separator_def
  kv_check_sig_def op_check_sig_def op_check_sig_verify_def kv_check_multisig_def op_check_multisig_def
  op_check_multisig_verify_def op_check_lock_time_def op_check_sequence_def op_tx_number_def op_tx_entry_def
  op_state_get_def op_state_put_def op_state_delete_def op_emit_event_def kv_pop_num_def kv_push_num_def

lemmas kaspa_frame_intros = kf.frame_rules kaspa_frame_charge kaspa_frame_stack kaspa_frame_pop_many kaspa_frame_look
  kaspa_frame_roll kaspa_frame_pick kaspa_frame_rearrange stack_changes_subset

lemma kaspa_frame_ops:
  "keeps kaspa_frame (kv_push_num n)" "keeps kaspa_frame op_verify" "keeps kaspa_frame op_cat"
  "keeps kaspa_frame op_sub_str" "keeps kaspa_frame op_left" "keeps kaspa_frame op_right" "keeps kaspa_frame op_size"
  "keeps kaspa_frame op_invert" "keeps kaspa_frame (op_bitwise f8)" "keeps kaspa_frame op_equal"
  "keeps kaspa_frame op_equal_verify" "keeps kaspa_frame (op_unary f1)" "keeps kaspa_frame (op_binary f2)"
  "keeps kaspa_frame (op_compare p2)" "keeps kaspa_frame (op_int_divide text fi)" "keeps kaspa_frame op_bool_not"
  "keeps kaspa_frame op_0_not_equal" "keeps kaspa_frame (op_bool pb)" "keeps kaspa_frame op_num_equal_verify"
  "keeps kaspa_frame op_within" "keeps kaspa_frame (kv_hash h)" "keeps kaspa_frame (op_hash160 L)"
  "keeps kaspa_frame op_check_sig" "keeps kaspa_frame op_check_sig_verify" "keeps kaspa_frame op_check_multisig"
  "keeps kaspa_frame op_check_multisig_verify" "keeps kaspa_frame op_check_lock_time"
  "keeps kaspa_frame op_check_sequence" "keeps kaspa_frame (op_tx_number ft)" "keeps kaspa_frame (op_tx_entry es fe)"
  "keeps kaspa_frame op_state_get"
  unfolding kaspa_op_defs by (intro kaspa_frame_intros; simp)+

lemma kaspa_frame_state:
  "keeps kaspa_frame op_code_separator" "keeps kaspa_frame op_state_put" "keeps kaspa_frame op_state_delete"
  "keeps kaspa_frame (op_emit_event L)" "keeps kaspa_frame (op_if neg executing)" "keeps kaspa_frame (kv_advance n)"
  unfolding kaspa_op_defs op_if_def kv_advance_def by (intro kaspa_frame_intros kaspa_frame_modify; simp)+

lemma kaspa_frame_op: "keeps kaspa_frame (kaspa_op L op b)"
  unfolding kaspa_op_def
  by (intro kf.keeps_ite kaspa_frame_intros kaspa_frame_ops kaspa_frame_state)

lemma kaspa_frame_push:
  "keeps kaspa_frame (op_push_bytes n executing)" "keeps kaspa_frame (op_push_data n executing)"
proof -
  show 1: "keeps kaspa_frame (op_push_bytes n executing)" for n
    unfolding op_push_bytes_def by (intro kaspa_frame_intros kaspa_frame_state)
  have "keeps kaspa_frame (thenM (kv_advance n) (thenM (whenM executing (kv_push_data len)) (kv_advance len)))" for len
    by (intro kaspa_frame_intros kaspa_frame_state)
  then show "keeps kaspa_frame (op_push_data n executing)"
    by (simp add: keeps_def op_push_data_def Let_def kaspa_frame_error)
qed

lemma kaspa_frame_perform: "keeps kaspa_frame (kaspa_perform L x)"
  unfolding kaspa_perform_def Let_def
  by (cases x) (simp only: prod.case, intro kf.keeps_ite kaspa_frame_intros kaspa_frame_push kaspa_frame_state kaspa_frame_op)

subsection \<open>The size of the stacks\<close>

definition stack_size :: "kaspa_vm \<Rightarrow> nat" where
  "stack_size s = length (kv_stack s) + length (kv_alt_stack s)"

definition grows :: "nat \<Rightarrow> 'a kaspa_prog \<Rightarrow> bool" where
  "grows k m \<longleftrightarrow> (\<forall>s. stack_size (snd (m s)) \<le> stack_size s + k)"

lemma grows_mono: "grows j m \<Longrightarrow> j \<le> k \<Longrightarrow> grows k m"
  unfolding grows_def by (meson add_left_mono order_trans)

lemma grows_bind_add: "grows j m \<Longrightarrow> (\<And>x. grows k (f x)) \<Longrightarrow> grows (j + k) (bindM m f)"
  unfolding grows_def
proof (intro allI)
  fix s
  assume m: "\<forall>s. stack_size (snd (m s)) \<le> stack_size s + j" and f: "\<And>x. \<forall>s. stack_size (snd (f x s)) \<le> stack_size s + k"
  have m': "stack_size (snd (m s)) \<le> stack_size s + j" using m by blast
  have "stack_size (snd (f x (snd (m s)))) \<le> stack_size (snd (m s)) + k" for x using f by blast
  with m' have "stack_size (snd (f x (snd (m s)))) \<le> stack_size s + (j + k)" for x
    by (metis add.assoc add_le_mono1 order_trans)
  with m' show "stack_size (snd (bindM m f s)) \<le> stack_size s + (j + k)"
    by (auto simp: bindM_apply split: outcome.splits)
qed

lemma grows_bindM: "grows 0 m \<Longrightarrow> (\<And>x. grows k (f x)) \<Longrightarrow> grows k (bindM m f)"
  using grows_bind_add [of 0 m k f] by simp

lemma grows_thenM: "grows 0 m \<Longrightarrow> grows k m' \<Longrightarrow> grows k (thenM m m')"
  by (simp add: thenM_def grows_bindM)

lemma grows_ite: "grows k m \<Longrightarrow> grows k m' \<Longrightarrow> grows k (if b then m else m')"
  by simp

lemma grows_whenM: "grows k m \<Longrightarrow> grows k (whenM b m)"
  by (simp add: grows_def whenM_def ret_def)

lemma grows_modify: "(\<And>s. stack_size (f s) = stack_size s) \<Longrightarrow> grows k (modify f)"
  by (simp add: grows_def modify_def)

lemma grows_basic:
  "grows k (ret x)" "grows k (fail e)" "grows k panic" "grows k (gets g)" "grows k (lift_out r)"
  "grows k (kv_charge c)" "grows k kv_pop" "grows k kv_last" "grows k op_else" "grows k op_endif" "grows k op_to_alt_stack"
  by (auto simp: grows_def outcome_simps kv_charge_def kv_pop_def kv_last_def op_else_def op_endif_def op_to_alt_stack_def
      stack_size_def split: prod.splits list.splits)

lemma grows_push: "1 \<le> k \<Longrightarrow> grows k (kv_push e)"
  by (auto simp: grows_def kv_push_def stack_size_def)

lemma grows_push_state [simp]: "stack_size (snd (kv_push e s)) \<le> Suc (stack_size s + k)"
  using grows_push [of 1 e] by (simp add: grows_def trans_le_add1 flip: add_Suc)

lemma grows_push_all: "grows (length es) (kv_push_all es)"
proof (induction es)
  case (Cons e es)
  have "grows (1 + length es) (kv_push_all (e # es))"
    unfolding kv_push_all.simps thenM_def by (intro grows_bind_add grows_push Cons) simp
  then show ?case by simp
qed (simp add: grows_basic)

lemma grows_pop_many: "grows k (kv_pop_many n)"
proof -
  have "grows 0 (kv_pop_many n)" by (induction n) (auto intro!: grows_bindM grows_basic)
  then show ?thesis by (rule grows_mono) simp
qed

lemma grows_copy: "n \<le> k \<Longrightarrow> grows k (kv_copy n)"
proof -
  assume "n \<le> k"
  then have "grows k (kv_push_all (rev (take n st)))" for st by (rule_tac grows_mono [OF grows_push_all]) simp
  then show ?thesis by (simp add: grows_def kv_copy_def)
qed

lemma grows_look:
  "grows (Suc k) (kv_push_data n)" "grows (Suc k) op_over" "grows (Suc k) op_depth"
  "grows (Suc k) op_if_dup"
  by (auto simp: grows_def kv_push_data_def op_over_def op_depth_def op_if_dup_def kv_push_num_def
      whenM_def ret_def split: list.splits)

lemma grows_from_alt: "grows k op_from_alt_stack"
  by (auto simp: grows_def op_from_alt_stack_def kv_push_def stack_size_def split: list.splits)

lemma grows_pick_roll: "grows (Suc k) op_pick" "grows (Suc k) op_roll"
proof -
  have "stack_size (snd (kv_push e (s\<lparr>kv_stack := take n (kv_stack s) @ drop (Suc n) (kv_stack s)\<rparr>))) \<le> Suc (stack_size s + k)"
    for e n s
    by (rule order_trans [OF grows_push_state [of _ _ k]]) (simp add: stack_size_def)
  then show "grows (Suc k) op_pick" "grows (Suc k) op_roll"
    unfolding op_pick_def op_roll_def kv_pop_num_def
    by (intro grows_bindM grows_basic; simp add: grows_def)+
qed

lemma grows_rearrange: "(\<And>st. length (f st) \<le> length st + k) \<Longrightarrow> grows k (kv_rearrange n f)"
  by (auto simp: grows_def kv_rearrange_def stack_size_def)

lemma length_stack_changes: "length (stack_nip st) \<le> length st + k" "length (stack_rot st) \<le> length st + k"
  "length (stack_swap st) \<le> length st + k" "length (stack_tuck st) \<le> length st + Suc k"
  by (auto simp: stack_nip_def stack_rot_def stack_swap_def stack_tuck_def split: list.splits)

lemma grows_ops:
  "grows (Suc k) (kv_push_num n)" "grows (Suc k) op_verify" "grows (Suc k) op_cat"
  "grows (Suc k) op_sub_str" "grows (Suc k) op_left" "grows (Suc k) op_right" "grows (Suc k) op_size"
  "grows (Suc k) op_invert" "grows (Suc k) (op_bitwise f8)" "grows (Suc k) op_equal"
  "grows (Suc k) op_equal_verify" "grows (Suc k) (op_unary f1)" "grows (Suc k) (op_binary f2)"
  "grows (Suc k) (op_compare p2)" "grows (Suc k) (op_int_divide text fi)" "grows (Suc k) op_bool_not"
  "grows (Suc k) op_0_not_equal" "grows (Suc k) (op_bool pb)" "grows (Suc k) op_num_equal_verify"
  "grows (Suc k) op_within" "grows (Suc k) (kv_hash h)" "grows (Suc k) (op_hash160 L)"
  "grows (Suc k) op_check_sig" "grows (Suc k) op_check_sig_verify" "grows (Suc k) op_check_multisig"
  "grows (Suc k) op_check_multisig_verify" "grows (Suc k) op_check_lock_time"
  "grows (Suc k) op_check_sequence" "grows (Suc k) (op_tx_number ft)" "grows (Suc k) (op_tx_entry es fe)"
  "grows (Suc k) op_state_get"
  unfolding kaspa_op_defs by (intro grows_bindM grows_thenM grows_ite grows_basic grows_pop_many grows_push; simp)+

lemma grows_state:
  "grows k op_code_separator" "grows k op_state_put" "grows k op_state_delete"
  "grows k (op_emit_event L)" "grows k (op_if neg executing)" "grows k (kv_advance n)"
  unfolding kaspa_op_defs op_if_def kv_advance_def
  by (intro grows_bindM grows_thenM grows_ite grows_basic grows_modify; simp add: stack_size_def)+

lemma grows_op: "grows (Suc (Suc (Suc 0))) (kaspa_op L op b)"
proof -
  have "grows (Suc (Suc (Suc 0))) (kv_copy 2)" "grows (Suc (Suc (Suc 0))) (kv_copy 3)" by (rule grows_copy, simp)+
  then show ?thesis
    unfolding kaspa_op_def
    by (intro grows_ite grows_basic grows_push grows_look grows_from_alt grows_pick_roll grows_rearrange length_stack_changes
        grows_ops grows_state grows_bindM grows_thenM) simp_all
qed

lemma grows_push_bytes: "grows (Suc k) (op_push_bytes n executing)" "grows (Suc k) (op_push_data n executing)"
proof -
  have "grows (Suc k + 0) (thenM (whenM executing (kv_push_data len)) (kv_advance len))" for len
    unfolding thenM_def by (intro grows_bind_add grows_whenM grows_look grows_state)
  then have 1: "grows (Suc k) (thenM (whenM executing (kv_push_data len)) (kv_advance len))" for len by simp
  then show "grows (Suc k) (op_push_bytes n executing)" by (simp add: op_push_bytes_def)
  have "grows (Suc k) (thenM (kv_advance n) (thenM (whenM executing (kv_push_data len)) (kv_advance len)))" for len
    by (intro grows_thenM grows_state 1)
  then show "grows (Suc k) (op_push_data n executing)" by (simp add: grows_def op_push_data_def Let_def)
qed

lemma grows_perform: "grows (Suc (Suc (Suc 0))) (kaspa_perform L x)"
  unfolding kaspa_perform_def Let_def
  by (cases x) (simp only: prod.case, intro grows_ite grows_whenM grows_basic grows_push_bytes grows_state grows_op)

subsection \<open>Panics\<close>

lemma to_i64_no_panic: "to_i64 e \<noteq> Panic"
  by (simp add: to_i64_def Let_def)

lemma kv_never_panics [np_intros]:
  "never_panics (kv_charge g)" "never_panics (kv_push e)" "never_panics kv_pop" "never_panics kv_last"
  "never_panics op_else" "never_panics op_endif" "never_panics (kv_rearrange n f)" "never_panics op_over"
  "never_panics op_if_dup" "never_panics op_from_alt_stack" "never_panics (kv_push_data n)" "never_panics op_depth"
  using consume_not_Panic [of g]
  by (auto simp: never_panics_def kv_charge_def kv_push_def kv_pop_def kv_last_def op_else_def op_endif_def kv_rearrange_def
      op_over_def op_if_dup_def op_from_alt_stack_def kv_push_data_def op_depth_def kv_push_num_def whenM_def ret_def
      split: list.splits prod.splits) (metis fst_conv map_err.simps outcome.distinct outcome.exhaust)

lemma kv_pop_num_never_panics [np_intros]: "never_panics kv_pop_num" "never_panics (kv_push_num n)"
  unfolding kv_pop_num_def kv_push_num_def by (intro np_intros to_i64_no_panic)+

lemma kv_many_never_panics [np_intros]: "never_panics (kv_push_all es)" "never_panics (kv_pop_many n)"
  by (induction es, simp_all add: np_intros, induction n, auto intro!: np_intros)

lemma kv_copy_never_panics [np_intros]: "never_panics (kv_copy n)"
  using kv_many_never_panics(1) by (simp add: never_panics_def kv_copy_def)

lemma kv_pick_never_panics [np_intros]: "never_panics op_pick" "never_panics op_roll"
  unfolding op_pick_def op_roll_def
  by (intro np_intros; use kv_never_panics(2) in \<open>simp add: never_panics_def\<close>)+

text \<open>The dividend comes from an element and is therefore never the least number.\<close>

lemma kv_pop_num_not_min: "kv_pop_num s = (Ok a, s') \<Longrightarrow> a \<noteq> I64_MIN"
  by (auto simp: kv_pop_num_def outcome_simps dest: to_i64_not_min split: outcome.splits)

lemma op_int_divide_never_panics [np_intros]: "never_panics (op_int_divide text f)"
proof -
  have "fst (bindM kv_pop_num (\<lambda>a. if b = 0 then fail (ExecutionError text)
     else if a = I64_MIN \<and> b = - 1 then panic else kv_push_num (word_of_int (f (sint a) (sint b)))) s) \<noteq> Panic" for b s
  proof -
    obtain r s' where p: "kv_pop_num s = (r, s')" by (cases "kv_pop_num s")
    have "r \<noteq> Panic" using kv_pop_num_never_panics(1) p by (metis fst_conv never_panics_def)
    moreover have "fst (kv_push_num n s') \<noteq> Panic" for n using kv_pop_num_never_panics(2) by (simp add: never_panics_def)
    ultimately show ?thesis using p kv_pop_num_not_min [of s] by (cases r) (auto simp: bindM_def fail_def)
  qed
  then have "never_panics (bindM kv_pop_num (\<lambda>a. if b = 0 then fail (ExecutionError text)
     else if a = I64_MIN \<and> b = - 1 then panic else kv_push_num (word_of_int (f (sint a) (sint b)))))" for b
    unfolding never_panics_def by blast
  then show ?thesis unfolding op_int_divide_def by (rule never_panics_bindM [OF kv_pop_num_never_panics(1)])
qed

lemmas kaspa_safe_defs = op_verify_def op_to_alt_stack_def op_cat_def op_left_def op_right_def op_size_def op_invert_def
  op_bitwise_def op_equal_def op_equal_verify_def op_unary_def op_binary_def op_compare_def op_bool_not_def
  op_0_not_equal_def op_bool_def op_num_equal_verify_def op_within_def kv_hash_def op_hash160_def op_code_separator_def
  kv_check_sig_def op_check_sig_def op_check_sig_verify_def kv_check_multisig_def op_check_multisig_def
  op_check_multisig_verify_def op_check_lock_time_def op_check_sequence_def op_tx_number_def op_tx_entry_def
  op_state_get_def op_state_put_def op_state_delete_def op_emit_event_def

lemma kaspa_ops_never_panic [np_intros]:
  "never_panics op_verify" "never_panics op_to_alt_stack" "never_panics op_cat" "never_panics op_left" "never_panics op_right"
  "never_panics op_size" "never_panics op_invert" "never_panics (op_bitwise f8)" "never_panics op_equal"
  "never_panics op_equal_verify" "never_panics (op_unary f1)" "never_panics (op_binary f2)" "never_panics (op_compare p2)"
  "never_panics op_bool_not" "never_panics op_0_not_equal" "never_panics (op_bool pb)" "never_panics op_num_equal_verify"
  "never_panics op_within" "never_panics (kv_hash h)" "never_panics (op_hash160 L)" "never_panics op_code_separator"
  "never_panics op_check_sig" "never_panics op_check_sig_verify" "never_panics op_check_multisig"
  "never_panics op_check_multisig_verify" "never_panics op_check_lock_time" "never_panics op_check_sequence"
  "never_panics (op_tx_number ft)" "never_panics (op_tx_entry es fe)" "never_panics op_state_get"
  "never_panics op_state_put" "never_panics op_state_delete" "never_panics (op_emit_event L)"
  unfolding kaspa_safe_defs by (intro np_intros to_i64_no_panic)+

lemma kaspa_op_never_panics: "op \<noteq> 0x7f \<Longrightarrow> never_panics (kaspa_op L op b)"
proof -
  assume "op \<noteq> 0x7f"
  then have eq: "(op = 0x7f) = False" by simp
  show ?thesis unfolding kaspa_op_def eq if_False by (intro never_panics_ite np_intros)
qed

text \<open>The arms of the reserved no-operations are never reached: \<open>from_byte\<close> makes them invalid.\<close>

lemma kaspa_from_byte_no_nop: "kaspa_from_byte b \<noteq> 0xb0" "\<not> (0xb3 \<le> kaspa_from_byte b \<and> kaspa_from_byte b \<le> 0xb9)"
proof -
  have "unat (kaspa_from_byte b) \<noteq> 0xb0 \<and> \<not> (0xb3 \<le> unat (kaspa_from_byte b) \<and> unat (kaspa_from_byte b) \<le> 0xb9)"
    by (auto simp: kaspa_from_byte_def OpInvalidOpcode_def word_le_nat_alt word_unat_eq_iff)
  then show "kaspa_from_byte b \<noteq> 0xb0" "\<not> (0xb3 \<le> kaspa_from_byte b \<and> kaspa_from_byte b \<le> 0xb9)"
    by (auto simp: word_le_nat_alt)
qed

lemma kaspa_from_byte_cases: "kaspa_from_byte b = b \<or> kaspa_from_byte b = OpInvalidOpcode"
  by (simp add: kaspa_from_byte_def)

lemma kaspa_perform_never_panics: "b \<noteq> 0x7f \<Longrightarrow> never_panics (kaspa_perform L (executing, b))"
proof -
  assume "b \<noteq> 0x7f"
  then have "kaspa_from_byte b \<noteq> 0x7f" using kaspa_from_byte_cases [of b] by (auto simp: OpInvalidOpcode_def)
  then have op: "never_panics (kaspa_op L (kaspa_from_byte b) b)" by (rule kaspa_op_never_panics)
  have tail: "never_panics (thenM (whenM executing (kv_push_data len)) (kv_advance len))" for len
    unfolding kv_advance_def by (intro np_intros)
  have "never_panics (thenM (kv_advance n) (thenM (whenM executing (kv_push_data len)) (kv_advance len)))" for n len
    unfolding kv_advance_def by (intro np_intros)
  then have "never_panics (op_push_data n executing)" for n
    by (simp add: never_panics_def op_push_data_def Let_def)
  moreover have "never_panics (op_push_bytes n executing)" for n using tail by (simp add: op_push_bytes_def)
  moreover have "never_panics (op_if neg executing)" for neg unfolding op_if_def by (intro np_intros)
  ultimately show ?thesis
    unfolding kaspa_perform_def Let_def prod.case using op
    by (intro never_panics_ite never_panics_whenM np_intros)
qed

subsection \<open>A run of the machine\<close>

text \<open>What holds between the start of a machine and any later point: the fixed parts, and the bounds
  in terms of the operations counted so far.\<close>

definition kaspa_inv :: "kaspa_vm \<Rightarrow> bool" where
  "kaspa_inv s \<longleftrightarrow> stack_size s \<le> 3 * min (kv_op_count s) MAX_OPS_PER_SCRIPT \<and> small_elements s
     \<and> gm_used (kv_gas s) \<le> gm_limit (kv_gas s) \<and> gm_limit (kv_gas s) = ec_gas_limit (kv_context s)"

lemma kaspa_fetch_result:
  assumes "kaspa_fetch s = (r, t)"
  shows "(r = Ok (list_all id (kv_exec s), kv_script s ! kv_pc s) \<and> kv_op_count s < MAX_OPS_PER_SCRIPT
        \<and> kv_op_count t = Suc (kv_op_count s) \<or> (\<exists>e. r = Err e))
    \<and> kv_op_count s \<le> kv_op_count t \<and> kv_op_count t \<le> Suc (kv_op_count s)
    \<and> kv_stack t = kv_stack s \<and> kv_alt_stack t = kv_alt_stack s \<and> kv_script t = kv_script s
    \<and> kv_context t = kv_context s \<and> meter_le (kv_gas s) (kv_gas t)"
proof -
  obtain r1 m where c: "consume GAS_BASE (kv_gas s) = (r1, m)" by (cases "consume GAS_BASE (kv_gas s)")
  have "r1 \<noteq> Panic" using consume_not_Panic [of GAS_BASE "kv_gas s"] c by simp
  moreover have "meter_le (kv_gas s) m" using consume_forward [OF c] .
  ultimately show ?thesis using assms c
    by (cases r1) (auto simp: kaspa_fetch_def kaspa_read_def kv_charge_def kaspa_count_def outcome_simps Let_def
        split: if_splits)
qed

lemma kaspa_step_inv:
  assumes "kaspa_inv s" and "\<not> kaspa_halted s" and "kaspa_step L s = (r, t)"
  shows "kaspa_inv t \<and> kv_script t = kv_script s \<and> kv_context t = kv_context s
    \<and> (r = Ok True \<longrightarrow> kv_op_count s < kv_op_count t \<and> kv_op_count t \<le> MAX_OPS_PER_SCRIPT) \<and> r \<noteq> Ok False
    \<and> (r = Panic \<longrightarrow> 0x7f \<in> set (kv_script s))"
proof -
  obtain r1 s1 where f: "kaspa_fetch s = (r1, s1)" by (cases "kaspa_fetch s")
  note F = kaspa_fetch_result [OF f]
  have le1: "meter_le (kv_gas s) (kv_gas s1)" using F by blast
  have inv1: "kaspa_inv s1"
    using assms(1) F le1 unfolding kaspa_inv_def small_elements_def stack_size_def
    by (auto simp: meter_le_def)
  show ?thesis
  proof (cases "\<exists>e. r1 = Err e")
    case True
    then obtain e where "r = Err e" "t = s1"
      using assms(2,3) f by (auto simp: kaspa_step_def thenM_def bindM_def)
    with inv1 F show ?thesis by auto
  next
    case False
    let ?x = "(list_all id (kv_exec s), kv_script s ! kv_pc s)"
    from False F have r1: "r1 = Ok ?x" and cnt: "kv_op_count s < MAX_OPS_PER_SCRIPT" "kv_op_count s1 = Suc (kv_op_count s)" by auto
    obtain r2 s2 where p: "kaspa_perform L ?x s1 = (r2, s2)" by (cases "kaspa_perform L ?x s1")
    have t: "t = s2" and r: "r = (case r2 of Ok u \<Rightarrow> Ok True | Err e \<Rightarrow> Err e | Panic \<Rightarrow> Panic)"
      using assms(2,3) f r1 p by (auto simp: kaspa_step_def thenM_def bindM_def ret_def split: outcome.splits)
    have fr: "kaspa_frame s1 s2" by (rule keepsD [OF kaspa_frame_perform p])
    have "stack_size s2 \<le> stack_size s1 + 3" using grows_perform [of L ?x] p
      unfolding grows_def by (metis numeral_3_eq_3 snd_conv)
    moreover have "stack_size s1 = stack_size s" using F by (simp add: stack_size_def)
    ultimately have inv2: "kaspa_inv s2"
      using inv1 fr cnt assms(1) unfolding kaspa_inv_def kaspa_frame_def by (auto simp: meter_le_def)
    have "r2 = Panic \<longrightarrow> kv_script s ! kv_pc s = 0x7f"
      using kaspa_perform_never_panics [of "kv_script s ! kv_pc s" L] p by (auto simp: never_panics_def) (metis fst_conv)
    with assms(2) have "r2 = Panic \<longrightarrow> 0x7f \<in> set (kv_script s)"
      by (metis kaspa_halted_def not_le nth_mem)
    with inv2 t r cnt fr F show ?thesis by (auto simp: kaspa_frame_def split: outcome.splits)
  qed
qed

text \<open>The machine's contract with its loop: every step that goes on counts one operation.\<close>

interpretation kaspa: metered_machine kaspa_halted "kaspa_step L" kaspa_inv
  "\<lambda>s. MAX_OPS_PER_SCRIPT - kv_op_count s" for L
proof (unfold_locales, goal_cases)
  case (1 s r s')
  then show ?case using kaspa_step_inv by blast
next
  case (2 s s')
  then have "kv_op_count s < kv_op_count s'" "kv_op_count s' \<le> MAX_OPS_PER_SCRIPT"
    using kaspa_step_inv [OF 2] by simp_all
  then show ?case by linarith
qed

lemma kaspa_inv_script [simp]: "kaspa_inv (s\<lparr>kv_script := c, kv_pc := n\<rparr>) = kaspa_inv s"
  by (simp add: kaspa_inv_def stack_size_def small_elements_def)

lemma execute_script_result:
  assumes "kaspa_inv s"
  shows "\<exists>r t. execute_script L script s = Some (r, t) \<and> kaspa_inv t \<and> kv_context t = kv_context s
    \<and> kv_script t = kv_script s \<and> (r = Panic \<longrightarrow> 0x7f \<in> set script)"
proof -
  let ?s = "s\<lparr>kv_script := script, kv_pc := 0\<rparr>"
  have inv: "kaspa_inv ?s" using assms by simp
  from kaspa.loop_returns [OF this] obtain r t where
    run: "vm_loop kaspa_halted (kaspa_step L) ?s = Some (r, t)" by blast
  let ?P = "\<lambda>t. kaspa_inv t \<and> kv_script t = script \<and> kv_context t = kv_context s"
  have st: "?P t'" if "?P u" "\<not> kaspa_halted u" "kaspa_step L u = (r', t')" for u r' t'
    using kaspa_step_inv [OF _ that(2,3)] that(1) by simp
  have res: "?P t \<and> (r = Ok () \<or> (\<exists>u. ?P u \<and> \<not> kaspa_halted u \<and> step_fails (kaspa_step L) u r))"
  proof (rule vm_loop_keeps [OF run, where P = ?P])
    show "?P ?s" using inv by simp
  qed (rule st)
  have "0x7f \<in> set script" if "r = Panic"
  proof -
    from res that obtain u where u: "?P u" "\<not> kaspa_halted u" "step_fails (kaspa_step L) u r" by blast
    obtain r' t' where s: "kaspa_step L u = (r', t')" by (cases "kaspa_step L u")
    with u(3) that have "r' = Panic" by (simp add: step_fails_def split: outcome.splits)
    with kaspa_step_inv [OF _ u(2) s] u(1) show ?thesis by simp
  qed
  with res run show ?thesis by (simp add: execute_script_def)
qed

lemma kaspa_inv_gas: "kaspa_inv t \<Longrightarrow> gm_used (kv_gas t) \<le> ec_gas_limit (kv_context t)"
  unfolding kaspa_inv_def by metis

lemma kaspa_result_gas: "vr_gas_used (kaspa_result s) = gm_used (kv_gas s)" "vr_gas_used (kaspa_failed s e) = gm_used (kv_gas s)"
  by (simp_all add: kaspa_result_def kaspa_failed_def Let_def)

lemma kaspa_main_result:
  assumes "kaspa_inv s"
  shows "\<exists>r t. kaspa_main L s = Some (r, t) \<and> kaspa_inv t
    \<and> (r = Panic \<and> 0x7f \<in> set (kv_script s) \<or> (\<exists>v. r = Ok v \<and> vr_gas_used v \<le> ec_gas_limit (kv_context s)))"
proof -
  from execute_script_result [OF assms] obtain r t where run: "execute_script L (kv_script s) s = Some (r, t)"
    and t: "kaspa_inv t" "kv_context t = kv_context s" "r = Panic \<longrightarrow> 0x7f \<in> set (kv_script s)" by blast
  show ?thesis
    using run t kaspa_inv_gas [OF t(1)] by (cases r) (simp_all add: kaspa_main_def kaspa_result_gas)
qed

lemma kaspa_execute_total:
  "\<exists>r s. kaspa_execute L bytecode input (kaspa_new ctx) = Some (r, s) \<and> kaspa_inv s
    \<and> (r = Panic \<and> 0x7f \<in> set bytecode \<union> set input \<or> (\<exists>v. r = Ok v \<and> vr_gas_used v \<le> ec_gas_limit ctx))"
proof -
  let ?k = "kaspa_new ctx" let ?s = "?k\<lparr>kv_script := drop 4 bytecode, kv_pc := 0\<rparr>"
  have inv: "kaspa_inv ?k"
    by (simp add: kaspa_inv_def kaspa_new_def stack_size_def small_elements_def meter_new_def)
  have main: "\<exists>r t. kaspa_main L s = Some (r, t) \<and> kaspa_inv t
      \<and> (r = Panic \<and> 0x7f \<in> set bytecode \<or> (\<exists>v. r = Ok v \<and> vr_gas_used v \<le> ec_gas_limit ctx))"
    if "kaspa_inv s" "kv_script s = drop 4 bytecode" "kv_context s = ctx" for s
    using kaspa_main_result [OF that(1), of L] that(2,3) by (auto dest: in_set_dropD)
  have ctx: "kv_context ?k = ctx" by (simp add: kaspa_new_def)
  consider (bad) "length bytecode < 4 \<or> take 4 bytecode \<noteq> KASPA_MAGIC \<or> length bytecode > MAX_SCRIPT_SIZE + 4"
    | (locked) "\<not> (length bytecode < 4 \<or> take 4 bytecode \<noteq> KASPA_MAGIC)" "\<not> length bytecode > MAX_SCRIPT_SIZE + 4" "input = []"
    | (both) "\<not> (length bytecode < 4 \<or> take 4 bytecode \<noteq> KASPA_MAGIC)" "\<not> length bytecode > MAX_SCRIPT_SIZE + 4" "input \<noteq> []"
    by blast
  then show ?thesis
  proof cases
    case bad
    then show ?thesis using inv by (auto simp: kaspa_execute_def)
  next
    case locked
    then have "kaspa_execute L bytecode input ?k = kaspa_main L ?s" by (simp add: kaspa_execute_def)
    with main [of ?s] inv ctx show ?thesis by fastforce
  next
    case both
    from execute_script_result [of ?s L input] inv obtain r t where
      run: "execute_script L input ?s = Some (r, t)" and t: "kaspa_inv t" "kv_context t = ctx" "kv_script t = drop 4 bytecode"
        "r = Panic \<longrightarrow> 0x7f \<in> set input" by (auto simp: ctx)
    have "kaspa_execute L bytecode input ?k = (case r of Ok _ \<Rightarrow> kaspa_main L t
        | Err e \<Rightarrow> Some (Ok (kaspa_failed t e), t) | Panic \<Rightarrow> Some (Panic, t))"
      using both run by (cases r) (simp_all add: kaspa_execute_def)
    with main [of t] t kaspa_inv_gas [OF t(1)] show ?thesis
      by (cases r) (fastforce simp: kaspa_result_gas)+
  qed
qed

text \<open>C23: Every Kaspa script ends and stays small. A new machine returns on every pair of a locking and an
  unlocking script, with any gas limit; the gas it reports is within the limit, the two stacks together never hold more
  than 603 elements (three for each of the 201 operations, so the limit of 1000 is never reached), no element has more than 520
  bytes, and a panic needs the byte of \<open>OpSubStr\<close> in one of the scripts.\<close>

theorem kaspa_always_returns:
  "\<exists>r s. kaspa_execute L bytecode input (kaspa_new ctx) = Some (r, s)
    \<and> (r = Panic \<and> 0x7f \<in> set bytecode \<union> set input \<or> (\<exists>v. r = Ok v \<and> vr_gas_used v \<le> ec_gas_limit ctx))
    \<and> length (kv_stack s) + length (kv_alt_stack s) \<le> 603 \<and> small_elements s"
proof -
  have "length (kv_stack t) + length (kv_alt_stack t) \<le> 603 \<and> small_elements t" if "kaspa_inv t" for t
    using that min.cobounded2 [of "kv_op_count t" 201]
    unfolding kaspa_inv_def stack_size_def MAX_OPS_PER_SCRIPT_def by linarith
  with kaspa_execute_total [of L bytecode input ctx] show ?thesis by blast
qed

end
