(* ===== verification/Fry_Text.thy ===== *)
theory Fry_Text
  imports Fry_Prelude
begin

text \<open>
  The string functions of the Rust standard library that the small compilers use, on byte
  strings. Whitespace is ASCII whitespace, which is what the sources of the compilers consist of.
\<close>

definition is_space :: "char \<Rightarrow> bool" where
  "is_space c \<longleftrightarrow> of_char c \<in> set [9, 10, 11, 12, 13, 32 :: nat]"

definition str_trim :: "string \<Rightarrow> string" where
  "str_trim s = rev (dropWhile is_space (rev (dropWhile is_space s)))"

text \<open>\<open>str::lines\<close>: the pieces between line feeds, each without a carriage return at its end;
  a line feed at the very end opens no further line.\<close>

definition strip_cr :: "string \<Rightarrow> string" where
  "strip_cr s = (if s \<noteq> [] \<and> last s = CHR 0x0D then butlast s else s)"

fun split_lines :: "string \<Rightarrow> string \<Rightarrow> string list" where
  "split_lines acc [] = (if acc = [] then [] else [rev acc])"
| "split_lines acc (c # cs) = (if c = CHR 0x0A then strip_cr (rev acc) # split_lines [] cs else split_lines (c # acc) cs)"

definition str_lines :: "string \<Rightarrow> string list" where
  "str_lines s = split_lines [] s"

fun split_words :: "string \<Rightarrow> string \<Rightarrow> string list" where
  "split_words acc [] = (if acc = [] then [] else [rev acc])"
| "split_words acc (c # cs) =
     (if is_space c then (if acc = [] then split_words [] cs else rev acc # split_words [] cs)
      else split_words (c # acc) cs)"

definition split_whitespace :: "string \<Rightarrow> string list" where
  "split_whitespace s = split_words [] s"

definition starts_with :: "string \<Rightarrow> string \<Rightarrow> bool" where
  "starts_with pre s \<longleftrightarrow> take (length pre) s = pre"

definition is_digit :: "char \<Rightarrow> bool" where
  "is_digit c \<longleftrightarrow> 48 \<le> (of_char c :: nat) \<and> (of_char c :: nat) \<le> 57"

definition digit_of :: "char \<Rightarrow> nat" where
  "digit_of c = of_char c - 48"

text \<open>\<open>u64::from_str\<close> with the texts of its errors.\<close>

fun parse_digits :: "nat \<Rightarrow> nat \<Rightarrow> string \<Rightarrow> (string, nat) outcome" where
  "parse_digits bound acc [] = Ok acc"
| "parse_digits bound acc (c # cs) =
     (if \<not> is_digit c then Err ''invalid digit found in string''
      else if acc * 10 + digit_of c \<ge> bound then Err ''number too large to fit in target type''
      else parse_digits bound (acc * 10 + digit_of c) cs)"

definition parse_u64 :: "string \<Rightarrow> (string, u64) outcome" where
  "parse_u64 s =
     (if s = [] then Err ''cannot parse integer from empty string''
      else if s = ''+'' \<or> s = ''-'' then Err ''invalid digit found in string''
      else let digits = (if hd s = CHR ''+'' then tl s else s)
           in bindR (parse_digits (2 ^ 64) 0 digits) (\<lambda>n. Ok (word_of_nat n)))"

subsection \<open>Numbers read back\<close>

lemma parse_digits_append:
  "parse_digits bound acc (xs @ ys) = bindR (parse_digits bound acc xs) (\<lambda>n. parse_digits bound n ys)"
  by (induction xs arbitrary: acc) auto

lemma digit_char: "d < 10 \<Longrightarrow> is_digit (char_of (48 + d))" "d < 10 \<Longrightarrow> digit_of (char_of (48 + d)) = (d :: nat)"
  by (simp_all add: is_digit_def digit_of_def)

lemma parse_digits_show_nat: "n < bound \<Longrightarrow> parse_digits bound 0 (show_nat n) = Ok n"
proof (induction n rule: show_nat.induct)
  case (1 n)
  show ?case
  proof (cases "n < 10")
    case True
    with 1(2) show ?thesis by (subst show_nat.simps) (simp add: digit_char)
  next
    case False
    with 1 have "parse_digits bound 0 (show_nat (n div 10)) = Ok (n div 10)" by simp
    with False 1(2) show ?thesis
      by (subst show_nat.simps) (simp add: parse_digits_append digit_char)
  qed
qed

lemma show_nat_first: "\<exists>d rest. d < 10 \<and> show_nat n = char_of (48 + d :: nat) # rest"
proof (induction n rule: show_nat.induct)
  case (1 n)
  show ?case
  proof (cases "n < 10")
    case True
    then show ?thesis by (subst show_nat.simps) auto
  next
    case False
    with 1 obtain d rest where "d < 10" "show_nat (n div 10) = char_of (48 + d :: nat) # rest" by blast
    with False show ?thesis by (subst show_nat.simps) auto
  qed
qed

lemma parse_u64_show_word: "parse_u64 (show_word (w :: u64)) = Ok w"
proof -
  obtain d rest where s: "d < 10" "show_word w = char_of (48 + d :: nat) # rest"
    using show_nat_first [of "unat w"] by (auto simp: show_word_def)
  have "of_char (char_of (48 + d :: nat)) = 48 + d" using s(1) by simp
  then have c: "char_of (48 + d :: nat) \<noteq> CHR ''+''" "char_of (48 + d :: nat) \<noteq> CHR ''-''"
    by (auto dest: arg_cong [where f = "of_char :: char \<Rightarrow> nat"])
  have "parse_digits (2 ^ 64) 0 (show_word w) = Ok (unat w)"
    using unsigned_less [of w, where 'a = nat] by (simp add: show_word_def parse_digits_show_nat)
  with s(2) c show ?thesis by (simp add: parse_u64_def)
qed

text \<open>A number stands alone between spaces.\<close>

lemma show_nat_no_space: "\<forall>c\<in>set (show_nat n). \<not> is_space c \<and> is_digit c"
proof (induction n rule: show_nat.induct)
  case (1 n)
  have "\<not> is_space (char_of (48 + d))" if "d < 10" for d :: nat
    using that by (simp add: is_space_def)
  moreover have "n mod 10 < 10" by simp
  ultimately show ?case
    using 1 by (cases "n < 10") (subst show_nat.simps; simp add: digit_char)+
qed

lemma split_words_word: "\<forall>c\<in>set w. \<not> is_space c \<Longrightarrow> split_words acc (w @ s) = split_words (rev w @ acc) s"
  by (induction w arbitrary: acc) auto

lemma split_lines_line: "CHR 0x0A \<notin> set w \<Longrightarrow> split_lines acc (w @ s) = split_lines (rev w @ acc) s"
  by (induction w arbitrary: acc) auto

lemma str_lines_two: "CHR 0x0A \<notin> set a \<Longrightarrow> CHR 0x0A \<notin> set b \<Longrightarrow> b \<noteq> [] \<Longrightarrow> last a \<noteq> CHR 0x0D \<Longrightarrow> a \<noteq> [] \<Longrightarrow> str_lines (a @ [CHR 0x0A] @ b) = [a, b]"
  using split_lines_line [of b "[]" "[]"]
  by (simp add: str_lines_def split_lines_line strip_cr_def)

lemma show_word_chars: "\<forall>c\<in>set (show_word w). \<not> is_space c" "show_word w \<noteq> []" 
  using show_nat_no_space [of "unat w"] show_nat_first [of "unat w"] by (auto simp: show_word_def)

lemma not_space_not_nl: "\<not> is_space c \<Longrightarrow> c \<noteq> CHR 0x0A \<and> c \<noteq> CHR 0x0D"
  by (auto simp: is_space_def)

lemma dropWhile_hd: "xs \<noteq> [] \<Longrightarrow> \<not> P (hd xs) \<Longrightarrow> dropWhile P xs = xs"
  by (cases xs) auto

lemma str_trim_id: "s \<noteq> [] \<Longrightarrow> \<not> is_space (hd s) \<Longrightarrow> \<not> is_space (last s) \<Longrightarrow> str_trim s = s"
  using dropWhile_hd [of s is_space] dropWhile_hd [of "rev s" is_space]
  by (simp add: str_trim_def hd_rev)


end
