(* ===== verification/Fry_Kaspa_Scripts.thy ===== *)
theory Fry_Kaspa_Scripts
  imports Fry_Kaspa Fry_Text
begin

text \<open>
  The compiler and the script templates of \<open>frychain-vm/src/kaspa.rs\<close>, and what executing a
  template means. \<open>hex::decode\<close> is a parameter. The lemmas run a script from its remaining bytes, so the templates are
  stepped through once and for all hashes and keys: what the standard scripts check, what they do not, and that
  compiled data is pushed as it was written.
\<close>

subsection \<open>The compiler\<close>

definition str_upper :: "string \<Rightarrow> string" where
  "str_upper s = map (\<lambda>c. if 97 \<le> (of_char c :: nat) \<and> (of_char c :: nat) \<le> 122 then char_of ((of_char c :: nat) - 32) else c) s"

definition opcode_table :: "(string \<times> u8) list" where
  "opcode_table = [
  (''OP_0'', 0x00), (''OP_FALSE'', 0x00), (''OP_1'', 0x51), (''OP_TRUE'', 0x51), (''OP_2'', 0x52),
   (''OP_3'', 0x53), (''OP_4'', 0x54), (''OP_5'', 0x55), (''OP_6'', 0x56), (''OP_7'', 0x57), (''OP_8'', 0x58),
   (''OP_9'', 0x59), (''OP_10'', 0x5a), (''OP_11'', 0x5b), (''OP_12'', 0x5c), (''OP_13'', 0x5d), (''OP_14'', 0x5e),
   (''OP_15'', 0x5f), (''OP_16'', 0x60), (''OP_1NEGATE'', 0x4f), (''OP_NOP'', 0x61), (''OP_IF'', 0x63),
   (''OP_NOTIF'', 0x64), (''OP_ELSE'', 0x67), (''OP_ENDIF'', 0x68), (''OP_VERIFY'', 0x69), (''OP_RETURN'', 0x6a),
   (''OP_TOALTSTACK'', 0x6b), (''OP_FROMALTSTACK'', 0x6c), (''OP_2DROP'', 0x6d), (''OP_2DUP'', 0x6e),
   (''OP_3DUP'', 0x6f), (''OP_DROP'', 0x75), (''OP_DUP'', 0x76), (''OP_NIP'', 0x77), (''OP_OVER'', 0x78),
   (''OP_PICK'', 0x79), (''OP_ROLL'', 0x7a), (''OP_ROT'', 0x7b), (''OP_SWAP'', 0x7c), (''OP_TUCK'', 0x7d),
   (''OP_DEPTH'', 0x74), (''OP_IFDUP'', 0x73), (''OP_CAT'', 0x7e), (''OP_SUBSTR'', 0x7f), (''OP_LEFT'', 0x80),
   (''OP_RIGHT'', 0x81), (''OP_SIZE'', 0x82), (''OP_INVERT'', 0x83), (''OP_AND'', 0x84), (''OP_OR'', 0x85),
   (''OP_XOR'', 0x86), (''OP_EQUAL'', 0x87), (''OP_EQUALVERIFY'', 0x88), (''OP_1ADD'', 0x8b), (''OP_1SUB'', 0x8c),
   (''OP_NEGATE'', 0x8f), (''OP_ABS'', 0x90), (''OP_NOT'', 0x91), (''OP_0NOTEQUAL'', 0x92), (''OP_ADD'', 0x93),
   (''OP_SUB'', 0x94), (''OP_MUL'', 0x95), (''OP_DIV'', 0x96), (''OP_MOD'', 0x97), (''OP_LSHIFT'', 0x98),
   (''OP_RSHIFT'', 0x99), (''OP_BOOLAND'', 0x9a), (''OP_BOOLOR'', 0x9b), (''OP_NUMEQUAL'', 0x9c),
   (''OP_NUMEQUALVERIFY'', 0x9d), (''OP_NUMNOTEQUAL'', 0x9e), (''OP_LESSTHAN'', 0x9f), (''OP_GREATERTHAN'', 0xa0),
   (''OP_LESSTHANOREQUAL'', 0xa1), (''OP_GREATERTHANOREQUAL'', 0xa2), (''OP_MIN'', 0xa3), (''OP_MAX'', 0xa4),
   (''OP_WITHIN'', 0xa5), (''OP_SHA256'', 0xa8), (''OP_HASH160'', 0xa9), (''OP_HASH256'', 0xaa),
   (''OP_CHECKSIG'', 0xac), (''OP_CHECKSIGVERIFY'', 0xad), (''OP_CHECKMULTISIG'', 0xae),
   (''OP_CHECKMULTISIGVERIFY'', 0xaf), (''OP_CHECKLOCKTIMEVERIFY'', 0xb1), (''OP_CLTV'', 0xb1),
   (''OP_CHECKSEQUENCEVERIFY'', 0xb2), (''OP_CSV'', 0xb2), (''OP_INPUTINDEX'', 0xc0),
   (''OP_OUTPUTBYTECODE'', 0xc1), (''OP_INPUTBYTECODE'', 0xc2), (''OP_OUTPUTVALUE'', 0xc3),
   (''OP_INPUTVALUE'', 0xc4), (''OP_OUTPUTCOUNT'', 0xc5), (''OP_INPUTCOUNT'', 0xc6), (''OP_TXVERSION'', 0xc7),
   (''OP_TXLOCKTIME'', 0xc8), (''OP_STATEGET'', 0xd0), (''OP_STATEPUT'', 0xd1), (''OP_STATEDELETE'', 0xd2),
   (''OP_EMITEVENT'', 0xd3)]"

definition compile_push :: "hex_codec \<Rightarrow> string list \<Rightarrow> (vm_error, bytes) outcome" where
  "compile_push hx args =
     (case args of
        [] \<Rightarrow> Err (ExecutionError ''PUSH requires data'')
      | a # _ \<Rightarrow> bindR (from_sum (\<lambda>_. ExecutionError ''Invalid hex data'') (hex_decode hx a)) (\<lambda>data.
          let n = length data in
          if n \<le> 75 then Ok (word_of_nat n # data)
          else if n \<le> 255 then Ok (0x4c # word_of_nat n # data)
          else Ok (0x4d # le_of_word (word_of_nat n :: u16) @ data)))"

definition kaspa_line :: "hex_codec \<Rightarrow> string list \<Rightarrow> (vm_error, bytes) outcome" where
  "kaspa_line hx parts =
     (case parts of
        [] \<Rightarrow> Ok []
      | w # args \<Rightarrow>
          if str_upper w = ''PUSH'' then compile_push hx args
          else (case map_of opcode_table (str_upper w) of
              Some b \<Rightarrow> Ok [b]
            | None \<Rightarrow> Err (ExecutionError (''Unknown opcode: '' @ w))))"

fun kaspa_lines :: "hex_codec \<Rightarrow> string list \<Rightarrow> (vm_error, bytes) outcome" where
  "kaspa_lines hx [] = Ok []"
| "kaspa_lines hx (l # ls) =
     (let line = str_trim l in
      bindR (if line = [] \<or> starts_with ''#'' line \<or> starts_with ''//'' line then Ok []
             else kaspa_line hx (split_whitespace line)) (\<lambda>b.
      bindR (kaspa_lines hx ls) (\<lambda>rest. Ok (b @ rest))))"

definition compile_kaspa_script :: "hex_codec \<Rightarrow> string \<Rightarrow> (vm_error, bytes) outcome" where
  "compile_kaspa_script hx source =
     bindR (kaspa_lines hx (str_lines source)) (\<lambda>code. Ok (KASPA_MAGIC @ code))"

subsection \<open>The templates\<close>

definition create_p2pkh_script :: "bytes \<Rightarrow> bytes" where
  "create_p2pkh_script pubkey_hash =
     KASPA_MAGIC @ [0x76, 0xa9, word_of_nat (length pubkey_hash)] @ pubkey_hash @ [0x88, 0xac]"

definition create_p2sh_script :: "bytes \<Rightarrow> bytes" where
  "create_p2sh_script script_hash = KASPA_MAGIC @ [0xa9, word_of_nat (length script_hash)] @ script_hash @ [0x87]"

definition create_multisig_script :: "u8 \<Rightarrow> bytes list \<Rightarrow> bytes" where
  "create_multisig_script m pubkeys =
     KASPA_MAGIC @ [0x50 + m] @ concat (map (\<lambda>pk. word_of_nat (length pk) # pk) pubkeys)
       @ [0x50 + word_of_nat (length pubkeys), 0xae]"

subsection \<open>Running from the remaining bytes\<close>

text \<open>\<open>kaspa_at rest st ex n g s\<close>: the machine \<open>s\<close> has the bytes \<open>rest\<close> before it, the stack
  \<open>st\<close>, the conditions \<open>ex\<close>, \<open>n\<close> operations behind it and at least \<open>g\<close> units of gas left.\<close>

definition kaspa_at :: "bytes \<Rightarrow> script_element list \<Rightarrow> bool list \<Rightarrow> nat \<Rightarrow> nat \<Rightarrow> kaspa_vm \<Rightarrow> bool" where
  "kaspa_at rest st ex n g s \<longleftrightarrow> kv_pc s \<le> length (kv_script s) \<and> drop (kv_pc s) (kv_script s) = rest
     \<and> kv_stack s = st \<and> kv_exec s = ex \<and> kv_op_count s = n \<and> unat (gm_used (kv_gas s)) + g \<le> unat (gm_limit (kv_gas s))"

lemma kv_charge_at:
  assumes "kaspa_at rest st ex n (unat c + g) s"
  shows "\<exists>s'. kv_charge c s = (Ok (), s') \<and> kaspa_at rest st ex n g s'"
proof -
  let ?m = "kv_gas s"
  have fits: "unat (gm_used ?m) + unat c \<le> unat (gm_limit ?m)" using assms by (simp add: kaspa_at_def)
  have "unat (gm_used ?m + c) = unat (gm_used ?m) + unat c"
    using fits unsigned_less [of "gm_limit ?m", where 'a = nat] by (intro unat_add_no_wrap) simp
  then show ?thesis using assms consume_fits [OF fits] by (auto simp: kv_charge_def kaspa_at_def)
qed

lemma kaspa_fetch_at:
  assumes "kaspa_at (b # rest) st ex n (2 + g) s" and "n < MAX_OPS_PER_SCRIPT"
  shows "\<exists>s'. kaspa_fetch s = (Ok (list_all id ex, b), s') \<and> kaspa_at rest st ex (Suc n) g s'"
proof -
  let ?s1 = "s\<lparr>kv_pc := kv_pc s + 1\<rparr>"
  have d: "drop (kv_pc s) (kv_script s) = b # rest" and g: "unat (gm_used (kv_gas s)) + (2 + g) \<le> unat (gm_limit (kv_gas s))"
    using assms(1) by (auto simp: kaspa_at_def)
  have lt: "kv_pc s < length (kv_script s)" using d by (metis drop_eq_Nil list.distinct(1) not_le)
  then have b: "kv_script s ! kv_pc s = b" and r: "drop (Suc (kv_pc s)) (kv_script s) = rest"
    using Cons_nth_drop_Suc [OF lt] d by auto
  with lt g have "kaspa_at rest st ex n (unat GAS_BASE + g) ?s1"
    using assms(1) by (auto simp: kaspa_at_def GAS_BASE_def)
  from kv_charge_at [OF this] obtain s2 where c: "kv_charge GAS_BASE ?s1 = (Ok (), s2)" and a: "kaspa_at rest st ex n g s2" by blast
  have "kaspa_fetch s = (Ok (list_all id ex, b), s2\<lparr>kv_op_count := kv_op_count s2 + 1\<rparr>)"
    using c a assms b by (simp add: kaspa_fetch_def kaspa_read_def kaspa_count_def outcome_simps kaspa_at_def Let_def)
  with a show ?thesis by (auto simp: kaspa_at_def)
qed

text \<open>One step, when the operation that was fetched succeeds.\<close>

definition kaspa_goes :: "kaspa_lib \<Rightarrow> kaspa_vm \<Rightarrow> kaspa_vm \<Rightarrow> bool" where
  "kaspa_goes L s t \<longleftrightarrow> vm_loop kaspa_halted (kaspa_step L) s = vm_loop kaspa_halted (kaspa_step L) t"

lemma kaspa_goes_refl: "kaspa_goes L s s"
  by (simp add: kaspa_goes_def)

lemma kaspa_goes_trans [trans]: "kaspa_goes L s t \<Longrightarrow> kaspa_goes L t u \<Longrightarrow> kaspa_goes L s u"
  by (simp add: kaspa_goes_def)

lemma kaspa_step_at:
  assumes "kaspa_at (b # rest) st ex n (2 + g) s" and "n < MAX_OPS_PER_SCRIPT"
    and "\<And>s1. kaspa_at rest st ex (Suc n) g s1 \<Longrightarrow>
       \<exists>t. kaspa_perform L (list_all id ex, b) s1 = (Ok (), t) \<and> Q t"
  shows "\<exists>t. kaspa_goes L s t \<and> Q t"
proof -
  from kaspa_fetch_at [OF assms(1,2)] obtain s1 where f: "kaspa_fetch s = (Ok (list_all id ex, b), s1)"
    and "kaspa_at rest st ex (Suc n) g s1" by blast
  from assms(3) [OF this(2)] obtain t where p: "kaspa_perform L (list_all id ex, b) s1 = (Ok (), t)" and q: "Q t" by blast
  have "\<not> kaspa_halted s" using assms(1) by (auto simp: kaspa_at_def kaspa_halted_def)
  then have "kaspa_step L s = (Ok True, t)" using f p by (simp add: kaspa_step_def thenM_def bindM_def ret_def)
  with \<open>\<not> kaspa_halted s\<close> q show ?thesis by (auto simp: kaspa_goes_def vm_loop.simps [of kaspa_halted _ s])
qed

lemma kaspa_step_fails_at:
  assumes "kaspa_at (b # rest) st ex n (2 + g) s" and "n < MAX_OPS_PER_SCRIPT"
    and "\<And>s1. kaspa_at rest st ex (Suc n) g s1 \<Longrightarrow> \<exists>e t. kaspa_perform L (list_all id ex, b) s1 = (Err e, t)"
  shows "\<exists>e t. vm_loop kaspa_halted (kaspa_step L) s = Some (Err e, t)"
proof -
  from kaspa_fetch_at [OF assms(1,2)] obtain s1 where f: "kaspa_fetch s = (Ok (list_all id ex, b), s1)"
    and "kaspa_at rest st ex (Suc n) g s1" by blast
  from assms(3) [OF this(2)] obtain e t where p: "kaspa_perform L (list_all id ex, b) s1 = (Err e, t)" by blast
  have "\<not> kaspa_halted s" using assms(1) by (auto simp: kaspa_at_def kaspa_halted_def)
  moreover from this have "kaspa_step L s = (Err e, t)" using f p by (simp add: kaspa_step_def thenM_def bindM_def)
  ultimately show ?thesis by (auto simp: vm_loop.simps [of kaspa_halted _ s])
qed

lemma kaspa_loop_end: "kaspa_at [] st ex n g s \<Longrightarrow> vm_loop kaspa_halted (kaspa_step L) s = Some (Ok (), s)"
  by (simp add: vm_loop.simps kaspa_halted_def kaspa_at_def)

lemma kv_push_at:
  assumes "kaspa_at rest st ex n g s" and "length st < MAX_STACK_SIZE" and "length e \<le> MAX_ELEMENT_SIZE"
  shows "\<exists>t. kv_push e s = (Ok (), t) \<and> kaspa_at rest (e # st) ex n g t"
  using assms by (auto simp: kv_push_def kaspa_at_def)

lemma kv_pop_at:
  assumes "kaspa_at rest (e # st) ex n g s"
  shows "\<exists>t. kv_pop s = (Ok e, t) \<and> kaspa_at rest st ex n g t"
  using assms by (auto simp: kv_pop_def kaspa_at_def)

subsection \<open>Single instructions\<close>

lemma word_byte: "0 < k \<Longrightarrow> k \<le> 75 \<Longrightarrow> 0x01 \<le> (word_of_nat k :: u8) \<and> word_of_nat k \<le> (0x4b :: u8) \<and> unat (word_of_nat k :: u8) = k"
  by (simp add: word_le_nat_alt unat_of_nat)

text \<open>A push of 1 to 75 bytes, executed or skipped.\<close>

lemma kaspa_push_step:
  assumes "kaspa_at (word_of_nat (length d) # d @ rest) st ex n (2 + g) s" and "n < MAX_OPS_PER_SCRIPT"
    and "0 < length d" and "length d \<le> 75" and "length st < MAX_STACK_SIZE"
  shows "\<exists>t. kaspa_goes L s t \<and> kaspa_at rest (if list_all id ex then d # st else st) ex (Suc n) g t"
proof (rule kaspa_step_at [OF assms(1,2)])
  fix s1
  assume a: "kaspa_at (d @ rest) st ex (Suc n) g s1"
  have w: "0x01 \<le> (word_of_nat (length d) :: u8)" "word_of_nat (length d) \<le> (0x4b :: u8)"
    "unat (word_of_nat (length d) :: u8) = length d"
    using word_byte [OF assms(3,4)] by simp_all
  have fit: "kv_pc s1 + length d \<le> length (kv_script s1)" "take (length d) (drop (kv_pc s1) (kv_script s1)) = d"
    "drop (length d + kv_pc s1) (kv_script s1) = rest"
    using a by (auto simp: kaspa_at_def drop_drop [symmetric] dest: arg_cong [where f = length])
  have p: "kaspa_perform L (list_all id ex, word_of_nat (length d)) = op_push_bytes (length d) (list_all id ex)"
    using w by (simp add: kaspa_perform_def)
  show "\<exists>t. kaspa_perform L (list_all id ex, word_of_nat (length d)) s1 = (Ok (), t)
      \<and> kaspa_at rest (if list_all id ex then d # st else st) ex (Suc n) g t"
    using a fit assms(4,5) unfolding p
    by (auto simp: op_push_bytes_def outcome_simps kv_advance_def kv_push_data_def kv_push_def kaspa_at_def
        MAX_ELEMENT_SIZE_def add.commute)
qed

text \<open>An operation that only acts when executed.\<close>

definition plain_opcode :: "u8 \<Rightarrow> bool" where
  "plain_opcode b \<longleftrightarrow> \<not> (0x01 \<le> b \<and> b \<le> 0x4b)
     \<and> kaspa_from_byte b \<notin> {0x4c, 0x4d, 0x4e, 0x61, 0x63, 0x64, 0x67, 0x68}"

lemma plain_perform: "plain_opcode b \<Longrightarrow> kaspa_perform L (executing, b) = whenM executing (kaspa_op L (kaspa_from_byte b) b)"
  using kaspa_from_byte_no_nop [of b] by (auto simp: plain_opcode_def kaspa_perform_def Let_def)

lemma kaspa_skip_step:
  assumes "kaspa_at (b # rest) st ex n (2 + g) s" and "n < MAX_OPS_PER_SCRIPT" and "plain_opcode b" and "\<not> list_all id ex"
  shows "\<exists>t. kaspa_goes L s t \<and> kaspa_at rest st ex (Suc n) g t"
  by (rule kaspa_step_at [OF assms(1,2)]) (simp add: plain_perform assms whenM_def ret_def)

lemma kaspa_op_step:
  assumes "kaspa_at (b # rest) st ex n (2 + g) s" and "n < MAX_OPS_PER_SCRIPT" and "plain_opcode b" and "list_all id ex"
    and "\<And>s1. kaspa_at rest st ex (Suc n) g s1 \<Longrightarrow>
       \<exists>t. kaspa_op L (kaspa_from_byte b) b s1 = (Ok (), t) \<and> kaspa_at rest' st' ex' n' g' t"
  shows "\<exists>t. kaspa_goes L s t \<and> kaspa_at rest' st' ex' n' g' t"
  by (rule kaspa_step_at [OF assms(1,2)]) (simp add: plain_perform assms whenM_def)

lemma byte_dup: "plain_opcode 0x76" "kaspa_from_byte 0x76 = 0x76"
  and byte_hash160: "plain_opcode 0xa9" "kaspa_from_byte 0xa9 = 0xa9"
  and byte_equal: "plain_opcode 0x87" "kaspa_from_byte 0x87 = 0x87"
  and byte_equal_verify: "plain_opcode 0x88" "kaspa_from_byte 0x88 = 0x88"
  and byte_check_sig: "plain_opcode 0xac" "kaspa_from_byte 0xac = 0xac"
  and byte_0: "plain_opcode 0x00" "kaspa_from_byte 0x00 = 0x00"
  and byte_1: "plain_opcode 0x51" "kaspa_from_byte 0x51 = 0x51"
  and byte_multisig: "plain_opcode 0xae"
  by (simp_all add: plain_opcode_def kaspa_from_byte_def)

lemmas step_bytes = byte_dup byte_hash160 byte_equal byte_equal_verify byte_check_sig byte_0 byte_1

lemma dup_step:
  assumes "kaspa_at (0x76 # rest) (e # st) [] n (2 + g) s" and "n < MAX_OPS_PER_SCRIPT"
    and "length st < 900" and "length e \<le> MAX_ELEMENT_SIZE"
  shows "\<exists>t. kaspa_goes L s t \<and> kaspa_at rest (e # e # st) [] (Suc n) g t"
  by (rule kaspa_op_step [OF assms(1,2)])
     (use assms(3,4) in \<open>auto simp: step_bytes kaspa_op_def outcome_simps kv_last_def kv_push_def kaspa_at_def MAX_STACK_SIZE_def\<close>)

lemma hash160_step:
  assumes "kaspa_at (0xa9 # rest) (e # st) [] n (32 + g) s" and "n < MAX_OPS_PER_SCRIPT" and "length st < 900"
  shows "\<exists>t. kaspa_goes L s t \<and> kaspa_at rest (take 20 (kl_sha256 L e) # st) [] (Suc n) g t"
proof -
  have at: "kaspa_at (0xa9 # rest) (e # st) [] n (2 + (30 + g)) s" using assms(1) by simp
  show ?thesis
  proof (rule kaspa_op_step [OF at assms(2)])
    fix s1
    assume "kaspa_at rest (e # st) [] (Suc n) (30 + g) s1"
    then have "kaspa_at rest (e # st) [] (Suc n) (unat GAS_SHA3_BASE + g) s1" by (simp add: GAS_SHA3_BASE_def)
    from kv_charge_at [OF this] obtain s2 where "kv_charge GAS_SHA3_BASE s1 = (Ok (), s2)"
      and "kaspa_at rest (e # st) [] (Suc n) g s2" by blast
    then show "\<exists>t. kaspa_op L (kaspa_from_byte 0xa9) 0xa9 s1 = (Ok (), t)
        \<and> kaspa_at rest (take 20 (kl_sha256 L e) # st) [] (Suc n) g t"
      using assms(3) by (auto simp: step_bytes kaspa_op_def op_hash160_def outcome_simps kv_pop_def kv_push_def kaspa_at_def
          MAX_STACK_SIZE_def MAX_ELEMENT_SIZE_def)
  qed (simp_all add: step_bytes)
qed

lemma equal_step:
  assumes "kaspa_at (0x87 # rest) (b # a # st) [] n (2 + g) s" and "n < MAX_OPS_PER_SCRIPT" and "length st < 900"
  shows "\<exists>t. kaspa_goes L s t \<and> kaspa_at rest (script_bool (a = b) # st) [] (Suc n) g t"
  by (rule kaspa_op_step [OF assms(1,2)])
     (use assms(3) in \<open>auto simp: step_bytes kaspa_op_def op_equal_def outcome_simps kv_pop_def kv_push_def kaspa_at_def
        MAX_STACK_SIZE_def MAX_ELEMENT_SIZE_def script_bool_def script_true_val_def script_false_val_def script_empty_def\<close>)

lemma equal_verify_step:
  assumes "kaspa_at (0x88 # rest) (b # a # st) [] n (2 + g) s" and "n < MAX_OPS_PER_SCRIPT" and "a = b"
  shows "\<exists>t. kaspa_goes L s t \<and> kaspa_at rest st [] (Suc n) g t"
  by (rule kaspa_op_step [OF assms(1,2)])
     (use assms(3) in \<open>auto simp: step_bytes kaspa_op_def op_equal_verify_def outcome_simps kv_pop_def kaspa_at_def\<close>)

lemma equal_verify_fails:
  assumes "kaspa_at (0x88 # rest) (b # a # st) [] n (2 + g) s" and "n < MAX_OPS_PER_SCRIPT" and "a \<noteq> b"
  shows "\<exists>e t. vm_loop kaspa_halted (kaspa_step L) s = Some (Err e, t)"
  by (rule kaspa_step_fails_at [OF assms(1,2)])
     (use assms(3) in \<open>auto simp: plain_perform step_bytes kaspa_op_def op_equal_verify_def outcome_simps kv_pop_def kaspa_at_def
       whenM_def\<close>)

lemma check_sig_step:
  assumes "kaspa_at (0xac # rest) (pk # sig # st) [] n (2 + g) s" and "n < MAX_OPS_PER_SCRIPT" and "length st < 900"
  shows "\<exists>t. kaspa_goes L s t \<and> kaspa_at rest (script_true_val # st) [] (Suc n) g t"
  by (rule kaspa_op_step [OF assms(1,2)])
     (use assms(3) in \<open>auto simp: step_bytes kaspa_op_def op_check_sig_def kv_check_sig_def kaspa_verify_signature_def outcome_simps
        kv_pop_def kv_push_def kaspa_at_def MAX_STACK_SIZE_def MAX_ELEMENT_SIZE_def script_bool_def script_true_val_def\<close>)

subsection \<open>Whole executions\<close>

lemma kaspa_start:
  "g \<le> unat (ec_gas_limit ctx) \<Longrightarrow> kaspa_at code [] [] 0 g ((kaspa_new ctx)\<lparr>kv_script := code, kv_pc := 0\<rparr>)"
  by (simp add: kaspa_at_def kaspa_new_def meter_new_def)

lemma kaspa_at_restart:
  "kaspa_at rest st ex n g t \<Longrightarrow> kaspa_at code st ex n g (t\<lparr>kv_script := code, kv_pc := 0\<rparr>)"
  by (simp add: kaspa_at_def)

text \<open>The unlocking script runs to its end; what the locking script does then decides.\<close>

lemma execute_after_input:
  assumes "input \<noteq> []" and "length body \<le> MAX_SCRIPT_SIZE" and "g \<le> unat (ec_gas_limit ctx)"
    and "\<And>s. kaspa_at input [] [] 0 g s \<Longrightarrow> \<exists>t. kaspa_goes L s t \<and> kaspa_at [] st ex n g' t"
  shows "\<exists>s. kaspa_execute L (KASPA_MAGIC @ body) input (kaspa_new ctx) = kaspa_main L s
     \<and> kv_script s = body \<and> kaspa_at body st ex n g' (s\<lparr>kv_pc := 0\<rparr>)"
proof -
  let ?s = "(kaspa_new ctx)\<lparr>kv_script := body, kv_pc := 0\<rparr>"
  have "kaspa_at input [] [] 0 g (?s\<lparr>kv_script := input, kv_pc := 0\<rparr>)"
    by (rule kaspa_at_restart [OF kaspa_start [OF assms(3), of body]])
  from assms(4) [OF this] obtain t where t: "kaspa_goes L (?s\<lparr>kv_script := input, kv_pc := 0\<rparr>) t" "kaspa_at [] st ex n g' t"
    by blast
  have "execute_script L input ?s = Some (Ok (), t\<lparr>kv_script := body, kv_pc := 0\<rparr>)"
    using t(1) kaspa_loop_end [OF t(2), of L] by (simp add: execute_script_def kaspa_goes_def)
  then have "kaspa_execute L (KASPA_MAGIC @ body) input (kaspa_new ctx) = kaspa_main L (t\<lparr>kv_script := body, kv_pc := 0\<rparr>)"
    using assms(1,2) by (simp add: kaspa_execute_def KASPA_MAGIC_def Let_def)
  with kaspa_at_restart [OF t(2), of body] show ?thesis by fastforce
qed

lemma kaspa_main_ends:
  assumes "kaspa_goes L (s\<lparr>kv_pc := 0\<rparr>) t" and "kaspa_at [] (e # st) ex n g t"
  shows "\<exists>r t. kaspa_main L s = Some (Ok r, t) \<and> (vr_success r \<longleftrightarrow> is_true e) \<and> (is_true e \<longrightarrow> vr_return_data r = e)"
proof -
  have "s\<lparr>kv_script := kv_script s, kv_pc := 0\<rparr> = s\<lparr>kv_pc := 0\<rparr>" by simp
  then have "execute_script L (kv_script s) s = Some (Ok (), t\<lparr>kv_script := kv_script s, kv_pc := kv_pc s\<rparr>)"
    using assms(1) kaspa_loop_end [OF assms(2), of L] by (simp add: execute_script_def kaspa_goes_def)
  then show ?thesis using assms(2) by (simp add: kaspa_main_def kaspa_result_def kaspa_at_def Let_def)
qed

lemma kaspa_main_fails:
  assumes "vm_loop kaspa_halted (kaspa_step L) (s\<lparr>kv_pc := 0\<rparr>) = Some (Err e, t)"
  shows "\<exists>r t. kaspa_main L s = Some (Ok r, t) \<and> \<not> vr_success r"
proof -
  have "s\<lparr>kv_script := kv_script s, kv_pc := 0\<rparr> = s\<lparr>kv_pc := 0\<rparr>" by simp
  with assms show ?thesis by (simp add: kaspa_main_def execute_script_def kaspa_failed_def)
qed

lemma kaspa_goes_fails:
  "kaspa_goes L s t \<Longrightarrow> vm_loop kaspa_halted (kaspa_step L) t = Some x \<Longrightarrow> vm_loop kaspa_halted (kaspa_step L) s = Some x"
  by (simp add: kaspa_goes_def)

subsection \<open>The standard scripts\<close>

definition push_bytes :: "bytes \<Rightarrow> bytes" where
  "push_bytes d = word_of_nat (length d) # d"

definition pushable :: "bytes \<Rightarrow> bool" where
  "pushable d \<longleftrightarrow> 0 < length d \<and> length d \<le> 75"

lemma push_step:
  assumes "kaspa_at (push_bytes d @ rest) st [] n (2 + g) s" and "n < MAX_OPS_PER_SCRIPT"
    and "pushable d" and "length st < 900"
  shows "\<exists>t. kaspa_goes L s t \<and> kaspa_at rest (d # st) [] (Suc n) g t"
  using kaspa_push_step [of d rest st "[]" n g s L] assms by (simp add: push_bytes_def pushable_def MAX_STACK_SIZE_def)

lemma p2pkh_outcome:
  assumes "pushable sig" and "pushable pk" and "pushable h" and "44 \<le> unat (ec_gas_limit ctx)"
  shows "\<exists>r t. kaspa_execute L (create_p2pkh_script h) (push_bytes sig @ push_bytes pk) (kaspa_new ctx) = Some (Ok r, t)
    \<and> (vr_success r \<longleftrightarrow> take 20 (kl_sha256 L pk) = h)"
proof -
  let ?body = "0x76 # 0xa9 # push_bytes h @ [0x88, 0xac]" and ?hash = "take 20 (kl_sha256 L pk)"
  have script: "create_p2pkh_script h = KASPA_MAGIC @ ?body" by (simp add: create_p2pkh_script_def push_bytes_def)
  have small: "length pk \<le> MAX_ELEMENT_SIZE" "length ?body \<le> MAX_SCRIPT_SIZE"
    using assms by (simp_all add: pushable_def MAX_ELEMENT_SIZE_def MAX_SCRIPT_SIZE_def push_bytes_def)
  have "\<exists>s. kaspa_execute L (KASPA_MAGIC @ ?body) (push_bytes sig @ push_bytes pk) (kaspa_new ctx) = kaspa_main L s
     \<and> kv_script s = ?body \<and> kaspa_at ?body [pk, sig] [] 2 40 (s\<lparr>kv_pc := 0\<rparr>)"
  proof (rule execute_after_input [OF _ small(2) assms(4)])
    fix s
    assume "kaspa_at (push_bytes sig @ push_bytes pk) [] [] 0 44 s"
    from push_step [of sig "push_bytes pk" "[]" 0 42 s L] this assms(1) obtain t1 where
      t1: "kaspa_goes L s t1" "kaspa_at (push_bytes pk @ []) [sig] [] 1 42 t1" by (auto simp: MAX_OPS_PER_SCRIPT_def)
    from push_step [of pk "[]" "[sig]" 1 40 t1 L] this(2) assms(2) obtain t2 where
      "kaspa_goes L t1 t2" "kaspa_at [] [pk, sig] [] 2 40 t2" by (auto simp: MAX_OPS_PER_SCRIPT_def numeral_2_eq_2)
    with t1(1) show "\<exists>t. kaspa_goes L s t \<and> kaspa_at [] [pk, sig] [] 2 40 t" using kaspa_goes_trans by blast
  qed (simp add: push_bytes_def)
  then obtain s where ex: "kaspa_execute L (create_p2pkh_script h) (push_bytes sig @ push_bytes pk) (kaspa_new ctx) = kaspa_main L s"
    and a0: "kaspa_at ?body [pk, sig] [] 2 40 (s\<lparr>kv_pc := 0\<rparr>)"
    using script by auto
  from dup_step [of _ pk "[sig]" 2 38 _ L] a0 small obtain t1 where
    t1: "kaspa_goes L (s\<lparr>kv_pc := 0\<rparr>) t1" "kaspa_at (0xa9 # push_bytes h @ [0x88, 0xac]) [pk, pk, sig] [] 3 38 t1"
    by (fastforce simp: MAX_OPS_PER_SCRIPT_def)
  from hash160_step [of _ pk "[pk, sig]" 3 6 t1 L] t1(2) obtain t2 where
    t2: "kaspa_goes L t1 t2" "kaspa_at (push_bytes h @ [0x88, 0xac]) [?hash, pk, sig] [] 4 6 t2"
    by (fastforce simp: MAX_OPS_PER_SCRIPT_def)
  from push_step [of h _ "[?hash, pk, sig]" 4 4 t2 L] t2(2) assms(3) obtain t3 where
    t3: "kaspa_goes L t2 t3" "kaspa_at [0x88, 0xac] [h, ?hash, pk, sig] [] 5 4 t3"
    by (fastforce simp: MAX_OPS_PER_SCRIPT_def)
  have g3: "kaspa_goes L (s\<lparr>kv_pc := 0\<rparr>) t3" using t1(1) t2(1) t3(1) kaspa_goes_trans by blast
  show ?thesis
  proof (cases "?hash = h")
    case True
    from equal_verify_step [of _ h ?hash "[pk, sig]" 5 2 t3 L] t3(2) True obtain t4 where
      t4: "kaspa_goes L t3 t4" "kaspa_at [0xac] [pk, sig] [] 6 2 t4" by (fastforce simp: MAX_OPS_PER_SCRIPT_def)
    from check_sig_step [of "[]" pk sig "[]" 6 0 t4 L] t4(2) obtain t5 where
      t5: "kaspa_goes L t4 t5" "kaspa_at [] [script_true_val] [] 7 0 t5" by (fastforce simp: MAX_OPS_PER_SCRIPT_def)
    have "kaspa_goes L (s\<lparr>kv_pc := 0\<rparr>) t5" using g3 t4(1) t5(1) kaspa_goes_trans by blast
    from kaspa_main_ends [OF this t5(2)] ex True show ?thesis by (auto simp: script_true_val_def is_true_def)
  next
    case False
    from equal_verify_fails [of _ h ?hash "[pk, sig]" 5 2 t3 L] t3(2) False obtain e t4 where
      "vm_loop kaspa_halted (kaspa_step L) t3 = Some (Err e, t4)" by (fastforce simp: MAX_OPS_PER_SCRIPT_def)
    from kaspa_main_fails [OF kaspa_goes_fails [OF g3 this]] ex False show ?thesis by auto
  qed
qed

lemma is_true_script_bool: "is_true (script_bool b) = b"
  by (simp add: script_bool_def script_true_val_def script_false_val_def script_empty_def is_true_def)

lemma p2sh_outcome:
  assumes "pushable redeem" and "pushable h" and "38 \<le> unat (ec_gas_limit ctx)"
  shows "\<exists>r t. kaspa_execute L (create_p2sh_script h) (push_bytes redeem) (kaspa_new ctx) = Some (Ok r, t)
    \<and> (vr_success r \<longleftrightarrow> take 20 (kl_sha256 L redeem) = h)"
proof -
  let ?body = "0xa9 # push_bytes h @ [0x87]" and ?hash = "take 20 (kl_sha256 L redeem)"
  have script: "create_p2sh_script h = KASPA_MAGIC @ ?body" by (simp add: create_p2sh_script_def push_bytes_def)
  have small: "length ?body \<le> MAX_SCRIPT_SIZE"
    using assms by (simp add: pushable_def MAX_SCRIPT_SIZE_def push_bytes_def)
  have "\<exists>s. kaspa_execute L (KASPA_MAGIC @ ?body) (push_bytes redeem) (kaspa_new ctx) = kaspa_main L s
     \<and> kv_script s = ?body \<and> kaspa_at ?body [redeem] [] 1 36 (s\<lparr>kv_pc := 0\<rparr>)"
  proof (rule execute_after_input [OF _ small assms(3)])
    fix s
    assume "kaspa_at (push_bytes redeem) [] [] 0 38 s"
    then show "\<exists>t. kaspa_goes L s t \<and> kaspa_at [] [redeem] [] 1 36 t"
      using push_step [of redeem "[]" "[]" 0 36 s L] assms(1) by (simp add: MAX_OPS_PER_SCRIPT_def)
  qed (simp add: push_bytes_def)
  then obtain s where ex: "kaspa_execute L (create_p2sh_script h) (push_bytes redeem) (kaspa_new ctx) = kaspa_main L s"
    and a0: "kaspa_at ?body [redeem] [] 1 36 (s\<lparr>kv_pc := 0\<rparr>)" using script by auto
  from hash160_step [of _ redeem "[]" 1 4 _ L] a0 obtain t1 where
    t1: "kaspa_goes L (s\<lparr>kv_pc := 0\<rparr>) t1" "kaspa_at (push_bytes h @ [0x87]) [?hash] [] 2 4 t1"
    by (fastforce simp: MAX_OPS_PER_SCRIPT_def numeral_2_eq_2)
  from push_step [of h "[0x87]" "[?hash]" 2 2 t1 L] t1(2) assms(2) obtain t2 where
    t2: "kaspa_goes L t1 t2" "kaspa_at [0x87] [h, ?hash] [] 3 2 t2" by (fastforce simp: MAX_OPS_PER_SCRIPT_def)
  from equal_step [of "[]" h ?hash "[]" 3 0 t2 L] t2(2) obtain t3 where
    t3: "kaspa_goes L t2 t3" "kaspa_at [] [script_bool (?hash = h)] [] 4 0 t3" by (fastforce simp: MAX_OPS_PER_SCRIPT_def)
  have "kaspa_goes L (s\<lparr>kv_pc := 0\<rparr>) t3" using t1(1) t2(1) t3(1) kaspa_goes_trans by blast
  from kaspa_main_ends [OF this t3(2)] ex show ?thesis by (auto simp: is_true_script_bool)
qed

subsection \<open>Skipping a script\<close>

text \<open>A script of \<open>n\<close> instructions none of which changes the conditions: short pushes and plain operations.\<close>

inductive straight :: "nat \<Rightarrow> bytes \<Rightarrow> bool" where
  straight_end: "straight 0 []"
| straight_push: "pushable d \<Longrightarrow> straight n rest \<Longrightarrow> straight (Suc n) (push_bytes d @ rest)"
| straight_op: "plain_opcode b \<Longrightarrow> straight n rest \<Longrightarrow> straight (Suc n) (b # rest)"

lemma straight_skipped:
  assumes "straight k body" and "kaspa_at body st ex n (2 * k + g) s" and "\<not> list_all id ex" and "n + k \<le> MAX_OPS_PER_SCRIPT"
    and "length st < MAX_STACK_SIZE"
  shows "\<exists>t. kaspa_goes L s t \<and> kaspa_at [] st ex (n + k) g t"
  using assms
proof (induction arbitrary: n s rule: straight.induct)
  case straight_end
  then show ?case using kaspa_goes_refl by auto
next
  case (straight_push d k rest)
  have "kaspa_at (word_of_nat (length d) # d @ rest) st ex n (2 + (2 * k + g)) s"
    using straight_push.prems(1) by (simp add: push_bytes_def)
  from kaspa_push_step [OF this, of L] straight_push obtain t where
    t: "kaspa_goes L s t" "kaspa_at rest st ex (Suc n) (2 * k + g) t" by (auto simp: pushable_def)
  from straight_push.IH [OF t(2)] straight_push.prems t(1) show ?case using kaspa_goes_trans by fastforce
next
  case (straight_op b k rest)
  have "kaspa_at (b # rest) st ex n (2 + (2 * k + g)) s" using straight_op.prems(1) by simp
  from kaspa_skip_step [OF this, of L] straight_op obtain t where
    t: "kaspa_goes L s t" "kaspa_at rest st ex (Suc n) (2 * k + g) t" by auto
  from straight_op.IH [OF t(2)] straight_op.prems t(1) show ?case using kaspa_goes_trans by fastforce
qed

text \<open>\<open>OP_1\<close>, \<open>OP_0\<close> and an \<open>OP_IF\<close> that is never closed.\<close>

definition open_if :: bytes where
  "open_if = [0x51, 0x00, 0x63]"

lemma open_if_run:
  assumes "kaspa_at open_if [] [] 0 (6 + g) s"
  shows "\<exists>t. kaspa_goes L s t \<and> kaspa_at [] [[1]] [False] 3 g t"
proof -
  have n1: "from_i64 1 = [1]"
  proof -
    have "abs_bytes 1 = [1]" by (subst abs_bytes.simps, simp, subst abs_bytes.simps, simp)
    then show ?thesis by (simp add: from_i64_def word_sless_alt Let_def)
  qed
  have "kaspa_at (0x51 # [0x00, 0x63]) [] [] 0 (2 + (4 + g)) s" using assms by (simp add: open_if_def)
  then have "\<exists>t. kaspa_goes L s t \<and> kaspa_at (0x00 # [0x63]) [[1]] [] 1 (2 + (2 + g)) t"
    by (rule kaspa_op_step) (auto simp: step_bytes kaspa_op_def kv_push_num_def kv_push_def kaspa_at_def n1
        MAX_OPS_PER_SCRIPT_def MAX_STACK_SIZE_def MAX_ELEMENT_SIZE_def)
  then obtain t1 where t1: "kaspa_goes L s t1" "kaspa_at (0x00 # [0x63]) [[1]] [] 1 (2 + (2 + g)) t1" by blast
  have "\<exists>t. kaspa_goes L t1 t \<and> kaspa_at (0x63 # []) [[], [1]] [] 2 (2 + g) t"
    by (rule kaspa_op_step [OF t1(2)]) (auto simp: step_bytes kaspa_op_def kv_push_def kaspa_at_def script_empty_def
        MAX_OPS_PER_SCRIPT_def MAX_STACK_SIZE_def MAX_ELEMENT_SIZE_def)
  then obtain t2 where t2: "kaspa_goes L t1 t2" "kaspa_at (0x63 # []) [[], [1]] [] 2 (2 + g) t2" by blast
  have "\<exists>t. kaspa_goes L t2 t \<and> kaspa_at [] [[1]] [False] 3 g t"
    by (rule kaspa_step_at [OF t2(2)]) (auto simp: kaspa_perform_def kaspa_from_byte_def op_if_def outcome_simps kv_pop_def
        kaspa_at_def is_true_def MAX_OPS_PER_SCRIPT_def)
  with t1(1) t2(1) show ?thesis using kaspa_goes_trans by blast
qed

lemma open_if_bypass:
  assumes "straight k body" and "k + 3 \<le> MAX_OPS_PER_SCRIPT" and "length body \<le> MAX_SCRIPT_SIZE"
    and "2 * k + 6 \<le> unat (ec_gas_limit ctx)"
  shows "\<exists>r t. kaspa_execute L (KASPA_MAGIC @ body) open_if (kaspa_new ctx) = Some (Ok r, t) \<and> vr_success r"
proof -
  have "\<exists>s. kaspa_execute L (KASPA_MAGIC @ body) open_if (kaspa_new ctx) = kaspa_main L s
     \<and> kv_script s = body \<and> kaspa_at body [[1]] [False] 3 (2 * k) (s\<lparr>kv_pc := 0\<rparr>)"
    by (rule execute_after_input [OF _ assms(3,4)]) (use open_if_run [of "2 * k"] in \<open>simp_all add: open_if_def add.commute\<close>)
  then obtain s where ex: "kaspa_execute L (KASPA_MAGIC @ body) open_if (kaspa_new ctx) = kaspa_main L s"
    and a: "kaspa_at body [[1]] [False] 3 (2 * k + 0) (s\<lparr>kv_pc := 0\<rparr>)" by auto
  from straight_skipped [OF assms(1) a, of L] assms(2) obtain t where
    t: "kaspa_goes L (s\<lparr>kv_pc := 0\<rparr>) t" "kaspa_at [] [[1]] [False] (3 + k) 0 t" by (auto simp: MAX_STACK_SIZE_def)
  from kaspa_main_ends [OF t] ex show ?thesis by (auto simp: is_true_def)
qed

lemma plain_range: "0x51 \<le> b \<Longrightarrow> b \<le> 0x60 \<Longrightarrow> plain_opcode b"
proof -
  assume b: "0x51 \<le> b" "b \<le> 0x60"
  have "b \<le> 0x61" using b(2) by (rule order_trans) simp
  with b(1) have f: "kaspa_from_byte b = b" by (simp add: kaspa_from_byte_def)
  have "\<not> b \<le> 0x4b"
  proof
    assume "b \<le> 0x4b"
    with b(1) have "(0x51 :: u8) \<le> 0x4b" by (rule order_trans)
    then show False by simp
  qed
  moreover have "b \<notin> {0x4c, 0x4d, 0x4e, 0x61, 0x63, 0x64, 0x67, 0x68}"
  proof
    assume "b \<in> {0x4c, 0x4d, 0x4e, 0x61, 0x63, 0x64, 0x67, 0x68}"
    with b show False by (elim insertE emptyE) (hypsubst, simp)+
  qed
  ultimately show ?thesis using f by (simp add: plain_opcode_def)
qed

lemma plain_count: "0 < unat m \<Longrightarrow> unat m \<le> 16 \<Longrightarrow> plain_opcode (0x50 + m)"
proof (rule plain_range)
  assume m: "0 < unat m" "unat m \<le> 16"
  have "unat (0x50 + m) = 80 + unat m" using m by (simp add: unat_add_no_wrap)
  with m show "0x51 \<le> 0x50 + m" "0x50 + m \<le> 0x60" by (simp_all add: word_le_nat_alt)
qed

lemma straight_templates:
  "pushable h \<Longrightarrow> straight 5 (drop 4 (create_p2pkh_script h))"
  "pushable h \<Longrightarrow> straight 3 (drop 4 (create_p2sh_script h))"
proof -
  assume h: "pushable h"
  have "straight (Suc (Suc (Suc (Suc (Suc 0))))) (0x76 # 0xa9 # (push_bytes h @ (0x88 # 0xac # [])))"
    by (intro straight.intros h step_bytes)
  moreover have "straight (Suc (Suc (Suc 0))) (0xa9 # (push_bytes h @ (0x87 # [])))"
    by (intro straight.intros h step_bytes)
  ultimately show "straight 5 (drop 4 (create_p2pkh_script h))" "straight 3 (drop 4 (create_p2sh_script h))"
    by (simp_all add: create_p2pkh_script_def create_p2sh_script_def KASPA_MAGIC_def push_bytes_def numeral_eq_Suc)
qed

lemma straight_keys: "list_all pushable keys \<Longrightarrow> straight n rest \<Longrightarrow> straight (length keys + n) (concat (map push_bytes keys) @ rest)"
  by (induction keys) (auto intro: straight.intros)

lemma straight_multisig:
  assumes "list_all pushable keys" and "0 < length keys" and "length keys \<le> 16" and "0 < unat m" and "unat m \<le> 16"
  shows "straight (length keys + 3) (drop 4 (create_multisig_script m keys))"
proof -
  have n: "unat (word_of_nat (length keys) :: u8) = length keys" using assms(3) by (simp add: unat_of_nat)
  have "straight 2 [0x50 + word_of_nat (length keys), 0xae]"
    using assms(2,3) n plain_count [of "word_of_nat (length keys)"] byte_multisig
    by (simp add: numeral_2_eq_2 straight.intros)
  from straight_keys [OF assms(1) this] plain_count [OF assms(4,5)]
  have "straight (Suc (length keys + 2)) ((0x50 + m) # concat (map push_bytes keys) @ [0x50 + word_of_nat (length keys), 0xae])"
    by (rule straight.straight_op [rotated])
  then show ?thesis by (simp add: create_multisig_script_def KASPA_MAGIC_def push_bytes_def [abs_def] numeral_3_eq_3)
qed

lemma length_keys: "list_all pushable keys \<Longrightarrow> length (concat (map push_bytes keys)) \<le> 76 * length keys"
  by (induction keys) (auto simp: pushable_def push_bytes_def)

subsection \<open>Compiled data\<close>

lemma op_push_data_run:
  assumes "kaspa_at (lb @ d @ rest) st [] n g s" and "le_nat lb = length d" and "length d \<le> MAX_ELEMENT_SIZE"
    and "length st < MAX_STACK_SIZE"
  shows "\<exists>t. op_push_data (length lb) True s = (Ok (), t) \<and> kaspa_at rest (d # st) [] n g t"
proof -
  have d: "drop (kv_pc s) (kv_script s) = lb @ d @ rest" and pc: "kv_pc s \<le> length (kv_script s)"
    using assms(1) by (simp_all add: kaspa_at_def)
  have len: "length (kv_script s) = kv_pc s + length lb + length d + length rest"
    using arg_cong [OF d, of length] pc by simp
  have "drop (length lb) (drop (kv_pc s) (kv_script s)) = d @ rest"
    "drop (length lb + length d) (drop (kv_pc s) (kv_script s)) = rest" by (simp_all add: d)
  then have drops: "drop (kv_pc s + length lb) (kv_script s) = d @ rest" "drop (kv_pc s + length lb + length d) (kv_script s) = rest"
    by (simp_all add: add.commute add.left_commute)
  let ?t = "s\<lparr>kv_stack := d # st, kv_pc := kv_pc s + length lb + length d\<rparr>"
  let ?s1 = "s\<lparr>kv_pc := kv_pc s + length lb\<rparr>"
  have st: "kv_stack s = st" using assms(1) by (simp add: kaspa_at_def)
  have push: "kv_push_data (length d) ?s1 = (Ok (), ?s1\<lparr>kv_stack := d # st\<rparr>)"
    using assms(3,4) len by (simp add: kv_push_data_def kv_push_def drops(1) st)
  have "thenM (kv_advance (length lb)) (thenM (whenM True (kv_push_data (length d))) (kv_advance (length d))) s = (Ok (), ?t)"
    by (simp add: outcome_simps kv_advance_def push)
  moreover have "le_nat (take (length lb) (drop (kv_pc s) (kv_script s))) = length d"
    by (simp add: d assms(2))
  moreover have "\<not> kv_pc s + length lb > length (kv_script s)" using len by simp
  ultimately have "op_push_data (length lb) True s = (Ok (), ?t)"
    unfolding op_push_data_def by (simp only: Let_def if_False)
  moreover have "kaspa_at rest (d # st) [] n g ?t" using assms(1) len drops(2) by (simp add: kaspa_at_def)
  ultimately show ?thesis by blast
qed

lemma push_encoding_run:
  assumes "length data \<le> MAX_ELEMENT_SIZE" and "compile_push hx [h] = Ok c" and "hex_decode hx h = Inr data"
    and "kaspa_at c [] [] 0 (2 + g) s"
  shows "\<exists>t. kaspa_goes L s t \<and> kaspa_at [] [data] [] 1 g t"
proof -
  let ?n = "length data"
  have n16: "unat (word_of_nat ?n :: u16) = ?n" using assms(1) by (simp add: unat_of_nat MAX_ELEMENT_SIZE_def)
  consider "?n = 0" | "0 < ?n" "?n \<le> 75" | "75 < ?n" "?n \<le> 255" | "255 < ?n" by linarith
  then show ?thesis
  proof cases
    case 1
    then have at: "kaspa_at (0x00 # []) [] [] 0 (2 + g) s" using assms(2-4) by (simp add: compile_push_def)
    have "\<exists>t. kaspa_goes L s t \<and> kaspa_at [] [[]] [] 1 g t"
      by (rule kaspa_op_step [OF at]) (auto simp: step_bytes kaspa_op_def kv_push_def kaspa_at_def script_empty_def
          MAX_OPS_PER_SCRIPT_def MAX_STACK_SIZE_def MAX_ELEMENT_SIZE_def)
    with 1 show ?thesis by simp
  next
    case 2
    then have "c = push_bytes data" using assms(2,3) by (simp add: compile_push_def push_bytes_def)
    with 2 assms(4) push_step [of data "[]" "[]" 0 g s L] show ?thesis by (simp add: pushable_def MAX_OPS_PER_SCRIPT_def)
  next
    case 3
    then have at: "kaspa_at (0x4c # [word_of_nat ?n] @ data @ []) [] [] 0 (2 + g) s"
      using assms(2-4) by (simp add: compile_push_def)
    have "le_nat [word_of_nat ?n] = ?n" using 3 by (simp add: unat_of_nat)
    from op_push_data_run [OF _ this assms(1), of "[]" "[]"] show ?thesis
      by (intro kaspa_step_at [OF at]) (auto simp: kaspa_perform_def kaspa_from_byte_def MAX_OPS_PER_SCRIPT_def MAX_STACK_SIZE_def)
  next
    case 4
    then have at: "kaspa_at (0x4d # le_of_word (word_of_nat ?n :: u16) @ data @ []) [] [] 0 (2 + g) s"
      using assms(2-4) by (simp add: compile_push_def)
    have le: "le_nat (le_of_word (word_of_nat ?n :: u16)) = ?n"
      using n16 assms(1) by (simp add: le_of_word_def le_nat_le_bytes MAX_ELEMENT_SIZE_def)
    from op_push_data_run [OF _ le assms(1), of "[]" "[]"] show ?thesis
      by (intro kaspa_step_at [OF at]) (auto simp: kaspa_perform_def kaspa_from_byte_def MAX_OPS_PER_SCRIPT_def MAX_STACK_SIZE_def)
  qed
qed

lemma str_lines_one: "CHR 0x0A \<notin> set a \<Longrightarrow> a \<noteq> [] \<Longrightarrow> str_lines a = [a]"
  using split_lines_line [of a "[]" "[]"] by (simp add: str_lines_def)

lemma compile_push_line:
  assumes "h \<noteq> []" and "\<forall>c\<in>set h. \<not> is_space c" and "hex_decode hx h = Inr data"
  shows "\<exists>c. compile_push hx [h] = Ok c \<and> compile_kaspa_script hx (''PUSH '' @ h) = Ok (KASPA_MAGIC @ c)"
proof -
  have "CHR 0x0A \<notin> set (''PUSH '' @ h)" using assms(2) not_space_not_nl by auto
  then have l: "str_lines (''PUSH '' @ h) = [''PUSH '' @ h]" by (rule str_lines_one) simp
  have t: "str_trim (''PUSH '' @ h) = ''PUSH '' @ h" using assms(1,2) by (intro str_trim_id) (auto simp: is_space_def)
  have w: "split_whitespace (''PUSH '' @ h) = [''PUSH'', h]"
    using split_words_word [of h "[]" "[]"] assms(1,2) by (simp add: split_whitespace_def is_space_def)
  have u: "str_upper ''PUSH'' = ''PUSH''" by (simp add: str_upper_def)
  have "\<exists>c. compile_push hx [h] = Ok c" using assms(3) by (auto simp: compile_push_def Let_def)
  then obtain c where c: "compile_push hx [h] = Ok c" by blast
  have "kaspa_line hx [''PUSH'', h] = Ok c" using u c by (simp add: kaspa_line_def)
  then have "compile_kaspa_script hx (''PUSH '' @ h) = Ok (KASPA_MAGIC @ c)"
    using l t w by (simp add: compile_kaspa_script_def starts_with_def)
  with c show ?thesis by blast
qed

subsection \<open>Properties\<close>

text \<open>C25: The standard scripts check the hash and nothing else. For any signature bytes, public key
  and hash of 1 to 75 bytes, a pay-to-public-key-hash script is unlocked exactly when the first twenty bytes of the SHA-256 hash
  of the key are the hash (the signature is never checked), and a pay-to-script-hash script
  by any element with the right hash (it is not run as a script).\<close>

theorem standard_scripts_check_the_hash:
  assumes "pushable sig" and "pushable pk" and "pushable h" and "44 \<le> unat (ec_gas_limit ctx)"
  shows "(\<exists>r t. kaspa_execute L (create_p2pkh_script h) (push_bytes sig @ push_bytes pk) (kaspa_new ctx) = Some (Ok r, t)
        \<and> (vr_success r \<longleftrightarrow> take 20 (kl_sha256 L pk) = h))
    \<and> (\<exists>r t. kaspa_execute L (create_p2sh_script h) (push_bytes pk) (kaspa_new ctx) = Some (Ok r, t)
        \<and> (vr_success r \<longleftrightarrow> take 20 (kl_sha256 L pk) = h))"
  using p2pkh_outcome [OF assms] p2sh_outcome [OF assms(2,3)] assms(4) by simp

definition sample_kaspa_lib :: kaspa_lib where
  "sample_kaspa_lib = \<lparr>kl_sha256 = (\<lambda>d. take 32 (d @ replicate 32 0)), kl_sha3_256 = (\<lambda>d. take 32 (d @ replicate 32 0))\<rparr>"

theorem standard_scripts_check_the_hash_witness:
  "\<exists>r t. kaspa_execute sample_kaspa_lib (create_p2pkh_script (7 # replicate 19 0)) (push_bytes [1] @ push_bytes [7])
     (kaspa_new (context_new address_zero address_zero 0 1000)) = Some (Ok r, t) \<and> vr_success r"
proof -
  have "take 20 (kl_sha256 sample_kaspa_lib [7]) = 7 # replicate 19 0"
    by (simp add: sample_kaspa_lib_def numeral_eq_Suc)
  then show ?thesis
    using standard_scripts_check_the_hash [of "[1]" "[7]" "7 # replicate 19 0" "context_new address_zero address_zero 0 1000" sample_kaspa_lib]
    by (auto simp: pushable_def context_new_def)
qed

text \<open>C24: An unlocking script that opens a condition unlocks everything. The three bytes \<open>OP_1\<close>, \<open>OP_0\<close>,
  \<open>OP_IF\<close> leave a true element and a false condition that nobody closes; the whole locking script is then
  skipped and the execution succeeds, for every hash, every set of keys and every threshold of the
  three script templates.\<close>

theorem open_if_unlocks_the_templates:
  assumes "pushable h" and "list_all pushable keys" and "0 < length keys" and "length keys \<le> 16"
    and "0 < unat m" and "unat m \<le> 16" and "44 \<le> unat (ec_gas_limit ctx)"
  shows "\<forall>script \<in> {create_p2pkh_script h, create_p2sh_script h, create_multisig_script m keys}.
    \<exists>r t. kaspa_execute L script open_if (kaspa_new ctx) = Some (Ok r, t) \<and> vr_success r"
proof -
  have go: "\<exists>r t. kaspa_execute L script open_if (kaspa_new ctx) = Some (Ok r, t) \<and> vr_success r"
    if "script = KASPA_MAGIC @ body" "straight k body" "k \<le> 19" "length body \<le> MAX_SCRIPT_SIZE" for script k body
    using open_if_bypass [OF that(2) _ that(4), of ctx L] that(1,3) assms(7) by (simp add: MAX_OPS_PER_SCRIPT_def)
  have form: "create_p2pkh_script h = KASPA_MAGIC @ drop 4 (create_p2pkh_script h)"
    "create_p2sh_script h = KASPA_MAGIC @ drop 4 (create_p2sh_script h)"
    "create_multisig_script m keys = KASPA_MAGIC @ drop 4 (create_multisig_script m keys)"
    by (simp_all add: create_p2pkh_script_def create_p2sh_script_def create_multisig_script_def KASPA_MAGIC_def)
  have "length (concat (map push_bytes keys)) \<le> 76 * 16" using length_keys [OF assms(2)] assms(4) by simp
  then have "length (drop 4 (create_multisig_script m keys)) \<le> MAX_SCRIPT_SIZE"
    by (simp add: create_multisig_script_def KASPA_MAGIC_def MAX_SCRIPT_SIZE_def push_bytes_def [abs_def])
  moreover have "length (drop 4 (create_p2pkh_script h)) \<le> MAX_SCRIPT_SIZE" "length (drop 4 (create_p2sh_script h)) \<le> MAX_SCRIPT_SIZE"
    using assms(1) by (simp_all add: create_p2pkh_script_def create_p2sh_script_def KASPA_MAGIC_def MAX_SCRIPT_SIZE_def pushable_def)
  ultimately show ?thesis
    using go [OF form(1) straight_templates(1) [OF assms(1)]] go [OF form(2) straight_templates(2) [OF assms(1)]]
      go [OF form(3) straight_multisig [OF assms(2-6)]] assms(4) by simp
qed

theorem open_if_unlocks_the_templates_witness:
  "\<exists>r t. kaspa_execute sample_kaspa_lib (create_multisig_script 2 [[1], [2]]) [0x51, 0x00, 0x63]
     (kaspa_new (context_new address_zero address_zero 0 1000)) = Some (Ok r, t) \<and> vr_success r"
  using open_if_unlocks_the_templates [of "[1]" "[[1], [2]]" 2 "context_new address_zero address_zero 0 1000" sample_kaspa_lib]
  by (simp add: pushable_def context_new_def open_if_def)

text \<open>Compiled data is pushed as it was written. For a hexadecimal text that decodes to at most 520 bytes, the line
  that pushes it compiles (with the short, the one-byte or the two-byte form, by the length), and executing the result
  leaves exactly these bytes on the stack; the execution succeeds when they are a true element.\<close>

theorem compiled_push_roundtrip:
  assumes "hex_decode hx h = Inr data" and "length data \<le> MAX_ELEMENT_SIZE" and "h \<noteq> []"
    and "\<forall>c\<in>set h. \<not> is_space c" and "2 \<le> unat (ec_gas_limit ctx)"
  shows "\<exists>code r t. compile_kaspa_script hx (''PUSH '' @ h) = Ok code
    \<and> kaspa_execute L code [] (kaspa_new ctx) = Some (Ok r, t) \<and> (vr_success r \<longleftrightarrow> is_true data)
    \<and> (is_true data \<longrightarrow> vr_return_data r = data)"
proof -
  from compile_push_line [OF assms(3,4,1)] obtain c where c: "compile_push hx [h] = Ok c"
    and code: "compile_kaspa_script hx (''PUSH '' @ h) = Ok (KASPA_MAGIC @ c)" by blast
  let ?s = "(kaspa_new ctx)\<lparr>kv_script := c, kv_pc := 0\<rparr>"
  have "kaspa_at c [] [] 0 (2 + 0) (?s\<lparr>kv_pc := 0\<rparr>)" using kaspa_start [of 2 ctx c] assms(5) by simp
  from push_encoding_run [OF assms(2) c assms(1) this] obtain t where
    t: "kaspa_goes L (?s\<lparr>kv_pc := 0\<rparr>) t" "kaspa_at [] [data] [] 1 0 t" by blast
  have "length c \<le> MAX_SCRIPT_SIZE" using c assms(1,2)
    by (auto simp: compile_push_def Let_def MAX_SCRIPT_SIZE_def MAX_ELEMENT_SIZE_def split: if_splits)
  then have "kaspa_execute L (KASPA_MAGIC @ c) [] (kaspa_new ctx) = kaspa_main L ?s"
    by (simp add: kaspa_execute_def KASPA_MAGIC_def)
  with kaspa_main_ends [OF t] code show ?thesis by auto
qed

definition sample_hex :: hex_codec where
  "sample_hex = \<lparr>hex_encode = (\<lambda>bs. ''2a''), hex_decode = (\<lambda>s. Inr [0x2A])\<rparr>"

theorem compiled_push_roundtrip_witness:
  "\<exists>code r t. compile_kaspa_script sample_hex ''PUSH 2a'' = Ok code
    \<and> kaspa_execute sample_kaspa_lib code [] (kaspa_new (context_new address_zero address_zero 0 1000)) = Some (Ok r, t)
    \<and> vr_success r \<and> vr_return_data r = [0x2A]"
  using compiled_push_roundtrip [of sample_hex "''2a''" "[0x2A]" "context_new address_zero address_zero 0 1000" sample_kaspa_lib]
  by (auto simp: sample_hex_def MAX_ELEMENT_SIZE_def is_space_def context_new_def is_true_def)

end
