(* ===== verification/Fry_AVM.thy ===== *)
theory Fry_AVM
  imports Fry_Gas Fry_Text Fry_Maps
begin

text \<open>
  \<open>frychain-vm/src/avm.rs\<close>: the TEAL machine. The stack is a list whose head is the top
  (the end of the vector in the code); the scratch space, the local state and the call stack
  are never touched by the interpreter and are left out. The program counter is a machine word,
  because jumps compute it modulo \<open>2 ^ 64\<close>. The two hash functions are parameters. The
  lemmas: the machine always returns within its gas, only three opcodes can panic, and what
  the constant block really loads.
\<close>

definition MAX_STACK_DEPTH :: nat where "MAX_STACK_DEPTH = 1000"

datatype stack_value = Uint64 u64 | Bytes bytes

fun as_uint64 :: "stack_value \<Rightarrow> (vm_error, u64) outcome" where
  "as_uint64 (Uint64 v) = Ok v"
| "as_uint64 (Bytes _) = Err (ExecutionError ''Expected uint64, got bytes'')"

fun as_bytes :: "stack_value \<Rightarrow> (vm_error, bytes) outcome" where
  "as_bytes (Bytes b) = Ok b"
| "as_bytes (Uint64 _) = Err (ExecutionError ''Expected bytes, got uint64'')"

fun stack_to_bool :: "stack_value \<Rightarrow> bool" where
  "stack_to_bool (Uint64 v) \<longleftrightarrow> v \<noteq> 0"
| "stack_to_bool (Bytes b) \<longleftrightarrow> b \<noteq> [] \<and> (\<exists>x\<in>set b. x \<noteq> 0)"

record avm_lib =
  al_sha256 :: "bytes \<Rightarrow> bytes"
  al_sha3_256 :: "bytes \<Rightarrow> bytes"

record avm =
  av_stack :: "stack_value list"
  av_pc :: u64
  av_bytecode :: bytes
  av_int_constants :: "u64 list"
  av_byte_constants :: "bytes list"
  av_global_state :: "(bytes \<times> stack_value) list"
  av_gas :: gas_meter
  av_logs :: "vm_log list"
  av_context :: execution_context

type_synonym 'a avm_prog = "(avm, vm_error, 'a) prog"

definition avm_new :: "bytes \<Rightarrow> execution_context \<Rightarrow> avm" where
  "avm_new bytecode ctx = \<lparr>av_stack = [], av_pc = 0, av_bytecode = bytecode, av_int_constants = [],
     av_byte_constants = [], av_global_state = [], av_gas = meter_new (ec_gas_limit ctx), av_logs = [],
     av_context = ctx\<rparr>"

definition avm_charge :: "u64 \<Rightarrow> unit avm_prog" where
  "avm_charge g = (\<lambda>s. case consume g (av_gas s) of (r, m) \<Rightarrow> (map_err gas_to_vm_error r, s\<lparr>av_gas := m\<rparr>))"

definition avm_push :: "stack_value \<Rightarrow> unit avm_prog" where
  "avm_push v = (\<lambda>s. if length (av_stack s) \<ge> MAX_STACK_DEPTH then (Err StackOverflow, s)
                      else (Ok (), s\<lparr>av_stack := v # av_stack s\<rparr>))"

definition avm_pop :: "stack_value avm_prog" where
  "avm_pop = (\<lambda>s. case av_stack s of [] \<Rightarrow> (Err StackUnderflow, s) | v # vs \<Rightarrow> (Ok v, s\<lparr>av_stack := vs\<rparr>))"

definition avm_advance :: "u64 \<Rightarrow> unit avm_prog" where
  "avm_advance n = modify (\<lambda>s. s\<lparr>av_pc := av_pc s + n\<rparr>)"

definition avm_pop_u64 :: "u64 avm_prog" where
  "avm_pop_u64 = bindM avm_pop (\<lambda>v. lift_out (as_uint64 v))"

definition avm_pop_bytes :: "bytes avm_prog" where
  "avm_pop_bytes = bindM avm_pop (\<lambda>v. lift_out (as_bytes v))"

definition avm_pop_bool :: "bool avm_prog" where
  "avm_pop_bool = bindM avm_pop (\<lambda>v. ret (stack_to_bool v))"

text \<open>\<open>read_varuint\<close>: the value and the number of bytes it takes.\<close>

function varuint_loop :: "bytes \<Rightarrow> nat \<Rightarrow> u64 \<Rightarrow> nat \<Rightarrow> nat \<Rightarrow> (vm_error, u64 \<times> nat) outcome" where
  "varuint_loop code pc result shift bytes_read =
     (if pc + bytes_read \<ge> length code then Err (ExecutionError ''Unexpected end of bytecode'')
      else
        let byte = code ! (pc + bytes_read);
            result' = result OR push_bit shift (ucast (byte AND 0x7F))
        in if byte AND 0x80 = 0 then Ok (result', bytes_read + 1)
           else if shift + 7 > 63 then Err (ExecutionError ''Varuint too large'')
           else varuint_loop code pc result' (shift + 7) (bytes_read + 1))"
  by pat_completeness auto

termination
  by (relation "measure (\<lambda>(code, pc, result, shift, bytes_read). 64 - shift)") auto

declare varuint_loop.simps [simp del]

definition read_varuint :: "(u64 \<times> nat) avm_prog" where
  "read_varuint = (\<lambda>s. (varuint_loop (av_bytecode s) (unat (av_pc s)) 0 0 0, s))"

definition read_i16 :: "i16 avm_prog" where
  "read_i16 = (\<lambda>s. let pc = unat (av_pc s); code = av_bytecode s in
     if pc + 2 > length code then (Err (ExecutionError ''Unexpected end of bytecode''), s)
     else (Ok (word_of_nat (be_nat [code ! pc, code ! (pc + 1)])), s\<lparr>av_pc := av_pc s + 2\<rparr>))"

text \<open>\<open>self.bytecode[self.pc]\<close> as an immediate operand; \<open>Panic\<close> past the end.\<close>

definition avm_immediate :: "u8 avm_prog" where
  "avm_immediate = (\<lambda>s. if unat (av_pc s) < length (av_bytecode s)
     then (Ok (av_bytecode s ! unat (av_pc s)), s\<lparr>av_pc := av_pc s + 1\<rparr>) else (Panic, s))"

subsection \<open>The instructions\<close>

fun intc_loop :: "nat \<Rightarrow> unit avm_prog" where
  "intc_loop 0 = ret ()"
| "intc_loop (Suc n) = bindM read_varuint (\<lambda>(v, br).
     thenM (modify (\<lambda>s. s\<lparr>av_int_constants := av_int_constants s @ [v], av_pc := av_pc s + word_of_nat br\<rparr>))
       (intc_loop n))"

definition op_intcblock :: "unit avm_prog" where
  "op_intcblock = bindM read_varuint (\<lambda>(count, bytes_read).
     thenM (intc_loop (unat count)) (avm_advance (word_of_nat bytes_read)))"

text \<open>\<open>self.bytecode[self.pc..self.pc + len]\<close>, where the addition wraps.\<close>

definition avm_take_bytes :: "u64 \<Rightarrow> unit avm_prog" where
  "avm_take_bytes len = (\<lambda>s.
     case slice (av_bytecode s) (unat (av_pc s)) (unat (av_pc s + len)) of
       None \<Rightarrow> (Panic, s)
     | Some b \<Rightarrow> (Ok (), s\<lparr>av_byte_constants := av_byte_constants s @ [b], av_pc := av_pc s + len\<rparr>))"

fun bytec_loop :: "nat \<Rightarrow> unit avm_prog" where
  "bytec_loop 0 = ret ()"
| "bytec_loop (Suc n) = bindM read_varuint (\<lambda>(len, br).
     thenM (avm_advance (word_of_nat br)) (thenM (avm_take_bytes len) (bytec_loop n)))"

definition op_bytecblock :: "unit avm_prog" where
  "op_bytecblock = bindM read_varuint (\<lambda>(count, bytes_read).
     thenM (avm_advance (word_of_nat bytes_read)) (bytec_loop (unat count)))"

text \<open>\<open>constants.get(idx)\<close> with its default.\<close>

definition push_intc :: "nat \<Rightarrow> unit avm_prog" where
  "push_intc idx = bindM (gets av_int_constants) (\<lambda>cs.
     avm_push (Uint64 (if idx < length cs then cs ! idx else 0)))"

definition push_bytec :: "nat \<Rightarrow> unit avm_prog" where
  "push_bytec idx = bindM (gets av_byte_constants) (\<lambda>cs.
     avm_push (Bytes (if idx < length cs then cs ! idx else [])))"

definition op_arith :: "(u64 \<Rightarrow> u64 \<Rightarrow> u64) \<Rightarrow> unit avm_prog" where
  "op_arith f = bindM avm_pop_u64 (\<lambda>b. bindM avm_pop_u64 (\<lambda>a. avm_push (Uint64 (f a b))))"

definition op_divide :: "string \<Rightarrow> (u64 \<Rightarrow> u64 \<Rightarrow> u64) \<Rightarrow> unit avm_prog" where
  "op_divide msg f = bindM avm_pop_u64 (\<lambda>b. bindM avm_pop_u64 (\<lambda>a.
     if b = 0 then fail (ExecutionError msg) else avm_push (Uint64 (f a b))))"

definition op_logic :: "(bool \<Rightarrow> bool \<Rightarrow> bool) \<Rightarrow> unit avm_prog" where
  "op_logic f = bindM avm_pop_bool (\<lambda>b. bindM avm_pop_bool (\<lambda>a. avm_push (Uint64 (if f a b then 1 else 0))))"

definition op_not :: "unit avm_prog" where
  "op_not = bindM avm_pop_bool (\<lambda>a. avm_push (Uint64 (if a then 0 else 1)))"

definition op_eq :: "unit avm_prog" where
  "op_eq = bindM avm_pop_u64 (\<lambda>b. bindM avm_pop_u64 (\<lambda>a. avm_push (Uint64 (if a = b then 1 else 0))))"

definition op_dup :: "unit avm_prog" where
  "op_dup = bindM (gets av_stack) (\<lambda>st. case st of [] \<Rightarrow> fail StackUnderflow | v # _ \<Rightarrow> avm_push v)"

definition op_swap :: "unit avm_prog" where
  "op_swap = bindM (gets av_stack) (\<lambda>st. case st of
     b # a # rest \<Rightarrow> modify (\<lambda>s. s\<lparr>av_stack := a # b # rest\<rparr>)
   | _ \<Rightarrow> fail StackUnderflow)"

definition op_assert :: "unit avm_prog" where
  "op_assert = bindM avm_pop_bool (\<lambda>v. if \<not> v then fail (ExecutionError ''Assertion failed'') else ret ())"

definition avm_jump :: "i16 \<Rightarrow> unit avm_prog" where
  "avm_jump offset = avm_advance (scast offset)"

definition op_branch :: "bool \<Rightarrow> unit avm_prog" where
  "op_branch on = bindM read_i16 (\<lambda>offset. bindM avm_pop_bool (\<lambda>cond. whenM (cond = on) (avm_jump offset)))"

definition op_hash :: "(bytes \<Rightarrow> bytes) \<Rightarrow> unit avm_prog" where
  "op_hash h = thenM (avm_charge GAS_SHA3_BASE) (bindM avm_pop_bytes (\<lambda>data.
     thenM (avm_charge (GAS_SHA3_WORD * ((word_of_nat (length data) + 31) div 32)))
       (avm_push (Bytes (h data)))))"

definition op_global_get :: "unit avm_prog" where
  "op_global_get = thenM (avm_charge GAS_SLOAD) (bindM avm_pop_bytes (\<lambda>key.
     bindM (gets av_global_state) (\<lambda>g.
       avm_push (case map_of g key of None \<Rightarrow> Uint64 0 | Some v \<Rightarrow> v))))"

definition op_global_put :: "unit avm_prog" where
  "op_global_put = thenM (avm_charge GAS_SSTORE_SET) (bindM avm_pop (\<lambda>v. bindM avm_pop_bytes (\<lambda>key.
     modify (\<lambda>s. s\<lparr>av_global_state := AList.update key v (av_global_state s)\<rparr>))))"

definition op_log :: "unit avm_prog" where
  "op_log = thenM (avm_charge GAS_LOG) (bindM avm_pop_bytes (\<lambda>data.
     thenM (avm_charge (GAS_LOG_DATA * word_of_nat (length data)))
       (modify (\<lambda>s. s\<lparr>av_logs := av_logs s @
          [\<lparr>vl_address = ec_address (av_context s), vl_topics = [], vl_data = data\<rparr>]\<rparr>))))"

definition op_len :: "unit avm_prog" where
  "op_len = bindM avm_pop_bytes (\<lambda>b. avm_push (Uint64 (word_of_nat (length b))))"

definition op_concat :: "unit avm_prog" where
  "op_concat = bindM avm_pop_bytes (\<lambda>b. bindM avm_pop_bytes (\<lambda>a. avm_push (Bytes (a @ b))))"

subsection \<open>The interpreter\<close>

definition avm_dispatch :: "avm_lib \<Rightarrow> u8 \<Rightarrow> bool avm_prog" where
  "avm_dispatch L op =
     (let go = (\<lambda>m. thenM m (ret True)) in
      if op = 0x20 then go op_intcblock
      else if op = 0x21 then go op_bytecblock
      else if op = 0x22 then go (bindM avm_immediate (\<lambda>i. push_intc (unat i)))
      else if op = 0x23 then go (bindM avm_immediate (\<lambda>i. push_bytec (unat i)))
      else if 0x24 \<le> op \<and> op \<le> 0x27 then go (push_intc (unat (op - 0x24)))
      else if 0x28 \<le> op \<and> op \<le> 0x2B then go (push_bytec (unat (op - 0x28)))
      else if op = 0x08 then go (op_arith (+))
      else if op = 0x09 then go (op_arith (-))
      else if op = 0x0A then go (op_divide ''Division by zero'' (div))
      else if op = 0x0B then go (op_arith (*))
      else if op = 0x0C then go (op_divide ''Modulo by zero'' (mod))
      else if op = 0x10 then go (op_logic (\<and>))
      else if op = 0x11 then go (op_logic (\<or>))
      else if op = 0x12 then go op_not
      else if op = 0x13 then go op_eq
      else if op = 0x48 then go op_dup
      else if op = 0x4A then thenM avm_pop (ret True)
      else if op = 0x4F then go op_swap
      else if op = 0x00 then fail (ExecutionError ''Explicit error'')
      else if op = 0x43 then ret False
      else if op = 0x44 then go op_assert
      else if op = 0x40 then go (op_branch True)
      else if op = 0x41 then go (op_branch False)
      else if op = 0x42 then go (bindM read_i16 avm_jump)
      else if op = 0x01 then go (op_hash (al_sha256 L))
      else if op = 0x02 \<or> op = 0x03 then go (op_hash (al_sha3_256 L))
      else if op = 0x60 then go op_global_get
      else if op = 0x61 then go op_global_put
      else if op = 0xB0 then go op_log
      else if op = 0x50 then go op_len
      else if op = 0x51 then go op_concat
      else fail (InvalidOpcode op))"

text \<open>The opcode is read, the counter advanced and the base gas charged.\<close>

definition avm_fetch :: "u8 avm_prog" where
  "avm_fetch = bindM avm_immediate (\<lambda>op. thenM (avm_charge GAS_BASE) (ret op))"

definition avm_step :: "avm_lib \<Rightarrow> bool avm_prog" where
  "avm_step L = bindM avm_fetch (avm_dispatch L)"

definition avm_halted :: "avm \<Rightarrow> bool" where
  "avm_halted s \<longleftrightarrow> unat (av_pc s) \<ge> length (av_bytecode s)"

fun stack_bytes :: "stack_value \<Rightarrow> bytes" where
  "stack_bytes (Uint64 n) = le_of_word n"
| "stack_bytes (Bytes b) = b"

definition avm_result :: "avm \<Rightarrow> vm_result" where
  "avm_result s =
     (case av_stack s of
        [] \<Rightarrow> (vm_success (gm_used (av_gas s)) [])\<lparr>vr_success := False, vr_logs := av_logs s\<rparr>
      | v # _ \<Rightarrow> (vm_success (gm_used (av_gas s)) (stack_bytes v))
                     \<lparr>vr_success := stack_to_bool v, vr_logs := av_logs s\<rparr>)"

text \<open>\<open>execute\<close>: \<open>None\<close> when the loop does not return.\<close>

definition avm_execute :: "avm_lib \<Rightarrow> avm \<Rightarrow> (vm_error, vm_result) outcome option" where
  "avm_execute L s =
     (if av_bytecode s = [] then Some (Ok (vm_failure 0 ''Empty bytecode''))
      else let version = av_bytecode s ! 0 in
        if version > 10 then Some (Ok (vm_failure 0 (''Unsupported TEAL version: '' @ show_word version)))
        else (case vm_loop avm_halted (avm_step L) (s\<lparr>av_pc := 1\<rparr>) of
            None \<Rightarrow> None
          | Some (Ok _, s') \<Rightarrow> Some (Ok (avm_result s'))
          | Some (Err e, s') \<Rightarrow> Some (Ok (vm_failure (gm_used (av_gas s')) (vm_error_text e)))
          | Some (Panic, _) \<Rightarrow> Some Panic))"

subsection \<open>The compiler\<close>

function varuint_bytes :: "u64 \<Rightarrow> bytes" where
  "varuint_bytes v =
     (let low = ucast (v AND 0x7F) :: u8; v' = drop_bit 7 v
      in if v' = 0 then [low] else (low OR 0x80) # varuint_bytes v')"
  by pat_completeness auto

termination
proof (relation "measure unat")
  show "wf (measure (unat :: u64 \<Rightarrow> nat))" by simp
next
  fix v low v' :: u64
  assume "v' = drop_bit 7 v" "v' \<noteq> 0"
  then show "(v', v) \<in> measure unat" by (cases "unat v") (auto simp: unat_shr word_unat_eq_iff)
qed

declare varuint_bytes.simps [simp del]

definition compile_line :: "string list \<Rightarrow> (string, bytes) outcome" where
  "compile_line parts =
     (case parts of
        [] \<Rightarrow> Ok []
      | w # args \<Rightarrow>
          if w = ''int'' then
            (case args of
               [] \<Rightarrow> Err ''int requires a value''
             | a # _ \<Rightarrow> bindR (map_err (\<lambda>e. ''Invalid int: '' @ e) (parse_u64 a)) (\<lambda>val.
                 Ok ([0x20, 1] @ varuint_bytes val @ [0x22, 0])))
          else if w = ''+'' then Ok [0x08]
          else if w = ''-'' then Ok [0x09]
          else if w = ''*'' then Ok [0x0B]
          else if w = ''/'' then Ok [0x0A]
          else if w = ''return'' then Ok [0x43]
          else Err (''Unknown opcode: '' @ w))"

fun compile_lines :: "string list \<Rightarrow> (string, bytes) outcome" where
  "compile_lines [] = Ok []"
| "compile_lines (l # ls) =
     (let line = str_trim l in
      bindR (if line = [] \<or> starts_with ''//'' line then Ok [] else compile_line (split_whitespace line)) (\<lambda>b.
      bindR (compile_lines ls) (\<lambda>rest. Ok (b @ rest))))"

definition compile_simple_teal :: "string \<Rightarrow> (string, bytes) outcome" where
  "compile_simple_teal source = bindR (compile_lines (str_lines source)) (\<lambda>code. Ok (6 # code))"

subsection \<open>Gas and stack\<close>

text \<open>What every operation keeps: the code and the context, a meter that moves forward, and
  the bound of the stack.\<close>

definition avm_forward :: "avm \<Rightarrow> avm \<Rightarrow> bool" where
  "avm_forward s t \<longleftrightarrow> meter_le (av_gas s) (av_gas t) \<and> av_bytecode t = av_bytecode s
     \<and> av_context t = av_context s
     \<and> (length (av_stack s) \<le> MAX_STACK_DEPTH \<longrightarrow> length (av_stack t) \<le> MAX_STACK_DEPTH)"

interpretation avf: step_frame avm_forward
  by unfold_locales (auto simp: avm_forward_def intro: meter_le_trans)

lemma avm_forward_refl [simp]: "avm_forward s s"
  by (simp add: avm_forward_def)

lemma avm_forward_basic:
  "keeps avm_forward (avm_charge g)" "keeps avm_forward (avm_push v)" "keeps avm_forward avm_pop"
  "keeps avm_forward (avm_advance n)" "keeps avm_forward read_varuint" "keeps avm_forward read_i16"
  "keeps avm_forward avm_immediate" "keeps avm_forward (avm_take_bytes n)"
  by (auto simp: keeps_def avm_forward_def avm_charge_def avm_push_def avm_pop_def avm_advance_def read_varuint_def
    read_i16_def avm_immediate_def avm_take_bytes_def modify_def Let_def dest: consume_forward
    split: list.splits option.splits prod.splits)

lemma avm_forward_modify:
  "(\<And>s. av_gas (f s) = av_gas s \<and> av_bytecode (f s) = av_bytecode s \<and> av_context (f s) = av_context s
     \<and> av_stack (f s) = av_stack s) \<Longrightarrow> keeps avm_forward (modify f)"
  by (rule keeps_modify) (simp add: avm_forward_def)

lemmas avm_forward_intros = avf.frame_rules avm_forward_basic

lemma avm_forward_loops: "keeps avm_forward (intc_loop n)" "keeps avm_forward (bytec_loop n)"
  by (induction n) (auto intro!: avm_forward_intros avm_forward_modify)

lemma avm_forward_swap: "keeps avm_forward op_swap"
  by (auto simp: keeps_def op_swap_def outcome_simps avm_forward_def split: list.splits)

lemmas avm_op_defs = op_intcblock_def op_bytecblock_def push_intc_def push_bytec_def op_arith_def op_divide_def
  op_logic_def op_not_def op_eq_def op_dup_def op_assert_def op_branch_def avm_jump_def op_hash_def
  op_global_get_def op_global_put_def op_log_def op_len_def op_concat_def avm_pop_u64_def avm_pop_bytes_def
  avm_pop_bool_def

lemma avm_forward_dispatch: "keeps avm_forward (avm_dispatch L op)"
  unfolding avm_dispatch_def Let_def avm_op_defs
  by (intro avm_forward_intros avm_forward_loops avm_forward_swap avm_forward_modify) simp_all

lemma avm_forward_fetch: "keeps avm_forward avm_fetch"
  unfolding avm_fetch_def by (intro avm_forward_intros)

lemma avm_fetch_pays:
  assumes "meter_ok (av_gas s)" and "avm_fetch s = (Ok x, s')"
  shows "gas_budget (av_gas s') < gas_budget (av_gas s)"
proof -
  obtain m where c: "consume GAS_BASE (av_gas s) = (Ok (), m)" and "av_gas s' = m"
    using assms(2) by (auto simp: avm_fetch_def avm_immediate_def avm_charge_def outcome_simps
        split: if_splits outcome.splits prod.splits elim: map_err.elims)
  with consume_budget [OF c assms(1)] show ?thesis by (simp add: GAS_BASE_def)
qed

interpretation avm: gas_machine avm_halted av_gas avm_fetch "avm_dispatch L" for L
  by unfold_locales
     (auto intro: avm_fetch_pays keeps_mono [OF avm_forward_fetch] keeps_mono [OF avm_forward_dispatch]
       simp: avm_forward_def)

subsection \<open>Panics\<close>

lemma map_err_Panic_iff: "map_err f r = Panic \<longleftrightarrow> r = Panic"
  by (cases r) simp_all

lemma varuint_loop_no_panic: "varuint_loop code pc result shift n \<noteq> Panic"
  by (induction code pc result shift n rule: varuint_loop.induct)
     (subst varuint_loop.simps, simp add: Let_def)

lemma avm_never_panics_basic [np_intros]:
  "never_panics (avm_charge g)" "never_panics (avm_push v)" "never_panics avm_pop" "never_panics (avm_advance n)"
  "never_panics read_varuint" "never_panics read_i16"
  using consume_not_Panic [of g]
  by (auto simp: never_panics_def avm_charge_def avm_push_def avm_pop_def avm_advance_def read_varuint_def
      varuint_loop_no_panic read_i16_def modify_def Let_def map_err_Panic_iff split: list.splits prod.splits)
     (metis fst_conv)

lemma as_value_no_panic: "as_uint64 v \<noteq> Panic" "as_bytes v \<noteq> Panic"
  by (cases v; simp)+

lemma avm_never_panics_intc [np_intros]: "never_panics (intc_loop n)"
  by (induction n) (auto intro!: np_intros)

lemma avm_dispatch_never_panics: "op \<notin> {0x21, 0x22, 0x23} \<Longrightarrow> never_panics (avm_dispatch L op)"
  unfolding avm_dispatch_def Let_def avm_op_defs op_swap_def
  by (intro np_intros as_value_no_panic) simp_all

lemma avm_step_panics:
  assumes "fst (avm_step L s) = Panic" and "\<not> avm_halted s"
  shows "\<exists>op\<in>set (av_bytecode s). op \<in> {0x21, 0x22, 0x23}"
proof -
  let ?op = "av_bytecode s ! unat (av_pc s)"
  have "?op \<in> set (av_bytecode s)" using assms(2) by (simp add: avm_halted_def)
  moreover have "?op \<in> {0x21, 0x22, 0x23}"
  proof (rule ccontr)
    assume "?op \<notin> {0x21, 0x22, 0x23}"
    then have "never_panics (avm_dispatch L ?op)" by (rule avm_dispatch_never_panics)
    moreover have "never_panics (avm_charge GAS_BASE)" by (intro np_intros)
    ultimately show False using assms
      by (auto simp: avm_step_def avm_fetch_def avm_immediate_def avm_halted_def outcome_simps never_panics_def
          split: outcome.splits)
  qed
  ultimately show ?thesis by blast
qed

lemma avm_loop_result:
  assumes "meter_ok (av_gas s)" and "length (av_stack s) \<le> MAX_STACK_DEPTH"
  shows "\<exists>r s'. vm_loop avm_halted (avm_step L) s = Some (r, s') \<and> avm_forward s s' \<and> meter_ok (av_gas s')
    \<and> (r = Panic \<longrightarrow> (\<exists>op\<in>set (av_bytecode s). op \<in> {0x21, 0x22, 0x23}))"
proof -
  obtain r s' where run: "vm_loop avm_halted (avm_step L) s = Some (r, s')" and ok: "meter_ok (av_gas s')"
    using avm.loop_returns [OF assms(1), of L] by (auto simp: avm_step_def)
  have "keeps avm_forward (avm_step L)"
    unfolding avm_step_def by (rule avf.keeps_bindM [OF avm_forward_fetch avm_forward_dispatch])
  then have st: "avm_forward s t'" if "avm_forward s t" "avm_step L t = (r', t')" for t r' t'
    using that avf.R_trans keepsD by metis
  have "avm_forward s s' \<and> (r = Ok () \<or> (\<exists>t. avm_forward s t \<and> \<not> avm_halted t \<and> step_fails (avm_step L) t r))"
    by (rule vm_loop_keeps [OF run]) (auto intro: st)
  then have keep: "avm_forward s s'"
    and fail: "r = Ok () \<or> (\<exists>t. avm_forward s t \<and> \<not> avm_halted t \<and> step_fails (avm_step L) t r)" by blast+
  have "\<exists>op\<in>set (av_bytecode s). op \<in> {0x21, 0x22, 0x23}" if "r = Panic"
    using fail that avm_step_panics by (fastforce simp: step_fails_def avm_forward_def split: outcome.splits)
  with run keep ok show ?thesis by blast
qed

subsection \<open>The constant block\<close>

lemma byte_low_bits:
  assumes "(b :: u8) < 0x80"
  shows "b AND 0x80 = 0" and "b AND 0x7F = b"
proof -
  have lt: "unat b < 2 ^ 7" using assms by (simp add: word_less_nat_alt)
  have m: "(0x7F :: u8) = mask 7" by (simp add: mask_eq_exp_minus_1)
  show "b AND 0x7F = b"
    unfolding m take_bit_eq_mask [symmetric] using lt by (simp add: word_unat_eq_iff unsigned_take_bit_eq take_bit_nat_eq_self)
  then have "b AND 0x80 = (b AND 0x7F) AND 0x80" by simp
  also have "\<dots> = b AND (0x7F AND 0x80)" by (simp only: and.assoc)
  finally show "b AND 0x80 = 0" by simp
qed

lemma read_varuint_small:
  assumes "unat (av_pc s) < length (av_bytecode s)" and "av_bytecode s ! unat (av_pc s) < 0x80"
  shows "read_varuint s = (Ok (ucast (av_bytecode s ! unat (av_pc s)), 1), s)"
  using assms by (simp add: read_varuint_def varuint_loop.simps Let_def byte_low_bits)

lemma unat_pc_add:
  assumes "unat (pc :: u64) + k \<le> n" and "n < 2 ^ 64"
  shows "unat (pc + word_of_nat k) = unat pc + k"
proof -
  have "unat (word_of_nat k :: u64) = k" using assms by (simp add: unat_of_nat)
  then show ?thesis using assms by (simp add: unat_add_no_wrap)
qed

lemma intc_loop_small:
  assumes "unat (av_pc s) + k \<le> length (av_bytecode s)" and "length (av_bytecode s) < 2 ^ 64"
    and "\<forall>b\<in>set (take k (drop (unat (av_pc s)) (av_bytecode s))). b < 0x80"
  shows "intc_loop k s = (Ok (), s\<lparr>av_int_constants := av_int_constants s
      @ map ucast (take k (drop (unat (av_pc s)) (av_bytecode s))), av_pc := av_pc s + word_of_nat k\<rparr>)"
  using assms
proof (induction k arbitrary: s)
  case 0
  then show ?case by (cases s) (simp add: outcome_simps)
next
  case (Suc k)
  let ?pc = "unat (av_pc s)" and ?code = "av_bytecode s"
  have d: "drop ?pc ?code = ?code ! ?pc # drop (Suc ?pc) ?code"
    using Suc.prems(1) by (simp add: Cons_nth_drop_Suc)
  with Suc.prems(3) have b: "?code ! ?pc < 0x80" by simp
  let ?s1 = "s\<lparr>av_int_constants := av_int_constants s @ [ucast (?code ! ?pc)], av_pc := av_pc s + 1\<rparr>"
  have pc1: "unat (av_pc s + 1) = Suc ?pc"
    using unat_pc_add [of "av_pc s" 1 "length (av_bytecode s)"] Suc.prems(1,2) by simp
  have "intc_loop k ?s1 = (Ok (), ?s1\<lparr>av_int_constants := av_int_constants ?s1
      @ map ucast (take k (drop (unat (av_pc ?s1)) (av_bytecode ?s1))), av_pc := av_pc ?s1 + word_of_nat k\<rparr>)"
    using Suc.prems d by (intro Suc.IH) (auto simp: pc1)
  moreover have "intc_loop (Suc k) s = intc_loop k ?s1"
    using read_varuint_small [OF _ b] Suc.prems(1) by (simp add: outcome_simps)
  ultimately show ?case by (simp add: pc1 d add.assoc)
qed

lemma op_intcblock_small:
  assumes "unat (av_pc s) < length (av_bytecode s)"
    and "n = av_bytecode s ! unat (av_pc s)" and "unat (av_pc s) + unat n < length (av_bytecode s)"
    and "length (av_bytecode s) < 2 ^ 64"
    and "\<forall>b\<in>set (take (Suc (unat n)) (drop (unat (av_pc s)) (av_bytecode s))). b < 0x80"
  shows "op_intcblock s = (Ok (), s\<lparr>av_int_constants := av_int_constants s
      @ map ucast (take (unat n) (drop (unat (av_pc s)) (av_bytecode s))), av_pc := av_pc s + ucast n + 1\<rparr>)"
proof -
  have d: "drop (unat (av_pc s)) (av_bytecode s) = n # drop (Suc (unat (av_pc s))) (av_bytecode s)"
    using assms(1,2) by (simp add: Cons_nth_drop_Suc)
  with assms(5) have "n < 0x80" by simp
  then have rv: "read_varuint s = (Ok (ucast n, 1), s)" using read_varuint_small [OF assms(1)] assms(2) by simp
  have un: "unat (ucast n :: u64) = unat n" by simp
  have "set (take (unat n) (drop (unat (av_pc s)) (av_bytecode s)))
      \<subseteq> set (take (Suc (unat n)) (drop (unat (av_pc s)) (av_bytecode s)))"
    by (rule set_take_subset_set_take) simp
  with assms(5) have small: "\<forall>b\<in>set (take (unat n) (drop (unat (av_pc s)) (av_bytecode s))). b < 0x80" by blast
  from intc_loop_small [OF _ assms(4) small] assms(3)
  have "intc_loop (unat n) s = (Ok (), s\<lparr>av_int_constants := av_int_constants s
      @ map ucast (take (unat n) (drop (unat (av_pc s)) (av_bytecode s))), av_pc := av_pc s + word_of_nat (unat n)\<rparr>)"
    by simp
  moreover have "(word_of_nat (unat n) :: u64) = ucast n" by (simp add: word_unat_eq_iff un unat_of_nat)
  ultimately show ?thesis
    by (simp add: op_intcblock_def outcome_simps rv un avm_advance_def add.assoc)
qed

lemma varuint_small: "unat (v :: u64) < 128 \<Longrightarrow> varuint_bytes v = [ucast v]"
proof -
  assume v: "unat v < 128"
  have "drop_bit 7 v = 0" using v by (simp add: word_unat_eq_iff unat_shr)
  moreover have "v AND 0x7F = v"
  proof -
    have m: "(0x7F :: u64) = mask 7" by (simp add: mask_eq_exp_minus_1)
    show ?thesis unfolding m take_bit_eq_mask [symmetric] using v
      by (simp add: word_unat_eq_iff unsigned_take_bit_eq take_bit_nat_eq_self)
  qed
  ultimately show ?thesis by (subst varuint_bytes.simps) (simp add: Let_def)
qed

lemma compile_int_return:
  assumes "unat (v :: u64) < 128"
  shows "compile_simple_teal (''int '' @ show_word v @ [CHR 0x0A] @ ''return'') = Ok [6, 0x20, 1, ucast v, 0x22, 0, 0x43]"
proof -
  let ?n = "show_word v"
  have nl: "CHR 0x0A \<notin> set (''int '' @ ?n)" "last (''int '' @ ?n) \<noteq> CHR 0x0D" "\<not> is_space (last (''int '' @ ?n))"
    using show_word_chars [of v] not_space_not_nl by (auto simp: last_append dest!: last_in_set)
  have "str_lines ((''int '' @ ?n) @ [CHR 0x0A] @ ''return'') = [''int '' @ ?n, ''return'']"
    by (rule str_lines_two) (use nl in auto)
  moreover have "str_trim (''int '' @ ?n) = ''int '' @ ?n" using nl(3) by (intro str_trim_id) (auto simp: is_space_def)
  moreover have "str_trim ''return'' = ''return''" by (rule str_trim_id) (auto simp: is_space_def)
  moreover have "split_whitespace (''int '' @ ?n) = [''int'', ?n]"
    using split_words_word [of ?n "[]" "[]"] show_word_chars [of v] by (simp add: split_whitespace_def is_space_def)
  moreover have "split_whitespace ''return'' = [''return'']" by (simp add: split_whitespace_def is_space_def)
  ultimately show ?thesis using assms
    by (simp add: compile_simple_teal_def compile_line_def starts_with_def parse_u64_show_word varuint_small)
qed

lemma avm_step_at:
  assumes "unat (av_pc s) < length (av_bytecode s)" and "unat (gm_used (av_gas s)) + 2 \<le> unat (gm_limit (av_gas s))"
  shows "avm_step L s = avm_dispatch L (av_bytecode s ! unat (av_pc s))
     (s\<lparr>av_pc := av_pc s + 1, av_gas := (av_gas s)\<lparr>gm_used := gm_used (av_gas s) + 2\<rparr>\<rparr>)"
  using consume_fits [of "av_gas s" 2] assms
  by (simp add: avm_step_def avm_fetch_def avm_immediate_def avm_charge_def outcome_simps GAS_BASE_def)

lemma run_int_return:
  assumes b: "b < 0x80" and gas: "6 \<le> ec_gas_limit ctx"
  shows "\<exists>r. avm_execute L (avm_new [6, 0x20, 1, b, 0x22, 0, 0x43] ctx) = Some (Ok r)
    \<and> vr_success r \<and> vr_return_data r = le_of_word (1 :: u64)"
proof -
  let ?code = "[6, 0x20, 1, b, 0x22, 0, 0x43] :: bytes"
  define st where "st = (\<lambda>pc used stack consts. \<lparr>av_stack = stack, av_pc = pc, av_bytecode = ?code,
    av_int_constants = consts, av_byte_constants = [], av_global_state = [],
    av_gas = \<lparr>gm_limit = ec_gas_limit ctx, gm_used = used, gm_refund = 0\<rparr>, av_logs = [], av_context = ctx\<rparr>)"
  have lim: "6 \<le> unat (ec_gas_limit ctx)" using gas by (simp add: word_le_nat_alt)
  have blk: "op_intcblock (st 2 2 [] []) = (Ok (), st 4 2 [] [1])"
    using op_intcblock_small [of "st 2 2 [] []" 1] b by (simp add: st_def)
  have s1: "avm_step L (st 1 0 [] []) = (Ok True, st 4 2 [] [1])"
    using avm_step_at [of "st 1 0 [] []" L] lim blk by (simp add: avm_dispatch_def outcome_simps st_def)
  have s2: "avm_step L (st 4 2 [] [1]) = (Ok True, st 6 4 [Uint64 1] [1])"
    using avm_step_at [of "st 4 2 [] [1]" L] lim
    by (simp add: avm_dispatch_def outcome_simps st_def avm_immediate_def push_intc_def avm_push_def MAX_STACK_DEPTH_def)
  have s3: "avm_step L (st 6 4 [Uint64 1] [1]) = (Ok False, st 7 6 [Uint64 1] [1])"
    using avm_step_at [of "st 6 4 [Uint64 1] [1]" L] lim by (simp add: avm_dispatch_def outcome_simps st_def)
  have h: "\<not> avm_halted (st 1 0 [] [])" "\<not> avm_halted (st 4 2 [] [1])" "\<not> avm_halted (st 6 4 [Uint64 1] [1])"
    by (simp_all add: avm_halted_def st_def)
  have "vm_loop avm_halted (avm_step L) (st 1 0 [] []) = Some (Ok (), st 7 6 [Uint64 1] [1])"
    by (simp add: vm_loop.simps s1 s2 s3 h)
  then show ?thesis
    by (simp add: avm_execute_def avm_new_def Let_def meter_new_def st_def avm_result_def)
qed

subsection \<open>Properties\<close>

text \<open>For a gas limit other than the largest 64-bit number, the execution of any bytecode ends.\<close>

lemma avm_execute_total:
  assumes "ec_gas_limit ctx \<noteq> - 1"
  shows "\<exists>r. avm_execute L (avm_new code ctx) = Some r
    \<and> (r = Panic \<longrightarrow> (\<exists>op\<in>set code. op \<in> {0x21, 0x22, 0x23}))
    \<and> (r \<noteq> Panic \<longrightarrow> (\<exists>v. r = Ok v \<and> vr_gas_used v \<le> ec_gas_limit ctx))"
proof -
  let ?s = "(avm_new code ctx)\<lparr>av_pc := 1\<rparr>"
  have "meter_ok (av_gas ?s)" "length (av_stack ?s) \<le> MAX_STACK_DEPTH"
    using assms by (simp_all add: avm_new_def)
  from avm_loop_result [OF this, of L] obtain r s' where
    run: "vm_loop avm_halted (avm_step L) ?s = Some (r, s')" and fw: "avm_forward ?s s'" and ok: "meter_ok (av_gas s')"
    and pn: "r = Panic \<longrightarrow> (\<exists>op\<in>set code. op \<in> {0x21, 0x22, 0x23})"
    by (auto simp: avm_new_def)
  have "gm_used (av_gas s') \<le> ec_gas_limit ctx"
    using fw ok by (simp add: avm_forward_def meter_le_def meter_ok_def avm_new_def meter_new_def)
  moreover have code: "av_bytecode (avm_new code ctx) = code" by (simp add: avm_new_def)
  have "vr_gas_used (avm_result s') = gm_used (av_gas s')" by (simp add: avm_result_def split: list.splits)
  moreover have "avm_execute L (avm_new code ctx) = Some (case r of Ok _ \<Rightarrow> Ok (avm_result s')
      | Err e \<Rightarrow> Ok (vm_failure (gm_used (av_gas s')) (vm_error_text e)) | Panic \<Rightarrow> Panic)"
    if "code \<noteq> []" "\<not> code ! 0 > 10"
    using that run by (simp add: avm_execute_def Let_def code split: outcome.splits)
  moreover have "\<exists>v. avm_execute L (avm_new code ctx) = Some (Ok v) \<and> vr_gas_used v = 0"
    if "code = [] \<or> code ! 0 > 10"
    using that by (auto simp: avm_execute_def Let_def code)
  ultimately show ?thesis using pn by (cases "code = [] \<or> code ! 0 > 10"; cases r) auto
qed

text \<open>C27: The integer constant block loads its own count. On a block of single-byte numbers
  the interpreter reads the first constant where the count stands, so it loads the
  count followed by all constants but the last, and goes on after the block. A compiled \<open>int v\<close>
  therefore pushes 1 for every \<open>v\<close> below 128: the program that returns \<open>v\<close> succeeds with the value 1, also for \<open>v\<close> zero.\<close>

theorem avm_constant_block_shifted:
  assumes "av_bytecode s = pre @ n # cs @ rest" and "length pre = unat (av_pc s)" and "length cs = unat n"
    and "\<forall>b\<in>set (n # cs). b < 0x80" and "length (av_bytecode s) < 2 ^ 64"
    and "unat (v :: u64) < 128" and "6 \<le> ec_gas_limit ctx" and "ec_gas_limit ctx \<noteq> - 1"
  shows "op_intcblock s = (Ok (), s\<lparr>av_int_constants := av_int_constants s @ map ucast (take (unat n) (n # cs)),
      av_pc := av_pc s + ucast n + 1\<rparr>)
    \<and> (\<exists>code r. compile_simple_teal (''int '' @ show_word v @ [CHR 0x0A] @ ''return'') = Ok code
         \<and> avm_execute L (avm_new code ctx) = Some (Ok r) \<and> vr_success r \<and> vr_return_data r = le_of_word (1 :: u64))"
proof -
  have lt: "unat (av_pc s) + Suc (unat n) \<le> length (av_bytecode s)" using assms(1-3) by simp
  have blk: "take (unat n) (drop (unat (av_pc s)) (av_bytecode s)) = take (unat n) (n # cs)"
    "take (Suc (unat n)) (drop (unat (av_pc s)) (av_bytecode s)) = n # cs"
    "n = av_bytecode s ! unat (av_pc s)"
    using assms(1-3) by (cases "unat n"; simp add: nth_append)+
  have "op_intcblock s = (Ok (), s\<lparr>av_int_constants := av_int_constants s @ map ucast (take (unat n) (n # cs)),
      av_pc := av_pc s + ucast n + 1\<rparr>)"
    using op_intcblock_small [OF _ blk(3)] lt assms(4,5) by (simp add: blk(1,2))
  moreover have "(ucast v :: u8) < 0x80"
    using assms(6) by (simp add: word_less_nat_alt unsigned_ucast_eq take_bit_nat_eq_self)
  ultimately show ?thesis
    using compile_int_return [OF assms(6)] run_int_return [OF _ assms(7)] by simp
qed

theorem avm_constant_block_shifted_witness:
  "\<exists>code r. compile_simple_teal (''int '' @ show_word (0 :: u64) @ [CHR 0x0A] @ ''return'') = Ok code
     \<and> avm_execute \<lparr>al_sha256 = id, al_sha3_256 = id\<rparr>
          (avm_new code (context_new address_zero address_zero 0 1000)) = Some (Ok r)
     \<and> vr_return_data r = le_of_word (1 :: u64)"
  using avm_constant_block_shifted [of "(avm_new [6, 0x20, 2, 5, 3, 0x43] (context_new address_zero address_zero 0 1000))\<lparr>av_pc := 2\<rparr>"
      "[6, 0x20]" 2 "[5, 3]" "[0x43]" 0 "context_new address_zero address_zero 0 1000" "\<lparr>al_sha256 = id, al_sha3_256 = id\<rparr>"]
  by (auto simp: avm_new_def context_new_def)

end
