(* ===== verification/Fry_SBF.thy ===== *)
theory Fry_SBF
  imports Fry_Gas
begin

text \<open>
  \<open>frychain-vm/src/sbf.rs\<close>: the register machine. Registers and heap are lists of fixed
  length (\<open>sbf_forward\<close> keeps the lengths); the stack and the account table of the code are
  never read or written after \<open>new\<close> and are left out. Addresses and the program counter are
  64-bit words, whose sums wrap in the release build. The lemmas: the machine returns within
  its gas, memory gives back what was written, and what can make it panic.
\<close>

definition NUM_REGISTERS :: nat where "NUM_REGISTERS = 11"
definition SBF_STACK_SIZE :: nat where "SBF_STACK_SIZE = 4096"
definition HEAP_SIZE :: nat where "HEAP_SIZE = 32 * 1024"
definition MAX_CALL_DEPTH :: nat where "MAX_CALL_DEPTH = 64"

record sbf_instruction =
  si_opcode :: u8
  si_dst :: u8
  si_src :: u8
  si_offset :: i16
  si_imm :: i32

definition sbf_decode :: "bytes \<Rightarrow> sbf_instruction option" where
  "sbf_decode b =
     (if length b < 8 then None
      else Some \<lparr>si_opcode = b ! 0, si_dst = b ! 1 AND 0x0F, si_src = drop_bit 4 (b ! 1) AND 0x0F,
                 si_offset = word_of_nat (le_nat [b ! 2, b ! 3]),
                 si_imm = word_of_nat (le_nat [b ! 4, b ! 5, b ! 6, b ! 7])\<rparr>)"

record sbf_vm =
  sv_registers :: "u64 list"
  sv_pc :: u64
  sv_instructions :: "sbf_instruction list"
  sv_heap :: bytes
  sv_call_stack :: "u64 list"
  sv_gas :: gas_meter
  sv_logs :: "vm_log list"
  sv_context :: execution_context

type_synonym 'a sbf_prog = "(sbf_vm, vm_error, 'a) prog"

text \<open>\<open>while offset + 8 <= code.len()\<close>.\<close>

fun decode_all :: "nat \<Rightarrow> bytes \<Rightarrow> sbf_instruction list" where
  "decode_all 0 code = []"
| "decode_all (Suc n) code =
     (case sbf_decode code of None \<Rightarrow> decode_all n (drop 8 code)
      | Some i \<Rightarrow> i # decode_all n (drop 8 code))"

definition parse_elf :: "bytes \<Rightarrow> (vm_error, sbf_instruction list) outcome" where
  "parse_elf bytecode =
     (if length bytecode < 4 \<or> take 4 bytecode \<noteq> [0x7f, 0x45, 0x4C, 0x46]
      then Err (InvalidContract ''Invalid ELF header'')
      else
        let code = drop (min 64 (length bytecode)) bytecode;
            instructions = decode_all (length code div 8) code
        in Ok (if instructions = [] then
                 [\<lparr>si_opcode = 0xb7, si_dst = 0, si_src = 0, si_offset = 0, si_imm = 0\<rparr>,
                  \<lparr>si_opcode = 0x95, si_dst = 0, si_src = 0, si_offset = 0, si_imm = 0\<rparr>]
               else instructions))"

definition sbf_new :: "bytes \<Rightarrow> execution_context \<Rightarrow> (vm_error, sbf_vm) outcome" where
  "sbf_new bytecode ctx = bindR (parse_elf bytecode) (\<lambda>instructions.
     Ok \<lparr>sv_registers = replicate NUM_REGISTERS 0, sv_pc = 0, sv_instructions = instructions,
         sv_heap = replicate HEAP_SIZE 0, sv_call_stack = [], sv_gas = meter_new (ec_gas_limit ctx),
         sv_logs = [], sv_context = ctx\<rparr>)"

subsection \<open>Registers, gas and memory\<close>

definition sbf_charge :: "u64 \<Rightarrow> unit sbf_prog" where
  "sbf_charge g = (\<lambda>s. case consume g (sv_gas s) of (r, m) \<Rightarrow> (map_err gas_to_vm_error r, s\<lparr>sv_gas := m\<rparr>))"

definition get_reg :: "nat \<Rightarrow> u64 sbf_prog" where
  "get_reg i = (\<lambda>s. if i < length (sv_registers s) then (Ok (sv_registers s ! i), s) else (Panic, s))"

definition set_reg :: "nat \<Rightarrow> u64 \<Rightarrow> unit sbf_prog" where
  "set_reg i v = (\<lambda>s. if i < length (sv_registers s)
     then (Ok (), s\<lparr>sv_registers := (sv_registers s)[i := v]\<rparr>) else (Panic, s))"

text \<open>\<open>heap[addr..addr + k]\<close> after the check \<open>addr + k > heap.len()\<close>, both with wrapping
  sums.\<close>

definition heap_range :: "bytes \<Rightarrow> u64 \<Rightarrow> u64 \<Rightarrow> (vm_error, bytes) outcome" where
  "heap_range heap addr k =
     (if unat (addr + k) > length heap then Err (InvalidMemoryAccess addr)
      else case slice heap (unat addr) (unat (addr + k)) of None \<Rightarrow> Panic | Some b \<Rightarrow> Ok b)"

definition heap_splice :: "bytes \<Rightarrow> u64 \<Rightarrow> bytes \<Rightarrow> (vm_error, bytes) outcome" where
  "heap_splice heap addr val =
     bindR (heap_range heap addr (word_of_nat (length val))) (\<lambda>_.
       case splice heap (unat addr) val of None \<Rightarrow> Panic | Some h \<Rightarrow> Ok h)"

definition read_memory_u8 :: "u64 \<Rightarrow> u8 sbf_prog" where
  "read_memory_u8 addr = (\<lambda>s. if unat addr < length (sv_heap s) then (Ok (sv_heap s ! unat addr), s)
     else (Err (InvalidMemoryAccess addr), s))"

definition read_memory_u16 :: "u64 \<Rightarrow> u16 sbf_prog" where
  "read_memory_u16 addr = (\<lambda>s. (bindR (heap_range (sv_heap s) addr 2) (\<lambda>b. Ok (word_of_nat (le_nat b))), s))"

definition read_memory_u32 :: "u64 \<Rightarrow> u32 sbf_prog" where
  "read_memory_u32 addr = (\<lambda>s. (bindR (heap_range (sv_heap s) addr 4) (\<lambda>b. Ok (word_of_nat (le_nat b))), s))"

definition read_memory_u64 :: "u64 \<Rightarrow> u64 sbf_prog" where
  "read_memory_u64 addr = (\<lambda>s. (bindR (heap_range (sv_heap s) addr 8) (\<lambda>b. Ok (word_of_nat (le_nat b))), s))"

definition read_memory_slice :: "u64 \<Rightarrow> u64 \<Rightarrow> bytes sbf_prog" where
  "read_memory_slice addr len = (\<lambda>s. (heap_range (sv_heap s) addr len, s))"

definition write_heap :: "u64 \<Rightarrow> bytes \<Rightarrow> unit sbf_prog" where
  "write_heap addr val = (\<lambda>s. case heap_splice (sv_heap s) addr val of
     Ok h \<Rightarrow> (Ok (), s\<lparr>sv_heap := h\<rparr>) | Err e \<Rightarrow> (Err e, s) | Panic \<Rightarrow> (Panic, s))"

definition write_memory_u8 :: "u64 \<Rightarrow> u8 \<Rightarrow> unit sbf_prog" where
  "write_memory_u8 addr val = (\<lambda>s. if unat addr \<ge> length (sv_heap s) then (Err (InvalidMemoryAccess addr), s)
     else (Ok (), s\<lparr>sv_heap := (sv_heap s)[unat addr := val]\<rparr>))"

definition write_memory_u16 :: "u64 \<Rightarrow> u16 \<Rightarrow> unit sbf_prog" where
  "write_memory_u16 addr val = write_heap addr (le_of_word val)"

definition write_memory_u32 :: "u64 \<Rightarrow> u32 \<Rightarrow> unit sbf_prog" where
  "write_memory_u32 addr val = write_heap addr (le_of_word val)"

definition write_memory_u64 :: "u64 \<Rightarrow> u64 \<Rightarrow> unit sbf_prog" where
  "write_memory_u64 addr val = write_heap addr (le_of_word val)"

subsection \<open>The instructions\<close>

definition sbf_imm :: "sbf_instruction \<Rightarrow> u64" where
  "sbf_imm i = scast (si_imm i)"

definition shift_left :: "u64 \<Rightarrow> u64 \<Rightarrow> u64" where
  "shift_left x n = push_bit (unat n mod 64) x"

definition shift_right :: "u64 \<Rightarrow> u64 \<Rightarrow> u64" where
  "shift_right x n = drop_bit (unat n mod 64) x"

definition alu_imm :: "sbf_instruction \<Rightarrow> (u64 \<Rightarrow> u64 \<Rightarrow> u64) \<Rightarrow> unit sbf_prog" where
  "alu_imm i f = bindM (get_reg (unat (si_dst i))) (\<lambda>x. set_reg (unat (si_dst i)) (f x (sbf_imm i)))"

definition alu_reg :: "sbf_instruction \<Rightarrow> (u64 \<Rightarrow> u64 \<Rightarrow> u64) \<Rightarrow> unit sbf_prog" where
  "alu_reg i f = bindM (get_reg (unat (si_dst i))) (\<lambda>x. bindM (get_reg (unat (si_src i))) (\<lambda>y.
     set_reg (unat (si_dst i)) (f x y)))"

definition div_imm :: "sbf_instruction \<Rightarrow> string \<Rightarrow> (u64 \<Rightarrow> u64 \<Rightarrow> u64) \<Rightarrow> unit sbf_prog" where
  "div_imm i msg f = (if sbf_imm i = 0 then fail (ExecutionError msg) else alu_imm i f)"

definition div_reg :: "sbf_instruction \<Rightarrow> unit sbf_prog" where
  "div_reg i = bindM (get_reg (unat (si_src i))) (\<lambda>y.
     if y = 0 then fail (ExecutionError ''Division by zero'') else alu_reg i (div))"

definition address_of :: "sbf_instruction \<Rightarrow> u8 \<Rightarrow> u64 sbf_prog" where
  "address_of i r = bindM (get_reg (unat r)) (\<lambda>x. ret (x + scast (si_offset i)))"

definition load :: "sbf_instruction \<Rightarrow> u64 \<Rightarrow> (u64 \<Rightarrow> u64 sbf_prog) \<Rightarrow> unit sbf_prog" where
  "load i cost rd = bindM (address_of i (si_src i)) (\<lambda>addr. thenM (sbf_charge cost)
     (bindM (rd addr) (set_reg (unat (si_dst i)))))"

definition store :: "sbf_instruction \<Rightarrow> bool \<Rightarrow> u64 \<Rightarrow> (u64 \<Rightarrow> u64 \<Rightarrow> unit sbf_prog) \<Rightarrow> unit sbf_prog" where
  "store i from_imm cost wr = bindM (address_of i (si_dst i)) (\<lambda>addr.
     bindM (if from_imm then ret (sbf_imm i) else get_reg (unat (si_src i))) (\<lambda>val.
     thenM (sbf_charge cost) (wr addr val)))"

definition sbf_jump :: "sbf_instruction \<Rightarrow> unit sbf_prog" where
  "sbf_jump i = modify (\<lambda>s. s\<lparr>sv_pc := sv_pc s + scast (si_offset i)\<rparr>)"

definition branch_imm :: "sbf_instruction \<Rightarrow> (u64 \<Rightarrow> u64 \<Rightarrow> bool) \<Rightarrow> unit sbf_prog" where
  "branch_imm i f = bindM (get_reg (unat (si_dst i))) (\<lambda>x. whenM (f x (sbf_imm i)) (sbf_jump i))"

definition branch_eq_reg :: "sbf_instruction \<Rightarrow> unit sbf_prog" where
  "branch_eq_reg i = bindM (get_reg (unat (si_dst i))) (\<lambda>x. bindM (get_reg (unat (si_src i))) (\<lambda>y.
     whenM (x = y) (sbf_jump i)))"

text \<open>The log system call: \<open>if let Ok(data)\<close> ignores a bad range, but not a panic.\<close>

definition sol_log :: "unit sbf_prog" where
  "sol_log = bindM (get_reg 1) (\<lambda>ptr. bindM (get_reg 2) (\<lambda>len.
     thenM (\<lambda>s. case heap_range (sv_heap s) ptr len of
          Ok data \<Rightarrow> (Ok (), s\<lparr>sv_logs := sv_logs s @ [\<lparr>vl_address = ec_address (sv_context s), vl_topics = [], vl_data = data\<rparr>]\<rparr>)
        | Err _ \<Rightarrow> (Ok (), s)
        | Panic \<Rightarrow> (Panic, s))
       (set_reg 0 0)))"

definition sbf_call :: "sbf_instruction \<Rightarrow> unit sbf_prog" where
  "sbf_call i = thenM (sbf_charge GAS_CALL) (bindM (gets sv_call_stack) (\<lambda>cs.
     if length cs \<ge> MAX_CALL_DEPTH then fail StackOverflow
     else if si_imm i = 1 then sol_log
     else if si_imm i = 2 then thenM (sbf_charge GAS_SHA3_BASE) (set_reg 0 0)
     else modify (\<lambda>s. s\<lparr>sv_call_stack := sv_pc s # sv_call_stack s, sv_pc := sbf_imm i\<rparr>)))"

definition sbf_exit :: "bool sbf_prog" where
  "sbf_exit = bindM (gets sv_call_stack) (\<lambda>cs. case cs of
     [] \<Rightarrow> ret False
   | return_addr # rest \<Rightarrow> thenM (modify (\<lambda>s. s\<lparr>sv_call_stack := rest, sv_pc := return_addr\<rparr>)) (ret True))"

definition sbf_dispatch :: "sbf_instruction \<Rightarrow> bool sbf_prog" where
  "sbf_dispatch i =
     (let op = si_opcode i; go = (\<lambda>m. thenM m (ret True)) in
      if op = 0x07 then go (alu_imm i (+))
      else if op = 0x17 then go (alu_imm i (-))
      else if op = 0x27 then go (alu_imm i (*))
      else if op = 0x37 then go (div_imm i ''Division by zero'' (div))
      else if op = 0x47 then go (alu_imm i (OR))
      else if op = 0x57 then go (alu_imm i (AND))
      else if op = 0x67 then go (alu_imm i shift_left)
      else if op = 0x77 then go (alu_imm i shift_right)
      else if op = 0x87 then go (alu_imm i (\<lambda>x _. - x))
      else if op = 0x97 then go (div_imm i ''Modulo by zero'' (mod))
      else if op = 0xa7 then go (alu_imm i (XOR))
      else if op = 0xb7 then go (set_reg (unat (si_dst i)) (sbf_imm i))
      else if op = 0x0f then go (alu_reg i (+))
      else if op = 0x1f then go (alu_reg i (-))
      else if op = 0x2f then go (alu_reg i (*))
      else if op = 0x3f then go (div_reg i)
      else if op = 0xbf then go (bindM (get_reg (unat (si_src i))) (set_reg (unat (si_dst i))))
      else if op = 0x71 then go (load i GAS_VERY_LOW (\<lambda>a. bindM (read_memory_u8 a) (\<lambda>v. ret (ucast v))))
      else if op = 0x69 then go (load i GAS_VERY_LOW (\<lambda>a. bindM (read_memory_u16 a) (\<lambda>v. ret (ucast v))))
      else if op = 0x61 then go (load i GAS_VERY_LOW (\<lambda>a. bindM (read_memory_u32 a) (\<lambda>v. ret (ucast v))))
      else if op = 0x79 then go (load i GAS_LOW read_memory_u64)
      else if op = 0x72 \<or> op = 0x73 then go (store i (op = 0x72) GAS_VERY_LOW (\<lambda>a v. write_memory_u8 a (ucast v)))
      else if op = 0x6a \<or> op = 0x6b then go (store i (op = 0x6a) GAS_VERY_LOW (\<lambda>a v. write_memory_u16 a (ucast v)))
      else if op = 0x62 \<or> op = 0x63 then go (store i (op = 0x62) GAS_VERY_LOW (\<lambda>a v. write_memory_u32 a (ucast v)))
      else if op = 0x7a \<or> op = 0x7b then go (store i (op = 0x7a) GAS_LOW write_memory_u64)
      else if op = 0x05 then go (sbf_jump i)
      else if op = 0x15 then go (branch_imm i (=))
      else if op = 0x1d then go (branch_eq_reg i)
      else if op = 0x25 then go (branch_imm i (>))
      else if op = 0x35 then go (branch_imm i (\<ge>))
      else if op = 0x55 then go (branch_imm i (\<noteq>))
      else if op = 0xa5 then go (branch_imm i (<))
      else if op = 0xb5 then go (branch_imm i (\<le>))
      else if op = 0x85 then go (sbf_call i)
      else if op = 0x95 then sbf_exit
      else fail (InvalidOpcode op))"

definition sbf_next :: "sbf_instruction sbf_prog" where
  "sbf_next = (\<lambda>s. if unat (sv_pc s) < length (sv_instructions s)
     then (Ok (sv_instructions s ! unat (sv_pc s)), s\<lparr>sv_pc := sv_pc s + 1\<rparr>) else (Panic, s))"

definition sbf_fetch :: "sbf_instruction sbf_prog" where
  "sbf_fetch = bindM sbf_next (\<lambda>i. thenM (sbf_charge GAS_BASE) (ret i))"

definition sbf_step :: "bool sbf_prog" where
  "sbf_step = bindM sbf_fetch sbf_dispatch"

definition sbf_halted :: "sbf_vm \<Rightarrow> bool" where
  "sbf_halted s \<longleftrightarrow> unat (sv_pc s) \<ge> length (sv_instructions s)"

definition sbf_start :: "sbf_vm \<Rightarrow> sbf_vm" where
  "sbf_start s = s\<lparr>sv_registers := ((sv_registers s)[1 := 0])[10 := word_of_nat SBF_STACK_SIZE]\<rparr>"

definition sbf_execute :: "sbf_vm \<Rightarrow> (vm_error, vm_result) outcome option" where
  "sbf_execute s =
     (case vm_loop sbf_halted sbf_step (sbf_start s) of
        None \<Rightarrow> None
      | Some (Ok _, s') \<Rightarrow>
          (let r0 = sv_registers s' ! 0
           in Some (Ok ((vm_success (gm_used (sv_gas s')) (le_of_word r0))\<lparr>vr_success := r0 = 0, vr_logs := sv_logs s'\<rparr>)))
      | Some (Err e, s') \<Rightarrow> Some (Ok (vm_failure (gm_used (sv_gas s')) (vm_error_text e)))
      | Some (Panic, _) \<Rightarrow> Some Panic)"

subsection \<open>Gas, sizes and panics\<close>

definition sbf_forward :: "sbf_vm \<Rightarrow> sbf_vm \<Rightarrow> bool" where
  "sbf_forward s t \<longleftrightarrow> meter_le (sv_gas s) (sv_gas t) \<and> sv_instructions t = sv_instructions s
     \<and> length (sv_registers t) = length (sv_registers s) \<and> length (sv_heap t) = length (sv_heap s)
     \<and> (length (sv_call_stack s) \<le> MAX_CALL_DEPTH \<longrightarrow> length (sv_call_stack t) \<le> MAX_CALL_DEPTH)"

interpretation sbff: step_frame sbf_forward
  by unfold_locales (auto simp: sbf_forward_def intro: meter_le_trans)

lemma heap_splice_length: "heap_splice heap addr val = Ok h \<Longrightarrow> length h = length heap"
  by (auto simp: heap_splice_def bindR_Ok_iff dest: length_splice split: option.splits)

lemma sbf_forward_basic:
  "keeps sbf_forward (sbf_charge g)" "keeps sbf_forward (get_reg i)" "keeps sbf_forward (set_reg i v)"
  "keeps sbf_forward (read_memory_u8 a)" "keeps sbf_forward (read_memory_u16 a)" "keeps sbf_forward (read_memory_u32 a)"
  "keeps sbf_forward (read_memory_u64 a)" "keeps sbf_forward (write_heap a b)" "keeps sbf_forward (write_memory_u8 a x)"
  "keeps sbf_forward (sbf_jump ins)"
  by (auto simp: keeps_def sbf_forward_def sbf_charge_def get_reg_def set_reg_def read_memory_u8_def read_memory_u16_def
    read_memory_u32_def read_memory_u64_def write_heap_def write_memory_u8_def sbf_jump_def modify_def
    dest: consume_forward heap_splice_length split: prod.splits outcome.splits)

lemma sbf_forward_log: "keeps sbf_forward sol_log"
  unfolding sol_log_def
  by (intro sbff.frame_rules sbf_forward_basic)
     (auto simp: keeps_def sbf_forward_def split: outcome.splits)

lemma sbf_forward_call: "keeps sbf_forward (sbf_call i)"
  unfolding sbf_call_def
proof (intro sbff.keeps_thenM sbf_forward_basic keeps_gets_bind)
  fix s :: sbf_vm
  have "sbf_forward s (snd (thenM (sbf_charge GAS_SHA3_BASE) (set_reg 0 0) s))"
    by (rule keepsE, intro sbff.keeps_thenM sbf_forward_basic)
  then show "sbf_forward s (snd ((if MAX_CALL_DEPTH \<le> length (sv_call_stack s) then fail StackOverflow
      else if si_imm i = 1 then sol_log
      else if si_imm i = 2 then thenM (sbf_charge GAS_SHA3_BASE) (set_reg 0 0)
      else modify (\<lambda>s. s\<lparr>sv_call_stack := sv_pc s # sv_call_stack s, sv_pc := sbf_imm i\<rparr>)) s))"
    using keepsE [OF sbf_forward_log, of s]
    by (simp add: fail_def modify_def sbff.R_refl) (simp add: sbf_forward_def)
qed

lemma sbf_forward_exit: "keeps sbf_forward sbf_exit"
  unfolding sbf_exit_def
  by (intro keeps_gets_bind) (auto simp: outcome_simps sbf_forward_def split: list.splits)

lemmas sbf_op_defs = alu_imm_def alu_reg_def div_imm_def div_reg_def address_of_def load_def store_def
  branch_imm_def branch_eq_reg_def write_memory_u16_def write_memory_u32_def write_memory_u64_def

lemma sbf_forward_dispatch: "keeps sbf_forward (sbf_dispatch i)"
  unfolding sbf_dispatch_def Let_def sbf_op_defs
  by (intro sbff.frame_rules sbf_forward_basic sbf_forward_call sbf_forward_exit)

lemma sbf_forward_fetch: "keeps sbf_forward sbf_fetch"
proof -
  have "keeps sbf_forward sbf_next" by (simp add: keeps_def sbf_next_def sbf_forward_def)
  then show ?thesis unfolding sbf_fetch_def by (intro sbff.frame_rules sbf_forward_basic)
qed

lemma sbf_fetch_pays:
  assumes "meter_ok (sv_gas s)" and "sbf_fetch s = (Ok x, s')"
  shows "gas_budget (sv_gas s') < gas_budget (sv_gas s)"
proof -
  obtain m where c: "consume GAS_BASE (sv_gas s) = (Ok (), m)" and "sv_gas s' = m"
    using assms(2) by (auto simp: sbf_fetch_def sbf_next_def sbf_charge_def outcome_simps
        split: if_splits outcome.splits prod.splits elim: map_err.elims)
  with consume_budget [OF c assms(1)] show ?thesis by (simp add: GAS_BASE_def)
qed

interpretation sbf: gas_machine sbf_halted sv_gas sbf_fetch sbf_dispatch
  by unfold_locales
     (auto intro: sbf_fetch_pays keeps_mono [OF sbf_forward_fetch] keeps_mono [OF sbf_forward_dispatch]
       simp: sbf_forward_def)

text \<open>What an instruction needs so as not to panic in any state with eleven registers.\<close>

definition plain_instruction :: "sbf_instruction \<Rightarrow> bool" where
  "plain_instruction i \<longleftrightarrow> unat (si_dst i) < NUM_REGISTERS \<and> unat (si_src i) < NUM_REGISTERS
     \<and> si_opcode i \<notin> {0x69, 0x61, 0x79, 0x6a, 0x6b, 0x62, 0x63, 0x7a, 0x7b}
     \<and> \<not> (si_opcode i = 0x85 \<and> si_imm i = 1)"

definition quiet :: "'a sbf_prog \<Rightarrow> bool" where
  "quiet m \<longleftrightarrow> (\<forall>s. length (sv_registers s) = NUM_REGISTERS \<longrightarrow> fst (m s) \<noteq> Panic
     \<and> length (sv_registers (snd (m s))) = NUM_REGISTERS)"

lemma quiet_bindM: "quiet m \<Longrightarrow> (\<And>x. quiet (f x)) \<Longrightarrow> quiet (bindM m f)"
  by (auto simp: quiet_def bindM_apply split: outcome.splits)

lemma quiet_thenM: "quiet m \<Longrightarrow> quiet k \<Longrightarrow> quiet (thenM m k)"
  by (simp add: thenM_def quiet_bindM)

lemma quiet_if: "(b \<Longrightarrow> quiet m) \<Longrightarrow> (\<not> b \<Longrightarrow> quiet k) \<Longrightarrow> quiet (if b then m else k)"
  by simp

lemma quiet_whenM: "quiet m \<Longrightarrow> quiet (whenM b m)"
  by (simp add: whenM_def quiet_def ret_def)

lemma quiet_list: "quiet m \<Longrightarrow> (\<And>x xs. quiet (f x xs)) \<Longrightarrow> quiet (case l of [] \<Rightarrow> m | x # xs \<Rightarrow> f x xs)"
  by (simp split: list.splits)

lemma quiet_basic:
  "quiet (ret x)" "quiet (fail e)" "quiet (sbf_charge g)" "quiet (sbf_jump j)" "quiet (gets f)"
  "quiet (read_memory_u8 a)" "quiet (write_memory_u8 a v8)"
  "quiet (modify (\<lambda>s. s\<lparr>sv_call_stack := h s, sv_pc := pc s\<rparr>))"
  "unat r < NUM_REGISTERS \<Longrightarrow> quiet (get_reg (unat r))" "n < NUM_REGISTERS \<Longrightarrow> quiet (set_reg n v)"
  using consume_not_Panic [of g]
  by (auto simp: quiet_def outcome_simps sbf_charge_def sbf_jump_def read_memory_u8_def write_memory_u8_def
      get_reg_def set_reg_def split: prod.splits) (metis fst_conv map_err.elims outcome.distinct(3,5))

lemmas quiet_rules = quiet_bindM quiet_thenM quiet_if quiet_whenM quiet_list quiet_basic

lemma quiet_dispatch:
  assumes "plain_instruction i"
  shows "quiet (sbf_dispatch i)"
proof -
  have r: "unat (si_dst i) < NUM_REGISTERS" "unat (si_src i) < NUM_REGISTERS" "0 < NUM_REGISTERS"
    using assms by (simp_all add: plain_instruction_def NUM_REGISTERS_def)
  show ?thesis
    unfolding sbf_dispatch_def Let_def sbf_op_defs sbf_call_def sbf_exit_def
    by (intro quiet_rules r) (use assms in \<open>auto simp: plain_instruction_def\<close>)
qed

lemma sbf_step_panics:
  assumes "fst (sbf_step s) = Panic" and "\<not> sbf_halted s" and "length (sv_registers s) = NUM_REGISTERS"
  shows "\<exists>i\<in>set (sv_instructions s). \<not> plain_instruction i"
proof (rule ccontr)
  let ?i = "sv_instructions s ! unat (sv_pc s)"
  assume "\<not> ?thesis"
  then have "plain_instruction ?i" using assms(2) by (auto simp: sbf_halted_def)
  then have q: "quiet (thenM (sbf_charge GAS_BASE) (ret ?i))" "quiet (sbf_dispatch ?i)"
    by (intro quiet_rules quiet_dispatch)+
  have step: "sbf_step s = bindM (thenM (sbf_charge GAS_BASE) (ret ?i)) sbf_dispatch (s\<lparr>sv_pc := sv_pc s + 1\<rparr>)"
  proof -
    have "sbf_next s = (Ok ?i, s\<lparr>sv_pc := sv_pc s + 1\<rparr>)" using assms(2) by (simp add: sbf_next_def sbf_halted_def)
    then have "sbf_fetch s = thenM (sbf_charge GAS_BASE) (ret ?i) (s\<lparr>sv_pc := sv_pc s + 1\<rparr>)"
      by (simp add: sbf_fetch_def bindM_apply)
    then show ?thesis by (simp add: sbf_step_def bindM_def)
  qed
  obtain r1 s1 where c: "thenM (sbf_charge GAS_BASE) (ret ?i) (s\<lparr>sv_pc := sv_pc s + 1\<rparr>) = (r1, s1)"
    by (cases "thenM (sbf_charge GAS_BASE) (ret ?i) (s\<lparr>sv_pc := sv_pc s + 1\<rparr>)")
  have "length (sv_registers (s\<lparr>sv_pc := sv_pc s + 1\<rparr>)) = NUM_REGISTERS" using assms(3) by simp
  with q(1) c have "r1 \<noteq> Panic" "length (sv_registers s1) = NUM_REGISTERS" by (metis fst_conv snd_conv quiet_def)+
  moreover have "x = ?i" if "r1 = Ok x" for x
    using c that by (auto simp: outcome_simps split: outcome.splits)
  moreover have "fst (bindM (thenM (sbf_charge GAS_BASE) (ret ?i)) sbf_dispatch (s\<lparr>sv_pc := sv_pc s + 1\<rparr>)) = Panic"
    using assms(1) step by simp
  ultimately show False using q(2) c by (cases r1) (auto simp: quiet_def bindM_def)
qed

lemma sbf_loop_result:
  assumes "meter_ok (sv_gas s)" and "length (sv_registers s) = NUM_REGISTERS"
  shows "\<exists>r s'. vm_loop sbf_halted sbf_step s = Some (r, s') \<and> sbf_forward s s' \<and> meter_ok (sv_gas s')
    \<and> (r = Panic \<longrightarrow> (\<exists>i\<in>set (sv_instructions s). \<not> plain_instruction i))"
proof -
  obtain r s' where run: "vm_loop sbf_halted sbf_step s = Some (r, s')" and ok: "meter_ok (sv_gas s')"
    using sbf.loop_returns [OF assms(1)] by (auto simp: sbf_step_def)
  have "keeps sbf_forward sbf_step"
    unfolding sbf_step_def by (rule sbff.keeps_bindM [OF sbf_forward_fetch sbf_forward_dispatch])
  then have st: "sbf_forward s t'" if "sbf_forward s t" "sbf_step t = (r', t')" for t r' t'
    using that sbff.R_trans keepsD by metis
  have "sbf_forward s s' \<and> (r = Ok () \<or> (\<exists>t. sbf_forward s t \<and> \<not> sbf_halted t \<and> step_fails sbf_step t r))"
    by (rule vm_loop_keeps [OF run]) (auto intro: st sbff.R_refl)
  then have keep: "sbf_forward s s'"
    and fail: "r = Ok () \<or> (\<exists>t. sbf_forward s t \<and> \<not> sbf_halted t \<and> step_fails sbf_step t r)" by blast+
  have "\<exists>i\<in>set (sv_instructions s). \<not> plain_instruction i" if "r = Panic"
    using fail that sbf_step_panics assms(2) by (fastforce simp: step_fails_def sbf_forward_def split: outcome.splits)
  with run keep ok show ?thesis by blast
qed

subsection \<open>Memory\<close>

lemma heap_range_ok:
  assumes "unat addr + unat k \<le> length heap" and "length heap < 2 ^ 64"
  shows "heap_range heap addr k = Ok (take (unat k) (drop (unat addr) heap))"
  using assms by (simp add: heap_range_def unat_add_no_wrap slice_def)

lemma heap_splice_ok:
  assumes "unat addr + length val \<le> length heap" and "length heap < 2 ^ 64"
  shows "heap_splice heap addr val = Ok (take (unat addr) heap @ val @ drop (unat addr + length val) heap)"
proof -
  have "unat (word_of_nat (length val) :: u64) = length val" using assms by (simp add: unat_of_nat)
  then show ?thesis using assms by (simp add: heap_splice_def heap_range_ok splice_Some)
qed

lemma heap_range_out:
  assumes "length heap < unat addr + unat k" and "unat addr + unat k < 2 ^ 64"
  shows "heap_range heap addr k = Err (InvalidMemoryAccess addr)"
  using assms by (simp add: heap_range_def unat_add_no_wrap)

text \<open>The four widths of a store and the load of the same width.\<close>

datatype mem_width = MemByte | MemHalf | MemWord | MemDouble

fun mem_size :: "mem_width \<Rightarrow> nat" where
  "mem_size MemByte = 1" | "mem_size MemHalf = 2" | "mem_size MemWord = 4" | "mem_size MemDouble = 8"

fun mem_write :: "mem_width \<Rightarrow> u64 \<Rightarrow> u64 \<Rightarrow> unit sbf_prog" where
  "mem_write MemByte a v = write_memory_u8 a (ucast v)"
| "mem_write MemHalf a v = write_memory_u16 a (ucast v)"
| "mem_write MemWord a v = write_memory_u32 a (ucast v)"
| "mem_write MemDouble a v = write_memory_u64 a v"

fun mem_read :: "mem_width \<Rightarrow> u64 \<Rightarrow> u64 sbf_prog" where
  "mem_read MemByte a = bindM (read_memory_u8 a) (\<lambda>v. ret (ucast v))"
| "mem_read MemHalf a = bindM (read_memory_u16 a) (\<lambda>v. ret (ucast v))"
| "mem_read MemWord a = bindM (read_memory_u32 a) (\<lambda>v. ret (ucast v))"
| "mem_read MemDouble a = read_memory_u64 a"

lemma le_word_value:
  assumes "LENGTH('a::len) = 8 * n"
  shows "word_of_nat (le_nat (le_of_word (w :: 'a word))) = w"
  using unat_less_256_pow [OF assms, of w] assms
  by (simp add: le_of_word_def le_nat_le_bytes)

lemma write_heap_in:
  assumes "length (sv_heap s) = HEAP_SIZE" and "unat a + length val \<le> HEAP_SIZE"
  shows "write_heap a val s = (Ok (), s\<lparr>sv_heap := take (unat a) (sv_heap s) @ val @ drop (unat a + length val) (sv_heap s)\<rparr>)"
  using assms by (simp add: write_heap_def heap_splice_ok HEAP_SIZE_def)

lemma heap_range_written:
  assumes "length heap = HEAP_SIZE" and "unat a + unat k \<le> HEAP_SIZE" and "length val = unat k"
  shows "heap_range (take (unat a) heap @ val @ drop (unat a + unat k) heap) a k = Ok val"
  using assms by (subst heap_range_ok) (simp_all add: HEAP_SIZE_def)

lemma mem_write_in:
  assumes "length (sv_heap s) = HEAP_SIZE" and "unat a + mem_size w \<le> HEAP_SIZE"
  shows "\<exists>val. length val = mem_size w
    \<and> mem_write w a v s = (Ok (), s\<lparr>sv_heap := take (unat a) (sv_heap s) @ val @ drop (unat a + mem_size w) (sv_heap s)\<rparr>)
    \<and> mem_read w a (s\<lparr>sv_heap := take (unat a) (sv_heap s) @ val @ drop (unat a + mem_size w) (sv_heap s)\<rparr>)
      = (Ok (take_bit (8 * mem_size w) v), s\<lparr>sv_heap := take (unat a) (sv_heap s) @ val @ drop (unat a + mem_size w) (sv_heap s)\<rparr>)"
proof (cases w)
  case MemByte
  have lt: "unat a < HEAP_SIZE" using assms(2) MemByte by simp
  then have "(sv_heap s)[unat a := ucast v] = take (unat a) (sv_heap s) @ [ucast v] @ drop (unat a + 1) (sv_heap s)"
    using assms(1) by (simp add: upd_conv_take_nth_drop)
  moreover have "(ucast (ucast v :: u8) :: u64) = take_bit 8 v"
    by (simp add: word_unat_eq_iff unsigned_ucast_eq unsigned_take_bit_eq)
  ultimately show ?thesis using MemByte lt assms(1)
    by (intro exI [of _ "[ucast v]"])
       (simp add: write_memory_u8_def read_memory_u8_def outcome_simps nth_append)
next
  case MemHalf
  have "(ucast (ucast v :: u16) :: u64) = take_bit 16 v"
    by (simp add: word_unat_eq_iff unsigned_ucast_eq unsigned_take_bit_eq)
  then show ?thesis using MemHalf assms heap_range_written [of "sv_heap s" a 2 "le_of_word (ucast v :: u16)"]
      le_word_value [where n = 2 and w = "ucast v :: u16"]
    by (intro exI [of _ "le_of_word (ucast v :: u16)"])
       (simp add: write_memory_u16_def read_memory_u16_def outcome_simps write_heap_in)
next
  case MemWord
  have "(ucast (ucast v :: u32) :: u64) = take_bit 32 v"
    by (simp add: word_unat_eq_iff unsigned_ucast_eq unsigned_take_bit_eq)
  then show ?thesis using MemWord assms heap_range_written [of "sv_heap s" a 4 "le_of_word (ucast v :: u32)"]
      le_word_value [where n = 4 and w = "ucast v :: u32"]
    by (intro exI [of _ "le_of_word (ucast v :: u32)"])
       (simp add: write_memory_u32_def read_memory_u32_def outcome_simps write_heap_in)
next
  case MemDouble
  have "take_bit 64 v = v" by (simp add: take_bit_word_eq_self)
  then show ?thesis using MemDouble assms heap_range_written [of "sv_heap s" a 8 "le_of_word v"]
    by (intro exI [of _ "le_of_word v"])
       (simp add: write_memory_u64_def read_memory_u64_def outcome_simps write_heap_in)
qed

lemma parse_elf_single:
  assumes "length b = 72" and "take 4 b = [0x7f, 0x45, 0x4C, 0x46]" and "drop 64 b = w" and "sbf_decode w = Some i"
  shows "parse_elf b = Ok [i]"
proof -
  have "length w = 8" using assms(1,3) by auto
  then have "decode_all (length w div 8) w = [i]" using assms(4) by simp
  then show ?thesis using assms(1-3) by (simp add: parse_elf_def)
qed

subsection \<open>Properties\<close>

text \<open>For a gas limit other than the largest 64-bit number, the execution of any bytecode that loads ends.\<close>

lemma sbf_execute_total:
  assumes "sbf_new code ctx = Ok vm" and "ec_gas_limit ctx \<noteq> - 1"
  shows "\<exists>r. sbf_execute vm = Some r
    \<and> (r = Panic \<longrightarrow> (\<exists>i\<in>set (sv_instructions vm). \<not> plain_instruction i))
    \<and> (r \<noteq> Panic \<longrightarrow> (\<exists>v. r = Ok v \<and> vr_gas_used v \<le> ec_gas_limit ctx))"
proof -
  have vm: "length (sv_registers vm) = NUM_REGISTERS" "sv_gas vm = meter_new (ec_gas_limit ctx)"
    using assms(1) by (auto simp: sbf_new_def bindR_Ok_iff)
  let ?s = "sbf_start vm"
  have "meter_ok (sv_gas ?s)" "length (sv_registers ?s) = NUM_REGISTERS"
    using assms vm by (simp_all add: sbf_start_def)
  from sbf_loop_result [OF this] obtain r s' where
    run: "vm_loop sbf_halted sbf_step ?s = Some (r, s')" and fw: "sbf_forward ?s s'" and ok: "meter_ok (sv_gas s')"
    and pn: "r = Panic \<longrightarrow> (\<exists>i\<in>set (sv_instructions vm). \<not> plain_instruction i)"
    by (auto simp: sbf_start_def)
  have "gm_used (sv_gas s') \<le> ec_gas_limit ctx"
    using fw ok by (simp add: sbf_forward_def meter_le_def meter_ok_def sbf_start_def vm meter_new_def)
  moreover have "sbf_execute vm = Some (case r of
      Ok _ \<Rightarrow> Ok ((vm_success (gm_used (sv_gas s')) (le_of_word (sv_registers s' ! 0)))
                \<lparr>vr_success := sv_registers s' ! 0 = 0, vr_logs := sv_logs s'\<rparr>)
    | Err e \<Rightarrow> Ok (vm_failure (gm_used (sv_gas s')) (vm_error_text e)) | Panic \<Rightarrow> Panic)"
    using run by (simp add: sbf_execute_def Let_def split: outcome.splits)
  ultimately show ?thesis using pn by (cases r) auto
qed

text \<open>Memory gives back what was written. A store of any of the four widths that fits in
  the heap succeeds, the load of the same width at the same address gives the low bits
  of the value, the rest of the heap and of the machine is unchanged; a store beyond the end, with an address that
  does not wrap, is an error that changes nothing.\<close>

theorem sbf_memory_roundtrip:
  assumes "length (sv_heap s) = HEAP_SIZE"
  shows "(unat a + mem_size w \<le> HEAP_SIZE \<longrightarrow> (\<exists>s'. mem_write w a v s = (Ok (), s')
        \<and> mem_read w a s' = (Ok (take_bit (8 * mem_size w) v), s') \<and> s'\<lparr>sv_heap := sv_heap s\<rparr> = s
        \<and> (\<forall>j < HEAP_SIZE. j < unat a \<or> unat a + mem_size w \<le> j \<longrightarrow> sv_heap s' ! j = sv_heap s ! j)))
    \<and> (HEAP_SIZE < unat a + mem_size w \<and> unat a + mem_size w < 2 ^ 64 \<longrightarrow>
        mem_write w a v s = (Err (InvalidMemoryAccess a), s))"
proof (intro conjI impI)
  assume fit: "unat a + mem_size w \<le> HEAP_SIZE"
  obtain val where val: "length val = mem_size w"
    "mem_write w a v s = (Ok (), s\<lparr>sv_heap := take (unat a) (sv_heap s) @ val @ drop (unat a + mem_size w) (sv_heap s)\<rparr>)"
    "mem_read w a (s\<lparr>sv_heap := take (unat a) (sv_heap s) @ val @ drop (unat a + mem_size w) (sv_heap s)\<rparr>)
      = (Ok (take_bit (8 * mem_size w) v), s\<lparr>sv_heap := take (unat a) (sv_heap s) @ val @ drop (unat a + mem_size w) (sv_heap s)\<rparr>)"
    using mem_write_in [OF assms fit] by blast
  have "(take (unat a) (sv_heap s) @ val @ drop (unat a + mem_size w) (sv_heap s)) ! j = sv_heap s ! j"
    if "j < HEAP_SIZE" "j < unat a \<or> unat a + mem_size w \<le> j" for j
    using that fit assms val(1) by (auto simp: nth_append)
  with val show "\<exists>s'. mem_write w a v s = (Ok (), s')
        \<and> mem_read w a s' = (Ok (take_bit (8 * mem_size w) v), s') \<and> s'\<lparr>sv_heap := sv_heap s\<rparr> = s
        \<and> (\<forall>j < HEAP_SIZE. j < unat a \<or> unat a + mem_size w \<le> j \<longrightarrow> sv_heap s' ! j = sv_heap s ! j)"
    by (intro exI [of _ "s\<lparr>sv_heap := take (unat a) (sv_heap s) @ val @ drop (unat a + mem_size w) (sv_heap s)\<rparr>"]) simp
next
  assume "HEAP_SIZE < unat a + mem_size w \<and> unat a + mem_size w < 2 ^ 64"
  then show "mem_write w a v s = (Err (InvalidMemoryAccess a), s)"
    using assms
    by (cases w) (auto simp: write_memory_u8_def write_memory_u16_def write_memory_u32_def write_memory_u64_def
        write_heap_def heap_splice_def heap_range_out)
qed

theorem sbf_memory_roundtrip_witness:
  "\<forall>vm. \<exists>s'. mem_write MemWord 100 0x1FFFFFFFF (vm\<lparr>sv_heap := replicate HEAP_SIZE 0\<rparr>) = (Ok (), s')
     \<and> mem_read MemWord 100 s' = (Ok 0xFFFFFFFF, s')"
proof
  fix vm
  have "take_bit 32 (0x1FFFFFFFF :: u64) = 0xFFFFFFFF" by simp
  then show "\<exists>s'. mem_write MemWord 100 0x1FFFFFFFF (vm\<lparr>sv_heap := replicate HEAP_SIZE 0\<rparr>) = (Ok (), s')
     \<and> mem_read MemWord 100 s' = (Ok 0xFFFFFFFF, s')"
    using sbf_memory_roundtrip [of "vm\<lparr>sv_heap := replicate HEAP_SIZE 0\<rparr>" 100 MemWord "0x1FFFFFFFF"]
    by (auto simp: HEAP_SIZE_def)
qed

text \<open>C26: A contract can stop the node. A load of two bytes one below address zero passes the bounds check, because
  the check adds without looking for overflow, and then indexes the heap out of range; an instruction that names register 11 indexes
  the registers out of range. For every header and every context with five units of gas, the contract that consists of such a load
  is accepted and its execution panics.\<close>

theorem sbf_contract_panics:
  assumes "length header = 60" and "5 \<le> ec_gas_limit ctx"
  shows "\<exists>vm. sbf_new ([0x7f, 0x45, 0x4C, 0x46] @ header @ [0x69, 0x10, 0xFF, 0xFF, 0, 0, 0, 0]) ctx = Ok vm
    \<and> sbf_execute vm = Some Panic"
proof -
  let ?i = "\<lparr>si_opcode = 0x69, si_dst = 0, si_src = 1, si_offset = - 1, si_imm = 0\<rparr>"
  let ?code = "[0x7f, 0x45, 0x4C, 0x46] @ header @ [0x69, 0x10, 0xFF, 0xFF, 0, 0, 0, 0]"
  have lim: "5 \<le> unat (ec_gas_limit ctx)" using assms(2) by (simp add: word_le_nat_alt)
  have drop: "drop 64 ?code = [0x69, 0x10, 0xFF, 0xFF, 0, 0, 0, 0]" using assms(1) by simp
  have dec: "sbf_decode [0x69, 0x10, 0xFF, 0xFF, 0, 0, 0, 0] = Some ?i"
    by (simp add: sbf_decode_def)
  have len: "length ?code = 72" and magic: "take 4 ?code = [0x7f, 0x45, 0x4C, 0x46]" using assms(1) by simp_all
  have "parse_elf ?code = Ok [?i]"
    by (rule parse_elf_single [OF len magic drop dec])
  then obtain vm where vm: "sbf_new ?code ctx = Ok vm" and ins: "sv_instructions vm = [?i]" "sv_pc vm = 0"
      "sv_heap vm = replicate HEAP_SIZE 0" "sv_registers vm = replicate NUM_REGISTERS 0"
      "sv_gas vm = meter_new (ec_gas_limit ctx)"
    by (simp add: sbf_new_def)
  let ?s = "sbf_start vm"
  have h: "\<not> sbf_halted ?s" by (simp add: sbf_halted_def sbf_start_def ins)
  have c1: "consume GAS_BASE (meter_new (ec_gas_limit ctx)) = (Ok (), (meter_new (ec_gas_limit ctx))\<lparr>gm_used := 2\<rparr>)"
    using lim consume_fits [of "meter_new (ec_gas_limit ctx)" 2] by (simp add: meter_new_def GAS_BASE_def)
  have c2: "consume GAS_VERY_LOW ((meter_new (ec_gas_limit ctx))\<lparr>gm_used := 2\<rparr>)
      = (Ok (), (meter_new (ec_gas_limit ctx))\<lparr>gm_used := 5\<rparr>)"
    using lim consume_fits [of "(meter_new (ec_gas_limit ctx))\<lparr>gm_used := 2\<rparr>" 3] by (simp add: meter_new_def GAS_VERY_LOW_def)
  have "heap_range (replicate HEAP_SIZE 0) (- 1) 2 = Panic"
    by (simp add: heap_range_def slice_def HEAP_SIZE_def unat_minus_one_word)
  then have rd: "read_memory_u16 (- 1) t = (Panic, t)" if "sv_heap t = replicate HEAP_SIZE 0" for t
    using that by (simp add: read_memory_u16_def)
  have regs: "sv_registers ?s ! 1 = 0" "1 < length (sv_registers ?s)"
    by (simp_all add: sbf_start_def ins NUM_REGISTERS_def)
  define i0 where "i0 = ?i"
  define t1 where "t1 = ?s\<lparr>sv_pc := 1, sv_gas := (meter_new (ec_gas_limit ctx))\<lparr>gm_used := 2\<rparr>\<rparr>"
  have f: "sbf_fetch ?s = (Ok i0, t1)"
    by (simp add: sbf_fetch_def sbf_next_def outcome_simps sbf_charge_def sbf_start_def ins c1 t1_def i0_def)
  have "sbf_dispatch i0 = thenM (load i0 GAS_VERY_LOW (\<lambda>a. bindM (read_memory_u16 a) (\<lambda>v. ret (ucast v)))) (ret True)"
    by (simp add: sbf_dispatch_def i0_def)
  moreover have "address_of i0 (si_src i0) t1 = (Ok (- 1), t1)"
    using regs by (simp add: address_of_def outcome_simps get_reg_def i0_def t1_def)
  ultimately have "fst (sbf_dispatch i0 t1) = Panic"
    by (simp add: load_def outcome_simps sbf_charge_def t1_def c2 rd sbf_start_def ins)
  then have "fst (sbf_step ?s) = Panic" by (simp add: sbf_step_def bindM_def f)
  then obtain s' where "sbf_step ?s = (Panic, s')" by (cases "sbf_step ?s") simp
  then have "vm_loop sbf_halted sbf_step ?s = Some (Panic, s')"
    by (simp add: vm_loop.simps [of _ _ "sbf_start vm"] h)
  with vm show ?thesis by (simp add: sbf_execute_def)
qed

theorem sbf_contract_panics_witness:
  "\<exists>vm. sbf_new ([0x7f, 0x45, 0x4C, 0x46] @ replicate 60 0 @ [0x69, 0x10, 0xFF, 0xFF, 0, 0, 0, 0])
       (context_new address_zero address_zero 0 1000) = Ok vm \<and> sbf_execute vm = Some Panic"
  by (rule sbf_contract_panics) (simp_all add: context_new_def)

end
