(* ===== verification/Fry_Pact_Syntax.thy ===== *)
theory Fry_Pact_Syntax
  imports Fry_Gas Fry_Text "HOL-Library.Finite_Map"
begin

text \<open>
  \<open>frychain-vm/src/pact.rs\<close>, the language: values, expressions and the parser. Strings are byte strings, and the
  parser's position is a byte index; asking for the character at an index inside a UTF-8 sequence or beyond the end panics, as
  slicing a \<open>str\<close> does. The parser calls itself only on a later position, so its recursion is on a fuel that
  the lemmas show to be enough: it returns for every text.
\<close>

subsection \<open>Programs that may run out of fuel\<close>

type_synonym ('s, 'e, 'a) run = "'s \<Rightarrow> (('e, 'a) outcome \<times> 's) option"

definition run_prog :: "('s, 'e, 'a) prog \<Rightarrow> ('s, 'e, 'a) run" where
  "run_prog m = (\<lambda>s. Some (m s))"

definition bindN :: "('s, 'e, 'a) run \<Rightarrow> ('a \<Rightarrow> ('s, 'e, 'b) run) \<Rightarrow> ('s, 'e, 'b) run" where
  "bindN m f = (\<lambda>s. case m s of
      None \<Rightarrow> None
    | Some (r, s') \<Rightarrow> (case r of Ok x \<Rightarrow> f x s' | Err e \<Rightarrow> Some (Err e, s') | Panic \<Rightarrow> Some (Panic, s')))"

definition thenN :: "('s, 'e, 'a) run \<Rightarrow> ('s, 'e, 'b) run \<Rightarrow> ('s, 'e, 'b) run" where
  "thenN m k = bindN m (\<lambda>_. k)"

definition retN :: "'a \<Rightarrow> ('s, 'e, 'a) run" where
  "retN x = run_prog (ret x)"

definition failN :: "'e \<Rightarrow> ('s, 'e, 'a) run" where
  "failN e = run_prog (fail e)"

definition mapN :: "('a \<Rightarrow> 'b) \<Rightarrow> ('s, 'e, 'a) run \<Rightarrow> ('s, 'e, 'b) run" where
  "mapN f m = bindN m (\<lambda>x. retN (f x))"

subsection \<open>Values and expressions\<close>

type_synonym i128 = "128 word"

datatype keyset_predicate = KeysAll | KeysAny | Keys2 | CustomPredicate string

datatype pact_value =
    PInteger i128
  | PDecimal i128 u8
  | PString string
  | PBool bool
  | PList "pact_value list"
  | PObject "(string, pact_value) fmap"
  | PGuard pact_guard
  | PModRef string
  | PCapability string "pact_value list"
  | PUnit
  | PTime "64 word"
  | PKeySet string
and pact_guard =
    KeySetGuard "string list" keyset_predicate
  | UserGuard string string
  | CapabilityGuard string "pact_value list"
  | PactGuard string

datatype pact_governance = GovKeyset string | GovCapability string

datatype pact_expr =
    ELiteral pact_value
  | ESymbol string
  | EApp pact_expr "pact_expr list"
  | ELet "(string \<times> pact_expr) list" pact_expr
  | ELambda "string list" pact_expr
  | EIf pact_expr pact_expr pact_expr
  | EModule pact_module
  | EInterface string "pact_expr list"
  | EDefun string "string list" pact_expr "string option"
  | EDefcap string "string list" pact_expr
  | EDefschema string "(string \<times> string) list"
  | EDeftable string string
  | EWithCapability string "pact_expr list" pact_expr
  | ERequireCapability string "pact_expr list"
  | ERead string pact_expr
  | EWrite string pact_expr pact_expr
  | EInsert string pact_expr pact_expr
  | EUpdate string pact_expr pact_expr
  | EEnforce pact_expr string
  | EEnforceGuard pact_expr
  | EProperty string pact_expr
and pact_module = PactModule (mod_name: string) (mod_governance: pact_governance)
    (mod_imports: "(string \<times> string list option) list") (mod_definitions: "pact_expr list")

subsection \<open>Characters\<close>

text \<open>The bytes of a UTF-8 text as characters of the logic; the number of bytes of the character a byte opens.\<close>

definition byte_of :: "char \<Rightarrow> nat" where
  "byte_of c = of_char c"

definition is_continuation :: "char \<Rightarrow> bool" where
  "is_continuation c \<longleftrightarrow> 128 \<le> byte_of c \<and> byte_of c < 192"

definition char_width :: "char \<Rightarrow> nat" where
  "char_width c = (if byte_of c < 128 then 1 else if byte_of c < 224 then 2 else if byte_of c < 240 then 3 else 4)"

definition between :: "nat \<Rightarrow> nat \<Rightarrow> char \<Rightarrow> bool" where
  "between lo hi c \<longleftrightarrow> lo \<le> byte_of c \<and> byte_of c \<le> hi"

text \<open>\<open>str::from_utf8\<close> accepts exactly the well-formed sequences of the Unicode standard.\<close>

fun valid_utf8 :: "string \<Rightarrow> bool" where
  "valid_utf8 [] = True"
| "valid_utf8 (a # s) =
     (if byte_of a < 128 then valid_utf8 s
      else if between 0xC2 0xDF a then
        (case s of b # t \<Rightarrow> is_continuation b \<and> valid_utf8 t | _ \<Rightarrow> False)
      else if between 0xE0 0xEF a then
        (case s of b # c # t \<Rightarrow>
            between (if byte_of a = 0xE0 then 0xA0 else 0x80) (if byte_of a = 0xED then 0x9F else 0xBF) b
            \<and> is_continuation c \<and> valid_utf8 t
         | _ \<Rightarrow> False)
      else if between 0xF0 0xF4 a then
        (case s of b # c # d # t \<Rightarrow>
            between (if byte_of a = 0xF0 then 0x90 else 0x80) (if byte_of a = 0xF4 then 0x8F else 0xBF) b
            \<and> is_continuation c \<and> is_continuation d \<and> valid_utf8 t
         | _ \<Rightarrow> False)
      else False)"

fun code_point :: "string \<Rightarrow> nat" where
  "code_point [a] = byte_of a"
| "code_point [a, b] = (byte_of a - 0xC0) * 64 + (byte_of b - 0x80)"
| "code_point [a, b, c] = (byte_of a - 0xE0) * 4096 + (byte_of b - 0x80) * 64 + (byte_of c - 0x80)"
| "code_point s = 0x10000"

definition is_whitespace :: "string \<Rightarrow> bool" where
  "is_whitespace ch \<longleftrightarrow> (let n = code_point ch in
     9 \<le> n \<and> n \<le> 13 \<or> n \<in> set [0x20, 0x85, 0xA0, 0x1680, 0x2028, 0x2029, 0x202F, 0x205F, 0x3000]
     \<or> 0x2000 \<le> n \<and> n \<le> 0x200A)"

subsection \<open>The position\<close>

type_synonym 'a parser_prog = "(nat, vm_error, 'a) prog"
type_synonym 'a parser = "(nat, vm_error, 'a) run"

definition on_boundary :: "string \<Rightarrow> nat \<Rightarrow> bool" where
  "on_boundary inp pos \<longleftrightarrow> pos = length inp \<or> pos < length inp \<and> \<not> is_continuation (inp ! pos)"

definition current_char :: "string \<Rightarrow> string parser_prog" where
  "current_char inp = (\<lambda>pos.
     (if \<not> on_boundary inp pos then Panic
      else if pos = length inp then Ok [CHR 0x00]
      else Ok (take (char_width (inp ! pos)) (drop pos inp)), pos))"

definition peek_str :: "string \<Rightarrow> string \<Rightarrow> bool parser_prog" where
  "peek_str inp s = (\<lambda>pos. (if \<not> on_boundary inp pos then Panic else Ok (starts_with s (drop pos inp)), pos))"

definition advance :: "unit parser_prog" where
  "advance = (\<lambda>pos. (Ok (), pos + 1))"

definition expect_char :: "string \<Rightarrow> char \<Rightarrow> unit parser_prog" where
  "expect_char inp expected =
     bindM (current_char inp) (\<lambda>ch.
       if ch = [expected] then advance
       else fail (ExecutionError (''Expected '' @ [CHR 0x27, expected, CHR 0x27] @ '', got '' @ [CHR 0x27] @ ch @ [CHR 0x27])))"

text \<open>\<open>while self.pos < self.input.len() && p(self.current_char()) { self.pos += 1 }\<close>\<close>

function scan :: "(string \<Rightarrow> bool) \<Rightarrow> string \<Rightarrow> unit parser_prog" where
  "scan P inp pos =
     (if pos < length inp
      then (case fst (current_char inp pos) of
              Ok ch \<Rightarrow> if P ch then scan P inp (pos + 1) else (Ok (), pos)
            | Err e \<Rightarrow> (Err e, pos)
            | Panic \<Rightarrow> (Panic, pos))
      else (Ok (), pos))"
  by pat_completeness auto
termination by (relation "measure (\<lambda>(P, inp, pos). length inp - pos)") auto

declare scan.simps [simp del]

lemma scan_forward: "pos \<le> snd (scan P inp pos)"
  by (induction P inp pos rule: scan.induct) (subst scan.simps, auto split: outcome.split)

lemma scan_moves: "pos < length inp \<Longrightarrow> fst (current_char inp pos) = Ok ch \<Longrightarrow> P ch \<Longrightarrow> pos < snd (scan P inp pos)"
  using scan_forward [of "pos + 1" P inp] by (subst scan.simps) simp

definition skip_until :: "string \<Rightarrow> char \<Rightarrow> unit parser_prog" where
  "skip_until inp c = scan (\<lambda>ch. ch \<noteq> [c]) inp"

function skip_whitespace :: "string \<Rightarrow> unit parser_prog" where
  "skip_whitespace inp pos =
     (if pos < length inp
      then (case fst (current_char inp pos) of
              Ok ch \<Rightarrow>
                if is_whitespace ch then skip_whitespace inp (pos + 1)
                else if ch = '';'' then
                  let r = scan (\<lambda>ch. ch \<noteq> [CHR 0x0A]) inp pos
                  in if fst r = Ok () then skip_whitespace inp (snd r) else r
                else (Ok (), pos)
            | Err e \<Rightarrow> (Err e, pos)
            | Panic \<Rightarrow> (Panic, pos))
      else (Ok (), pos))"
  by pat_completeness auto
termination
proof (relation "measure (\<lambda>(inp, pos). length inp - pos)", goal_cases)
  case (3 inp pos ch r)
  then show ?case using scan_moves [of pos inp ch "\<lambda>ch. ch \<noteq> [CHR 0x0A]"] by auto
qed auto

declare skip_whitespace.simps [simp del]

text \<open>\<open>skip_whitespace\<close> followed by \<open>current_char\<close>.\<close>

definition next_char :: "string \<Rightarrow> string parser_prog" where
  "next_char inp = thenM (skip_whitespace inp) (current_char inp)"

subsection \<open>Words, strings and numbers\<close>

definition ends_symbol :: "string \<Rightarrow> bool" where
  "ends_symbol ch \<longleftrightarrow> is_whitespace ch \<or> ch \<in> set ['')'', ''('', [CHR 0x22], '';'']"

definition substring :: "nat \<Rightarrow> nat \<Rightarrow> string \<Rightarrow> string" where
  "substring i j s = take (j - i) (drop i s)"

definition parse_symbol_name :: "string \<Rightarrow> string parser_prog" where
  "parse_symbol_name inp = (\<lambda>start.
     case scan (\<lambda>ch. \<not> ends_symbol ch) inp start of
       (Ok u, pos) \<Rightarrow>
         if pos = start then (Err (ExecutionError ''Expected symbol''), pos) else (Ok (substring start pos inp), pos)
     | (Err e, pos) \<Rightarrow> (Err e, pos)
     | (Panic, pos) \<Rightarrow> (Panic, pos))"

definition parse_symbol :: "string \<Rightarrow> pact_expr parser_prog" where
  "parse_symbol inp = bindM (parse_symbol_name inp) (\<lambda>name.
     if name = ''true'' then ret (ELiteral (PBool True))
     else if name = ''false'' then ret (ELiteral (PBool False))
     else ret (ESymbol name))"

definition unescape :: "string \<Rightarrow> string" where
  "unescape ch = (if ch = ''n'' then [CHR 0x0A] else if ch = ''t'' then [CHR 0x09] else if ch = ''r'' then [CHR 0x0D] else ch)"

function string_loop :: "string \<Rightarrow> bool \<Rightarrow> string \<Rightarrow> string parser_prog" where
  "string_loop inp escaped s pos =
     (if pos < length inp
      then (case fst (current_char inp pos) of
              Ok ch \<Rightarrow>
                if escaped then string_loop inp False (s @ unescape ch) (pos + 1)
                else if ch = [CHR 0x5C] then string_loop inp True s (pos + 1)
                else if ch = [CHR 0x22] then (Ok s, pos + 1)
                else string_loop inp False (s @ ch) (pos + 1)
            | Err e \<Rightarrow> (Err e, pos)
            | Panic \<Rightarrow> (Panic, pos))
      else (Err (ExecutionError ''Unterminated string''), pos))"
  by pat_completeness auto
termination by (relation "measure (\<lambda>(inp, escaped, s, pos). length inp - pos)") auto

declare string_loop.simps [simp del]

definition parse_string_value :: "string \<Rightarrow> string parser_prog" where
  "parse_string_value inp = thenM (expect_char inp (CHR 0x22)) (string_loop inp False [])"

definition parse_string :: "string \<Rightarrow> pact_expr parser_prog" where
  "parse_string inp = bindM (parse_string_value inp) (\<lambda>s. ret (ELiteral (PString s)))"

definition digits_int :: "string \<Rightarrow> int" where
  "digits_int ds = foldl (\<lambda>n c. n * 10 + int (digit_of c)) 0 ds"

text \<open>\<open>i128::from_str\<close>; its callers drop the error.\<close>

definition parse_i128 :: "string \<Rightarrow> i128 option" where
  "parse_i128 s =
     (let neg = (s \<noteq> [] \<and> hd s = CHR ''-'');
          ds = (if s \<noteq> [] \<and> hd s \<in> {CHR ''-'', CHR ''+''} then tl s else s);
          n = (if neg then - digits_int ds else digits_int ds)
      in if ds = [] \<or> \<not> list_all is_digit ds then None
         else if - (2 ^ 127) \<le> n \<and> n < 2 ^ 127 then Some (word_of_int n) else None)"

fun number_loop :: "string \<Rightarrow> bool \<Rightarrow> bool \<times> nat" where
  "number_loop [] has_decimal = (has_decimal, 0)"
| "number_loop (c # cs) has_decimal =
     (if is_digit c then apsnd Suc (number_loop cs has_decimal)
      else if c = CHR ''.'' \<and> \<not> has_decimal then apsnd Suc (number_loop cs True)
      else (has_decimal, 0))"

definition number_value :: "bool \<Rightarrow> string \<Rightarrow> (vm_error, pact_value) outcome" where
  "number_value has_decimal num_str =
     (if has_decimal
      then let whole_str = takeWhile (\<lambda>c. c \<noteq> CHR ''.'') num_str;
               frac_str = tl (dropWhile (\<lambda>c. c \<noteq> CHR ''.'') num_str)
           in (case parse_i128 whole_str of
                 None \<Rightarrow> Err (ExecutionError ''Invalid number'')
               | Some whole \<Rightarrow>
                   let frac = (case parse_i128 frac_str of None \<Rightarrow> 0 | Some n \<Rightarrow> n);
                       decimals = word_of_nat (length frac_str) :: u8
                   in Ok (PDecimal (whole * 10 ^ unat decimals + frac) decimals))
      else (case parse_i128 num_str of
              None \<Rightarrow> Err (ExecutionError ''Invalid integer'')
            | Some n \<Rightarrow> Ok (PInteger n)))"

text \<open>The parser only comes here on a digit or a minus sign, so the position is a boundary. The loop of the source reads
  ASCII characters one by one and stops at any other.\<close>

definition parse_number :: "string \<Rightarrow> pact_expr parser_prog" where
  "parse_number inp = (\<lambda>start.
     let signed = (if starts_with ''-'' (drop start inp) then 1 else 0);
         (has_decimal, n) = number_loop (drop (start + signed) inp) False;
         pos = start + signed + n
     in (bindR (number_value has_decimal (substring start pos inp)) (\<lambda>v. Ok (ELiteral v)), pos))"

subsection \<open>Lists of items\<close>

text \<open>\<open>loop { skip_whitespace; if current_char == ')' { pos += 1; break } items.push(item()?) }\<close>, on a fuel for the
  iterations.\<close>

fun until_close :: "string \<Rightarrow> 'a parser \<Rightarrow> nat \<Rightarrow> 'a list parser" where
  "until_close inp item 0 = (\<lambda>_. None)"
| "until_close inp item (Suc n) =
     bindN (run_prog (next_char inp)) (\<lambda>ch.
       if ch = '')'' then thenN (run_prog advance) (retN [])
       else bindN item (\<lambda>x. bindN (until_close inp item n) (\<lambda>xs. retN (x # xs))))"

text \<open>\<open>skip_whitespace; expect_char(c)\<close>.\<close>

definition expect_next :: "string \<Rightarrow> char \<Rightarrow> unit parser" where
  "expect_next inp c = run_prog (thenM (skip_whitespace inp) (expect_char inp c))"

definition symbol_next :: "string \<Rightarrow> string parser" where
  "symbol_next inp = run_prog (thenM (skip_whitespace inp) (parse_symbol_name inp))"

subsection \<open>Special forms\<close>

text \<open>Each takes the expression parser \<open>pe\<close> and the fuel \<open>n\<close> of its loops.\<close>

definition parse_module :: "string \<Rightarrow> pact_expr parser \<Rightarrow> nat \<Rightarrow> pact_expr parser" where
  "parse_module inp pe n =
     bindN (symbol_next inp) (\<lambda>name.
     bindN (run_prog (next_char inp)) (\<lambda>ch.
     bindN (run_prog (peek_str inp [CHR 0x27])) (\<lambda>quoted.
     bindN (if ch = [CHR 0x27] \<or> quoted
            then bindN (run_prog (thenM advance (parse_symbol_name inp))) (\<lambda>gov. retN (GovKeyset gov))
            else if ch = ''('' then
              thenN (run_prog advance) (thenN pe (bindN (run_prog (next_char inp)) (\<lambda>c.
                thenN (if c = '')'' then run_prog advance else retN ()) (retN (GovKeyset ''admin'')))))
            else bindN (run_prog (parse_symbol_name inp)) (\<lambda>gov. retN (GovKeyset gov))) (\<lambda>governance.
     bindN (until_close inp pe n) (\<lambda>definitions.
       retN (EModule (PactModule name governance [] definitions)))))))"

text \<open>A parameter with its optional type annotation.\<close>

definition parse_param :: "string \<Rightarrow> string parser" where
  "parse_param inp = run_prog (bindM (parse_symbol_name inp) (\<lambda>p. bindM (next_char inp) (\<lambda>ch.
     if ch = '':'' then thenM advance (thenM (skip_whitespace inp) (thenM (parse_symbol_name inp) (ret p))) else ret p)))"

definition parse_params :: "string \<Rightarrow> nat \<Rightarrow> string list parser" where
  "parse_params inp n = thenN (run_prog (expect_char inp (CHR ''(''))) (until_close inp (parse_param inp) n)"

text \<open>\<open>while self.peek_str("@") { skip_until(')'); pos += 1; skip_whitespace }\<close>\<close>

fun skip_docs :: "string \<Rightarrow> nat \<Rightarrow> unit parser" where
  "skip_docs inp 0 = (\<lambda>_. None)"
| "skip_docs inp (Suc n) =
     bindN (run_prog (peek_str inp ''@'')) (\<lambda>at.
       if at then thenN (run_prog (thenM (skip_until inp (CHR '')'')) (thenM advance (skip_whitespace inp)))) (skip_docs inp n)
       else retN ())"

definition parse_body :: "string \<Rightarrow> pact_expr parser \<Rightarrow> pact_expr parser" where
  "parse_body inp pe = thenN (run_prog (skip_whitespace inp)) (bindN pe (\<lambda>e. thenN (expect_next inp (CHR '')'')) (retN e)))"

definition parse_defun :: "string \<Rightarrow> pact_expr parser \<Rightarrow> nat \<Rightarrow> pact_expr parser" where
  "parse_defun inp pe n =
     bindN (symbol_next inp) (\<lambda>name.
     bindN (run_prog (next_char inp)) (\<lambda>ch.
     bindN (if ch = [CHR 0x22]
            then run_prog (bindM (parse_string_value inp) (\<lambda>s. thenM (skip_whitespace inp) (ret (Some s))))
            else retN None) (\<lambda>docstring.
     thenN (skip_docs inp n)
     (bindN (parse_params inp n) (\<lambda>params.
     bindN (parse_body inp pe) (\<lambda>body.
       retN (EDefun name params body docstring)))))))"

text \<open>The loop over the annotations of a capability: \<open>while cur != ')' && cur != '(' { pos += 1; if pos >= len { break } }\<close>
  for an annotation, a string otherwise.\<close>

function skip_annotation :: "string \<Rightarrow> unit parser_prog" where
  "skip_annotation inp pos =
     (case fst (current_char inp pos) of
        Ok ch \<Rightarrow>
          if ch \<noteq> '')'' \<and> ch \<noteq> ''('' then (if pos + 1 \<ge> length inp then (Ok (), pos + 1) else skip_annotation inp (pos + 1))
          else (Ok (), pos)
      | Err e \<Rightarrow> (Err e, pos)
      | Panic \<Rightarrow> (Panic, pos))"
  by pat_completeness auto
termination by (relation "measure (\<lambda>(inp, pos). length inp - pos)") auto

declare skip_annotation.simps [simp del]

fun skip_annotations :: "string \<Rightarrow> nat \<Rightarrow> unit parser" where
  "skip_annotations inp 0 = (\<lambda>_. None)"
| "skip_annotations inp (Suc n) =
     bindN (run_prog (peek_str inp ''@'')) (\<lambda>at.
     bindN (run_prog (current_char inp)) (\<lambda>ch.
       if at \<or> ch = [CHR 0x22] then
         thenN (if ch = [CHR 0x22] then run_prog (thenM (parse_string_value inp) (ret ())) else run_prog (skip_annotation inp))
         (thenN (run_prog (skip_whitespace inp)) (skip_annotations inp n))
       else retN ()))"

definition parse_defcap :: "string \<Rightarrow> pact_expr parser \<Rightarrow> nat \<Rightarrow> pact_expr parser" where
  "parse_defcap inp pe n =
     bindN (symbol_next inp) (\<lambda>name.
     thenN (run_prog (skip_whitespace inp))
     (bindN (parse_params inp n) (\<lambda>params.
     thenN (run_prog (skip_whitespace inp))
     (thenN (skip_annotations inp n)
     (bindN (run_prog (current_char inp)) (\<lambda>ch.
     bindN (if ch = '')'' then thenN (run_prog advance) (retN (ELiteral (PBool True)))
            else bindN pe (\<lambda>b. thenN (expect_next inp (CHR '')'')) (retN b))) (\<lambda>body.
       retN (EDefcap name params body))))))))"

definition parse_field :: "string \<Rightarrow> (string \<times> string) parser" where
  "parse_field inp =
     bindN (run_prog (parse_symbol_name inp)) (\<lambda>field_name.
     thenN (expect_next inp (CHR '':''))
     (bindN (symbol_next inp) (\<lambda>field_type. retN (field_name, field_type))))"

definition parse_defschema :: "string \<Rightarrow> nat \<Rightarrow> pact_expr parser" where
  "parse_defschema inp n =
     bindN (symbol_next inp) (\<lambda>name.
     bindN (run_prog (next_char inp)) (\<lambda>ch.
     thenN (if ch = [CHR 0x22] then run_prog (thenM (parse_string_value inp) (skip_whitespace inp)) else retN ())
     (bindN (until_close inp (parse_field inp) n) (\<lambda>fields. retN (EDefschema name fields)))))"

definition parse_deftable :: "string \<Rightarrow> pact_expr parser" where
  "parse_deftable inp =
     bindN (symbol_next inp) (\<lambda>name.
     thenN (expect_next inp (CHR '':'')) (thenN (expect_next inp (CHR 0x7B))
     (bindN (symbol_next inp) (\<lambda>schema.
     thenN (expect_next inp (CHR 0x7D)) (thenN (expect_next inp (CHR '')''))
     (retN (EDeftable name schema)))))))"

definition parse_binding :: "string \<Rightarrow> pact_expr parser \<Rightarrow> (string \<times> pact_expr) parser" where
  "parse_binding inp pe =
     thenN (run_prog (expect_char inp (CHR ''(''))) (bindN (run_prog (parse_symbol_name inp)) (\<lambda>name.
       bindN (parse_body inp pe) (\<lambda>v. retN (name, v))))"

definition parse_let :: "string \<Rightarrow> pact_expr parser \<Rightarrow> nat \<Rightarrow> pact_expr parser" where
  "parse_let inp pe n =
     thenN (expect_next inp (CHR ''('')) (bindN (until_close inp (parse_binding inp pe) n) (\<lambda>bindings.
       bindN (parse_body inp pe) (\<lambda>body. retN (ELet bindings body))))"

definition parse_lambda :: "string \<Rightarrow> pact_expr parser \<Rightarrow> nat \<Rightarrow> pact_expr parser" where
  "parse_lambda inp pe n =
     thenN (expect_next inp (CHR ''('')) (bindN (until_close inp (run_prog (parse_symbol_name inp)) n) (\<lambda>params.
       bindN (parse_body inp pe) (\<lambda>body. retN (ELambda params body))))"

definition parse_next :: "string \<Rightarrow> pact_expr parser \<Rightarrow> pact_expr parser" where
  "parse_next inp pe = thenN (run_prog (skip_whitespace inp)) pe"

definition parse_if :: "string \<Rightarrow> pact_expr parser \<Rightarrow> pact_expr parser" where
  "parse_if inp pe =
     bindN (parse_next inp pe) (\<lambda>c. bindN (parse_next inp pe) (\<lambda>t.
     bindN (run_prog (next_char inp)) (\<lambda>ch.
     bindN (if ch = '')'' then retN (ELiteral PUnit) else pe) (\<lambda>e.
     thenN (expect_next inp (CHR '')'')) (retN (EIf c t e))))))"

text \<open>The capability of \<open>with-capability\<close> and \<open>require-capability\<close> with its arguments.\<close>

definition parse_cap_call :: "string \<Rightarrow> pact_expr parser \<Rightarrow> nat \<Rightarrow> (string \<times> pact_expr list) parser" where
  "parse_cap_call inp pe n =
     thenN (expect_next inp (CHR ''('')) (bindN (run_prog (parse_symbol_name inp)) (\<lambda>cap_name.
       bindN (until_close inp pe n) (\<lambda>args. retN (cap_name, args))))"

definition parse_with_capability :: "string \<Rightarrow> pact_expr parser \<Rightarrow> nat \<Rightarrow> pact_expr parser" where
  "parse_with_capability inp pe n =
     bindN (parse_cap_call inp pe n) (\<lambda>(cap_name, args).
       bindN (parse_body inp pe) (\<lambda>body. retN (EWithCapability cap_name args body)))"

definition parse_require_capability :: "string \<Rightarrow> pact_expr parser \<Rightarrow> nat \<Rightarrow> pact_expr parser" where
  "parse_require_capability inp pe n =
     bindN (parse_cap_call inp pe n) (\<lambda>(cap_name, args).
       thenN (expect_next inp (CHR '')'')) (retN (ERequireCapability cap_name args)))"

definition parse_enforce :: "string \<Rightarrow> pact_expr parser \<Rightarrow> pact_expr parser" where
  "parse_enforce inp pe =
     bindN (parse_next inp pe) (\<lambda>c.
     bindN (run_prog (thenM (skip_whitespace inp) (parse_string_value inp))) (\<lambda>msg.
     thenN (expect_next inp (CHR '')'')) (retN (EEnforce c msg))))"

definition parse_enforce_guard :: "string \<Rightarrow> pact_expr parser \<Rightarrow> pact_expr parser" where
  "parse_enforce_guard inp pe = bindN (parse_body inp pe) (\<lambda>g. retN (EEnforceGuard g))"

definition parse_read :: "string \<Rightarrow> pact_expr parser \<Rightarrow> pact_expr parser" where
  "parse_read inp pe = bindN (symbol_next inp) (\<lambda>table. bindN (parse_body inp pe) (\<lambda>key. retN (ERead table key)))"

definition parse_write :: "string \<Rightarrow> pact_expr parser \<Rightarrow> string \<Rightarrow> pact_expr parser" where
  "parse_write inp pe op =
     bindN (symbol_next inp) (\<lambda>table. bindN (parse_next inp pe) (\<lambda>key. bindN (parse_body inp pe) (\<lambda>v.
       retN (if op = ''insert'' then EInsert table key v else if op = ''update'' then EUpdate table key v
             else EWrite table key v))))"

definition parse_doc :: "string \<Rightarrow> pact_expr parser \<Rightarrow> pact_expr parser" where
  "parse_doc inp pe = bindN (parse_body inp pe) (\<lambda>_. retN (ELiteral PUnit))"

definition parse_app :: "string \<Rightarrow> pact_expr parser \<Rightarrow> nat \<Rightarrow> pact_expr \<Rightarrow> pact_expr parser" where
  "parse_app inp pe n first = bindN (until_close inp pe n) (\<lambda>args. retN (EApp first args))"

definition special_form :: "string \<Rightarrow> pact_expr parser \<Rightarrow> nat \<Rightarrow> string \<Rightarrow> pact_expr parser option" where
  "special_form inp pe n name =
     (if name = ''module'' then Some (parse_module inp pe n)
      else if name = ''defun'' then Some (parse_defun inp pe n)
      else if name = ''defcap'' then Some (parse_defcap inp pe n)
      else if name = ''defschema'' then Some (parse_defschema inp n)
      else if name = ''deftable'' then Some (parse_deftable inp)
      else if name = ''let'' \<or> name = ''let*'' then Some (parse_let inp pe n)
      else if name = ''lambda'' then Some (parse_lambda inp pe n)
      else if name = ''if'' then Some (parse_if inp pe)
      else if name = ''with-capability'' then Some (parse_with_capability inp pe n)
      else if name = ''require-capability'' then Some (parse_require_capability inp pe n)
      else if name = ''enforce'' then Some (parse_enforce inp pe)
      else if name = ''enforce-guard'' then Some (parse_enforce_guard inp pe)
      else if name = ''read'' then Some (parse_read inp pe)
      else if name = ''write'' \<or> name = ''insert'' \<or> name = ''update'' then Some (parse_write inp pe name)
      else if name = ''@doc'' \<or> name = ''@model'' then Some (parse_doc inp pe)
      else None)"

definition parse_list :: "string \<Rightarrow> pact_expr parser \<Rightarrow> nat \<Rightarrow> pact_expr parser" where
  "parse_list inp pe n =
     thenN (run_prog (expect_char inp (CHR ''('')))
     (bindN (run_prog (next_char inp)) (\<lambda>ch.
       if ch = '')'' then thenN (run_prog advance) (retN (ELiteral (PList [])))
       else bindN pe (\<lambda>first.
         case first of
           ESymbol name \<Rightarrow> (case special_form inp pe n name of Some p \<Rightarrow> p | None \<Rightarrow> parse_app inp pe n first)
         | _ \<Rightarrow> parse_app inp pe n first)))"

subsection \<open>Expressions\<close>

fun parse_expr :: "string \<Rightarrow> nat \<Rightarrow> pact_expr parser" where
  "parse_expr inp 0 = (\<lambda>_. None)"
| "parse_expr inp (Suc n) =
     thenN (run_prog (skip_whitespace inp))
     (bindN (run_prog (gets (\<lambda>pos. pos \<ge> length inp))) (\<lambda>at_end.
       if at_end then failN (ExecutionError ''Unexpected end of input'')
       else bindN (run_prog (current_char inp)) (\<lambda>ch.
         if ch = ''('' then parse_list inp (parse_expr inp n) n
         else if ch = [CHR 0x22] then run_prog (parse_string inp)
         else if ch = [CHR 0x27] then
           thenN (run_prog advance) (bindN (parse_expr inp n) (\<lambda>e. retN (EApp (ESymbol ''quote'') [e])))
         else if ch = ''-'' \<or> list_all is_digit ch then run_prog (parse_number inp)
         else run_prog (parse_symbol inp))))"

text \<open>\<open>while self.pos < self.input.len() { skip_whitespace; if self.pos >= self.input.len() { break } exprs.push(parse_expr()?) }\<close>\<close>

fun parse_all_loop :: "string \<Rightarrow> nat \<Rightarrow> nat \<Rightarrow> pact_expr list parser" where
  "parse_all_loop inp fuel 0 = (\<lambda>_. None)"
| "parse_all_loop inp fuel (Suc n) =
     bindN (run_prog (gets (\<lambda>pos. pos < length inp))) (\<lambda>more.
       if \<not> more then retN []
       else thenN (run_prog (skip_whitespace inp))
         (bindN (run_prog (gets (\<lambda>pos. pos \<ge> length inp))) (\<lambda>at_end.
           if at_end then retN []
           else bindN (parse_expr inp fuel) (\<lambda>e. bindN (parse_all_loop inp fuel n) (\<lambda>es. retN (e # es))))))"

text \<open>One more than the length of the text is enough fuel.\<close>

definition parse_fuel :: "string \<Rightarrow> nat" where
  "parse_fuel inp = length inp + 1"

definition parse_all :: "string \<Rightarrow> (vm_error, pact_expr list) outcome option" where
  "parse_all inp = map_option fst (parse_all_loop inp (parse_fuel inp) (parse_fuel inp) 0)"

definition PACT_MAGIC :: bytes where
  "PACT_MAGIC = [0x50, 0x41, 0x43, 0x54]"

definition compile_pact :: "string \<Rightarrow> bytes" where
  "compile_pact source = PACT_MAGIC @ str_bytes source"

subsection \<open>The parser returns\<close>

text \<open>\<open>parses inp k m\<close>: with at most \<open>k\<close> characters left, \<open>m\<close> returns and does not go back;
  \<open>eats\<close>: and when it succeeds it has consumed a character.\<close>

definition parses :: "string \<Rightarrow> nat \<Rightarrow> 'a parser \<Rightarrow> bool" where
  "parses inp k m \<longleftrightarrow> (\<forall>pos. length inp - pos \<le> k \<longrightarrow> (\<exists>r p. m pos = Some (r, p) \<and> pos \<le> p))"

definition eats :: "string \<Rightarrow> nat \<Rightarrow> 'a parser \<Rightarrow> bool" where
  "eats inp k m \<longleftrightarrow> (\<forall>pos. length inp - pos \<le> k \<longrightarrow>
     (\<exists>r p. m pos = Some (r, p) \<and> pos \<le> p \<and> (is_ok r \<longrightarrow> pos < p \<and> pos < length inp)))"

named_theorems parses_intros \<open>compositional rules for \<open>parses\<close>\<close>

interpretation fwd: step_frame "(\<le>) :: nat \<Rightarrow> nat \<Rightarrow> bool"
  by unfold_locales auto

lemma eats_parses: "eats inp k m \<Longrightarrow> parses inp k m"
  unfolding eats_def parses_def by blast

lemma eats_mono: "eats inp n m \<Longrightarrow> k \<le> n \<Longrightarrow> eats inp k m"
  unfolding eats_def by (meson order_trans)

lemma parses_mono: "parses inp n m \<Longrightarrow> k \<le> n \<Longrightarrow> parses inp k m"
  unfolding parses_def by (meson order_trans)

lemma parses_run_prog: "keeps (\<le>) m \<Longrightarrow> parses inp k (run_prog m)"
  unfolding parses_def keeps_def run_prog_def by (metis prod.collapse)

lemma parses_retN [parses_intros]: "parses inp k (retN x)"
  by (simp add: parses_def retN_def run_prog_def ret_def)

lemma parses_failN [parses_intros]: "parses inp k (failN x)"
  by (simp add: parses_def failN_def run_prog_def fail_def)

lemma parses_bindN [parses_intros]:
  assumes "parses inp k m" and "\<And>x. parses inp k (f x)"
  shows "parses inp k (bindN m f)"
  unfolding parses_def
proof (intro allI impI)
  fix pos assume "length inp - pos \<le> k"
  with assms(1) obtain r p where m: "m pos = Some (r, p)" "pos \<le> p" unfolding parses_def by blast
  show "\<exists>r p. bindN m f pos = Some (r, p) \<and> pos \<le> p"
  proof (cases r)
    case (Ok x)
    have "length inp - p \<le> k" using \<open>length inp - pos \<le> k\<close> m(2) by linarith
    with assms(2) [of x] obtain r' p' where "f x p = Some (r', p')" "p \<le> p'" unfolding parses_def by blast
    with m Ok show ?thesis by (auto simp: bindN_def)
  qed (use m in \<open>auto simp: bindN_def\<close>)
qed

lemma parses_thenN [parses_intros]: "parses inp k m \<Longrightarrow> parses inp k m' \<Longrightarrow> parses inp k (thenN m m')"
  by (simp add: thenN_def parses_bindN)

lemma parses_if [parses_intros]: "parses inp k m \<Longrightarrow> parses inp k m' \<Longrightarrow> parses inp k (if b then m else m')"
  by simp

lemma parses_case_prod [parses_intros]: "(\<And>x y. parses inp k (f x y)) \<Longrightarrow> parses inp k (case z of (x, y) \<Rightarrow> f x y)"
  by (simp split: prod.split)

text \<open>After a parser that eats, the rest has one character less.\<close>

lemma eats_bindN_less:
  assumes "eats inp k m" and "\<And>x. 0 < k \<Longrightarrow> parses inp (k - 1) (f x)"
  shows "eats inp k (bindN m f)"
  unfolding eats_def
proof (intro allI impI)
  fix pos assume pos: "length inp - pos \<le> k"
  with assms(1) obtain r p where m: "m pos = Some (r, p)" "pos \<le> p" "is_ok r \<longrightarrow> pos < p \<and> pos < length inp"
    unfolding eats_def by blast
  show "\<exists>r p. bindN m f pos = Some (r, p) \<and> pos \<le> p \<and> (is_ok r \<longrightarrow> pos < p \<and> pos < length inp)"
  proof (cases r)
    case (Ok x)
    with m(3) pos have "0 < k" "length inp - p \<le> k - 1" by auto
    with assms(2) [of x] obtain r' p' where "f x p = Some (r', p')" "p \<le> p'" unfolding parses_def by blast
    with m Ok show ?thesis by (auto simp: bindN_def)
  qed (use m in \<open>auto simp: bindN_def\<close>)
qed

lemma eats_bindN: "eats inp k m \<Longrightarrow> (\<And>x. parses inp k (f x)) \<Longrightarrow> eats inp k (bindN m f)"
  by (rule eats_bindN_less, assumption) (meson parses_mono diff_le_self)

lemma eats_thenN: "eats inp k m \<Longrightarrow> parses inp k m' \<Longrightarrow> eats inp k (thenN m m')"
  by (simp add: thenN_def eats_bindN)

lemma parses_eats_bindN:
  assumes "parses inp k m" and "\<And>x. eats inp k (f x)"
  shows "eats inp k (bindN m f)"
  unfolding eats_def
proof (intro allI impI)
  fix pos assume pos: "length inp - pos \<le> k"
  with assms(1) obtain r p where m: "m pos = Some (r, p)" "pos \<le> p" unfolding parses_def by blast
  show "\<exists>r p. bindN m f pos = Some (r, p) \<and> pos \<le> p \<and> (is_ok r \<longrightarrow> pos < p \<and> pos < length inp)"
  proof (cases r)
    case (Ok x)
    have "length inp - p \<le> k" using pos m(2) by linarith
    with assms(2) [of x] obtain r' p' where "f x p = Some (r', p')" "p \<le> p'" "is_ok r' \<longrightarrow> p < p' \<and> p < length inp"
      unfolding eats_def by blast
    with m Ok show ?thesis by (auto simp: bindN_def)
  qed (use m in \<open>auto simp: bindN_def\<close>)
qed

lemma parses_eats_thenN: "parses inp k m \<Longrightarrow> eats inp k m' \<Longrightarrow> eats inp k (thenN m m')"
  by (simp add: thenN_def parses_eats_bindN)

lemma keeps_fwd_prims [keeps_intros]:
  "keeps (\<le>) (current_char inp)" "keeps (\<le>) (peek_str inp s)" "keeps (\<le>) advance" "keeps (\<le>) (scan P inp)"
  "keeps (\<le>) (skip_until inp c)"
  by (simp_all add: keeps_def current_char_def peek_str_def advance_def scan_forward skip_until_def)

lemma skip_whitespace_forward: "pos \<le> snd (skip_whitespace inp pos)"
proof (induction inp pos rule: skip_whitespace.induct)
  case (1 inp pos)
  obtain r p where scanned: "scan (\<lambda>ch. ch \<noteq> [CHR 0x0A]) inp pos = (r, p)" by fastforce
  then have "pos \<le> p" using scan_forward [of pos "\<lambda>ch. ch \<noteq> [CHR 0x0A]" inp] by simp
  with 1 scanned show ?case
    by (subst skip_whitespace.simps) (auto simp: Let_def split: outcome.split intro: order_trans)
qed

lemma string_loop_forward: "pos \<le> snd (string_loop inp e s pos)"
  by (induction inp e s pos rule: string_loop.induct) (subst string_loop.simps, auto split: outcome.split)

lemma skip_annotation_forward: "pos \<le> snd (skip_annotation inp pos)"
  by (induction inp pos rule: skip_annotation.induct) (subst skip_annotation.simps, auto split: outcome.split)

lemma keeps_fwd_loops [keeps_intros]:
  "keeps (\<le>) (skip_whitespace inp)" "keeps (\<le>) (string_loop inp e s)" "keeps (\<le>) (skip_annotation inp)"
  by (simp_all add: keeps_def skip_whitespace_forward string_loop_forward skip_annotation_forward)

lemma keeps_fwd_expect [keeps_intros]: "keeps (\<le>) (expect_char inp c)"
  unfolding expect_char_def by (rule fwd.keeps_bindM [OF keeps_fwd_prims(1)]) (simp add: keeps_fwd_prims(3) fwd.keeps_fail)

lemma keeps_fwd_words [keeps_intros]: "keeps (\<le>) (next_char inp)" "keeps (\<le>) (parse_string_value inp)"
  unfolding next_char_def parse_string_value_def
  by (rule fwd.keeps_thenM [OF keeps_fwd_loops(1) keeps_fwd_prims(1)] fwd.keeps_thenM [OF keeps_fwd_expect keeps_fwd_loops(2)])+

lemma keeps_fwd_symbol [keeps_intros]: "keeps (\<le>) (parse_symbol_name inp)"
  unfolding keeps_def
proof
  fix pos
  obtain r p where scanned: "scan (\<lambda>ch. \<not> ends_symbol ch) inp pos = (r, p)" by fastforce
  then have "pos \<le> p" using scan_forward [of pos "\<lambda>ch. \<not> ends_symbol ch" inp] by simp
  with scanned show "pos \<le> snd (parse_symbol_name inp pos)"
    by (cases r) (simp_all add: parse_symbol_name_def)
qed

text \<open>What eats.\<close>

lemma eats_run_prog:
  assumes "keeps (\<le>) m" and "\<And>pos x. fst (m pos) = Ok x \<Longrightarrow> pos < snd (m pos) \<and> pos < length inp"
  shows "eats inp k (run_prog m)"
  unfolding eats_def run_prog_def
proof (intro allI impI)
  fix pos
  obtain r p where mp: "m pos = (r, p)" by fastforce
  then show "\<exists>r p. Some (m pos) = Some (r, p) \<and> pos \<le> p \<and> (is_ok r \<longrightarrow> pos < p \<and> pos < length inp)"
    using keepsE [OF assms(1), of pos] assms(2) [of pos] by (cases r) auto
qed

lemma current_char_at_end: "fst (current_char inp pos) = Ok ch \<Longrightarrow> ch \<noteq> [CHR 0x00] \<Longrightarrow> pos < length inp"
  by (auto simp: current_char_def on_boundary_def split: if_splits)

lemma eats_expect_char: "c \<noteq> CHR 0x00 \<Longrightarrow> eats inp k (run_prog (expect_char inp c))"
proof (rule eats_run_prog [OF keeps_fwd_expect])
  fix pos x
  assume c: "c \<noteq> CHR 0x00" and ok: "fst (expect_char inp c pos) = Ok x"
  then have "fst (current_char inp pos) = Ok [c]" and e: "expect_char inp c pos = (Ok (), pos + 1)"
    by (auto simp: expect_char_def outcome_simps advance_def current_char_def split: outcome.splits if_splits)
  then show "pos < snd (expect_char inp c pos) \<and> pos < length inp"
    using current_char_at_end [of inp pos "[c]"] c by simp
qed

lemma eats_symbol_name: "eats inp k (run_prog (parse_symbol_name inp))"
proof (rule eats_run_prog [OF keeps_fwd_symbol])
  fix pos x
  assume ok: "fst (parse_symbol_name inp pos) = Ok x"
  obtain r p where scanned: "scan (\<lambda>ch. \<not> ends_symbol ch) inp pos = (r, p)" by fastforce
  then have "pos \<le> p" using scan_forward [of pos "\<lambda>ch. \<not> ends_symbol ch" inp] by simp
  with ok scanned have p: "pos < p" "parse_symbol_name inp pos = (Ok x, p)"
    by (cases r; simp add: parse_symbol_name_def split: if_splits)+
  have "pos < length inp" using p(1) scanned by (subst (asm) scan.simps) (auto split: if_splits)
  with p show "pos < snd (parse_symbol_name inp pos) \<and> pos < length inp" by simp
qed

lemma run_prog_bindM: "run_prog (bindM m f) = bindN (run_prog m) (\<lambda>x. run_prog (f x))"
  by (rule ext) (simp add: run_prog_def bindN_def bindM_def split: prod.split outcome.split)

lemma run_prog_thenM: "run_prog (thenM m k) = thenN (run_prog m) (run_prog k)"
  by (simp add: thenM_def thenN_def run_prog_bindM)

lemma eats_string_value: "eats inp k (run_prog (parse_string_value inp))"
  unfolding parse_string_value_def run_prog_thenM
  by (rule eats_thenN [OF eats_expect_char]) (simp_all add: parses_run_prog keeps_fwd_loops)

lemma parses_next_char [parses_intros]: "parses inp k (run_prog (next_char inp))"
  by (rule parses_run_prog [OF keeps_fwd_words(1)])

lemma parses_prims [parses_intros]:
  "parses inp k (run_prog (skip_whitespace inp))" "parses inp k (run_prog (current_char inp))"
  "parses inp k (run_prog (peek_str inp s))" "parses inp k (run_prog advance)"
  "parses inp k (run_prog (expect_char inp c))" "parses inp k (run_prog (parse_symbol_name inp))"
  "parses inp k (run_prog (parse_string_value inp))" "parses inp k (run_prog (skip_annotation inp))"
  "parses inp k (run_prog (skip_until inp c))"
  by (auto intro!: parses_run_prog intro: keeps_fwd_prims keeps_fwd_loops keeps_fwd_words keeps_fwd_expect keeps_fwd_symbol)

lemma parses_expect_next [parses_intros]: "parses inp k (expect_next inp c)"
  unfolding expect_next_def run_prog_thenM by (intro parses_intros)

lemma parses_symbol_next [parses_intros]: "parses inp k (symbol_next inp)"
  unfolding symbol_next_def run_prog_thenM by (intro parses_intros)

lemma parses_run_ret [parses_intros]: "parses inp k (run_prog (ret x))" "parses inp k (run_prog (fail e))"
  by (simp_all add: parses_run_prog fwd.keeps_ret fwd.keeps_fail)

lemma eats_symbol: "eats inp k (run_prog (parse_symbol inp))"
  unfolding parse_symbol_def run_prog_bindM
  by (rule eats_bindN [OF eats_symbol_name]) (simp add: parses_run_ret)

lemma eats_param: "eats inp k (parse_param inp)"
  unfolding parse_param_def run_prog_bindM
proof (rule eats_bindN [OF eats_symbol_name])
  have "parses inp k (run_prog (if ch = '':'' then thenM advance (thenM (skip_whitespace inp) (thenM (parse_symbol_name inp) (ret p)))
      else ret p))" for ch p
    by (cases "ch = '':''") (simp_all add: run_prog_thenM parses_thenN parses_prims parses_run_ret)
  then show "parses inp k (bindN (run_prog (next_char inp)) (\<lambda>x. run_prog (if x = '':''
      then thenM advance (thenM (skip_whitespace inp) (thenM (parse_symbol_name inp) (ret p))) else ret p)))" for p
    by (rule parses_bindN [OF parses_next_char])
qed

lemma eats_field: "eats inp k (parse_field inp)"
  unfolding parse_field_def by (rule eats_bindN [OF eats_symbol_name]) (intro parses_intros)

lemma parses_body [parses_intros]: "eats inp k pe \<Longrightarrow> parses inp k (parse_body inp pe)"
  unfolding parse_body_def by (intro parses_intros) (rule eats_parses)

lemma parses_next [parses_intros]: "eats inp k pe \<Longrightarrow> parses inp k (parse_next inp pe)"
  unfolding parse_next_def by (intro parses_intros) (rule eats_parses)

lemma eats_binding: "eats inp k pe \<Longrightarrow> eats inp k (parse_binding inp pe)"
  unfolding parse_binding_def by (rule eats_thenN [OF eats_expect_char]) (simp, intro parses_intros)

lemma parses_until_close [parses_intros]: "eats inp k item \<Longrightarrow> k < n \<Longrightarrow> parses inp k (until_close inp item n)"
proof (induction n arbitrary: k)
  case (Suc n)
  have "parses inp k (bindN item (\<lambda>x. bindN (until_close inp item n) (\<lambda>xs. retN (x # xs))))"
  proof (rule eats_parses, rule eats_bindN_less [OF Suc.prems(1)])
    fix x assume "0 < k"
    then have "parses inp (k - 1) (until_close inp item n)"
      using Suc.prems eats_mono [OF Suc.prems(1), of "k - 1"] by (intro Suc.IH) auto
    then show "parses inp (k - 1) (bindN (until_close inp item n) (\<lambda>xs. retN (x # xs)))" by (intro parses_intros)
  qed
  moreover have "parses inp k (thenN (run_prog advance) (retN []))" by (intro parses_intros)
  ultimately show ?case unfolding until_close.simps
    by (intro parses_bindN [OF parses_next_char] parses_if)
qed simp

text \<open>A loop whose body runs only on a character that it consumes.\<close>

lemma parses_guarded:
  assumes "0 < k \<Longrightarrow> parses inp (k - 1) rest" and "\<And>pos. P pos \<Longrightarrow> pos < length inp"
    and "keeps (\<le>) body" and "\<And>pos. P pos \<Longrightarrow> is_ok (fst (body pos)) \<Longrightarrow> pos < snd (body pos)" and "P pos" and "length inp - pos \<le> k"
  shows "\<exists>r p. thenN (run_prog body) rest pos = Some (r, p) \<and> pos \<le> p"
proof -
  obtain r p where b: "body pos = (r, p)" by fastforce
  have le: "pos \<le> p" using keepsE [OF assms(3), of pos] b by simp
  show ?thesis
  proof (cases r)
    case (Ok x)
    then have "pos < p" using assms(4) [OF assms(5)] b by simp
    then have "0 < k" "length inp - p \<le> k - 1" using assms(2) [OF assms(5)] assms(6) by linarith+
    with assms(1) obtain r' p' where "rest p = Some (r', p')" "p \<le> p'" unfolding parses_def by blast
    with b Ok le show ?thesis by (auto simp: thenN_def bindN_def run_prog_def)
  qed (use b le in \<open>auto simp: thenN_def bindN_def run_prog_def\<close>)
qed

lemma peek_at: "fst (peek_str inp ''@'' pos) = Ok True \<Longrightarrow> pos < length inp \<and> fst (current_char inp pos) = Ok ''@''"
proof -
  assume peek: "fst (peek_str inp ''@'' pos) = Ok True"
  then have b: "on_boundary inp pos" and s: "starts_with ''@'' (drop pos inp)"
    by (auto simp: peek_str_def split: if_splits)
  obtain cs where d: "drop pos inp = CHR ''@'' # cs" using s by (cases "drop pos inp") (auto simp: starts_with_def)
  then have p: "pos < length inp" by (metis drop_eq_Nil2 list.distinct(1) not_le)
  with d have "inp ! pos = CHR ''@''" by (metis hd_drop_conv_nth list.sel(1))
  with b d p show ?thesis by (simp add: current_char_def char_width_def byte_of_def)
qed

lemma skip_annotation_moves:
  "fst (current_char inp pos) = Ok ch \<Longrightarrow> ch \<noteq> '')'' \<Longrightarrow> ch \<noteq> ''('' \<Longrightarrow> pos < snd (skip_annotation inp pos)"
  using skip_annotation_forward [of "pos + 1" inp] by (subst skip_annotation.simps) simp

lemma parses_skip_docs [parses_intros]: "k < n \<Longrightarrow> parses inp k (skip_docs inp n)"
proof (induction n arbitrary: k)
  case (Suc n)
  let ?body = "thenM (skip_until inp (CHR '')'')) (thenM advance (skip_whitespace inp))"
  have fwd: "keeps (\<le>) ?body" by (intro fwd.keeps_thenM keeps_fwd_prims keeps_fwd_loops)
  have moves: "pos < snd (?body pos)" if "is_ok (fst (?body pos))" for pos
    using that skip_whitespace_forward [of "snd (skip_until inp (CHR '')'') pos) + 1" inp]
      keepsE [OF keeps_fwd_prims(5), of pos inp "CHR '')''"]
    by (auto simp: outcome_simps advance_def split: outcome.splits)
  have rest: "parses inp (k - 1) (skip_docs inp n)" if "0 < k" using Suc that by auto
  have step: "\<exists>r p. thenN (run_prog ?body) (skip_docs inp n) pos = Some (r, p) \<and> pos \<le> p"
    if "fst (peek_str inp ''@'' pos) = Ok True" "length inp - pos \<le> k" for pos
    by (rule parses_guarded [where P = "\<lambda>pos. fst (peek_str inp ''@'' pos) = Ok True", OF rest _ fwd moves that])
      (simp_all add: peek_at)
  have state: "snd (peek_str inp ''@'' pos) = pos" for pos by (simp add: peek_str_def)
  show ?case unfolding parses_def
  proof (intro allI impI)
    fix pos assume "length inp - pos \<le> k"
    with step [of pos] state [of pos]
    show "\<exists>r p. skip_docs inp (Suc n) pos = Some (r, p) \<and> pos \<le> p"
      by (cases "peek_str inp ''@'' pos", cases "fst (peek_str inp ''@'' pos)")
        (auto simp: bindN_def run_prog_def retN_def ret_def)
  qed
qed simp

lemma parses_skip_annotations [parses_intros]: "k < n \<Longrightarrow> parses inp k (skip_annotations inp n)"
proof (induction n arbitrary: k)
  case (Suc n)
  have rest: "parses inp (k - 1) (thenN (run_prog (skip_whitespace inp)) (skip_annotations inp n))" if "0 < k"
    using Suc that by (intro parses_intros) auto
  have str: "\<exists>r p. thenN (run_prog (thenM (parse_string_value inp) (ret ())))
      (thenN (run_prog (skip_whitespace inp)) (skip_annotations inp n)) pos = Some (r, p) \<and> pos \<le> p"
    if "fst (current_char inp pos) = Ok [CHR 0x22]" "length inp - pos \<le> k" for pos
  proof (rule parses_guarded [where P = "\<lambda>pos. fst (current_char inp pos) = Ok [CHR 0x22]", OF rest _ _ _ that])
    show "keeps (\<le>) (thenM (parse_string_value inp) (ret ()))" by (intro fwd.keeps_thenM keeps_fwd_words fwd.keeps_ret)
    show "pos < length inp" if "fst (current_char inp pos) = Ok [CHR 0x22]" for pos
      using current_char_at_end [OF that] by simp
    show "pos < snd (thenM (parse_string_value inp) (ret ()) pos)"
      if "is_ok (fst (thenM (parse_string_value inp) (ret ()) pos))" for pos
      using that eats_string_value [of inp "length inp - pos"]
      by (cases "parse_string_value inp pos") (auto simp: eats_def run_prog_def outcome_simps split: outcome.splits)
  qed
  have ann: "\<exists>r p. thenN (run_prog (skip_annotation inp))
      (thenN (run_prog (skip_whitespace inp)) (skip_annotations inp n)) pos = Some (r, p) \<and> pos \<le> p"
    if "fst (peek_str inp ''@'' pos) = Ok True" "length inp - pos \<le> k" for pos
  proof (rule parses_guarded [where P = "\<lambda>pos. fst (peek_str inp ''@'' pos) = Ok True", OF rest _ _ _ that])
    show "pos < snd (skip_annotation inp pos)" if "fst (peek_str inp ''@'' pos) = Ok True" for pos
      using peek_at [OF that] skip_annotation_moves [of inp pos "''@''"] by simp
  qed (simp_all add: peek_at keeps_fwd_loops)
  have state: "snd (peek_str inp ''@'' pos) = pos" "snd (current_char inp pos) = pos" for pos
    by (simp_all add: peek_str_def current_char_def)
  show ?case unfolding parses_def
  proof (intro allI impI)
    fix pos assume "length inp - pos \<le> k"
    with str [of pos] ann [of pos] state [of pos]
    show "\<exists>r p. skip_annotations inp (Suc n) pos = Some (r, p) \<and> pos \<le> p"
      by (cases "peek_str inp ''@'' pos", cases "fst (peek_str inp ''@'' pos)"; cases "current_char inp pos",
          cases "fst (current_char inp pos)") (auto simp: bindN_def run_prog_def retN_def ret_def)
  qed
qed simp

text \<open>The special forms, with an expression parser that eats and loops with enough fuel.\<close>

lemma parses_params [parses_intros]: "k < n \<Longrightarrow> parses inp k (parse_params inp n)"
  unfolding parse_params_def by (intro parses_intros eats_param)

lemma parses_cap_call [parses_intros]: "eats inp k pe \<Longrightarrow> k < n \<Longrightarrow> parses inp k (parse_cap_call inp pe n)"
  unfolding parse_cap_call_def by (intro parses_intros)

lemma parses_forms:
  assumes "eats inp k pe" and "k < n"
  shows "parses inp k (parse_module inp pe n)" "parses inp k (parse_defun inp pe n)" "parses inp k (parse_defcap inp pe n)"
    "parses inp k (parse_defschema inp n)" "parses inp k (parse_deftable inp)" "parses inp k (parse_let inp pe n)"
    "parses inp k (parse_lambda inp pe n)" "parses inp k (parse_if inp pe)" "parses inp k (parse_with_capability inp pe n)"
    "parses inp k (parse_require_capability inp pe n)" "parses inp k (parse_enforce inp pe)"
    "parses inp k (parse_enforce_guard inp pe)" "parses inp k (parse_read inp pe)" "parses inp k (parse_write inp pe op)"
    "parses inp k (parse_doc inp pe)" "parses inp k (parse_app inp pe n first)"
proof -
  note pe = eats_parses [OF assms(1)]
  show "parses inp k (parse_module inp pe n)"
    unfolding parse_module_def run_prog_thenM by (intro parses_intros pe assms)
  show "parses inp k (parse_defun inp pe n)"
    unfolding parse_defun_def run_prog_thenM run_prog_bindM by (intro parses_intros assms)
  show "parses inp k (parse_defcap inp pe n)"
    unfolding parse_defcap_def by (intro parses_intros pe assms)
  show "parses inp k (parse_defschema inp n)"
    unfolding parse_defschema_def run_prog_thenM by (intro parses_intros eats_field assms)
  show "parses inp k (parse_deftable inp)"
    unfolding parse_deftable_def by (intro parses_intros)
  show "parses inp k (parse_let inp pe n)"
    unfolding parse_let_def by (intro parses_intros eats_binding assms)
  show "parses inp k (parse_lambda inp pe n)"
    unfolding parse_lambda_def by (intro parses_intros eats_symbol_name assms)
  show "parses inp k (parse_if inp pe)"
    unfolding parse_if_def by (intro parses_intros pe assms)
  show "parses inp k (parse_with_capability inp pe n)"
    unfolding parse_with_capability_def by (intro parses_intros assms)
  show "parses inp k (parse_require_capability inp pe n)"
    unfolding parse_require_capability_def by (intro parses_intros assms)
  show "parses inp k (parse_enforce inp pe)"
    unfolding parse_enforce_def run_prog_thenM by (intro parses_intros assms)
  show "parses inp k (parse_enforce_guard inp pe)"
    unfolding parse_enforce_guard_def by (intro parses_intros assms)
  show "parses inp k (parse_read inp pe)"
    unfolding parse_read_def by (intro parses_intros assms)
  show "parses inp k (parse_write inp pe op)"
    unfolding parse_write_def by (intro parses_intros assms)
  show "parses inp k (parse_doc inp pe)"
    unfolding parse_doc_def by (intro parses_intros assms)
  show "parses inp k (parse_app inp pe n first)"
    unfolding parse_app_def by (intro parses_intros assms)
qed

lemma parses_special_form:
  assumes "eats inp k pe" and "k < n" and "special_form inp pe n name = Some p"
  shows "parses inp k p"
proof -
  have pick: "\<forall>q. (if b then Some x else r) = Some q \<longrightarrow> parses inp k q"
    if "parses inp k x" "\<forall>q. r = Some q \<longrightarrow> parses inp k q" for b x r using that by simp
  have "\<forall>q. special_form inp pe n name = Some q \<longrightarrow> parses inp k q"
    unfolding special_form_def by (intro pick parses_forms [OF assms(1,2)]) simp
  with assms(3) show ?thesis by blast
qed

lemma eats_list:
  assumes "\<And>j. j < n \<Longrightarrow> eats inp j pe"
  shows "eats inp n (parse_list inp pe n)"
  unfolding parse_list_def thenN_def
proof (rule eats_bindN_less [OF eats_expect_char])
  fix x assume "0 < n"
  then have pe: "eats inp (n - 1) pe" "n - 1 < n" using assms by simp_all
  have tail: "parses inp (n - 1) (case first of
           ESymbol name \<Rightarrow> (case special_form inp pe n name of Some p \<Rightarrow> p | None \<Rightarrow> parse_app inp pe n first)
         | _ \<Rightarrow> parse_app inp pe n first)" for first
    using parses_forms(16) [OF pe] parses_special_form [OF pe] by (cases first) (simp_all split: option.split)
  have "parses inp (n - 1) (bindN pe (\<lambda>first. case first of
           ESymbol name \<Rightarrow> (case special_form inp pe n name of Some p \<Rightarrow> p | None \<Rightarrow> parse_app inp pe n first)
         | _ \<Rightarrow> parse_app inp pe n first))"
    by (rule parses_bindN [OF eats_parses [OF pe(1)] tail])
  moreover have "parses inp (n - 1) (bindN (run_prog advance) (\<lambda>_. retN (ELiteral (PList []))))" by (intro parses_intros)
  ultimately show "parses inp (n - 1) (bindN (run_prog (next_char inp)) (\<lambda>ch.
       if ch = '')'' then bindN (run_prog advance) (\<lambda>_. retN (ELiteral (PList [])))
       else bindN pe (\<lambda>first. case first of
           ESymbol name \<Rightarrow> (case special_form inp pe n name of Some p \<Rightarrow> p | None \<Rightarrow> parse_app inp pe n first)
         | _ \<Rightarrow> parse_app inp pe n first)))"
    by (intro parses_bindN [OF parses_next_char] parses_if)
qed simp

lemma eats_number_at:
  assumes "fst (current_char inp pos) = Ok ch" and "ch = ''-'' \<or> list_all is_digit ch"
  shows "pos \<le> snd (parse_number inp pos) \<and> (pos < length inp \<longrightarrow> pos < snd (parse_number inp pos))"
proof (cases "pos < length inp")
  case True
  then obtain c cs where d: "drop pos inp = c # cs" and c: "inp ! pos = c" by (metis Cons_nth_drop_Suc)
  have ch: "ch = take (char_width c) (c # cs)" using assms(1) True c d by (auto simp: current_char_def split: if_splits)
  have "0 < char_width c" by (simp add: char_width_def)
  then obtain w where "char_width c = Suc w" by (cases "char_width c") auto
  with ch assms(2) have "c = CHR ''-'' \<or> is_digit c" by auto
  then show ?thesis
  proof
    assume "c = CHR ''-''"
    then show ?thesis using d by (simp add: parse_number_def Let_def starts_with_def split: prod.split)
  next
    assume dig: "is_digit c"
    then have "c \<noteq> CHR ''-''" by (auto simp: is_digit_def)
    with dig d show ?thesis
      by (cases "number_loop cs False") (simp add: parse_number_def Let_def starts_with_def)
  qed
next
  case False
  then show ?thesis by (simp add: parse_number_def Let_def split: prod.split)
qed

lemma bind_advance: "bindN (run_prog advance) f pos = f () (Suc pos)"
  by (simp add: bindN_def run_prog_def advance_def)

lemma bind_gets: "bindN (run_prog (gets g)) f pos = f (g pos) pos"
  by (simp add: bindN_def run_prog_def gets_def)

lemma bind_Ok: "m pos = (Ok x, q) \<Longrightarrow> bindN (run_prog m) f pos = f x q"
  by (simp add: bindN_def run_prog_def)

lemma eats_quote:
  assumes "eats inp n pe" and "length inp - pos \<le> Suc n" and "pos < length inp"
  shows "\<exists>r p. thenN (run_prog advance) (bindN pe (\<lambda>e. retN (f e))) pos = Some (r, p) \<and> pos < p"
proof -
  have "parses inp n (bindN pe (\<lambda>e. retN (f e)))" by (intro parses_intros eats_parses [OF assms(1)])
  moreover have "length inp - (pos + 1) \<le> n" using assms(2,3) by simp
  ultimately obtain r p where "bindN pe (\<lambda>e. retN (f e)) (pos + 1) = Some (r, p)" "pos + 1 \<le> p"
    unfolding parses_def by blast
  then show ?thesis by (simp add: thenN_def bind_advance)
qed

lemma eats_expr: "k < n \<Longrightarrow> eats inp k (parse_expr inp n)"
proof (induction n arbitrary: k)
  case (Suc n)
  have pe: "eats inp j (parse_expr inp n)" if "j < n" for j using Suc.IH that by blast
  note list = eats_list [of n inp, OF pe] and string = eats_string_value [of inp n] and symbol = eats_symbol [of inp n]
  have str: "eats inp n (run_prog (parse_string inp))"
    unfolding parse_string_def run_prog_bindM by (rule eats_bindN [OF string]) (intro parses_intros)
  have tail: "\<exists>r p. (if pos \<ge> length inp then failN (ExecutionError ''Unexpected end of input'')
       else bindN (run_prog (current_char inp)) (\<lambda>ch.
         if ch = ''('' then parse_list inp (parse_expr inp n) n
         else if ch = [CHR 0x22] then run_prog (parse_string inp)
         else if ch = [CHR 0x27] then
           thenN (run_prog advance) (bindN (parse_expr inp n) (\<lambda>e. retN (EApp (ESymbol ''quote'') [e])))
         else if ch = ''-'' \<or> list_all is_digit ch then run_prog (parse_number inp)
         else run_prog (parse_symbol inp))) pos = Some (r, p) \<and> pos \<le> p \<and> (is_ok r \<longrightarrow> pos < p \<and> pos < length inp)"
    if left: "length inp - pos \<le> n" for pos
  proof (cases "pos \<ge> length inp")
    case True
    then show ?thesis by (simp add: failN_def run_prog_def fail_def)
  next
    case False
    show ?thesis
    proof (cases "fst (current_char inp pos)")
      case (Ok ch)
      then have cc: "current_char inp pos = (Ok ch, pos)" by (simp add: current_char_def split: if_splits)
      have num: "pos < snd (parse_number inp pos)" if "ch = ''-'' \<or> list_all is_digit ch"
        using eats_number_at [OF Ok that] False by simp
      have quote: "\<exists>r p. thenN (run_prog advance) (bindN (parse_expr inp n) (\<lambda>e. retN (EApp (ESymbol ''quote'') [e]))) pos
          = Some (r, p) \<and> pos < p"
      proof -
        have "0 < n" using False left by linarith
        then have j: "n - 1 < n" "length inp - pos \<le> Suc (n - 1)" using left by simp_all
        from eats_quote [OF pe [OF j(1)] j(2)] False show ?thesis by simp
      qed
      have at: "\<exists>r p. m pos = Some (r, p) \<and> pos \<le> p \<and> (is_ok r \<longrightarrow> pos < p \<and> pos < length inp)" if "eats inp n m" for m :: "pact_expr parser"
        using that left unfolding eats_def by blast
      have moves: "\<exists>r p. m pos = Some (r, p) \<and> pos \<le> p \<and> (is_ok r \<longrightarrow> pos < p \<and> pos < length inp)"
        if "\<exists>r p. m pos = Some (r, p) \<and> pos < p" for m :: "pact_expr parser"
        using that False by (auto dest: order_less_imp_le)
      have "\<exists>r p. run_prog (parse_number inp) pos = Some (r, p) \<and> pos < p" if "ch = ''-'' \<or> list_all is_digit ch"
        using num [OF that] by (cases "parse_number inp pos") (simp add: run_prog_def)
      then show ?thesis
        using at [OF list] at [OF str] at [OF symbol] quote
          moves [of "thenN (run_prog advance) (bindN (parse_expr inp n) (\<lambda>e. retN (EApp (ESymbol ''quote'') [e])))"]
          moves [of "run_prog (parse_number inp)"] False
        by (simp only: if_False bind_Ok [where m = "current_char inp" and pos = pos and q = pos and x = ch, OF cc] split: if_split) blast
    next
      case (Err e)
      then show ?thesis by (simp add: current_char_def split: if_splits)
    next
      case Panic
      then have "current_char inp pos = (Panic, pos)" by (simp add: current_char_def split: if_splits)
      with False show ?thesis by (simp add: bindN_def run_prog_def)
    qed
  qed
  have "eats inp n (bindN (run_prog (gets (\<lambda>pos. pos \<ge> length inp))) (\<lambda>at_end.
       if at_end then failN (ExecutionError ''Unexpected end of input'')
       else bindN (run_prog (current_char inp)) (\<lambda>ch.
         if ch = ''('' then parse_list inp (parse_expr inp n) n
         else if ch = [CHR 0x22] then run_prog (parse_string inp)
         else if ch = [CHR 0x27] then
           thenN (run_prog advance) (bindN (parse_expr inp n) (\<lambda>e. retN (EApp (ESymbol ''quote'') [e])))
         else if ch = ''-'' \<or> list_all is_digit ch then run_prog (parse_number inp)
         else run_prog (parse_symbol inp))))"
    unfolding eats_def bind_gets using tail by blast
  then have "eats inp n (parse_expr inp (Suc n))"
    unfolding parse_expr.simps by (rule parses_eats_thenN [OF parses_prims(1)])
  then show ?case by (rule eats_mono) (use Suc.prems in linarith)
qed simp

lemma parses_gets [parses_intros]: "parses inp k (run_prog (gets f))"
  by (simp add: parses_run_prog fwd.keeps_gets)

lemma parses_all_loop: "length inp < fuel \<Longrightarrow> k < n \<Longrightarrow> k \<le> length inp \<Longrightarrow> parses inp k (parse_all_loop inp fuel n)"
proof (induction n arbitrary: k)
  case (Suc n)
  have "parses inp k (bindN (parse_expr inp fuel) (\<lambda>e. bindN (parse_all_loop inp fuel n) (\<lambda>es. retN (e # es))))"
  proof (rule eats_parses, rule eats_bindN_less)
    show "eats inp k (parse_expr inp fuel)" by (rule eats_expr) (use Suc.prems in simp)
    show "parses inp (k - 1) (bindN (parse_all_loop inp fuel n) (\<lambda>es. retN (e # es)))" if "0 < k" for e
      using Suc that by (intro parses_intros) auto
  qed
  note body = this
  show ?case unfolding parse_all_loop.simps by (intro body parses_bindN parses_thenN parses_if parses_gets parses_prims parses_retN; fail)
qed simp

lemma parse_all_returns: "\<exists>r. parse_all inp = Some r"
proof -
  have "parses inp (length inp) (parse_all_loop inp (parse_fuel inp) (parse_fuel inp))"
    by (rule parses_all_loop) (simp_all add: parse_fuel_def)
  then obtain r p where "parse_all_loop inp (parse_fuel inp) (parse_fuel inp) 0 = Some (r, p)"
    unfolding parses_def by (metis diff_zero order_refl)
  then show ?thesis by (simp add: parse_all_def)
qed

end
