(* ===== verification/Fry_Pact.thy ===== *)
theory Fry_Pact
  imports Fry_Pact_Syntax Fry_Difficulty Fry_Maps "HOL-Library.Signed_Division"
begin

text \<open>
  \<open>frychain-vm/src/pact.rs\<close>, the machine: built-in functions, the evaluator and execution. The evaluator calls itself at a
  depth counted by the code, at most 256, so its recursion is on a fuel that the lemmas show to be enough. SHA3, the
  hexadecimal form, the debug form of values, the text of a UTF-8 error and what a sort does with an inconsistent order are parameters.
  The lemmas: the machine returns within its gas on every code and input; no object value is ever made, so that every
  access to a table fails; and capabilities that are not found are granted.
\<close>

declare map_of_eq_Some_iff [simp del] Some_eq_map_of_iff [simp del]

subsection \<open>State\<close>

record pact_function =
  pf_name :: string
  pf_params :: "string list"
  pf_body :: pact_expr
  pf_module :: string

record pact_capability =
  pc_name :: string
  pc_params :: "string list"
  pc_body :: pact_expr
  pc_module :: string

record pact_schema =
  ps_name :: string
  ps_fields :: "(string \<times> string) list"

record pact_table =
  pt_name :: string
  pt_schema :: string
  pt_data :: "(string \<times> (string, pact_value) fmap) list"

type_synonym cap_key = "string \<times> pact_value list"

record pact_vm =
  pv_context :: execution_context
  pv_gas :: gas_meter
  pv_env :: "(string \<times> pact_value) list"
  pv_functions :: "(string \<times> pact_function) list"
  pv_capabilities :: "(string \<times> pact_capability) list"
  pv_active_caps :: "cap_key list"
  pv_granted_caps :: "cap_key list"
  pv_schemas :: "(string \<times> pact_schema) list"
  pv_tables :: "(string \<times> pact_table) list"
  pv_modules :: "(string \<times> pact_module) list"
  pv_keysets :: "(string \<times> (string list \<times> keyset_predicate)) list"
  pv_current_module :: "string option"
  pv_depth :: nat
  pv_logs :: "vm_log list"
  pv_state_changes :: vm_state_changes
  pv_signers :: "string list"

record pact_lib =
  px_sha3 :: "bytes \<Rightarrow> bytes"
  px_hex :: "bytes \<Rightarrow> string"
  px_debug :: "pact_value \<Rightarrow> string"
  px_utf8_error :: "bytes \<Rightarrow> string"
  px_sort :: "pact_value list \<Rightarrow> pact_value list option"

type_synonym 'a pact_prog = "(pact_vm, vm_error, 'a) prog"
type_synonym 'a pact_run = "(pact_vm, vm_error, 'a) run"

definition MAX_RECURSION_DEPTH :: nat where "MAX_RECURSION_DEPTH = 256"
definition MAX_TABLE_SIZE :: nat where "MAX_TABLE_SIZE = 100000"

definition pact_new :: "execution_context \<Rightarrow> pact_vm" where
  "pact_new ctx = \<lparr>pv_context = ctx, pv_gas = meter_new (ec_gas_limit ctx), pv_env = [], pv_functions = [],
     pv_capabilities = [], pv_active_caps = [], pv_granted_caps = [], pv_schemas = [], pv_tables = [], pv_modules = [],
     pv_keysets = [], pv_current_module = None, pv_depth = 0, pv_logs = [], pv_state_changes = no_state_changes,
     pv_signers = []\<rparr>"

definition set_signers :: "string list \<Rightarrow> pact_vm \<Rightarrow> pact_vm" where
  "set_signers signers s = s\<lparr>pv_signers := signers\<rparr>"

definition pv_charge :: "u64 \<Rightarrow> unit pact_prog" where
  "pv_charge g = (\<lambda>s. case consume g (pv_gas s) of (r, m) \<Rightarrow> (map_err gas_to_vm_error r, s\<lparr>pv_gas := m\<rparr>))"

subsection \<open>Values\<close>

definition exec_err :: "string \<Rightarrow> (vm_error, 'a) outcome" where
  "exec_err text = Err (ExecutionError text)"

fun as_integer :: "pact_value \<Rightarrow> (vm_error, i128) outcome" where
  "as_integer (PInteger n) = Ok n"
| "as_integer _ = exec_err ''Expected integer value''"

fun as_string :: "pact_value \<Rightarrow> (vm_error, string) outcome" where
  "as_string (PString s) = Ok s"
| "as_string _ = exec_err ''Expected string value''"

fun as_bool :: "pact_value \<Rightarrow> (vm_error, bool) outcome" where
  "as_bool (PBool b) = Ok b"
| "as_bool _ = exec_err ''Expected boolean value''"

fun as_list :: "pact_value \<Rightarrow> (vm_error, pact_value list) outcome" where
  "as_list (PList l) = Ok l"
| "as_list _ = exec_err ''Expected list value''"

fun to_bool :: "pact_value \<Rightarrow> bool" where
  "to_bool (PBool b) = b"
| "to_bool (PInteger n) = (n \<noteq> 0)"
| "to_bool (PString s) = (s \<noteq> [])"
| "to_bool (PList l) = (l \<noteq> [])"
| "to_bool PUnit = False"
| "to_bool _ = True"

definition sized_bytes :: "string \<Rightarrow> bytes" where
  "sized_bytes s = le_of_word (word_of_nat (length s) :: u32) @ str_bytes s"

fun value_to_bytes :: "pact_lib \<Rightarrow> pact_value \<Rightarrow> bytes" where
  "value_to_bytes L (PInteger n) = 0x01 # le_of_word n"
| "value_to_bytes L (PString s) = 0x02 # sized_bytes s"
| "value_to_bytes L (PBool b) = [0x03, if b then 1 else 0]"
| "value_to_bytes L PUnit = [0x00]"
| "value_to_bytes L v = 0xFF # sized_bytes (px_debug L v)"

fun type_name :: "pact_value \<Rightarrow> string" where
  "type_name (PInteger _) = ''integer''"
| "type_name (PDecimal _ _) = ''decimal''"
| "type_name (PString _) = ''string''"
| "type_name (PBool _) = ''bool''"
| "type_name (PList _) = ''list''"
| "type_name (PObject _) = ''object''"
| "type_name (PGuard _) = ''guard''"
| "type_name PUnit = ''unit''"
| "type_name (PTime _) = ''time''"
| "type_name (PModRef _) = ''modref''"
| "type_name (PCapability _ _) = ''capability''"
| "type_name (PKeySet _) = ''keyset''"

subsection \<open>Numbers and texts\<close>

definition I128_MIN :: i128 where "I128_MIN = 2 ^ 127"

definition show_i128 :: "i128 \<Rightarrow> string" where
  "show_i128 n = (if n <s 0 then ''-'' @ show_nat (nat (- sint n)) else show_nat (nat (sint n)))"

fun show_hex_nat :: "nat \<Rightarrow> string" where
  "show_hex_nat n = (if n < 16 then [''0123456789abcdef'' ! n] else show_hex_nat (n div 16) @ [''0123456789abcdef'' ! (n mod 16)])"

declare show_hex_nat.simps [simp del]

text \<open>The integer square root, and with it \<open>(a as f64).sqrt() as i128\<close> for a number that is not negative: the conversion and
  the root are rounded to 53 bits.\<close>

function isqrt :: "nat \<Rightarrow> nat" where
  "isqrt n = (if n = 0 then 0 else let r = 2 * isqrt (n div 4) in if (r + 1) * (r + 1) \<le> n then r + 1 else r)"
  by pat_completeness auto
termination by (relation "measure id") auto

declare isqrt.simps [simp del]

definition f64_sqrt_i128 :: "i128 \<Rightarrow> i128" where
  "f64_sqrt_i128 a =
     (let n = round53 (unat a) False * 2 ^ 256; s = isqrt n
      in word_of_nat (round53 s (s * s \<noteq> n) div f64_one))"

text \<open>The characters of a text.\<close>

function utf8_chars :: "string \<Rightarrow> string list" where
  "utf8_chars s = (case s of [] \<Rightarrow> [] | c # cs \<Rightarrow> take (char_width c) s # utf8_chars (drop (char_width c - 1) cs))"
  by pat_completeness auto
termination by (relation "measure length") auto

declare utf8_chars.simps [simp del]

text \<open>\<open>find("{}")\<close> with the texts before and after.\<close>

fun split_braces :: "string \<Rightarrow> (string \<times> string) option" where
  "split_braces (a # b # s) =
     (if a = CHR 0x7B \<and> b = CHR 0x7D then Some ([], s) else map_option (apfst ((#) a)) (split_braces (b # s)))"
| "split_braces _ = None"

fun format_args :: "pact_lib \<Rightarrow> string \<Rightarrow> pact_value list \<Rightarrow> string" where
  "format_args L result [] = result"
| "format_args L result (arg # args) =
     format_args L (case split_braces result of
         None \<Rightarrow> result
       | Some (before, after) \<Rightarrow> before @ (case arg of PString s \<Rightarrow> s | PInteger n \<Rightarrow> show_i128 n
             | PBool b \<Rightarrow> (if b then ''true'' else ''false'') | _ \<Rightarrow> px_debug L arg) @ after) args"

text \<open>The order of \<open>sort\<close>; values of different or other types count as equal.\<close>

fun pact_le :: "pact_value \<Rightarrow> pact_value \<Rightarrow> bool" where
  "pact_le (PInteger a) (PInteger b) = (a \<le>s b)"
| "pact_le (PString a) (PString b) = (str_bytes a \<le> str_bytes b)"
| "pact_le _ _ = True"

definition consistent_order :: "pact_value list \<Rightarrow> bool" where
  "consistent_order l \<longleftrightarrow> (\<forall>a\<in>set l. \<forall>b\<in>set l. \<forall>c\<in>set l. pact_le a b \<and> pact_le b c \<longrightarrow> pact_le a c)"

fun pact_insert :: "pact_value \<Rightarrow> pact_value list \<Rightarrow> pact_value list" where
  "pact_insert x [] = [x]"
| "pact_insert x (y # ys) = (if pact_le x y then x # y # ys else y # pact_insert x ys)"

definition pact_sort :: "pact_lib \<Rightarrow> pact_value list \<Rightarrow> pact_value list option" where
  "pact_sort L l = (if consistent_order l then Some (foldr pact_insert l []) else px_sort L l)"

subsection \<open>Built-in functions\<close>

text \<open>\<open>args.get(i).ok_or(text)\<close> and \<open>args[i]\<close>, which panics.\<close>

definition arg_or :: "string \<Rightarrow> pact_value list \<Rightarrow> nat \<Rightarrow> (vm_error, pact_value) outcome" where
  "arg_or text args i = (if i < length args then Ok (args ! i) else exec_err text)"

definition arg :: "pact_value list \<Rightarrow> nat \<Rightarrow> (vm_error, pact_value) outcome" where
  "arg args i = (if i < length args then Ok (args ! i) else Panic)"

definition int_arg :: "pact_value list \<Rightarrow> nat \<Rightarrow> (vm_error, i128) outcome" where
  "int_arg args i = bindR (arg args i) as_integer"

definition string_arg :: "pact_value list \<Rightarrow> nat \<Rightarrow> (vm_error, string) outcome" where
  "string_arg args i = bindR (arg args i) as_string"

definition list_arg :: "pact_value list \<Rightarrow> nat \<Rightarrow> (vm_error, pact_value list) outcome" where
  "list_arg args i = bindR (arg args i) as_list"

definition int_args :: "(i128 \<Rightarrow> i128 \<Rightarrow> (vm_error, pact_value) outcome) \<Rightarrow> pact_value list \<Rightarrow> (vm_error, pact_value) outcome" where
  "int_args f args = bindR (int_arg args 0) (\<lambda>a. bindR (int_arg args 1) (\<lambda>b. f a b))"

definition two_args :: "string \<Rightarrow> pact_value list \<Rightarrow> (pact_value \<Rightarrow> pact_value \<Rightarrow> (vm_error, pact_value) outcome) \<Rightarrow>
    (vm_error, pact_value) outcome" where
  "two_args text args f = bindR (arg_or text args 0) (\<lambda>a. bindR (arg_or text args 1) (\<lambda>b. f a b))"

definition arithmetic :: "string \<Rightarrow> (i128 \<Rightarrow> i128 \<Rightarrow> i128) \<Rightarrow> pact_value list \<Rightarrow> (vm_error, pact_value) outcome" where
  "arithmetic text f args = two_args text args (\<lambda>a b.
     bindR (as_integer a) (\<lambda>x. bindR (as_integer b) (\<lambda>y. Ok (PInteger (f x y)))))"

definition pact_divide :: "pact_value list \<Rightarrow> (vm_error, pact_value) outcome" where
  "pact_divide args = two_args ''/ requires 2 arguments'' args (\<lambda>a b.
     bindR (as_integer b) (\<lambda>divisor.
       if divisor = 0 then exec_err ''Division by zero''
       else bindR (as_integer a) (\<lambda>x.
         if x = I128_MIN \<and> divisor = - 1 then Panic else Ok (PInteger (word_of_int (sint x sdiv sint divisor))))))"

definition pact_mod :: "i128 \<Rightarrow> i128 \<Rightarrow> (vm_error, pact_value) outcome" where
  "pact_mod a b =
     (if b = 0 then exec_err ''Modulo by zero''
      else if a = I128_MIN \<and> b = - 1 then Panic else Ok (PInteger (word_of_int (sint a smod sint b))))"

definition pact_pow :: "i128 \<Rightarrow> i128 \<Rightarrow> (vm_error, pact_value) outcome" where
  "pact_pow b e = (if e <s 0 then exec_err ''Negative exponent'' else Ok (PInteger (b ^ unat (ucast e :: u32))))"

definition pact_abs :: "pact_value list \<Rightarrow> (vm_error, pact_value) outcome" where
  "pact_abs args = bindR (int_arg args 0) (\<lambda>a. Ok (PInteger (if a <s 0 then - a else a)))"

definition pact_sqrt :: "pact_value list \<Rightarrow> (vm_error, pact_value) outcome" where
  "pact_sqrt args = bindR (int_arg args 0) (\<lambda>a.
     if a <s 0 then exec_err ''Square root of negative'' else Ok (PInteger (f64_sqrt_i128 a)))"

definition any_args :: "(pact_value \<Rightarrow> pact_value \<Rightarrow> bool) \<Rightarrow> pact_value list \<Rightarrow> (vm_error, pact_value) outcome" where
  "any_args f args = bindR (arg args 0) (\<lambda>a. bindR (arg args 1) (\<lambda>b. Ok (PBool (f a b))))"

definition compare_args :: "(i128 \<Rightarrow> i128 \<Rightarrow> bool) \<Rightarrow> pact_value list \<Rightarrow> (vm_error, pact_value) outcome" where
  "compare_args f = int_args (\<lambda>a b. Ok (PBool (f a b)))"

definition pact_not :: "pact_value list \<Rightarrow> (vm_error, pact_value) outcome" where
  "pact_not args = bindR (arg args 0) (\<lambda>a. Ok (PBool (\<not> to_bool a)))"

fun concat_args :: "string \<Rightarrow> pact_value list \<Rightarrow> (vm_error, pact_value) outcome" where
  "concat_args result [] = Ok (PString result)"
| "concat_args result (a # args) = bindR (as_string a) (\<lambda>s. concat_args (result @ s) args)"

definition str_to_int :: "pact_value list \<Rightarrow> (vm_error, pact_value) outcome" where
  "str_to_int args = bindR (string_arg args 0) (\<lambda>s.
     case parse_i128 s of None \<Rightarrow> exec_err ''Invalid integer string'' | Some n \<Rightarrow> Ok (PInteger n))"

definition int_to_str :: "pact_value list \<Rightarrow> (vm_error, pact_value) outcome" where
  "int_to_str args =
     bindR (if length args > 1 then bindR (int_arg args 1) (\<lambda>r. Ok (ucast r :: u32)) else Ok 10) (\<lambda>radix.
     bindR (int_arg args 0) (\<lambda>n.
       Ok (PString (if radix = 10 then show_i128 n else if radix = 16 then show_hex_nat (unat n) else show_i128 n))))"

definition pact_length :: "pact_value list \<Rightarrow> (vm_error, pact_value) outcome" where
  "pact_length args = bindR (arg args 0) (\<lambda>a. case a of
       PString s \<Rightarrow> Ok (PInteger (word_of_nat (length s)))
     | PList l \<Rightarrow> Ok (PInteger (word_of_nat (length l)))
     | _ \<Rightarrow> exec_err ''length requires string or list'')"

definition take_or_drop :: "string \<Rightarrow> (nat \<Rightarrow> string list \<Rightarrow> string list) \<Rightarrow> (nat \<Rightarrow> pact_value list \<Rightarrow> pact_value list) \<Rightarrow>
    pact_value list \<Rightarrow> (vm_error, pact_value) outcome" where
  "take_or_drop text fs fl args = bindR (int_arg args 0) (\<lambda>n. bindR (arg args 1) (\<lambda>a. case a of
       PString s \<Rightarrow> Ok (PString (concat (fs (unat (ucast n :: u64)) (utf8_chars s))))
     | PList l \<Rightarrow> Ok (PList (fl (unat (ucast n :: u64)) l))
     | _ \<Rightarrow> exec_err text))"

definition pact_at :: "pact_value list \<Rightarrow> (vm_error, pact_value) outcome" where
  "pact_at args = bindR (int_arg args 0) (\<lambda>i. bindR (list_arg args 1) (\<lambda>l.
     let idx = unat (ucast i :: u64) in if idx < length l then Ok (l ! idx) else exec_err ''Index out of bounds''))"

definition pact_contains :: "pact_value list \<Rightarrow> (vm_error, pact_value) outcome" where
  "pact_contains args = bindR (arg args 0) (\<lambda>x. bindR (list_arg args 1) (\<lambda>l. Ok (PBool (x \<in> set l))))"

definition pact_enumerate :: "i128 \<Rightarrow> i128 \<Rightarrow> (vm_error, pact_value) outcome" where
  "pact_enumerate a b = Ok (PList (map (\<lambda>n. PInteger (word_of_int n)) [sint a..sint b]))"

definition pact_reverse :: "pact_value list \<Rightarrow> (vm_error, pact_value) outcome" where
  "pact_reverse args = bindR (list_arg args 0) (\<lambda>l. Ok (PList (rev l)))"

definition sort_args :: "pact_lib \<Rightarrow> pact_value list \<Rightarrow> (vm_error, pact_value) outcome" where
  "sort_args L args = bindR (list_arg args 0) (\<lambda>l. case pact_sort L l of None \<Rightarrow> Panic | Some l' \<Rightarrow> Ok (PList l'))"

definition add_time :: "pact_value list \<Rightarrow> (vm_error, pact_value) outcome" where
  "add_time args = bindR (arg args 0) (\<lambda>a. bindR (int_arg args 1) (\<lambda>n.
     Ok (PTime ((case a of PTime t \<Rightarrow> t | _ \<Rightarrow> 0) + ucast n))))"

definition capability_guard :: "pact_value list \<Rightarrow> (vm_error, pact_value) outcome" where
  "capability_guard args = bindR (string_arg args 0) (\<lambda>name. Ok (PGuard (CapabilityGuard name [])))"

definition keyset_arg :: "pact_value list \<Rightarrow> (vm_error, pact_value) outcome" where
  "keyset_arg args = bindR (string_arg args 0) (\<lambda>name. Ok (PKeySet name))"

definition pact_time :: "pact_value list \<Rightarrow> (vm_error, pact_value) outcome" where
  "pact_time args = bindR (string_arg args 0) (\<lambda>_. Ok (PTime 0))"

definition pact_format :: "pact_lib \<Rightarrow> pact_value list \<Rightarrow> (vm_error, pact_value) outcome" where
  "pact_format L args = bindR (string_arg args 0) (\<lambda>template.
     bindR (if length args > 1 then list_arg args 1 else Ok []) (\<lambda>vs. Ok (PString (format_args L template vs))))"

text \<open>The built-in functions that use the machine.\<close>

definition hash_words :: "bytes \<Rightarrow> u64" where
  "hash_words data = GAS_SHA3_WORD * ((word_of_nat (length data) + 31) div 32)"

definition builtin_hash :: "pact_lib \<Rightarrow> pact_value list \<Rightarrow> pact_value pact_prog" where
  "builtin_hash L args =
     thenM (pv_charge GAS_SHA3_BASE) (bindM (lift_out (arg args 0)) (\<lambda>a.
       let data = (case a of PString s \<Rightarrow> str_bytes s | _ \<Rightarrow> value_to_bytes L a)
       in thenM (pv_charge (hash_words data)) (ret (PString (px_hex L (px_sha3 L data))))))"

definition builtin_user_guard :: "pact_value list \<Rightarrow> pact_value pact_prog" where
  "builtin_user_guard args = bindM (gets pv_current_module) (\<lambda>m.
     ret (PGuard (UserGuard (case m of None \<Rightarrow> [] | Some name \<Rightarrow> name) ''guard-fn'')))"

fun strings_of :: "pact_value list \<Rightarrow> (vm_error, string list) outcome" where
  "strings_of [] = Ok []"
| "strings_of (v # vs) = bindR (as_string v) (\<lambda>s. bindR (strings_of vs) (\<lambda>ss. Ok (s # ss)))"

definition define_keyset :: "pact_value list \<Rightarrow> pact_value pact_prog" where
  "define_keyset args =
     bindM (lift_out (string_arg args 0)) (\<lambda>name.
     bindM (lift_out (bindR (arg args 1) (\<lambda>a. case a of PList l \<Rightarrow> strings_of l | _ \<Rightarrow> Ok []))) (\<lambda>keys.
     thenM (modify (\<lambda>s. s\<lparr>pv_keysets := AList.update name (keys, KeysAll) (pv_keysets s)\<rparr>)) (ret PUnit)))"

definition emit_event :: "pact_lib \<Rightarrow> pact_value list \<Rightarrow> pact_value pact_prog" where
  "emit_event L args = bindM (lift_out (arg args 0)) (\<lambda>a.
     let cap_name = (case a of PCapability name _ \<Rightarrow> name | PString s \<Rightarrow> s | _ \<Rightarrow> ''event'')
     in thenM (modify (\<lambda>s. s\<lparr>pv_logs := pv_logs s @ [\<lparr>vl_address = ec_address (pv_context s),
           vl_topics = [px_sha3 L (str_bytes cap_name)], vl_data = value_to_bytes L a\<rparr>]\<rparr>)) (ret (PBool True)))"

text \<open>The match of \<open>eval_app\<close>: pure functions, then the others.\<close>

definition pure_builtin :: "pact_lib \<Rightarrow> string \<Rightarrow> (pact_value list \<Rightarrow> (vm_error, pact_value) outcome) option" where
  "pure_builtin L = map_of
    [(''+'', arithmetic ''+ requires 2 arguments'' (+)),
     (''-'', arithmetic ''- requires 2 arguments'' (-)),
     (''*'', arithmetic ''* requires 2 arguments'' (*)),
     (''/'', pact_divide),
     (''mod'', int_args pact_mod),
     (''^'', int_args pact_pow), (''pow'', int_args pact_pow),
     (''abs'', pact_abs),
     (''sqrt'', pact_sqrt),
     (''='', any_args (=)), (''=='', any_args (=)),
     (''!='', any_args (\<noteq>)),
     (''<'', compare_args (\<lambda>a b. a <s b)),
     (''<='', compare_args (\<lambda>a b. a \<le>s b)),
     (''>'', compare_args (\<lambda>a b. b <s a)),
     (''>='', compare_args (\<lambda>a b. b \<le>s a)),
     (''and'', any_args (\<lambda>a b. to_bool a \<and> to_bool b)),
     (''or'', any_args (\<lambda>a b. to_bool a \<or> to_bool b)),
     (''not'', pact_not),
     (''concat'', concat_args []),
     (''str-to-int'', str_to_int),
     (''int-to-str'', int_to_str),
     (''length'', pact_length),
     (''take'', take_or_drop ''take requires string or list'' take take),
     (''drop'', take_or_drop ''drop requires string or list'' drop drop),
     (''list'', \<lambda>args. Ok (PList args)),
     (''at'', pact_at),
     (''contains'', pact_contains),
     (''enumerate'', int_args pact_enumerate),
     (''reverse'', pact_reverse),
     (''sort'', sort_args L),
     (''time'', pact_time),
     (''add-time'', add_time),
     (''keyset-ref-guard'', keyset_arg),
     (''create-capability-guard'', capability_guard),
     (''read-keyset'', keyset_arg),
     (''identity'', \<lambda>args. arg args 0),
     (''typeof'', \<lambda>args. bindR (arg args 0) (\<lambda>a. Ok (PString (type_name a)))),
     (''format'', pact_format L)]"

definition builtin :: "pact_lib \<Rightarrow> string \<Rightarrow> (pact_value list \<Rightarrow> pact_value pact_prog) option" where
  "builtin L name =
     (if name = ''hash'' then Some (builtin_hash L)
      else if name = ''create-user-guard'' then Some builtin_user_guard
      else if name = ''define-keyset'' then Some define_keyset
      else if name = ''emit-event'' then Some (emit_event L)
      else map_option (\<lambda>f args. lift_out (f args)) (pure_builtin L name))"

subsection \<open>Names, guards and definitions\<close>

definition lookup_var :: "string \<Rightarrow> pact_value pact_prog" where
  "lookup_var name = bindM (gets pv_env) (\<lambda>env.
     case map_of env name of
       Some v \<Rightarrow> ret v
     | None \<Rightarrow>
         if CHR ''.'' \<in> set name then ret (PModRef name)
         else if name = ''true'' then ret (PBool True)
         else if name = ''false'' then ret (PBool False)
         else if name = ''CHARSET_ASCII'' then ret (PInteger 0)
         else if name = ''CHARSET_LATIN1'' then ret (PInteger 1)
         else fail (ExecutionError (''Unbound variable: '' @ name)))"

definition keys_satisfied :: "string list \<Rightarrow> keyset_predicate \<Rightarrow> string list \<Rightarrow> bool" where
  "keys_satisfied keys pred signers =
     (let signed_count = length (filter (\<lambda>k. k \<in> set signers) keys)
      in case pred of KeysAll \<Rightarrow> signed_count = length keys | KeysAny \<Rightarrow> signed_count \<ge> 1 | Keys2 \<Rightarrow> signed_count \<ge> 2
         | CustomPredicate _ \<Rightarrow> True)"

definition verify_guard :: "pact_guard \<Rightarrow> pact_value pact_prog" where
  "verify_guard g = (\<lambda>s.
     (case g of
        KeySetGuard keys pred \<Rightarrow>
          if keys_satisfied keys pred (pv_signers s) then Ok (PBool True) else exec_err ''Keyset guard not satisfied''
      | CapabilityGuard cap_name args \<Rightarrow>
          if (cap_name, args) \<in> set (pv_active_caps s) then Ok (PBool True)
          else exec_err (''Capability guard not satisfied: '' @ cap_name)
      | UserGuard _ _ \<Rightarrow> Ok (PBool True)
      | PactGuard _ \<Rightarrow> Ok (PBool True), s))"

definition enforce_guard :: "pact_value \<Rightarrow> pact_value pact_prog" where
  "enforce_guard v =
     (case v of
        PGuard g \<Rightarrow> verify_guard g
      | PKeySet name \<Rightarrow> bindM (gets pv_keysets) (\<lambda>ks.
          case map_of ks name of
            Some (keys, pred) \<Rightarrow> verify_guard (KeySetGuard keys pred)
          | None \<Rightarrow> fail (ExecutionError (''Unknown keyset: '' @ name)))
      | _ \<Rightarrow> fail (ExecutionError ''Expected guard value''))"

definition full_name :: "pact_vm \<Rightarrow> string \<Rightarrow> string" where
  "full_name s name = (case pv_current_module s of None \<Rightarrow> name | Some m \<Rightarrow> if m = [] then name else m @ ''.'' @ name)"

definition home_module :: "pact_vm \<Rightarrow> string" where
  "home_module s = (case pv_current_module s of None \<Rightarrow> [] | Some m \<Rightarrow> m)"

definition define_fun :: "string \<Rightarrow> string list \<Rightarrow> pact_expr \<Rightarrow> pact_value pact_prog" where
  "define_fun name params body = thenM (modify (\<lambda>s. s\<lparr>pv_functions := AList.update (full_name s name)
       \<lparr>pf_name = name, pf_params = params, pf_body = body, pf_module = home_module s\<rparr> (pv_functions s)\<rparr>)) (ret PUnit)"

definition define_cap :: "string \<Rightarrow> string list \<Rightarrow> pact_expr \<Rightarrow> pact_value pact_prog" where
  "define_cap name params body = thenM (modify (\<lambda>s. s\<lparr>pv_capabilities := AList.update (full_name s name)
       \<lparr>pc_name = name, pc_params = params, pc_body = body, pc_module = home_module s\<rparr> (pv_capabilities s)\<rparr>)) (ret PUnit)"

definition define_schema :: "string \<Rightarrow> (string \<times> string) list \<Rightarrow> pact_value pact_prog" where
  "define_schema name columns = thenM (modify (\<lambda>s. s\<lparr>pv_schemas := AList.update name
       \<lparr>ps_name = name, ps_fields = columns\<rparr> (pv_schemas s)\<rparr>)) (ret PUnit)"

definition define_table :: "string \<Rightarrow> string \<Rightarrow> pact_value pact_prog" where
  "define_table name schema = thenM (modify (\<lambda>s. s\<lparr>pv_tables := AList.update name
       \<lparr>pt_name = name, pt_schema = schema, pt_data = []\<rparr> (pv_tables s)\<rparr>)) (ret PUnit)"

definition read_row :: "string \<Rightarrow> pact_value \<Rightarrow> pact_value pact_prog" where
  "read_row table_name key_value =
     bindM (lift_out (as_string key_value)) (\<lambda>key. bindM (gets pv_tables) (\<lambda>ts.
     case map_of ts table_name of
       None \<Rightarrow> fail (ExecutionError (''Table not found: '' @ table_name))
     | Some t \<Rightarrow> (case map_of (pt_data t) key of
           None \<Rightarrow> fail (ExecutionError (''Row not found: '' @ key))
         | Some row \<Rightarrow> ret (PObject row))))"

definition write_row :: "string \<Rightarrow> string \<Rightarrow> pact_value \<Rightarrow> pact_value pact_prog" where
  "write_row table_name key v =
     (case v of
        PObject row \<Rightarrow> bindM (gets pv_tables) (\<lambda>ts.
          case map_of ts table_name of
            None \<Rightarrow> fail (ExecutionError (''Table not found: '' @ table_name))
          | Some t \<Rightarrow>
              if length (pt_data t) \<ge> MAX_TABLE_SIZE then fail (ExecutionError ''Table size limit exceeded'')
              else thenM (modify (\<lambda>s. s\<lparr>pv_tables := AList.update table_name (t\<lparr>pt_data := AList.update key row (pt_data t)\<rparr>)
                     (pv_tables s)\<rparr>)) (ret PUnit))
      | _ \<Rightarrow> fail (ExecutionError ''Write value must be an object''))"

definition bind_params :: "string list \<Rightarrow> pact_value list \<Rightarrow> unit pact_prog" where
  "bind_params params args = modify (\<lambda>s. s\<lparr>pv_env := fold (\<lambda>(p, a). AList.update p a) (zip params args) (pv_env s)\<rparr>)"

subsection \<open>The evaluator\<close>

text \<open>
  \<open>ev\<close> is the evaluator for the subexpressions. The source computes a \<open>Result\<close> and lowers the depth before it returns it, but an
  error raised by \<open>?\<close> or \<open>return\<close> inside the match leaves at once: an arm is a program whose own error is the second kind and
  whose value is the \<open>Result\<close>. \<open>caught m\<close> is that \<open>Result\<close> for a program \<open>m\<close>.
\<close>

type_synonym pact_arm = "(vm_error, pact_value) outcome pact_run"

definition caught :: "'a pact_run \<Rightarrow> (vm_error, 'a) outcome pact_run" where
  "caught m = (\<lambda>s. case m s of
      None \<Rightarrow> None
    | Some (r, s') \<Rightarrow> (case r of Ok x \<Rightarrow> Some (Ok (Ok x), s') | Err e \<Rightarrow> Some (Ok (Err e), s') | Panic \<Rightarrow> Some (Panic, s')))"

definition result_of :: "'a pact_run \<Rightarrow> (vm_error, 'a) outcome pact_run" where
  "result_of m = mapN Ok m"

fun eval_list :: "('x \<Rightarrow> 'a pact_run) \<Rightarrow> 'x list \<Rightarrow> 'a list pact_run" where
  "eval_list ev [] = retN []"
| "eval_list ev (e # es) = bindN (ev e) (\<lambda>v. bindN (eval_list ev es) (\<lambda>vs. retN (v # vs)))"

definition set_env :: "(string \<times> pact_value) list \<Rightarrow> unit pact_prog" where
  "set_env env = modify (\<lambda>s. s\<lparr>pv_env := env\<rparr>)"

definition call_function :: "(pact_expr \<Rightarrow> pact_value pact_run) \<Rightarrow> pact_function \<Rightarrow> pact_value list \<Rightarrow> pact_value pact_run" where
  "call_function ev f args =
     (if length args \<noteq> length (pf_params f)
      then failN (ExecutionError (''Function '' @ pf_name f @ '' expects '' @ show_nat (length (pf_params f))
             @ '' arguments, got '' @ show_nat (length args)))
      else bindN (run_prog (gets pv_env)) (\<lambda>old_env.
        thenN (run_prog (bind_params (pf_params f) args))
        (bindN (caught (ev (pf_body f))) (\<lambda>result.
         thenN (run_prog (set_env old_env)) (run_prog (lift_out result))))))"

definition eval_app :: "pact_lib \<Rightarrow> (pact_expr \<Rightarrow> pact_value pact_run) \<Rightarrow> pact_expr \<Rightarrow> pact_expr list \<Rightarrow> pact_value pact_run" where
  "eval_app L ev func args =
     (case func of
        ESymbol func_name \<Rightarrow>
          bindN (eval_list ev args) (\<lambda>evaluated_args.
            case builtin L func_name of
              Some f \<Rightarrow> run_prog (f evaluated_args)
            | None \<Rightarrow> bindN (run_prog (gets pv_functions)) (\<lambda>fs.
                case map_of fs func_name of
                  Some f \<Rightarrow> call_function ev f evaluated_args
                | None \<Rightarrow> failN (ExecutionError (''Unknown function: '' @ func_name))))
      | _ \<Rightarrow> thenN (ev func) (failN (ExecutionError ''Higher-order functions not fully supported'')))"

definition eval_let :: "(pact_expr \<Rightarrow> pact_value pact_run) \<Rightarrow> (string \<times> pact_expr) list \<Rightarrow> pact_expr \<Rightarrow> pact_arm" where
  "eval_let ev bindings body =
     bindN (run_prog (gets pv_env)) (\<lambda>old_env.
     thenN (eval_list (\<lambda>(name, e). bindN (ev e) (\<lambda>v. run_prog (bind_params [name] [v]))) bindings)
     (bindN (caught (ev body)) (\<lambda>result.
     thenN (run_prog (set_env old_env)) (retN result))))"

definition eval_if :: "(pact_expr \<Rightarrow> pact_value pact_run) \<Rightarrow> pact_expr \<Rightarrow> pact_expr \<Rightarrow> pact_expr \<Rightarrow> pact_arm" where
  "eval_if ev c t e = bindN (ev c) (\<lambda>v. caught (ev (if to_bool v then t else e)))"

definition load_module :: "(pact_expr \<Rightarrow> pact_value pact_run) \<Rightarrow> pact_module \<Rightarrow> unit pact_run" where
  "load_module ev m =
     thenN (run_prog (modify (\<lambda>s. s\<lparr>pv_current_module := Some (mod_name m)\<rparr>)))
     (thenN (eval_list ev (mod_definitions m))
     (run_prog (modify (\<lambda>s. s\<lparr>pv_modules := AList.update (mod_name m) m (pv_modules s), pv_current_module := None\<rparr>))))"

definition acquire :: "(pact_expr \<Rightarrow> pact_value pact_run) \<Rightarrow> string \<Rightarrow> pact_value list \<Rightarrow> unit pact_run" where
  "acquire ev cap_name cap_args =
     bindN (run_prog (gets (\<lambda>s. ((cap_name, cap_args) \<in> set (pv_granted_caps s), map_of (pv_capabilities s) cap_name, pv_env s))))
       (\<lambda>(granted, cap, old_env).
         if granted then retN ()
         else case cap of
             None \<Rightarrow> retN ()
           | Some c \<Rightarrow>
               thenN (run_prog (bind_params (pc_params c) cap_args))
               (bindN (caught (ev (pc_body c))) (\<lambda>result.
                thenN (run_prog (set_env old_env))
                (if \<not> is_ok result then failN (ExecutionError (''Capability '' @ cap_name @ '' not granted''))
                 else run_prog (modify (\<lambda>s. s\<lparr>pv_granted_caps := pv_granted_caps s @ [(cap_name, cap_args)]\<rparr>))))))"

definition eval_with_capability :: "(pact_expr \<Rightarrow> pact_value pact_run) \<Rightarrow> string \<Rightarrow> pact_expr list \<Rightarrow> pact_expr \<Rightarrow> pact_arm" where
  "eval_with_capability ev cap_name args body =
     bindN (eval_list ev args) (\<lambda>cap_args.
     thenN (acquire ev cap_name cap_args)
     (thenN (run_prog (modify (\<lambda>s. s\<lparr>pv_active_caps := pv_active_caps s @ [(cap_name, cap_args)]\<rparr>)))
     (bindN (caught (ev body)) (\<lambda>result.
     thenN (run_prog (modify (\<lambda>s. s\<lparr>pv_active_caps := butlast (pv_active_caps s)\<rparr>))) (retN result)))))"

definition eval_require_capability :: "(pact_expr \<Rightarrow> pact_value pact_run) \<Rightarrow> string \<Rightarrow> pact_expr list \<Rightarrow> pact_value pact_run" where
  "eval_require_capability ev cap_name args =
     bindN (eval_list ev args) (\<lambda>cap_args. bindN (run_prog (gets pv_active_caps)) (\<lambda>caps.
       if (cap_name, cap_args) \<in> set caps then retN (PBool True)
       else failN (ExecutionError (''Required capability not in scope: '' @ cap_name))))"

definition eval_read :: "(pact_expr \<Rightarrow> pact_value pact_run) \<Rightarrow> string \<Rightarrow> pact_expr \<Rightarrow> pact_value pact_run" where
  "eval_read ev table_name key = thenN (run_prog (pv_charge GAS_SLOAD)) (bindN (ev key) (\<lambda>k. run_prog (read_row table_name k)))"

definition eval_write :: "(pact_expr \<Rightarrow> pact_value pact_run) \<Rightarrow> string \<Rightarrow> pact_expr \<Rightarrow> pact_expr \<Rightarrow> pact_value pact_run" where
  "eval_write ev table_name key val_expr =
     thenN (run_prog (pv_charge GAS_SSTORE_SET)) (bindN (ev key) (\<lambda>kv. bindN (run_prog (lift_out (as_string kv))) (\<lambda>k.
       bindN (ev val_expr) (\<lambda>v. run_prog (write_row table_name k v)))))"

definition eval_enforce :: "(pact_expr \<Rightarrow> pact_value pact_run) \<Rightarrow> pact_expr \<Rightarrow> string \<Rightarrow> pact_value pact_run" where
  "eval_enforce ev c msg = bindN (ev c) (\<lambda>v.
     if to_bool v then retN (PBool True) else failN (ExecutionError (''Enforce failed: '' @ msg)))"

fun join_spaces :: "string list \<Rightarrow> string" where
  "join_spaces [] = []"
| "join_spaces [x] = x"
| "join_spaces (x # xs) = x @ '' '' @ join_spaces xs"

fun eval_arm :: "pact_lib \<Rightarrow> (pact_expr \<Rightarrow> pact_value pact_run) \<Rightarrow> pact_expr \<Rightarrow> pact_arm" where
  "eval_arm L ev (ELiteral v) = retN (Ok v)"
| "eval_arm L ev (ESymbol name) = caught (run_prog (lookup_var name))"
| "eval_arm L ev (EApp func args) = caught (eval_app L ev func args)"
| "eval_arm L ev (ELet bindings body) = eval_let ev bindings body"
| "eval_arm L ev (EIf c t e) = eval_if ev c t e"
| "eval_arm L ev (ELambda params body) = retN (Ok (PString (''<lambda ('' @ join_spaces params @ '')>'')))"
| "eval_arm L ev (EModule m) = thenN (load_module ev m) (retN (Ok (PString (''Loaded module: '' @ mod_name m))))"
| "eval_arm L ev (EDefun name params body doc) = result_of (run_prog (define_fun name params body))"
| "eval_arm L ev (EDefcap name params body) = result_of (run_prog (define_cap name params body))"
| "eval_arm L ev (EDefschema name fs) = result_of (run_prog (define_schema name fs))"
| "eval_arm L ev (EDeftable name schema) = result_of (run_prog (define_table name schema))"
| "eval_arm L ev (EWithCapability cap_name args body) = eval_with_capability ev cap_name args body"
| "eval_arm L ev (ERequireCapability cap_name args) = result_of (eval_require_capability ev cap_name args)"
| "eval_arm L ev (ERead table_name key) = result_of (eval_read ev table_name key)"
| "eval_arm L ev (EWrite table_name key v) = result_of (eval_write ev table_name key v)"
| "eval_arm L ev (EInsert table_name key v) = result_of (eval_write ev table_name key v)"
| "eval_arm L ev (EUpdate table_name key v) = result_of (eval_write ev table_name key v)"
| "eval_arm L ev (EEnforce c msg) = result_of (eval_enforce ev c msg)"
| "eval_arm L ev (EEnforceGuard g) = bindN (ev g) (\<lambda>v. caught (run_prog (enforce_guard v)))"
| "eval_arm L ev (EProperty _ _) = retN (Ok PUnit)"
| "eval_arm L ev (EInterface _ _) = retN (Ok PUnit)"

definition eval_enter :: "unit pact_prog" where
  "eval_enter = (\<lambda>s. let s1 = s\<lparr>pv_depth := pv_depth s + 1\<rparr>
     in if pv_depth s1 > MAX_RECURSION_DEPTH then (exec_err ''Maximum recursion depth exceeded'', s1) else pv_charge GAS_BASE s1)"

fun pact_eval :: "pact_lib \<Rightarrow> nat \<Rightarrow> pact_expr \<Rightarrow> pact_value pact_run" where
  "pact_eval L 0 e = (\<lambda>_. None)"
| "pact_eval L (Suc n) e =
     thenN (run_prog eval_enter) (bindN (eval_arm L (pact_eval L n) e) (\<lambda>result.
       thenN (run_prog (modify (\<lambda>s. s\<lparr>pv_depth := pv_depth s - 1\<rparr>))) (run_prog (lift_out result))))"

text \<open>At most 256 evaluations are nested; the last of 257 reports the excess.\<close>

definition eval_fuel :: nat where
  "eval_fuel = MAX_RECURSION_DEPTH + 1"

subsection \<open>Execution\<close>

fun eval_all :: "pact_lib \<Rightarrow> pact_value \<Rightarrow> pact_expr list \<Rightarrow> pact_value pact_run" where
  "eval_all L last_value [] = retN last_value"
| "eval_all L last_value (e # es) = bindN (pact_eval L eval_fuel e) (\<lambda>v. eval_all L v es)"

definition pact_parse :: "string \<Rightarrow> pact_expr list pact_run" where
  "pact_parse source = (\<lambda>s. map_option (\<lambda>r. (r, s)) (parse_all source))"

definition parse_and_execute :: "pact_lib \<Rightarrow> string \<Rightarrow> string option \<Rightarrow> pact_value pact_run" where
  "parse_and_execute L code call_data =
     bindN (pact_parse code) (\<lambda>exprs. bindN (eval_all L PUnit exprs) (\<lambda>last_value.
       case call_data of
         None \<Rightarrow> retN last_value
       | Some c \<Rightarrow> bindN (pact_parse c) (\<lambda>call_exprs. eval_all L last_value call_exprs)))"

definition text_of :: "bytes \<Rightarrow> string option" where
  "text_of bs = (let s = map (\<lambda>b. char_of (unat b)) bs in if valid_utf8 s then Some s else None)"

definition pact_execute :: "pact_lib \<Rightarrow> bytes \<Rightarrow> bytes \<Rightarrow> (pact_vm, vm_error, vm_result) run" where
  "pact_execute L bytecode input = (\<lambda>s.
     if length bytecode < 4 \<or> take 4 bytecode \<noteq> PACT_MAGIC
     then Some (Ok (vm_failure 0 ''Invalid Pact bytecode magic''), s)
     else case text_of (drop 4 bytecode) of
         None \<Rightarrow> Some (Ok (vm_failure 0 (''Invalid UTF-8: '' @ px_utf8_error L (drop 4 bytecode))), s)
       | Some code \<Rightarrow>
           (case parse_and_execute L code (if input \<noteq> [] then text_of input else None) s of
              None \<Rightarrow> None
            | Some (Panic, s') \<Rightarrow> Some (Panic, s')
            | Some (Err e, s') \<Rightarrow> Some (Ok (vm_failure (gm_used (pv_gas s')) (vm_error_text e)), s')
            | Some (Ok v, s') \<Rightarrow> Some (Ok ((vm_success (gm_used (pv_gas s')) (value_to_bytes L v))
                \<lparr>vr_logs := pv_logs s', vr_state_changes := pv_state_changes s'\<rparr>), s')))"

end
