(* ===== verification/Fry_Pact_Runs.thy ===== *)
theory Fry_Pact_Runs
  imports Fry_Pact
begin

text \<open>
  Every run of the Pact machine ends: the evaluator returns with the fuel for 256 nested evaluations, never lowers the gas used,
  and leaves the depth as it was when it succeeds.
\<close>

declare map_of_eq_Some_iff [simp del] Some_eq_map_of_iff [simp del]

subsection \<open>The evaluator returns\<close>

text \<open>\<open>evals k D m\<close>: at a depth of at least \<open>256 - k\<close> the run returns, the meter moves forward, and a value for which
  \<open>D\<close> holds comes with an unchanged depth. \<open>ends D m\<close>: at any depth it returns, and no such value.\<close>

definition steady :: "pact_vm \<Rightarrow> pact_vm \<Rightarrow> bool" where
  "steady s s' \<longleftrightarrow> meter_le (pv_gas s) (pv_gas s') \<and> pv_depth s' = pv_depth s"

interpretation steady: step_frame steady
  by unfold_locales (auto simp: steady_def intro: meter_le_trans)

definition evals :: "nat \<Rightarrow> ('a \<Rightarrow> bool) \<Rightarrow> 'a pact_run \<Rightarrow> bool" where
  "evals k D m \<longleftrightarrow> (\<forall>s. MAX_RECURSION_DEPTH - pv_depth s \<le> k \<longrightarrow>
     (\<exists>r s'. m s = Some (r, s') \<and> meter_le (pv_gas s) (pv_gas s') \<and> (\<forall>x. r = Ok x \<longrightarrow> D x \<longrightarrow> pv_depth s' = pv_depth s)))"

definition ends :: "('a \<Rightarrow> bool) \<Rightarrow> 'a pact_run \<Rightarrow> bool" where
  "ends D m \<longleftrightarrow> (\<forall>s. \<exists>r s'. m s = Some (r, s') \<and> meter_le (pv_gas s) (pv_gas s') \<and> (\<forall>x. r = Ok x \<longrightarrow> \<not> D x))"

abbreviation always :: "'a \<Rightarrow> bool" where
  "always \<equiv> \<lambda>_. True"

named_theorems evals_intros \<open>compositional rules for \<open>evals\<close>\<close>

lemma evals_run_prog: "keeps steady m \<Longrightarrow> evals k D (run_prog m)"
  unfolding evals_def keeps_def run_prog_def steady_def by (metis prod.collapse)

lemma evals_retN [evals_intros]: "evals k D (retN x)"
  unfolding retN_def by (rule evals_run_prog [OF steady.keeps_ret])

lemma evals_failN [evals_intros]: "evals k D (failN x)"
  unfolding failN_def by (rule evals_run_prog [OF steady.keeps_fail])

lemma evals_bindN_gen:
  assumes "evals k D m" and "\<And>x. D x \<Longrightarrow> evals k E (f x)" and "\<And>x. \<not> D x \<Longrightarrow> ends E (f x)"
  shows "evals k E (bindN m f)"
  unfolding evals_def
proof (intro allI impI)
  fix s :: pact_vm assume depth: "MAX_RECURSION_DEPTH - pv_depth s \<le> k"
  with assms(1) obtain r s1 where m: "m s = Some (r, s1)" "meter_le (pv_gas s) (pv_gas s1)"
    "\<And>x. r = Ok x \<Longrightarrow> D x \<Longrightarrow> pv_depth s1 = pv_depth s" unfolding evals_def by blast
  show "\<exists>r s'. bindN m f s = Some (r, s') \<and> meter_le (pv_gas s) (pv_gas s') \<and> (\<forall>x. r = Ok x \<longrightarrow> E x \<longrightarrow> pv_depth s' = pv_depth s)"
  proof (cases r)
    case (Ok x)
    have "\<exists>r s'. f x s1 = Some (r, s') \<and> meter_le (pv_gas s1) (pv_gas s') \<and> (\<forall>x. r = Ok x \<longrightarrow> E x \<longrightarrow> pv_depth s' = pv_depth s)"
    proof (cases "D x")
      case True
      with m(3) Ok have d: "pv_depth s1 = pv_depth s" by blast
      with assms(2) [OF True] depth show ?thesis unfolding evals_def by metis
    next
      case False
      with assms(3) show ?thesis unfolding ends_def by blast
    qed
    with m Ok show ?thesis by (auto simp: bindN_def intro: meter_le_trans)
  qed (use m in \<open>auto simp: bindN_def\<close>)
qed

lemma evals_bindN [evals_intros]: "evals k always m \<Longrightarrow> (\<And>x. evals k E (f x)) \<Longrightarrow> evals k E (bindN m f)"
  by (rule evals_bindN_gen) auto

lemma evals_thenN [evals_intros]: "evals k always m \<Longrightarrow> evals k E m' \<Longrightarrow> evals k E (thenN m m')"
  unfolding thenN_def by (rule evals_bindN)

lemma evals_if [evals_intros]: "evals k D m \<Longrightarrow> evals k D m' \<Longrightarrow> evals k D (if b then m else m')"
  by simp

lemma evals_option [evals_intros]:
  "evals k D m \<Longrightarrow> (\<And>x. evals k D (f x)) \<Longrightarrow> evals k D (case z of None \<Rightarrow> m | Some x \<Rightarrow> f x)"
  by (simp split: option.split)

lemma evals_case_prod [evals_intros]: "(\<And>x y. evals k D (f x y)) \<Longrightarrow> evals k D (case z of (x, y) \<Rightarrow> f x y)"
  by (simp split: prod.split)

text \<open>A caught result: the depth is unchanged when it is no error.\<close>

lemma evals_caught [evals_intros]: "evals k always m \<Longrightarrow> evals k is_ok (caught m)"
  unfolding evals_def caught_def by (fastforce split: outcome.split)

lemma evals_result_of [evals_intros]: "evals k always m \<Longrightarrow> evals k D (result_of m)"
  unfolding result_of_def mapN_def by (intro evals_intros)

lemma ends_run_then:
  assumes "keeps steady m" and "ends D m'"
  shows "ends D (thenN (run_prog m) m')"
  unfolding ends_def
proof
  fix s :: pact_vm
  obtain r s1 where m: "m s = (r, s1)" by fastforce
  have le: "meter_le (pv_gas s) (pv_gas s1)" using keepsE [OF assms(1), of s] m by (simp add: steady_def)
  obtain r' s' where m': "m' s1 = Some (r', s')" "meter_le (pv_gas s1) (pv_gas s')" "\<forall>x. r' = Ok x \<longrightarrow> \<not> D x"
    using assms(2) unfolding ends_def by blast
  show "\<exists>r s'. thenN (run_prog m) m' s = Some (r, s') \<and> meter_le (pv_gas s) (pv_gas s') \<and> (\<forall>x. r = Ok x \<longrightarrow> \<not> D x)"
    using m m' le by (cases r) (auto simp: thenN_def bindN_def run_prog_def intro: meter_le_trans)
qed

lemma ends_error: "\<not> is_ok e \<Longrightarrow> ends always (run_prog (lift_out e))" "\<not> is_ok e \<Longrightarrow> ends is_ok (retN e)" "ends D (failN x)"
  by (cases e; simp add: ends_def run_prog_def lift_out_def retN_def ret_def failN_def fail_def)+

text \<open>Programs that leave the depth alone.\<close>

lemma steady_charge: "keeps steady (pv_charge g)"
  using consume_meter_le [of _ g] by (auto simp: keeps_def pv_charge_def steady_def split: prod.split) (metis snd_conv)

lemma steady_update: "(\<And>s. pv_gas (f s) = pv_gas s \<and> pv_depth (f s) = pv_depth s) \<Longrightarrow> keeps steady (modify f)"
  by (simp add: keeps_modify steady_def)

lemma steady_builtin: "builtin L name = Some f \<Longrightarrow> keeps steady (f args)"
  unfolding builtin_def
  by (auto simp: builtin_hash_def builtin_user_guard_def define_keyset_def emit_event_def Let_def split: if_splits
      intro!: steady.keeps_thenM steady.keeps_bindM steady.keeps_lift_out steady.keeps_ret steady.keeps_gets steady_charge steady_update)

lemma steady_lookup: "keeps steady (lookup_var name)"
  unfolding lookup_var_def
  by (intro steady.keeps_bindM steady.keeps_gets steady.keeps_option steady.keeps_ite steady.keeps_ret steady.keeps_fail)

lemma steady_verify_guard: "keeps steady (verify_guard g)"
  by (simp add: keeps_def verify_guard_def steady.R_refl)

lemma steady_enforce_guard: "keeps steady (enforce_guard v)"
proof (cases v)
  case (PKeySet name)
  then show ?thesis
    by (auto simp: enforce_guard_def split: option.split prod.split
        intro!: steady.keeps_bindM steady.keeps_gets steady_verify_guard steady.keeps_fail)
qed (simp_all add: enforce_guard_def steady_verify_guard steady.keeps_fail)

lemma steady_definitions:
  "keeps steady (define_fun name params body)" "keeps steady (define_cap name params body)"
  "keeps steady (define_schema name cs)" "keeps steady (define_table name schema)"
  "keeps steady (bind_params params args)" "keeps steady (set_env env)"
  unfolding define_fun_def define_cap_def define_schema_def define_table_def bind_params_def set_env_def
  by (auto intro!: steady.keeps_thenM steady_update steady.keeps_ret)

lemma steady_rows: "keeps steady (read_row t k)" "keeps steady (write_row t key v)"
proof -
  show "keeps steady (read_row t k)"
    unfolding read_row_def
    by (intro steady.keeps_bindM steady.keeps_lift_out steady.keeps_gets steady.keeps_option steady.keeps_fail steady.keeps_ret)
  show "keeps steady (write_row t key v)"
  proof (cases v)
    case (PObject row)
    have "keeps steady (modify (\<lambda>s. s\<lparr>pv_tables := f s\<rparr>))" for f by (rule steady_update) simp
    then show ?thesis unfolding write_row_def PObject pact_value.simps
      by (intro steady.keeps_bindM steady.keeps_gets steady.keeps_option steady.keeps_fail steady.keeps_ite steady.keeps_thenM
          steady.keeps_ret)
  qed (simp_all add: write_row_def steady.keeps_fail)
qed

lemma evals_progs [evals_intros]:
  "evals k D1 (run_prog (bind_params params args))" "evals k D1 (run_prog (set_env env))"
  "evals k D2 (run_prog (gets g))" "evals k D1 (run_prog (pv_charge c))" "evals k D (run_prog (lookup_var name))"
  "evals k D (run_prog (enforce_guard v))" "evals k D3 (run_prog (lift_out x))"
  "evals k D (run_prog (read_row t kv))" "evals k D (run_prog (write_row t key v))"
  "evals k D (run_prog (define_fun name params body))" "evals k D (run_prog (define_cap name params body))"
  "evals k D (run_prog (define_schema name cs))" "evals k D (run_prog (define_table name schema))"
  by (rule evals_run_prog, simp add: steady_definitions steady_charge steady_lookup steady_enforce_guard steady_rows
      steady.keeps_gets steady.keeps_lift_out)+

lemma evals_modify: "(\<And>s. pv_gas (f s) = pv_gas s \<and> pv_depth (f s) = pv_depth s) \<Longrightarrow> evals k D (run_prog (modify f))"
  by (rule evals_run_prog) (rule steady_update)

text \<open>Each arm, with an evaluator that returns.\<close>

lemma evals_list [evals_intros]: "(\<And>e. evals k always (ev e)) \<Longrightarrow> evals k always (eval_list ev es)"
  by (induction es) (auto intro!: evals_intros)

locale returning_evaluator =
  fixes ev :: "pact_expr \<Rightarrow> pact_value pact_run" and k :: nat
  assumes ev: "evals k always (ev e)"
begin

lemma evals_call: "evals k always (call_function ev f args)"
proof -
  have "evals k always (bindN (caught (ev (pf_body f))) (\<lambda>result. thenN (run_prog (set_env env)) (run_prog (lift_out result))))" for env
    by (rule evals_bindN_gen [OF evals_caught [OF ev]])
      (auto intro!: evals_thenN evals_progs ends_run_then steady_definitions ends_error)
  note body = this
  show ?thesis unfolding call_function_def
    by (rule evals_if [OF evals_failN evals_bindN [OF evals_progs(3) evals_thenN [OF evals_progs(1) body]]])
qed

lemma evals_app: "evals k always (eval_app L ev func args)"
proof -
  have "evals k always (run_prog (f vs))" if "builtin L name = Some f" for f vs name
    by (rule evals_run_prog [OF steady_builtin [OF that]])
  then have "evals k always (case builtin L name of Some f \<Rightarrow> run_prog (f vs)
      | None \<Rightarrow> bindN (run_prog (gets pv_functions)) (\<lambda>fs. case map_of fs name of Some f \<Rightarrow> call_function ev f vs
          | None \<Rightarrow> failN (ExecutionError (''Unknown function: '' @ name))))" for name vs
    by (auto intro!: evals_bindN evals_progs evals_failN evals_call split: option.split)
  moreover have "evals k always (thenN (ev func) (failN e))" for e by (intro evals_intros ev)
  ultimately show ?thesis
    unfolding eval_app_def by (cases func) (auto intro!: evals_bindN evals_list ev)
qed

lemma evals_let: "evals k is_ok (eval_let ev bindings body)"
proof -
  have "evals k is_ok (bindN (caught (ev body)) (\<lambda>result. thenN (run_prog (set_env env)) (retN result)))" for env
    by (rule evals_bindN_gen [OF evals_caught [OF ev]])
      (auto intro!: evals_thenN evals_progs evals_retN ends_run_then steady_definitions ends_error)
  note body = this
  have bs: "evals k always (eval_list (\<lambda>(name, e). bindN (ev e) (\<lambda>v. run_prog (bind_params [name] [v]))) bindings)"
    by (induction bindings) (auto intro!: evals_intros ev)
  show ?thesis unfolding eval_let_def by (rule evals_bindN [OF evals_progs(3) evals_thenN [OF bs body]])
qed

lemma evals_acquire: "evals k always (acquire ev cap_name cap_args)"
proof -
  have m: "evals k always (run_prog (modify (\<lambda>s. s\<lparr>pv_granted_caps := f s\<rparr>)))" for f by (rule evals_modify) simp
  have "evals k always (bindN (caught (ev b)) (\<lambda>result. thenN (run_prog (set_env env))
      (if \<not> is_ok result then failN e else run_prog (modify (\<lambda>s. s\<lparr>pv_granted_caps := f s\<rparr>)))))" for b env e f
    by (rule evals_bindN_gen [OF evals_caught [OF ev]])
      (auto intro!: evals_thenN evals_progs evals_failN m ends_run_then steady_definitions ends_error)
  note body = this
  have some: "evals k always (case cap of None \<Rightarrow> retN () | Some c \<Rightarrow> thenN (run_prog (bind_params (pc_params c) cap_args))
      (bindN (caught (ev (pc_body c))) (\<lambda>result. thenN (run_prog (set_env env)) (if \<not> is_ok result then failN e
        else run_prog (modify (\<lambda>s. s\<lparr>pv_granted_caps := f s\<rparr>))))))" for cap env e f
    by (rule evals_option [OF evals_retN evals_thenN [OF evals_progs(1) body]])
  show ?thesis unfolding acquire_def
    by (rule evals_bindN [OF evals_progs(3)]) (intro evals_case_prod evals_if evals_retN some)
qed

lemma evals_with_capability: "evals k is_ok (eval_with_capability ev cap_name args body)"
proof -
  have m: "keeps steady (modify (\<lambda>s. s\<lparr>pv_active_caps := f s\<rparr>))" for f by (rule steady_update) simp
  have "evals k is_ok (bindN (caught (ev body)) (\<lambda>result. thenN (run_prog (modify (\<lambda>s. s\<lparr>pv_active_caps := f s\<rparr>))) (retN result)))" for f
    by (rule evals_bindN_gen [OF evals_caught [OF ev]])
      (auto intro!: evals_thenN evals_run_prog m evals_retN ends_run_then ends_error)
  note body = this
  have act: "evals k always (run_prog (modify (\<lambda>s. s\<lparr>pv_active_caps := f s\<rparr>)))" for f by (rule evals_run_prog [OF m])
  show ?thesis unfolding eval_with_capability_def
    by (rule evals_bindN [OF evals_list [OF ev] evals_thenN [OF evals_acquire evals_thenN [OF act body]]])
qed

lemma evals_module: "evals k always (load_module ev m)"
proof -
  have "evals k always (run_prog (modify (\<lambda>s. s\<lparr>pv_current_module := Some n\<rparr>)))" for n by (rule evals_modify) simp
  moreover have "evals k always (run_prog (modify (\<lambda>s. s\<lparr>pv_modules := f s, pv_current_module := None\<rparr>)))" for f
    by (rule evals_modify) simp
  ultimately show ?thesis unfolding load_module_def by (intro evals_intros ev)
qed

lemma evals_arm: "evals k is_ok (eval_arm L ev e)"
proof (cases e)
  case (EModule m)
  then show ?thesis by (auto intro!: evals_thenN evals_module evals_retN)
qed (auto simp: eval_if_def eval_require_capability_def eval_read_def eval_write_def eval_enforce_def
    intro!: evals_retN evals_caught evals_progs evals_app evals_let evals_with_capability evals_result_of evals_bindN evals_thenN
      evals_list evals_if evals_failN ev)

end

lemma eval_enter_steps:
  "eval_enter s = (r, s') \<Longrightarrow> meter_le (pv_gas s) (pv_gas s') \<and> pv_depth s' = pv_depth s + 1
     \<and> (is_ok r \<longrightarrow> pv_depth s < MAX_RECURSION_DEPTH)"
  using keepsE [OF steady_charge [of GAS_BASE], of "s\<lparr>pv_depth := pv_depth s + 1\<rparr>"]
  by (auto simp: eval_enter_def Let_def exec_err_def steady_def split: if_splits)

lemma evals_eval: "k < n \<Longrightarrow> evals k always (pact_eval L n e)"
proof (induction n arbitrary: k e)
  case (Suc n)
  show ?case unfolding evals_def
  proof (intro allI impI)
    fix s :: pact_vm
    assume depth: "MAX_RECURSION_DEPTH - pv_depth s \<le> k"
    obtain r1 s1 where en: "eval_enter s = (r1, s1)" by fastforce
    note E = eval_enter_steps [OF en]
    show "\<exists>r s'. pact_eval L (Suc n) e s = Some (r, s') \<and> meter_le (pv_gas s) (pv_gas s')
      \<and> (\<forall>x. r = Ok x \<longrightarrow> True \<longrightarrow> pv_depth s' = pv_depth s)"
    proof (cases r1)
      case (Ok u)
      have less: "pv_depth s < MAX_RECURSION_DEPTH" using E Ok by simp
      then have k: "k - 1 < n" "0 < k" "MAX_RECURSION_DEPTH - pv_depth s1 \<le> k - 1" using E depth Suc.prems by linarith+
      have "evals (k - 1) is_ok (eval_arm L (pact_eval L n) e)" by (rule returning_evaluator.evals_arm) (unfold_locales, rule Suc.IH [OF k(1)])
      then obtain r2 s2 where arm: "eval_arm L (pact_eval L n) e s1 = Some (r2, s2)" "meter_le (pv_gas s1) (pv_gas s2)"
        "\<forall>x. r2 = Ok x \<longrightarrow> is_ok x \<longrightarrow> pv_depth s2 = pv_depth s1"
        using k(3) unfolding evals_def by blast
      have le: "meter_le (pv_gas s) (pv_gas s2)" using E arm(2) by (blast intro: meter_le_trans)
      show ?thesis
      proof (cases r2)
        case (Ok res)
        with \<open>r1 = Ok u\<close> en arm E le show ?thesis
          by (cases res) (auto simp: thenN_def bindN_def run_prog_def modify_def lift_out_def)
      qed (use Ok en arm le in \<open>auto simp: thenN_def bindN_def run_prog_def\<close>)
    qed (use en E in \<open>auto simp: thenN_def bindN_def run_prog_def\<close>)
  qed
qed simp

interpretation returning: returning_evaluator "pact_eval L (Suc n)" n for L n
  by unfold_locales (rule evals_eval, simp)

lemma evals_all: "evals MAX_RECURSION_DEPTH always (eval_all L v es)"
proof -
  have "evals MAX_RECURSION_DEPTH always (pact_eval L eval_fuel e)" for e
    unfolding eval_fuel_def Suc_eq_plus1 [symmetric] by (rule returning.ev)
  then show ?thesis by (induction es arbitrary: v) (simp_all add: evals_retN evals_bindN)
qed

lemma evals_parse: "evals k always (pact_parse source)"
  using parse_all_returns [of source] by (auto simp: evals_def pact_parse_def)

lemma parse_and_execute_returns:
  "\<exists>r s'. parse_and_execute L code call s = Some (r, s') \<and> meter_le (pv_gas s) (pv_gas s')"
proof -
  have "evals MAX_RECURSION_DEPTH always (parse_and_execute L code call)"
    unfolding parse_and_execute_def by (intro evals_intros evals_parse evals_all)
  then show ?thesis unfolding evals_def by (meson diff_le_self)
qed

lemma pact_execute_total:
  "\<exists>r s'. pact_execute L code input (pact_new ctx) = Some (r, s')
     \<and> (r = Panic \<or> (\<exists>v. r = Ok v \<and> vr_gas_used v \<le> ec_gas_limit ctx))"
proof -
  have within: "gm_used (pv_gas s') \<le> ec_gas_limit ctx" if "meter_le (pv_gas (pact_new ctx)) (pv_gas s')" for s' :: pact_vm
    using that by (simp add: meter_le_def pact_new_def meter_new_def)
  have run: "\<exists>r s'. parse_and_execute L c i (pact_new ctx) = Some (r, s') \<and> gm_used (pv_gas s') \<le> ec_gas_limit ctx" for c i
    using parse_and_execute_returns [of L c i "pact_new ctx"] within by blast
  show ?thesis
  proof (cases "text_of (drop 4 code)")
    case (Some c)
    obtain r s' where p: "parse_and_execute L c (if input \<noteq> [] then text_of input else None) (pact_new ctx) = Some (r, s')"
      "gm_used (pv_gas s') \<le> ec_gas_limit ctx" using run by blast
    then show ?thesis using Some by (cases r) (simp_all add: pact_execute_def)
  qed (simp add: pact_execute_def)
qed

end
