(* ===== verification/Fry_Hash.thy ===== *)
theory Fry_Hash
  imports Fry_Types
begin

text \<open>
  \<open>frychain-crypto/src/hash.rs\<close>: the hash helpers, over the external hash functions SHA3-256,
  Keccak-256 and BLAKE3 as parameters. A hasher that is fed several pieces hashes their concatenation. The lemmas: with
  a hash that does not collide the domain hash separates domains and data, while the hash of a
  list does not separate the pieces.
\<close>

record hash_lib =
  hl_sha3_256 :: "bytes \<Rightarrow> bytes"
  hl_keccak256 :: "bytes \<Rightarrow> bytes"
  hl_blake3 :: "bytes \<Rightarrow> bytes"

definition keccak256 :: "hash_lib \<Rightarrow> bytes \<Rightarrow> hash256" where
  "keccak256 H data = hl_keccak256 H data"

definition sha3_256 :: "hash_lib \<Rightarrow> bytes \<Rightarrow> hash256" where
  "sha3_256 H data = hl_sha3_256 H data"

definition blake3_hash :: "hash_lib \<Rightarrow> bytes \<Rightarrow> hash256" where
  "blake3_hash H data = hl_blake3 H data"

definition double_sha3_256 :: "hash_lib \<Rightarrow> bytes \<Rightarrow> hash256" where
  "double_sha3_256 H data = sha3_256 H (sha3_256 H data)"

definition hash_concat :: "hash_lib \<Rightarrow> bytes list \<Rightarrow> hash256" where
  "hash_concat H inputs = hl_sha3_256 H (concat inputs)"

definition domain_preimage :: "string \<Rightarrow> bytes \<Rightarrow> bytes" where
  "domain_preimage domain data =
     (let domain_bytes = str_bytes domain
      in le_of_word (word_of_nat (length domain_bytes) :: u64) @ domain_bytes @ data)"

definition domain_hash :: "hash_lib \<Rightarrow> string \<Rightarrow> bytes \<Rightarrow> hash256" where
  "domain_hash H domain data = hl_sha3_256 H (domain_preimage domain data)"

lemma domain_preimage_inject:
  assumes "length d < 2 ^ 64" and "length d' < 2 ^ 64" and "domain_preimage d x = domain_preimage d' x'"
  shows "d = d' \<and> x = x'"
proof -
  have "le_of_word (word_of_nat (length d) :: u64) = le_of_word (word_of_nat (length d') :: u64)"
    and rest: "str_bytes d @ x = str_bytes d' @ x'"
    using assms(3) by (simp_all add: domain_preimage_def)
  then have "unat (word_of_nat (length d) :: u64) = unat (word_of_nat (length d') :: u64)" by simp
  then have "length d = length d'" using assms(1,2) by (simp add: unat_of_nat)
  with rest show ?thesis by simp
qed

text \<open>The domain hash separates protocols, the plain concatenation does not separate pieces. Where SHA3
  does not collide on the two encodings, two domain hashes are equal only for the same domain and the same
  data; hashing a list of pieces gives the hash of their concatenation, so moving a byte from one piece to the next
  changes nothing.\<close>

theorem domain_hash_separates:
  assumes "inj_on (hl_sha3_256 H) {domain_preimage d x, domain_preimage d' x'}" and "length d < 2 ^ 64" and "length d' < 2 ^ 64"
  shows "(domain_hash H d x = domain_hash H d' x' \<longleftrightarrow> d = d' \<and> x = x')
    \<and> hash_concat H [y, z] = sha3_256 H (y @ z) \<and> hash_concat H [y @ [b], z] = hash_concat H [y, b # z]"
proof -
  have "domain_hash H d x = domain_hash H d' x' \<longleftrightarrow> domain_preimage d x = domain_preimage d' x'"
    unfolding domain_hash_def by (rule inj_on_eq_iff [OF assms(1)]) simp_all
  moreover have "domain_preimage d x = domain_preimage d' x' \<longleftrightarrow> d = d' \<and> x = x'"
    using domain_preimage_inject [OF assms(2,3)] by blast
  ultimately show ?thesis by (simp add: hash_concat_def sha3_256_def)
qed

definition sample_hash_lib :: hash_lib where
  "sample_hash_lib = \<lparr>hl_sha3_256 = (\<lambda>bs. word_of_nat (length bs) # replicate 31 0), hl_keccak256 = id, hl_blake3 = id\<rparr>"

theorem domain_hash_separates_witness:
  "domain_hash sample_hash_lib ''tx'' [1] \<noteq> domain_hash sample_hash_lib ''block'' [1]"
  using domain_hash_separates [of sample_hash_lib "''tx''" "[1]" "''block''" "[1]"]
  by (simp add: sample_hash_lib_def domain_preimage_def)

end
