(* ===== verification/Fry_Executor.thy ===== *)
theory Fry_Executor
  imports Fry_AVM Fry_SBF Fry_Kaspa Fry_Pact_Runs Fry_Hash Fry_Address
begin

text \<open>
  \<open>frychain-vm/src/executor.rs\<close> and \<open>precompiles.rs\<close>: the choice of a virtual machine by the
  first bytes of the contract, deployment, gas estimation, and the native contracts. The lemmas: a call of any contract returns
  within its gas, the estimate covers what a run used, and what the native contracts compute and charge.
\<close>

record execution_result =
  er_success :: bool
  er_gas_used :: u64
  er_return_data :: bytes
  er_error :: "string option"
  er_contract_address :: "address option"
  er_logs :: "vm_log list"

text \<open>What the machines need from outside, and the address hash.\<close>

record vm_libs =
  vx_avm :: avm_lib
  vx_kaspa :: kaspa_lib
  vx_pact :: pact_lib
  vx_sha3 :: hash_fn

record vm_executor =
  ex_max_depth :: u32

definition executor_new :: vm_executor where
  "executor_new = \<lparr>ex_max_depth = 1024\<rparr>"

definition execution_error :: "string \<Rightarrow> execution_result" where
  "execution_error text = \<lparr>er_success = False, er_gas_used = 0, er_return_data = [], er_error = Some text,
     er_contract_address = None, er_logs = []\<rparr>"

definition execution_of :: "vm_result \<Rightarrow> address option \<Rightarrow> execution_result" where
  "execution_of v addr = \<lparr>er_success = vr_success v, er_gas_used = vr_gas_used v, er_return_data = vr_return_data v,
     er_error = vr_error v, er_contract_address = addr, er_logs = vr_logs v\<rparr>"

definition execute_sbf :: "bytes \<Rightarrow> execution_context \<Rightarrow> (vm_error, vm_result) outcome option" where
  "execute_sbf bytecode ctx =
     (case sbf_new bytecode ctx of
        Ok vm \<Rightarrow> sbf_execute vm
      | Err e \<Rightarrow> Some (Ok (vm_failure 0 (vm_error_text e)))
      | Panic \<Rightarrow> Some Panic)"

definition execute_avm :: "vm_libs \<Rightarrow> bytes \<Rightarrow> execution_context \<Rightarrow> (vm_error, vm_result) outcome option" where
  "execute_avm X bytecode ctx = avm_execute (vx_avm X) (avm_new bytecode ctx)"

definition execute_kaspa :: "vm_libs \<Rightarrow> bytes \<Rightarrow> bytes \<Rightarrow> execution_context \<Rightarrow> (vm_error, vm_result) outcome option" where
  "execute_kaspa X bytecode input ctx = map_option fst (kaspa_execute (vx_kaspa X) bytecode input (kaspa_new ctx))"

definition execute_pact :: "vm_libs \<Rightarrow> bytes \<Rightarrow> bytes \<Rightarrow> execution_context \<Rightarrow> (vm_error, vm_result) outcome option" where
  "execute_pact X bytecode input ctx = map_option fst (pact_execute (vx_pact X) bytecode input (pact_new ctx))"

text \<open>The machine of a contract; the native kind is never detected and has no machine. \<open>None\<close> in the result
  is a machine that does not return.\<close>

definition run_contract :: "vm_libs \<Rightarrow> contract_type \<Rightarrow> bytes \<Rightarrow> bytes \<Rightarrow> execution_context \<Rightarrow>
    (vm_error, vm_result) outcome option" where
  "run_contract X t bytecode input ctx =
     (case t of
        SBF \<Rightarrow> execute_sbf bytecode ctx
      | AVM \<Rightarrow> execute_avm X bytecode ctx
      | PactContract \<Rightarrow> execute_pact X bytecode input ctx
      | KaspaContract \<Rightarrow> execute_kaspa X bytecode input ctx
      | Native \<Rightarrow> Some Panic)"

fun map_outcome :: "('a \<Rightarrow> 'b) \<Rightarrow> ('e, 'a) outcome \<Rightarrow> ('e, 'b) outcome" where
  "map_outcome f (Ok x) = Ok (f x)"
| "map_outcome f (Err e) = Err e"
| "map_outcome f Panic = Panic"

definition executor_execute :: "vm_libs \<Rightarrow> vm_executor \<Rightarrow> bytes \<Rightarrow> bytes \<Rightarrow> execution_context \<Rightarrow>
    (vm_error, execution_result) outcome option" where
  "executor_execute X ex bytecode input ctx =
     (if ec_depth ctx > ex_max_depth ex then Some (Ok (execution_error ''Max call depth exceeded''))
      else case from_bytecode bytecode of
          None \<Rightarrow> Some (Ok (execution_error ''Unknown contract type''))
        | Some Native \<Rightarrow> Some (Ok (execution_error ''Native contracts not yet implemented''))
        | Some t \<Rightarrow> map_option (map_outcome (\<lambda>v. execution_of v None)) (run_contract X t bytecode input ctx))"

definition executor_deploy :: "vm_libs \<Rightarrow> vm_executor \<Rightarrow> bytes \<Rightarrow> address \<Rightarrow> u64 \<Rightarrow> u128 \<Rightarrow> u64 \<Rightarrow>
    (vm_error, execution_result) outcome option" where
  "executor_deploy X ex bytecode creator n v gas_limit =
     (case from_bytecode bytecode of
        None \<Rightarrow> Some (Ok (execution_error ''Unknown contract type''))
      | Some Native \<Rightarrow> Some (Ok (execution_error ''Cannot deploy native contracts''))
      | Some t \<Rightarrow>
          (let addr = contract_address (vx_sha3 X) creator n;
               ctx = context_new creator addr v gas_limit
           in map_option (map_outcome (\<lambda>r. execution_of r (if vr_success r then Some addr else None)))
                (run_contract X t bytecode [] ctx)))"

text \<open>\<open>(g as f64 * 1.1) as u64\<close>, with the binary64 number nearest to 1.1; a conversion to an integer truncates and saturates.\<close>

definition f64_1_1 :: f64 where
  "f64_1_1 = 4953959590107546 * 2 ^ 76"

definition f64_to_u64 :: "f64 \<Rightarrow> u64" where
  "f64_to_u64 x = (if x div f64_one < 2 ^ 64 then word_of_nat (x div f64_one) else - 1)"

definition with_buffer :: "u64 \<Rightarrow> u64" where
  "with_buffer g = f64_to_u64 (f64_mul (f64_of_nat (unat g)) f64_1_1)"

definition executor_estimate_gas :: "vm_libs \<Rightarrow> vm_executor \<Rightarrow> bytes \<Rightarrow> bytes \<Rightarrow> execution_context \<Rightarrow>
    (vm_error, u64) outcome option" where
  "executor_estimate_gas X ex bytecode input ctx =
     map_option (map_outcome (\<lambda>r. with_buffer (er_gas_used r)))
       (executor_execute X ex bytecode input (ctx\<lparr>ec_gas_limit := 100000000\<rparr>))"

subsection \<open>Native contracts\<close>

text \<open>The implementations of the trait \<open>Precompile\<close>.\<close>

datatype precompile = Sha3Precompile | Keccak256Precompile | Blake3Precompile | IdentityPrecompile | DilithiumVerifyPrecompile

record precompile_result =
  pr_success :: bool
  pr_gas_used :: u64
  pr_output :: bytes
  pr_error :: "string option"

definition precompile_success :: "u64 \<Rightarrow> bytes \<Rightarrow> precompile_result" where
  "precompile_success gas_used output = \<lparr>pr_success = True, pr_gas_used = gas_used, pr_output = output, pr_error = None\<rparr>"

definition precompile_failure :: "u64 \<Rightarrow> string \<Rightarrow> precompile_result" where
  "precompile_failure gas_used err = \<lparr>pr_success = False, pr_gas_used = gas_used, pr_output = [], pr_error = Some err\<rparr>"

definition input_words :: "bytes \<Rightarrow> u64" where
  "input_words input = (word_of_nat (length input) + 31) div 32"

fun precompile_gas_cost :: "precompile \<Rightarrow> bytes \<Rightarrow> u64" where
  "precompile_gas_cost Sha3Precompile input = 30 + 6 * input_words input"
| "precompile_gas_cost Keccak256Precompile input = 30 + 6 * input_words input"
| "precompile_gas_cost Blake3Precompile input = 15 + 3 * input_words input"
| "precompile_gas_cost IdentityPrecompile input = 15 + 3 * input_words input"
| "precompile_gas_cost DilithiumVerifyPrecompile input = 3000"

fun precompile_run :: "hash_lib \<Rightarrow> precompile \<Rightarrow> bytes \<Rightarrow> u64 \<Rightarrow> precompile_result" where
  "precompile_run H Sha3Precompile input cost = precompile_success cost (hl_sha3_256 H input)"
| "precompile_run H Keccak256Precompile input cost = precompile_success cost (hl_keccak256 H input)"
| "precompile_run H Blake3Precompile input cost = precompile_success cost (hl_blake3 H input)"
| "precompile_run H IdentityPrecompile input cost = precompile_success cost input"
| "precompile_run H DilithiumVerifyPrecompile input cost =
     (if length input < 32 then precompile_failure cost ''Invalid input length'' else precompile_success cost [1])"

definition precompile_execute :: "hash_lib \<Rightarrow> precompile \<Rightarrow> bytes \<Rightarrow> u64 \<Rightarrow> precompile_result" where
  "precompile_execute H p input gas_limit =
     (let cost = precompile_gas_cost p input
      in if cost > gas_limit then precompile_failure gas_limit ''Out of gas'' else precompile_run H p input cost)"

type_synonym precompile_registry = "(address \<times> precompile) list"

definition address_from_u8 :: "u8 \<Rightarrow> address" where
  "address_from_u8 n = \<lparr>addr_type = System, addr_bytes = replicate 31 0 @ [n]\<rparr>"

definition register_precompile :: "address \<Rightarrow> precompile \<Rightarrow> precompile_registry \<Rightarrow> precompile_registry" where
  "register_precompile a p reg = AList.update a p reg"

definition standard_precompiles :: precompile_registry where
  "standard_precompiles =
     register_precompile (address_from_u8 5) DilithiumVerifyPrecompile
      (register_precompile (address_from_u8 4) Blake3Precompile
       (register_precompile (address_from_u8 3) Keccak256Precompile
        (register_precompile (address_from_u8 2) Sha3Precompile
         (register_precompile (address_from_u8 1) IdentityPrecompile []))))"

definition is_precompile :: "address \<Rightarrow> precompile_registry \<Rightarrow> bool" where
  "is_precompile a reg \<longleftrightarrow> map_of reg a \<noteq> None"

definition registry_execute :: "hash_lib \<Rightarrow> address \<Rightarrow> bytes \<Rightarrow> u64 \<Rightarrow> precompile_registry \<Rightarrow> precompile_result option" where
  "registry_execute H a input gas_limit reg = map_option (\<lambda>p. precompile_execute H p input gas_limit) (map_of reg a)"

definition registry_gas_cost :: "address \<Rightarrow> bytes \<Rightarrow> precompile_registry \<Rightarrow> u64 option" where
  "registry_gas_cost a input reg = map_option (\<lambda>p. precompile_gas_cost p input) (map_of reg a)"

subsection \<open>Calls return\<close>

lemma sbf_new_no_panic: "sbf_new code ctx \<noteq> Panic"
proof -
  have "parse_elf code \<noteq> Panic" by (simp add: parse_elf_def Let_def)
  then show ?thesis unfolding sbf_new_def by (cases "parse_elf code") simp_all
qed

text \<open>What a machine can panic on.\<close>

definition panic_cause :: "contract_type \<Rightarrow> bytes \<Rightarrow> bytes \<Rightarrow> execution_context \<Rightarrow> bool" where
  "panic_cause t code input ctx \<longleftrightarrow>
     (case t of
        AVM \<Rightarrow> (\<exists>op\<in>set code. op \<in> {0x21, 0x22, 0x23})
      | SBF \<Rightarrow> (\<exists>vm. sbf_new code ctx = Ok vm \<and> (\<exists>i\<in>set (sv_instructions vm). \<not> plain_instruction i))
      | KaspaContract \<Rightarrow> 0x7f \<in> set code \<union> set input
      | PactContract \<Rightarrow> True
      | Native \<Rightarrow> False)"

lemma run_contract_total:
  assumes "t \<noteq> Native" and "ec_gas_limit ctx \<noteq> - 1"
  shows "\<exists>r. run_contract X t code input ctx = Some r
    \<and> (r = Panic \<and> panic_cause t code input ctx \<or> (\<exists>v. r = Ok v \<and> vr_gas_used v \<le> ec_gas_limit ctx))"
proof (cases t)
  case SBF
  show ?thesis
  proof (cases "sbf_new code ctx")
    case (Ok vm)
    with sbf_execute_total [OF Ok assms(2)] SBF show ?thesis
      by (auto simp: run_contract_def execute_sbf_def panic_cause_def)
  qed (use SBF sbf_new_no_panic in \<open>simp_all add: run_contract_def execute_sbf_def\<close>)
next
  case AVM
  with avm_execute_total [OF assms(2), of "vx_avm X" code] show ?thesis
    by (auto simp: run_contract_def execute_avm_def panic_cause_def)
next
  case KaspaContract
  with kaspa_execute_total [of "vx_kaspa X" code input ctx] show ?thesis
    by (auto simp: run_contract_def execute_kaspa_def panic_cause_def)
next
  case PactContract
  with pact_execute_total [of "vx_pact X" code input ctx] show ?thesis
    by (auto simp: run_contract_def execute_pact_def panic_cause_def)
qed (use assms in simp_all)

lemma from_bytecode_not_native: "from_bytecode code \<noteq> Some Native"
  by (simp add: from_bytecode_def)

lemma run_contract_result:
  assumes "from_bytecode code = Some t" and "ec_gas_limit ctx \<noteq> - 1"
  obtains r where "run_contract X t code input ctx = Some r"
    and "r = Panic \<and> panic_cause t code input ctx \<or> (\<exists>v. r = Ok v \<and> vr_gas_used v \<le> ec_gas_limit ctx)"
  using run_contract_total [OF _ assms(2)] assms(1) from_bytecode_not_native by metis

lemma deploy_context: "ec_gas_limit (context_new creator addr v gas_limit) = gas_limit"
  by (simp add: context_new_def)

lemma execute_detected: "from_bytecode code = Some t \<Longrightarrow> \<not> ec_depth ctx > ex_max_depth ex \<Longrightarrow>
    executor_execute X ex code input ctx = map_option (map_outcome (\<lambda>v. execution_of v None)) (run_contract X t code input ctx)"
  using from_bytecode_not_native [of code] by (cases t) (simp_all add: executor_execute_def)

lemma deploy_detected: "from_bytecode code = Some t \<Longrightarrow>
    executor_deploy X ex code creator n v gas_limit =
      map_option (map_outcome (\<lambda>r. execution_of r (if vr_success r then Some (contract_address (vx_sha3 X) creator n) else None)))
        (run_contract X t code [] (context_new creator (contract_address (vx_sha3 X) creator n) v gas_limit))"
  using from_bytecode_not_native [of code] by (cases t) (simp_all add: executor_deploy_def Let_def)

lemma execute_gas:
  assumes "executor_execute X ex code input ctx = Some (Ok e)" and "ec_gas_limit ctx \<noteq> - 1"
  shows "er_gas_used e \<le> ec_gas_limit ctx"
proof (cases "from_bytecode code = None \<or> ec_depth ctx > ex_max_depth ex")
  case True
  then show ?thesis using assms(1) by (auto simp: executor_execute_def execution_error_def split: if_splits)
next
  case False
  then obtain t where t: "from_bytecode code = Some t" "\<not> ec_depth ctx > ex_max_depth ex" by auto
  obtain r where "run_contract X t code input ctx = Some r"
    "r = Panic \<and> panic_cause t code input ctx \<or> (\<exists>v. r = Ok v \<and> vr_gas_used v \<le> ec_gas_limit ctx)"
    by (rule run_contract_result [OF t(1) assms(2)])
  with assms(1) show ?thesis by (auto simp: execute_detected [OF t] execution_of_def)
qed

text \<open>The buffer: between nothing and as much again.\<close>

lemma with_buffer_bounds:
  assumes "unat g < 2 ^ 52"
  shows "unat g \<le> unat (with_buffer g)" "unat (with_buffer g) \<le> 2 * unat g"
proof -
  let ?n = "unat g"
  have "?n < 2 ^ 53" using assms by simp
  then have "f64_of_nat ?n * f64_1_1 = ?n * (2 ^ 128 * (4953959590107546 * 2 ^ 76))"
    by (simp add: f64_of_nat_def round53_small f64_one_def f64_1_1_def)
  then have prod: "?n * 2 ^ 256 \<le> f64_of_nat ?n * f64_1_1" "f64_of_nat ?n * f64_1_1 \<le> (2 * ?n) * 2 ^ 256" by simp_all
  have exact: "round53 (?n * 2 ^ 256) False = ?n * 2 ^ 256" "round53 ((2 * ?n) * 2 ^ 256) False = (2 * ?n) * 2 ^ 256"
    by (rule round53_exact; use assms in simp)+
  let ?r = "round53 (f64_of_nat ?n * f64_1_1) False"
  have r: "?n * 2 ^ 256 \<le> ?r" "?r \<le> (2 * ?n) * 2 ^ 256"
    using round53_mono [OF prod(1)] round53_mono [OF prod(2)] by (simp_all only: exact)
  define q where "q = ?r div 2 ^ 128 div 2 ^ 128"
  have q: "?n \<le> q" "q \<le> 2 * ?n"
  proof -
    have d: "q = ?r div 2 ^ 256" unfolding q_def by (simp add: div_mult2_eq [symmetric] flip: power_add)
    show "?n \<le> q" using div_le_mono [OF r(1), of "2 ^ 256"] by (simp add: d)
    show "q \<le> 2 * ?n" using div_le_mono [OF r(2), of "2 ^ 256"] by (simp add: d)
  qed
  with assms have "q < 2 ^ 64" by simp
  then have "unat (with_buffer g) = q"
    by (simp add: with_buffer_def f64_to_u64_def f64_mul_def f64_one_def q_def unat_of_nat)
  with q show "unat g \<le> unat (with_buffer g)" "unat (with_buffer g) \<le> 2 * unat g" by simp_all
qed

subsection \<open>Properties\<close>

text \<open>C16: A contract call returns within its gas. For every contract of any of the four machines, every input
  and every gas limit other than the largest 64-bit number, the executor returns: it reports at most the limit as used and no
  contract address, unless the machine panics, and the panics are located: in the AVM the code contains one of the
  opcodes 0x21 to 0x23, in the SBF machine the program that was loaded has an instruction that names a
  missing register, accesses memory or calls the log function, in the Kaspa machine
  the code or the input contains the substring opcode 0x7f; for a Pact program no cause is given. A deployment, which runs
  the code on an empty input, returns likewise and panics for the same causes only, with the address derived from creator
  and nonce exactly when the constructor succeeds.\<close>

theorem executor_returns_within_gas:
  assumes "ec_gas_limit ctx \<noteq> - 1" and "gas_limit \<noteq> - 1"
  shows "(\<exists>r. executor_execute X ex code input ctx = Some r
        \<and> (r = Panic \<and> (\<exists>t. from_bytecode code = Some t \<and> panic_cause t code input ctx)
           \<or> (\<exists>e. r = Ok e \<and> er_gas_used e \<le> ec_gas_limit ctx \<and> er_contract_address e = None)))
    \<and> (\<exists>r. executor_deploy X ex code creator n v gas_limit = Some r
        \<and> (r = Panic \<and> (\<exists>t. from_bytecode code = Some t
               \<and> panic_cause t code [] (context_new creator (contract_address (vx_sha3 X) creator n) v gas_limit))
           \<or> (\<exists>e. r = Ok e \<and> er_gas_used e \<le> gas_limit
             \<and> er_contract_address e = (if er_success e then Some (contract_address (vx_sha3 X) creator n) else None))))"
proof (cases "from_bytecode code")
  case None
  then show ?thesis by (simp add: executor_execute_def executor_deploy_def execution_error_def)
next
  case (Some t)
  let ?addr = "contract_address (vx_sha3 X) creator n"
  obtain r where r: "run_contract X t code input ctx = Some r"
    "r = Panic \<and> panic_cause t code input ctx \<or> (\<exists>v. r = Ok v \<and> vr_gas_used v \<le> ec_gas_limit ctx)"
    by (rule run_contract_result [OF Some assms(1)])
  obtain d where d: "run_contract X t code [] (context_new creator ?addr v gas_limit) = Some d"
    "d = Panic \<and> panic_cause t code [] (context_new creator ?addr v gas_limit) \<or> (\<exists>v. d = Ok v \<and> vr_gas_used v \<le> gas_limit)"
    by (rule run_contract_result [OF Some, of "context_new creator ?addr v gas_limit", unfolded deploy_context, OF assms(2)])
  have "\<exists>d'. executor_deploy X ex code creator n v gas_limit = Some d'
      \<and> (d' = Panic \<and> (\<exists>t. from_bytecode code = Some t \<and> panic_cause t code [] (context_new creator ?addr v gas_limit))
         \<or> (\<exists>e. d' = Ok e \<and> er_gas_used e \<le> gas_limit
           \<and> er_contract_address e = (if er_success e then Some ?addr else None)))"
    using d Some by (auto simp: deploy_detected [OF Some] execution_of_def)
  moreover have "\<exists>r. executor_execute X ex code input ctx = Some r
      \<and> (r = Panic \<and> (\<exists>t. from_bytecode code = Some t \<and> panic_cause t code input ctx)
         \<or> (\<exists>e. r = Ok e \<and> er_gas_used e \<le> ec_gas_limit ctx \<and> er_contract_address e = None))"
  proof (cases "ec_depth ctx > ex_max_depth ex")
    case True
    then show ?thesis by (simp add: executor_execute_def execution_error_def)
  next
    case False
    with r Some show ?thesis by (auto simp: execute_detected execution_of_def)
  qed
  ultimately show ?thesis by blast
qed

definition sample_vm_libs :: vm_libs where
  "sample_vm_libs = \<lparr>vx_avm = \<lparr>al_sha256 = (\<lambda>d. take 32 (d @ replicate 32 0)), al_sha3_256 = (\<lambda>d. take 32 (d @ replicate 32 0))\<rparr>,
     vx_kaspa = \<lparr>kl_sha256 = (\<lambda>d. take 32 (d @ replicate 32 0)), kl_sha3_256 = (\<lambda>d. take 32 (d @ replicate 32 0))\<rparr>,
     vx_pact = \<lparr>px_sha3 = id, px_hex = map (\<lambda>b. char_of (unat b)), px_debug = type_name, px_utf8_error = (\<lambda>_. []), px_sort = Some\<rparr>,
     vx_sha3 = (\<lambda>d. take 32 (d @ replicate 32 0))\<rparr>"

theorem executor_returns_within_gas_witness:
  "\<exists>e. executor_execute sample_vm_libs executor_new [6, 0x20, 1, 1] [] (context_new address_zero address_zero 0 1000) = Some (Ok e)
     \<and> er_gas_used e \<le> 1000"
  using executor_returns_within_gas [of "context_new address_zero address_zero 0 1000" 1000 sample_vm_libs
      executor_new "[6, 0x20, 1, 1]" "[]" address_zero 0 0]
  by (auto simp: from_bytecode_def context_new_def panic_cause_def)

text \<open>C22: A gas estimate covers the run it was made from. When the call with the limit of the estimate, 100 million,
  returns, the estimate is at least the gas that call used and at most twice as much.\<close>

theorem executor_estimate_covers:
  assumes "executor_execute X ex code input (ctx\<lparr>ec_gas_limit := 100000000\<rparr>) = Some (Ok e)"
  shows "\<exists>g. executor_estimate_gas X ex code input ctx = Some (Ok g) \<and> er_gas_used e \<le> g \<and> unat g \<le> 2 * unat (er_gas_used e)"
proof -
  have "er_gas_used e \<le> 100000000" using execute_gas [OF assms] by simp
  then have "unat (er_gas_used e) < 2 ^ 52" by (simp add: word_le_nat_alt)
  note bounds = with_buffer_bounds [OF this]
  have "executor_estimate_gas X ex code input ctx = Some (Ok (with_buffer (er_gas_used e)))"
    by (simp add: executor_estimate_gas_def assms)
  with bounds show ?thesis by (simp add: word_le_nat_alt)
qed

theorem executor_estimate_covers_witness:
  "\<exists>e g. executor_execute sample_vm_libs executor_new [6, 0x20, 1, 1] [] ((context_new address_zero address_zero 0 1000)\<lparr>ec_gas_limit := 100000000\<rparr>)
      = Some (Ok e)
     \<and> executor_estimate_gas sample_vm_libs executor_new [6, 0x20, 1, 1] [] (context_new address_zero address_zero 0 1000) = Some (Ok g)
     \<and> er_gas_used e \<le> g"
proof -
  let ?code = "[6, 0x20, 1, 1]" and ?ctx = "(context_new address_zero address_zero 0 1000)\<lparr>ec_gas_limit := 100000000\<rparr>"
  have avm: "from_bytecode ?code = Some AVM" by (simp add: from_bytecode_def)
  obtain r where r: "run_contract sample_vm_libs AVM ?code [] ?ctx = Some r"
    "r = Panic \<and> panic_cause AVM ?code [] ?ctx \<or> (\<exists>v. r = Ok v \<and> vr_gas_used v \<le> ec_gas_limit ?ctx)"
    by (rule run_contract_result [OF avm, of ?ctx]) simp_all
  then obtain v where v: "r = Ok v" by (auto simp: panic_cause_def)
  have run: "executor_execute sample_vm_libs executor_new ?code [] ?ctx = Some (Ok (execution_of v None))"
    using execute_detected [OF avm, where ctx = ?ctx and ex = executor_new and X = sample_vm_libs and input = "[]"] r(1) v
    by (simp add: context_new_def executor_new_def)
  from executor_estimate_covers [OF run] run show ?thesis by blast
qed

text \<open>The signature precompile accepts everything. The native contract at address 5 answers 1, for valid, on any
  input of at least 32 bytes, whatever the key and the signature in it are; the other four compute their function when
  the gas suffices. No native contract reports more gas than the limit, and exactly the addresses 1 to 5 are native.\<close>

theorem native_contracts_compute:
  assumes "32 \<le> length input" and "precompile_gas_cost p input \<le> gas_limit"
  shows "precompile_execute H p input gas_limit = precompile_success (precompile_gas_cost p input)
      (case p of Sha3Precompile \<Rightarrow> hl_sha3_256 H input | Keccak256Precompile \<Rightarrow> hl_keccak256 H input
         | Blake3Precompile \<Rightarrow> hl_blake3 H input | IdentityPrecompile \<Rightarrow> input | DilithiumVerifyPrecompile \<Rightarrow> [1])
    \<and> (3000 \<le> gas_limit \<longrightarrow>
        registry_execute H (address_from_u8 5) input gas_limit standard_precompiles = Some (precompile_success 3000 [1]))
    \<and> pr_gas_used (precompile_execute H q other gas_limit) \<le> gas_limit
    \<and> (is_precompile a standard_precompiles \<longleftrightarrow> a \<in> address_from_u8 ` {1, 2, 3, 4, 5})"
proof (intro conjI)
  show "precompile_execute H p input gas_limit = precompile_success (precompile_gas_cost p input)
      (case p of Sha3Precompile \<Rightarrow> hl_sha3_256 H input | Keccak256Precompile \<Rightarrow> hl_keccak256 H input
         | Blake3Precompile \<Rightarrow> hl_blake3 H input | IdentityPrecompile \<Rightarrow> input | DilithiumVerifyPrecompile \<Rightarrow> [1])"
    using assms by (cases p) (simp_all add: precompile_execute_def Let_def not_less)
  show "3000 \<le> gas_limit \<longrightarrow>
      registry_execute H (address_from_u8 5) input gas_limit standard_precompiles = Some (precompile_success 3000 [1])"
    using assms(1) by (simp add: registry_execute_def standard_precompiles_def register_precompile_def
        map_of_update_apply address_from_u8_def precompile_execute_def not_less)
  show "pr_gas_used (precompile_execute H q other gas_limit) \<le> gas_limit"
    by (cases q) (simp_all add: precompile_execute_def Let_def not_less precompile_success_def precompile_failure_def)
  show "is_precompile a standard_precompiles \<longleftrightarrow> a \<in> address_from_u8 ` {1, 2, 3, 4, 5}"
    by (auto simp: is_precompile_def standard_precompiles_def register_precompile_def map_of_update_apply)
qed

theorem native_contracts_compute_witness:
  "registry_execute sample_hash_lib (address_from_u8 5) (replicate 32 0) 5000 standard_precompiles = Some (precompile_success 3000 [1])"
  using native_contracts_compute [of "replicate 32 0" DilithiumVerifyPrecompile 5000 sample_hash_lib] by simp

end
