(* ===== verification/Fry_Index.thy ===== *)
theory Fry_Index
  imports Fry_Maps
begin

text \<open>
  Secondary indexes. The device registry and the data marketplace keep, beside the map
  of their entries, maps from a group (an owner, a type, a category) to the keys of its entries.
  An index is correct for a map and a grouping when every group lists exactly its keys, each once. The lemmas
  say how insertion, removal and a change of an entry keep it correct.
\<close>

text \<open>\<open>get(g).unwrap_or_default()\<close>, \<open>entry(g).or_default().push(k)\<close> and
  \<open>if let Some(ks) = get_mut(g) { ks.retain(|d| d != k) }\<close>.\<close>

definition index_get :: "('g \<times> 'a list) list \<Rightarrow> 'g \<Rightarrow> 'a list" where
  "index_get idx g = (case map_of idx g of None \<Rightarrow> [] | Some ks \<Rightarrow> ks)"

definition index_push :: "'g \<Rightarrow> 'a \<Rightarrow> ('g \<times> 'a list) list \<Rightarrow> ('g \<times> 'a list) list" where
  "index_push g k idx = AList.update g (index_get idx g @ [k]) idx"

definition index_retain :: "'g \<Rightarrow> 'a \<Rightarrow> ('g \<times> 'a list) list \<Rightarrow> ('g \<times> 'a list) list" where
  "index_retain g k idx =
     (case map_of idx g of None \<Rightarrow> idx | Some ks \<Rightarrow> AList.update g (filter (\<lambda>d. d \<noteq> k) ks) idx)"

text \<open>\<open>ids.iter().filter_map(|id| map.get(id)).collect()\<close>.\<close>

fun lookup_all :: "('k \<times> 'v) list \<Rightarrow> 'k list \<Rightarrow> 'v list" where
  "lookup_all al [] = []"
| "lookup_all al (k # ks) = (case map_of al k of None \<Rightarrow> lookup_all al ks | Some v \<Rightarrow> v # lookup_all al ks)"

lemma index_get_push: "index_get (index_push g k idx) g' = (if g' = g then index_get idx g @ [k] else index_get idx g')"
  by (simp add: index_push_def index_get_def map_of_update_apply)

lemma index_get_retain:
  "index_get (index_retain g k idx) g' = (if g' = g then filter (\<lambda>d. d \<noteq> k) (index_get idx g) else index_get idx g')"
  by (simp add: index_retain_def index_get_def map_of_update_apply split: option.splits)

lemma index_get_empty [simp]: "index_get [] g = []"
  by (simp add: index_get_def)

definition members :: "('v \<Rightarrow> 'g) \<Rightarrow> ('k \<times> 'v) list \<Rightarrow> 'g \<Rightarrow> 'k set" where
  "members grp al g = {k. \<exists>v. map_of al k = Some v \<and> grp v = g}"

definition index_ok :: "('v \<Rightarrow> 'g) \<Rightarrow> ('k \<times> 'v) list \<Rightarrow> ('g \<times> 'k list) list \<Rightarrow> bool" where
  "index_ok grp al idx \<longleftrightarrow> (\<forall>g. distinct (index_get idx g) \<and> set (index_get idx g) = members grp al g)"

lemma index_ok_empty [simp]: "index_ok grp [] []"
  by (simp add: index_ok_def members_def)

lemma index_ok_insert:
  assumes "index_ok grp al idx" and "map_of al k = None"
  shows "index_ok grp (AList.update k v al) (index_push (grp v) k idx)"
proof -
  have "k \<notin> set (index_get idx (grp v))" using assms by (auto simp: index_ok_def members_def)
  moreover have "members grp (AList.update k v al) g = (if g = grp v then insert k (members grp al g) else members grp al g)" for g
    using assms(2) by (auto simp: members_def map_of_update_apply)
  ultimately show ?thesis using assms(1) by (auto simp: index_ok_def index_get_push)
qed

lemma index_ok_change:
  assumes "index_ok grp al idx" and "map_of al k = Some v" and "grp v' = grp v"
  shows "index_ok grp (AList.update k v' al) idx"
proof -
  have "members grp (AList.update k v' al) g = members grp al g" for g
    using assms(2,3) by (auto simp: members_def map_of_update_apply)
  with assms(1) show ?thesis by (simp add: index_ok_def)
qed

lemma index_ok_remove:
  assumes "index_ok grp al idx" and "map_of al k = Some v"
  shows "index_ok grp (AList.delete k al) (index_retain (grp v) k idx)"
proof -
  have "members grp (AList.delete k al) g = (if g = grp v then members grp al g - {k} else members grp al g)" for g
    using assms(2) by (auto simp: members_def map_of_delete_apply)
  with assms(1) show ?thesis by (auto simp: index_ok_def index_get_retain)
qed

lemma set_lookup_all: "set (lookup_all al ks) = {v. \<exists>k\<in>set ks. map_of al k = Some v}"
  by (induction ks) (auto split: option.splits)

text \<open>A query through a correct index gives exactly the entries of the group.\<close>

lemma index_query: "index_ok grp al idx \<Longrightarrow> set (lookup_all al (index_get idx g)) = {v. (\<exists>k. map_of al k = Some v) \<and> grp v = g}"
  by (auto simp: set_lookup_all index_ok_def members_def)

text \<open>A sum over the values of a map, in a type where sums can be taken back.\<close>

definition value_sum :: "('v \<Rightarrow> 'a :: ab_group_add) \<Rightarrow> ('k \<times> 'v) list \<Rightarrow> 'a" where
  "value_sum f al = sum_list (map (\<lambda>(k, v). f v) al)"

lemma value_sum_update:
  assumes "distinct (map fst al)"
  shows "value_sum f (AList.update k v al) = value_sum f al - (case map_of al k of None \<Rightarrow> 0 | Some w \<Rightarrow> f w) + f v"
  using assms
proof (induction al)
  case (Cons p al)
  show ?case
  proof (cases "fst p = k")
    case True
    then show ?thesis by (cases p) (simp add: value_sum_def)
  next
    case False
    with Cons show ?thesis by (cases p) (simp add: value_sum_def algebra_simps)
  qed
qed (simp add: value_sum_def)

end
