(* ===== verification/Fry_Devices.thy ===== *)
theory Fry_Devices
  imports Fry_Address Fry_Index Fry_Text
begin

text \<open>
  \<open>frychain-depin/src/did.rs\<close>, \<open>registry.rs\<close> and the errors of \<open>lib.rs\<close>: device
  identities, their documents and the registry of devices. The clock is an argument \<open>now\<close>; base 58, SHA3 and the
  JSON form of a document are parameters. The lemmas: identities survive their string form, the
  registry and its two indexes stay consistent under every operation, and what an owner may do.
\<close>

datatype depin_error =
    DeviceNotFound string
  | DeviceAlreadyRegistered string
  | InvalidDeviceSignature
  | DeviceSuspended string
  | InvalidDIDDocument string
  | Unauthorized
  | InvalidDataListing string
  | DePINStorageError string

fun depin_error_text :: "depin_error \<Rightarrow> string" where
  "depin_error_text (DeviceNotFound s) = ''Device not found: '' @ s"
| "depin_error_text (DeviceAlreadyRegistered s) = ''Device already registered: '' @ s"
| "depin_error_text InvalidDeviceSignature = ''Invalid device signature''"
| "depin_error_text (DeviceSuspended s) = ''Device suspended: '' @ s"
| "depin_error_text (InvalidDIDDocument s) = ''Invalid DID document: '' @ s"
| "depin_error_text Unauthorized = ''Unauthorized operation''"
| "depin_error_text (InvalidDataListing s) = ''Invalid data listing: '' @ s"
| "depin_error_text (DePINStorageError s) = ''Storage error: '' @ s"

subsection \<open>Identities and documents\<close>

record device_did =
  dd_did :: string
  dd_address :: address

definition did_prefix :: string where
  "did_prefix = ''did:fry:''"

definition did_new :: "base58_codec \<Rightarrow> address \<Rightarrow> device_did" where
  "did_new b58 a = \<lparr>dd_did = did_prefix @ address_to_string b58 a, dd_address = a\<rparr>"

definition did_parse :: "base58_codec \<Rightarrow> string \<Rightarrow> (depin_error, device_did) outcome" where
  "did_parse b58 s =
     (if \<not> starts_with did_prefix s then Err (InvalidDIDDocument ''Invalid DID prefix'')
      else bindR (map_err (\<lambda>e. InvalidDIDDocument (core_error_text e)) (address_from_string b58 (drop 8 s))) (\<lambda>a.
        Ok \<lparr>dd_did = s, dd_address = a\<rparr>))"

record verification_method =
  ver_id :: string
  ver_controller :: string
  ver_method_type :: string
  ver_public_key_multibase :: string

record service_endpoint =
  svc_id :: string
  svc_service_type :: string
  svc_service_endpoint :: string
  svc_description :: "string option"

definition data_service :: "device_did \<Rightarrow> string \<Rightarrow> service_endpoint" where
  "data_service did endpoint = \<lparr>svc_id = dd_did did @ ''#data-service'', svc_service_type = ''DataService'',
     svc_service_endpoint = endpoint, svc_description = Some ''Device data streaming endpoint''\<rparr>"

definition m2m_messaging :: "device_did \<Rightarrow> string \<Rightarrow> service_endpoint" where
  "m2m_messaging did endpoint = \<lparr>svc_id = dd_did did @ ''#m2m-messaging'', svc_service_type = ''M2MMessaging'',
     svc_service_endpoint = endpoint, svc_description = Some ''Machine-to-machine messaging''\<rparr>"

record device_attribute =
  att_name :: string
  att_value :: string
  att_type :: string
  att_public :: bool

text \<open>\<open>DeviceAttribute::device_type\<close>, \<open>manufacturer\<close>, \<open>model\<close> and \<open>firmware_version\<close> share this form.\<close>

definition string_attribute :: "string \<Rightarrow> string \<Rightarrow> device_attribute" where
  "string_attribute name v = \<lparr>att_name = name, att_value = v, att_type = ''string'', att_public = True\<rparr>"

definition device_type_attribute :: "string \<Rightarrow> device_attribute" where
  "device_type_attribute v = string_attribute ''deviceType'' v"

definition manufacturer_attribute :: "string \<Rightarrow> device_attribute" where
  "manufacturer_attribute v = string_attribute ''manufacturer'' v"

definition model_attribute :: "string \<Rightarrow> device_attribute" where
  "model_attribute v = string_attribute ''model'' v"

definition firmware_version_attribute :: "string \<Rightarrow> device_attribute" where
  "firmware_version_attribute v = string_attribute ''firmwareVersion'' v"

record did_document =
  doc_id :: device_did
  doc_verification_method :: "verification_method list"
  doc_authentication :: "string list"
  doc_service :: "service_endpoint list"
  doc_attributes :: "device_attribute list"
  doc_created :: u64
  doc_updated :: u64
  doc_version :: u32

definition document_new :: "base58_codec \<Rightarrow> device_did \<Rightarrow> bytes \<Rightarrow> u64 \<Rightarrow> did_document" where
  "document_new b58 did public_key now =
     (let ver = dd_did did @ ''#keys-1''
      in \<lparr>doc_id = did,
          doc_verification_method = [\<lparr>ver_id = ver, ver_controller = dd_did did,
             ver_method_type = ''Dilithium2VerificationKey2024'',
             ver_public_key_multibase = ''z'' @ b58_encode b58 public_key\<rparr>],
          doc_authentication = [ver], doc_service = [], doc_attributes = [], doc_created = now,
          doc_updated = 0, doc_version = 1\<rparr>)"

definition document_touch :: "u64 \<Rightarrow> did_document \<Rightarrow> did_document" where
  "document_touch now d = d\<lparr>doc_updated := now, doc_version := doc_version d + 1\<rparr>"

definition add_service :: "service_endpoint \<Rightarrow> u64 \<Rightarrow> did_document \<Rightarrow> did_document" where
  "add_service s now d = document_touch now (d\<lparr>doc_service := doc_service d @ [s]\<rparr>)"

definition add_attribute :: "device_attribute \<Rightarrow> u64 \<Rightarrow> did_document \<Rightarrow> did_document" where
  "add_attribute a now d = document_touch now (d\<lparr>doc_attributes := doc_attributes d @ [a]\<rparr>)"

text \<open>The hash of the JSON form; \<open>json\<close> stands for \<open>serde_json::to_vec\<close> with its fallback to the empty vector.\<close>

record depin_lib =
  dl_sha3 :: hash_fn
  dl_json :: "did_document \<Rightarrow> bytes"

definition document_hash :: "depin_lib \<Rightarrow> did_document \<Rightarrow> hash256" where
  "document_hash D d = dl_sha3 D (dl_json D d)"

definition document_validate :: "did_document \<Rightarrow> (depin_error, unit) outcome" where
  "document_validate d =
     (if doc_verification_method d = [] then Err (InvalidDIDDocument ''No verification method'')
      else if doc_authentication d = [] then Err (InvalidDIDDocument ''No authentication method'')
      else Ok ())"

subsection \<open>Devices\<close>

datatype device_status = DevActive | DevSuspended | DevDeactivated | DevPending

record device_info =
  di_did :: device_did
  di_owner :: address
  di_did_doc_hash :: hash256
  di_status :: device_status
  di_device_type :: string
  di_registered_at :: u64
  di_last_seen :: u64
  di_reputation :: u32
  di_data_contributions :: u64
  di_total_earnings :: u128

definition device_new :: "device_did \<Rightarrow> address \<Rightarrow> hash256 \<Rightarrow> string \<Rightarrow> u64 \<Rightarrow> device_info" where
  "device_new did owner did_doc_hash device_type now =
     \<lparr>di_did = did, di_owner = owner, di_did_doc_hash = did_doc_hash, di_status = DevPending,
      di_device_type = device_type, di_registered_at = now, di_last_seen = now, di_reputation = 500,
      di_data_contributions = 0, di_total_earnings = 0\<rparr>"

definition device_touch :: "u64 \<Rightarrow> device_info \<Rightarrow> device_info" where
  "device_touch now i = i\<lparr>di_last_seen := now\<rparr>"

definition device_activate :: "device_info \<Rightarrow> device_info" where
  "device_activate i = i\<lparr>di_status := DevActive\<rparr>"

definition device_suspend :: "device_info \<Rightarrow> device_info" where
  "device_suspend i = i\<lparr>di_status := DevSuspended\<rparr>"

definition device_deactivate :: "device_info \<Rightarrow> device_info" where
  "device_deactivate i = i\<lparr>di_status := DevDeactivated\<rparr>"

text \<open>The sum is of type \<open>i32\<close> and wraps; \<open>clamp(0, 1000)\<close> compares it as a signed number.\<close>

definition clamp_reputation :: "i32 \<Rightarrow> u32" where
  "clamp_reputation w = (if w <s 0 then 0 else if 1000 <s w then 1000 else w)"

definition update_reputation :: "i32 \<Rightarrow> device_info \<Rightarrow> device_info" where
  "update_reputation delta i = i\<lparr>di_reputation := clamp_reputation (di_reputation i + delta)\<rparr>"

definition record_contribution :: "u128 \<Rightarrow> u64 \<Rightarrow> device_info \<Rightarrow> device_info" where
  "record_contribution earnings now i =
     device_touch now (update_reputation 1
       (i\<lparr>di_data_contributions := di_data_contributions i + 1, di_total_earnings := di_total_earnings i + earnings\<rparr>))"

subsection \<open>The registry\<close>

record device_registry =
  rg_devices :: "(string \<times> device_info) list"
  rg_did_documents :: "(string \<times> did_document) list"
  rg_devices_by_owner :: "(address \<times> string list) list"
  rg_devices_by_type :: "(string \<times> string list) list"

type_synonym 'a registry_prog = "(device_registry, depin_error, 'a) prog"

definition registry_new :: device_registry where
  "registry_new = \<lparr>rg_devices = [], rg_did_documents = [], rg_devices_by_owner = [], rg_devices_by_type = []\<rparr>"

definition register_device :: "depin_lib \<Rightarrow> address \<Rightarrow> did_document \<Rightarrow> string \<Rightarrow> u64 \<Rightarrow> device_info registry_prog" where
  "register_device D owner doc device_type now =
     thenM (lift_out (document_validate doc)) (\<lambda>r.
       let did_str = dd_did (doc_id doc) in
       if map_of (rg_devices r) did_str \<noteq> None then (Err (DeviceAlreadyRegistered did_str), r)
       else let info = device_new (doc_id doc) owner (document_hash D doc) device_type now
            in (Ok info, r\<lparr>rg_devices := AList.update did_str info (rg_devices r),
                  rg_did_documents := AList.update did_str doc (rg_did_documents r),
                  rg_devices_by_owner := index_push owner did_str (rg_devices_by_owner r),
                  rg_devices_by_type := index_push device_type did_str (rg_devices_by_type r)\<rparr>))"

definition get_device :: "string \<Rightarrow> device_registry \<Rightarrow> device_info option" where
  "get_device did r = map_of (rg_devices r) did"

text \<open>\<open>get_device_mut\<close>, used to run a method \<open>f\<close> of the device.\<close>

definition with_device :: "string \<Rightarrow> (device_info \<Rightarrow> device_info) \<Rightarrow> device_registry \<Rightarrow> device_registry" where
  "with_device did f r =
     (case map_of (rg_devices r) did of None \<Rightarrow> r
      | Some i \<Rightarrow> r\<lparr>rg_devices := AList.update did (f i) (rg_devices r)\<rparr>)"

definition get_did_document :: "string \<Rightarrow> device_registry \<Rightarrow> did_document option" where
  "get_did_document did r = map_of (rg_did_documents r) did"

definition get_devices_by_owner :: "address \<Rightarrow> device_registry \<Rightarrow> device_info list" where
  "get_devices_by_owner owner r = lookup_all (rg_devices r) (index_get (rg_devices_by_owner r) owner)"

definition get_devices_by_type :: "string \<Rightarrow> device_registry \<Rightarrow> device_info list" where
  "get_devices_by_type t r = lookup_all (rg_devices r) (index_get (rg_devices_by_type r) t)"

definition get_active_devices :: "device_registry \<Rightarrow> device_info list" where
  "get_active_devices r = filter (\<lambda>i. di_status i = DevActive) (map snd (rg_devices r))"

text \<open>The device, when it exists and belongs to the caller.\<close>

definition owned_device :: "string \<Rightarrow> address \<Rightarrow> device_info registry_prog" where
  "owned_device did caller = (\<lambda>r. case map_of (rg_devices r) did of
       None \<Rightarrow> (Err (DeviceNotFound did), r)
     | Some i \<Rightarrow> if di_owner i \<noteq> caller then (Err Unauthorized, r) else (Ok i, r))"

definition activate_device :: "string \<Rightarrow> address \<Rightarrow> unit registry_prog" where
  "activate_device did caller = thenM (owned_device did caller) (modify (with_device did device_activate))"

definition suspend_device :: "string \<Rightarrow> address \<Rightarrow> unit registry_prog" where
  "suspend_device did caller = thenM (owned_device did caller) (modify (with_device did device_suspend))"

definition deregister :: "string \<Rightarrow> address \<Rightarrow> unit registry_prog" where
  "deregister did caller = bindM (owned_device did caller) (\<lambda>i. modify (\<lambda>r.
     r\<lparr>rg_devices_by_owner := index_retain (di_owner i) did (rg_devices_by_owner r),
       rg_devices_by_type := index_retain (di_device_type i) did (rg_devices_by_type r),
       rg_devices := AList.delete did (rg_devices r),
       rg_did_documents := AList.delete did (rg_did_documents r)\<rparr>))"

definition update_did_document :: "depin_lib \<Rightarrow> string \<Rightarrow> did_document \<Rightarrow> address \<Rightarrow> unit registry_prog" where
  "update_did_document D did new_doc caller =
     thenM (lift_out (document_validate new_doc)) (thenM (owned_device did caller)
       (modify (\<lambda>r. (with_device did (\<lambda>i. i\<lparr>di_did_doc_hash := document_hash D new_doc\<rparr>) r)
          \<lparr>rg_did_documents := AList.update did new_doc (rg_did_documents r)\<rparr>)))"

definition device_count :: "device_registry \<Rightarrow> nat" where
  "device_count r = length (rg_devices r)"

definition active_device_count :: "device_registry \<Rightarrow> nat" where
  "active_device_count r = length (get_active_devices r)"

subsection \<open>Consistency\<close>

text \<open>One operation of a client: the methods of the registry, and the methods of a device through \<open>get_device_mut\<close>.\<close>

inductive registry_step :: "depin_lib \<Rightarrow> device_registry \<Rightarrow> device_registry \<Rightarrow> bool" for D where
  step_register: "registry_step D r (snd (register_device D owner doc t now r))"
| step_activate: "registry_step D r (snd (activate_device did caller r))"
| step_suspend: "registry_step D r (snd (suspend_device did caller r))"
| step_deregister: "registry_step D r (snd (deregister did caller r))"
| step_update_document: "registry_step D r (snd (update_did_document D did doc caller r))"
| step_method: "f \<in> {device_touch now, device_activate, device_suspend, device_deactivate, update_reputation delta,
     record_contribution earnings now} \<Longrightarrow> registry_step D r (with_device did f r)"

inductive registry_reachable :: "depin_lib \<Rightarrow> device_registry \<Rightarrow> bool" for D where
  reach_new: "registry_reachable D registry_new"
| reach_step: "registry_reachable D r \<Longrightarrow> registry_step D r r' \<Longrightarrow> registry_reachable D r'"

definition registry_ok :: "device_registry \<Rightarrow> bool" where
  "registry_ok r \<longleftrightarrow> distinct (map fst (rg_devices r))
     \<and> (\<forall>k. map_of (rg_devices r) k = None \<longleftrightarrow> map_of (rg_did_documents r) k = None)
     \<and> (\<forall>k i. map_of (rg_devices r) k = Some i \<longrightarrow> dd_did (di_did i) = k \<and> di_reputation i \<le> 1000)
     \<and> index_ok di_owner (rg_devices r) (rg_devices_by_owner r)
     \<and> index_ok di_device_type (rg_devices r) (rg_devices_by_type r)"

lemma clamp_reputation_bound: "clamp_reputation w \<le> 1000"
proof -
  have "w \<le> 1000" if "\<not> w <s 0" "\<not> 1000 <s w"
  proof -
    have s: "0 \<le> sint w" "sint w \<le> 1000" using that by (simp_all add: word_sless_alt)
    then have "uint w = sint w" by (simp add: uint_sint take_bit_int_eq_self)
    with s show ?thesis by (simp add: word_le_def)
  qed
  then show ?thesis by (simp add: clamp_reputation_def)
qed

text \<open>The maps are read through \<open>map_of\<close>, not as sets of pairs.\<close>

declare map_of_eq_Some_iff [simp del] Some_eq_map_of_iff [simp del]

lemma with_device_ok:
  assumes "registry_ok r" and "\<And>i. di_did (f i) = di_did i \<and> di_owner (f i) = di_owner i \<and> di_device_type (f i) = di_device_type i
     \<and> (di_reputation i \<le> 1000 \<longrightarrow> di_reputation (f i) \<le> 1000)"
  shows "registry_ok (with_device k f r)"
proof (cases "map_of (rg_devices r) k")
  case None
  with assms show ?thesis by (simp add: with_device_def)
next
  case (Some i)
  have "index_ok di_owner (AList.update k (f i) (rg_devices r)) (rg_devices_by_owner r)"
    "index_ok di_device_type (AList.update k (f i) (rg_devices r)) (rg_devices_by_type r)"
    using assms Some by (auto simp: registry_ok_def intro!: index_ok_change)
  moreover have "dd_did (di_did i) = k" "di_reputation i \<le> 1000" using assms(1) Some unfolding registry_ok_def by blast+
  moreover have "map_of (rg_did_documents r) k \<noteq> None"
    using assms(1) Some unfolding registry_ok_def by (metis option.distinct(1))
  ultimately show ?thesis using assms Some
    unfolding registry_ok_def by (auto simp: with_device_def map_of_update_apply distinct_update split: if_splits)
qed

lemma device_methods_ok:
  assumes "f \<in> {device_touch now, device_activate, device_suspend, device_deactivate, update_reputation delta,
     record_contribution earnings now}"
  shows "di_did (f i) = di_did i \<and> di_owner (f i) = di_owner i \<and> di_device_type (f i) = di_device_type i
     \<and> (di_reputation i \<le> 1000 \<longrightarrow> di_reputation (f i) \<le> 1000)"
  using assms clamp_reputation_bound
  by (auto simp: device_touch_def device_activate_def device_suspend_def device_deactivate_def update_reputation_def
      record_contribution_def)

text \<open>An operation that only goes on for the owner.\<close>

lemma owned_device_cases:
  "owned_device did caller r =
     (case map_of (rg_devices r) did of None \<Rightarrow> (Err (DeviceNotFound did), r)
      | Some i \<Rightarrow> if di_owner i = caller then (Ok i, r) else (Err Unauthorized, r))"
  by (simp add: owned_device_def split: option.splits)

lemma owner_operation_ok:
  assumes "registry_ok r" and "\<And>i. map_of (rg_devices r) did = Some i \<Longrightarrow> registry_ok (snd (m i r))"
  shows "registry_ok (snd (bindM (owned_device did caller) m r))"
  using assms by (auto simp: bindM_def owned_device_cases split: option.splits)

lemma register_ok: "registry_ok r \<Longrightarrow> registry_ok (snd (register_device D owner doc t now r))"
proof -
  assume ok: "registry_ok r"
  let ?k = "dd_did (doc_id doc)" let ?i = "device_new (doc_id doc) owner (document_hash D doc) t now"
  have "index_ok di_owner (AList.update ?k ?i (rg_devices r)) (index_push owner ?k (rg_devices_by_owner r))"
    "index_ok di_device_type (AList.update ?k ?i (rg_devices r)) (index_push t ?k (rg_devices_by_type r))"
    if "map_of (rg_devices r) ?k = None"
    using ok index_ok_insert [OF _ that, of di_owner _ ?i] index_ok_insert [OF _ that, of di_device_type _ ?i]
    by (simp_all add: registry_ok_def device_new_def)
  with ok show ?thesis
    by (cases "document_validate doc")
       (auto simp: register_device_def outcome_simps Let_def registry_ok_def map_of_update_apply distinct_update device_new_def)
qed

lemma deregister_ok: "registry_ok r \<Longrightarrow> registry_ok (snd (deregister did caller r))"
  unfolding deregister_def
proof (rule owner_operation_ok)
  fix i
  assume ok: "registry_ok r" and i: "map_of (rg_devices r) did = Some i"
  have "index_ok di_owner (AList.delete did (rg_devices r)) (index_retain (di_owner i) did (rg_devices_by_owner r))"
    "index_ok di_device_type (AList.delete did (rg_devices r)) (index_retain (di_device_type i) did (rg_devices_by_type r))"
    using ok index_ok_remove [OF _ i] by (auto simp: registry_ok_def)
  with ok show "registry_ok (snd (modify (\<lambda>r. r\<lparr>rg_devices_by_owner := index_retain (di_owner i) did (rg_devices_by_owner r),
       rg_devices_by_type := index_retain (di_device_type i) did (rg_devices_by_type r),
       rg_devices := AList.delete did (rg_devices r),
       rg_did_documents := AList.delete did (rg_did_documents r)\<rparr>) r))"
    by (auto simp: modify_def registry_ok_def map_of_delete_apply distinct_delete)
qed

lemma update_document_ok: "registry_ok r \<Longrightarrow> registry_ok (snd (update_did_document D did doc caller r))"
proof -
  assume ok: "registry_ok r"
  let ?f = "\<lambda>i. i\<lparr>di_did_doc_hash := document_hash D doc\<rparr>"
  have "registry_ok (snd (thenM (owned_device did caller)
       (modify (\<lambda>r. (with_device did ?f r)\<lparr>rg_did_documents := AList.update did doc (rg_did_documents r)\<rparr>)) r))"
    unfolding thenM_def
  proof (rule owner_operation_ok [OF ok])
    fix i
    assume i: "map_of (rg_devices r) did = Some i"
    have "registry_ok (with_device did ?f r)" by (rule with_device_ok [OF ok]) simp
    moreover have "map_of (rg_did_documents r) did \<noteq> None" using ok i unfolding registry_ok_def by (metis option.distinct(1))
    ultimately show "registry_ok (snd (modify (\<lambda>r. (with_device did ?f r)\<lparr>rg_did_documents := AList.update did doc (rg_did_documents r)\<rparr>) r))"
      using i by (auto simp: modify_def registry_ok_def with_device_def map_of_update_apply)
  qed
  with ok show ?thesis by (cases "document_validate doc") (simp_all add: update_did_document_def thenM_apply lift_out_def)
qed

lemma registry_step_ok: "registry_step D r r' \<Longrightarrow> registry_ok r \<Longrightarrow> registry_ok r'"
proof (induction rule: registry_step.induct)
  case (step_activate r did caller)
  then show ?case unfolding activate_device_def thenM_def
    by (intro owner_operation_ok) (auto simp: modify_def device_activate_def intro: with_device_ok)
next
  case (step_suspend r did caller)
  then show ?case unfolding suspend_device_def thenM_def
    by (intro owner_operation_ok) (auto simp: modify_def device_suspend_def intro: with_device_ok)
next
  case (step_method f now delta earnings r did)
  show ?case by (rule with_device_ok [OF step_method.prems device_methods_ok [OF step_method.hyps]])
qed (simp_all add: register_ok deregister_ok update_document_ok)

lemma registry_reachable_ok: "registry_reachable D r \<Longrightarrow> registry_ok r"
  by (induction rule: registry_reachable.induct) (auto simp: registry_ok_def registry_new_def dest: registry_step_ok)

subsection \<open>Properties\<close>

lemma starts_with_append [simp]: "starts_with p (p @ s)"
  by (simp add: starts_with_def)

text \<open>A device identity survives its string form. Parsing the string of the identity of any well-formed
  address gives the same identity; whatever is parsed keeps the text it was parsed from and has a well-formed
  address, and a text without the prefix is refused.\<close>

theorem did_roundtrip:
  assumes "b58_laws b58" and "wf_address a"
  shows "did_parse b58 (dd_did (did_new b58 a)) = Ok (did_new b58 a)
    \<and> (\<forall>s d. did_parse b58 s = Ok d \<longrightarrow> dd_did d = s \<and> wf_address (dd_address d) \<and> take 8 s = ''did:fry:'')"
proof -
  have "drop 8 (did_prefix @ address_to_string b58 a) = address_to_string b58 a" by (simp add: did_prefix_def)
  then have "did_parse b58 (dd_did (did_new b58 a)) = Ok (did_new b58 a)"
    by (simp add: did_parse_def did_new_def address_from_string_to_string [OF assms])
  moreover have "dd_did d = s \<and> wf_address (dd_address d) \<and> take 8 s = ''did:fry:''" if parsed: "did_parse b58 s = Ok d" for s d
  proof -
    have p: "starts_with did_prefix s" using parsed by (simp add: did_parse_def split: if_splits)
    obtain b where "map_err (\<lambda>e. InvalidDIDDocument (core_error_text e)) (address_from_string b58 (drop 8 s)) = Ok b"
      and d: "d = \<lparr>dd_did = s, dd_address = b\<rparr>"
      using parsed p by (auto simp: did_parse_def bindR_Ok_iff)
    then have "address_from_string b58 (drop 8 s) = Ok b" by (cases "address_from_string b58 (drop 8 s)") auto
    with d p show ?thesis by (auto simp: address_from_string_wf starts_with_def did_prefix_def numeral_eq_Suc)
  qed
  ultimately show ?thesis by blast
qed

theorem did_roundtrip_witness:
  "did_parse latin1_b58 (dd_did (did_new latin1_b58 address_zero)) = Ok (did_new latin1_b58 address_zero)"
  using did_roundtrip [of latin1_b58 address_zero]
  by (simp add: b58_laws_def latin1_b58_def wf_address_def address_zero_def str_bytes_char_of)

text \<open>C36: The device registry stays consistent. In every registry that a client can reach, devices and documents
  have the same keys, each device is stored under its own identity with a reputation of at most 1000, and the queries by owner and by type
  return exactly the devices of that owner or type.\<close>

theorem registry_stays_consistent:
  assumes "registry_reachable D r"
  shows "registry_ok r
    \<and> set (get_devices_by_owner owner r) = {i. (\<exists>k. get_device k r = Some i) \<and> di_owner i = owner}
    \<and> set (get_devices_by_type t r) = {i. (\<exists>k. get_device k r = Some i) \<and> di_device_type i = t}
    \<and> (\<forall>k. get_device k r = None \<longleftrightarrow> get_did_document k r = None)
    \<and> active_device_count r \<le> device_count r"
proof -
  have ok: "registry_ok r" by (rule registry_reachable_ok [OF assms])
  then have "index_ok di_owner (rg_devices r) (rg_devices_by_owner r)"
    "index_ok di_device_type (rg_devices r) (rg_devices_by_type r)"
    "\<forall>k. map_of (rg_devices r) k = None \<longleftrightarrow> map_of (rg_did_documents r) k = None"
    by (auto simp: registry_ok_def)
  moreover have "active_device_count r \<le> device_count r"
    unfolding active_device_count_def get_active_devices_def device_count_def
    using length_filter_le [of "\<lambda>i. di_status i = DevActive" "map snd (rg_devices r)"] by simp
  ultimately show ?thesis using ok
    by (simp add: get_devices_by_owner_def get_devices_by_type_def get_device_def get_did_document_def index_query)
qed

definition sample_depin_lib :: depin_lib where
  "sample_depin_lib = \<lparr>dl_sha3 = (\<lambda>d. take 32 (d @ replicate 32 0)), dl_json = (\<lambda>d. str_bytes (dd_did (doc_id d)))\<rparr>"

definition sample_document :: did_document where
  "sample_document = document_new latin1_b58 (did_new latin1_b58 address_zero) [1] 7"

theorem registry_stays_consistent_witness:
  "set (get_devices_by_type ''sensor'' (snd (register_device sample_depin_lib address_zero sample_document ''sensor'' 7 registry_new)))
     = {device_new (doc_id sample_document) address_zero (document_hash sample_depin_lib sample_document) ''sensor'' 7}"
proof -
  define r where "r = snd (register_device sample_depin_lib address_zero sample_document ''sensor'' 7 registry_new)"
  define k i where "k = dd_did (doc_id sample_document)"
    and "i = device_new (doc_id sample_document) address_zero (document_hash sample_depin_lib sample_document) ''sensor'' 7"
  have "registry_reachable sample_depin_lib r" unfolding r_def by (rule reach_step [OF reach_new step_register])
  from registry_stays_consistent [OF this, of address_zero "''sensor''"]
  have query: "set (get_devices_by_type ''sensor'' r) = {i. (\<exists>k. get_device k r = Some i) \<and> di_device_type i = ''sensor''}" by blast
  have "document_validate sample_document = Ok ()"
    by (simp add: sample_document_def document_new_def document_validate_def Let_def)
  then have "rg_devices r = [(k, i)]"
    by (simp add: r_def k_def i_def register_device_def outcome_simps Let_def registry_new_def)
  then have "get_device k' r = Some i' \<longleftrightarrow> k' = k \<and> i' = i" for k' i' by (auto simp: get_device_def)
  moreover have "di_device_type i = ''sensor''" by (simp add: i_def device_new_def)
  ultimately have "set (get_devices_by_type ''sensor'' r) = {i}" unfolding query by auto
  then show ?thesis by (simp only: r_def i_def)
qed

text \<open>Only the owner changes a device, and the owner can undo a suspension. For a registered device every
  operation by another address is refused and changes nothing, and for an unknown identity it reports so; the owner activates
  the device from any status, suspended or deactivated included, removes it completely, and may store a document
  that names another identity.\<close>

theorem owner_controls_device:
  assumes "get_device did r = Some i" and "document_validate doc = Ok ()"
  shows "(caller \<noteq> di_owner i \<longrightarrow> activate_device did caller r = (Err Unauthorized, r)
        \<and> suspend_device did caller r = (Err Unauthorized, r) \<and> deregister did caller r = (Err Unauthorized, r)
        \<and> update_did_document D did doc caller r = (Err Unauthorized, r))
    \<and> (\<exists>r'. activate_device did (di_owner i) r = (Ok (), r') \<and> get_device did r' = Some (i\<lparr>di_status := DevActive\<rparr>))
    \<and> (\<exists>r'. deregister did (di_owner i) r = (Ok (), r') \<and> get_device did r' = None \<and> get_did_document did r' = None)
    \<and> (\<exists>r'. update_did_document D did doc (di_owner i) r = (Ok (), r') \<and> get_did_document did r' = Some doc)
    \<and> (get_device other r = None \<longrightarrow> activate_device other caller r = (Err (DeviceNotFound other), r))"
proof -
  have i: "map_of (rg_devices r) did = Some i" using assms(1) by (simp add: get_device_def)
  have refused: "owned_device did caller r = (Err Unauthorized, r)" if "caller \<noteq> di_owner i"
    using that i by (simp add: owned_device_def)
  have owned: "owned_device did (di_owner i) r = (Ok i, r)" using i by (simp add: owned_device_def)
  have unknown: "owned_device other caller r = (Err (DeviceNotFound other), r)" if "get_device other r = None"
    using that by (simp add: owned_device_def get_device_def)
  show ?thesis
    using refused owned unknown assms(2) i
    by (simp add: activate_device_def suspend_device_def deregister_def update_did_document_def outcome_simps get_device_def
        get_did_document_def with_device_def device_activate_def map_of_update_apply map_of_delete_apply)
qed

theorem owner_controls_device_witness:
  "\<exists>r'. activate_device ''d'' address_zero (registry_new\<lparr>rg_devices := [(''d'',
       device_suspend (device_new \<lparr>dd_did = ''d'', dd_address = address_zero\<rparr> address_zero [] [] 0))]\<rparr>) = (Ok (), r')
     \<and> (\<exists>i. get_device ''d'' r' = Some i \<and> di_status i = DevActive)"
proof -
  let ?i = "device_suspend (device_new \<lparr>dd_did = ''d'', dd_address = address_zero\<rparr> address_zero [] [] 0)"
  have "get_device ''d'' (registry_new\<lparr>rg_devices := [(''d'', ?i)]\<rparr>) = Some ?i" by (simp add: get_device_def)
  moreover have "document_validate sample_document = Ok ()"
    by (simp add: sample_document_def document_new_def document_validate_def Let_def)
  ultimately obtain r' where r': "activate_device ''d'' (di_owner ?i) (registry_new\<lparr>rg_devices := [(''d'', ?i)]\<rparr>) = (Ok (), r')"
    "get_device ''d'' r' = Some (?i\<lparr>di_status := DevActive\<rparr>)"
    using owner_controls_device [of "''d''" "registry_new\<lparr>rg_devices := [(''d'', ?i)]\<rparr>" ?i sample_document address_zero sample_depin_lib "[]"]
    by blast
  have "di_owner ?i = address_zero" by (simp add: device_suspend_def device_new_def)
  with r' show ?thesis by auto
qed

end
