(* ===== verification/Fry_Market.thy ===== *)
theory Fry_Market
  imports Fry_Devices
begin

text \<open>
  \<open>frychain-depin/src/data.rs\<close>: the data marketplace. The clock and the random purchase id are
  arguments; the JSON schema of a listing is never inspected. The lemmas: the revenue of the listings is
  what the buyers paid and what was booked without a purchase, the indexes are consistent, when a purchase succeeds, and that a listing that is
  sold out can be opened again.
\<close>

datatype listing_status = ListingActive | ListingPaused | ListingCompleted | ListingCancelled

datatype data_category = Environmental | Location | Industrial | Traffic | Energy | Health | Agricultural | Custom string

text \<open>\<open>format!("{:?}", category)\<close>, with the escapes of a debug-printed string.\<close>

fun debug_char :: "char \<Rightarrow> string" where
  "debug_char c =
     (if c = CHR 0x22 then [CHR 0x5C, CHR 0x22]
      else if c = CHR 0x5C then [CHR 0x5C, CHR 0x5C]
      else if c = CHR 0x09 then [CHR 0x5C, CHR ''t'']
      else if c = CHR 0x0A then [CHR 0x5C, CHR ''n'']
      else if c = CHR 0x0D then [CHR 0x5C, CHR ''r'']
      else [c])"

fun category_key :: "data_category \<Rightarrow> string" where
  "category_key Environmental = ''Environmental''"
| "category_key Location = ''Location''"
| "category_key Industrial = ''Industrial''"
| "category_key Traffic = ''Traffic''"
| "category_key Energy = ''Energy''"
| "category_key Health = ''Health''"
| "category_key Agricultural = ''Agricultural''"
| "category_key (Custom s) = ''Custom('' @ [CHR 0x22] @ concat (map debug_char s) @ [CHR 0x22] @ '')''"

text \<open>\<open>serde_json::Value\<close>: null or the text of a value.\<close>

datatype json_value = JsonNull | JsonText string

record data_listing =
  li_id :: string
  li_provider :: device_did
  li_owner :: address
  li_category :: data_category
  li_title :: string
  li_description :: string
  li_price_per_unit :: u128
  li_unit_type :: string
  li_available_units :: u64
  li_min_purchase :: u64
  li_schema :: json_value
  li_sample_hash :: "hash256 option"
  li_status :: listing_status
  li_created_at :: u64
  li_updated_at :: u64
  li_total_sales :: u64
  li_total_revenue :: u128

definition listing_new :: "string \<Rightarrow> device_did \<Rightarrow> address \<Rightarrow> data_category \<Rightarrow> string \<Rightarrow> string \<Rightarrow> u128 \<Rightarrow> string \<Rightarrow> u64
    \<Rightarrow> data_listing" where
  "listing_new id_text provider owner category title description price_per_unit unit_type now =
     \<lparr>li_id = id_text, li_provider = provider, li_owner = owner, li_category = category, li_title = title,
      li_description = description, li_price_per_unit = price_per_unit, li_unit_type = unit_type,
      li_available_units = 0, li_min_purchase = 1, li_schema = JsonNull, li_sample_hash = None,
      li_status = ListingActive, li_created_at = now, li_updated_at = now, li_total_sales = 0, li_total_revenue = 0\<rparr>"

definition with_available_units :: "u64 \<Rightarrow> data_listing \<Rightarrow> data_listing" where
  "with_available_units units l = l\<lparr>li_available_units := units\<rparr>"

definition with_min_purchase :: "u64 \<Rightarrow> data_listing \<Rightarrow> data_listing" where
  "with_min_purchase n l = l\<lparr>li_min_purchase := n\<rparr>"

definition with_schema :: "json_value \<Rightarrow> data_listing \<Rightarrow> data_listing" where
  "with_schema schema l = l\<lparr>li_schema := schema\<rparr>"

definition calculate_cost :: "u64 \<Rightarrow> data_listing \<Rightarrow> u128" where
  "calculate_cost units l = li_price_per_unit l * ucast units"

definition record_sale :: "u64 \<Rightarrow> u64 \<Rightarrow> data_listing \<Rightarrow> data_listing" where
  "record_sale units now l =
     (let l1 = l\<lparr>li_total_sales := li_total_sales l + units,
                 li_total_revenue := li_total_revenue l + li_price_per_unit l * ucast units\<rparr>;
          l2 = (if li_available_units l1 > 0
                then let left = saturating_sub (li_available_units l1) units
                     in l1\<lparr>li_available_units := left, li_status := (if left = 0 then ListingCompleted else li_status l1)\<rparr>
                else l1)
      in l2\<lparr>li_updated_at := now\<rparr>)"

definition listing_pause :: "u64 \<Rightarrow> data_listing \<Rightarrow> data_listing" where
  "listing_pause now l = l\<lparr>li_status := ListingPaused, li_updated_at := now\<rparr>"

definition listing_resume :: "u64 \<Rightarrow> data_listing \<Rightarrow> data_listing" where
  "listing_resume now l = (if li_status l = ListingPaused then l\<lparr>li_status := ListingActive, li_updated_at := now\<rparr> else l)"

definition listing_cancel :: "u64 \<Rightarrow> data_listing \<Rightarrow> data_listing" where
  "listing_cancel now l = l\<lparr>li_status := ListingCancelled, li_updated_at := now\<rparr>"

record data_purchase =
  pu_id :: string
  pu_listing_id :: string
  pu_buyer :: address
  pu_units :: u64
  pu_price_paid :: u128
  pu_purchased_at :: u64
  pu_delivery_hash :: "hash256 option"
  pu_delivered :: bool

record data_marketplace =
  mk_listings :: "(string \<times> data_listing) list"
  mk_listings_by_category :: "(string \<times> string list) list"
  mk_listings_by_owner :: "(address \<times> string list) list"
  mk_purchases_by_buyer :: "(address \<times> data_purchase list) list"
  mk_next_id :: u64

type_synonym 'a market_prog = "(data_marketplace, depin_error, 'a) prog"

definition market_new :: data_marketplace where
  "market_new = \<lparr>mk_listings = [], mk_listings_by_category = [], mk_listings_by_owner = [], mk_purchases_by_buyer = [],
     mk_next_id = 0\<rparr>"

definition listing_id :: "u64 \<Rightarrow> string" where
  "listing_id n = ''listing-'' @ show_word n"

definition create_listing :: "data_listing \<Rightarrow> string market_prog" where
  "create_listing listing = (\<lambda>m.
     let new_id = listing_id (mk_next_id m); l = listing\<lparr>li_id := new_id\<rparr>
     in (Ok new_id, m\<lparr>mk_next_id := mk_next_id m + 1,
           mk_listings := AList.update new_id l (mk_listings m),
           mk_listings_by_category := index_push (category_key (li_category l)) new_id (mk_listings_by_category m),
           mk_listings_by_owner := index_push (li_owner l) new_id (mk_listings_by_owner m)\<rparr>))"

definition get_listing :: "string \<Rightarrow> data_marketplace \<Rightarrow> data_listing option" where
  "get_listing k m = map_of (mk_listings m) k"

text \<open>\<open>get_listing_mut\<close>, used to change the listing by \<open>f\<close>: one of its methods, or writes to its public fields.\<close>

definition with_listing :: "string \<Rightarrow> (data_listing \<Rightarrow> data_listing) \<Rightarrow> data_marketplace \<Rightarrow> data_marketplace" where
  "with_listing k f m =
     (case map_of (mk_listings m) k of None \<Rightarrow> m | Some l \<Rightarrow> m\<lparr>mk_listings := AList.update k (f l) (mk_listings m)\<rparr>)"

definition get_listings_by_category :: "data_category \<Rightarrow> data_marketplace \<Rightarrow> data_listing list" where
  "get_listings_by_category c m =
     filter (\<lambda>l. li_status l = ListingActive)
       (lookup_all (mk_listings m) (index_get (mk_listings_by_category m) (category_key c)))"

definition get_listings_by_owner :: "address \<Rightarrow> data_marketplace \<Rightarrow> data_listing list" where
  "get_listings_by_owner owner m = lookup_all (mk_listings m) (index_get (mk_listings_by_owner m) owner)"

definition get_active_listings :: "data_marketplace \<Rightarrow> data_listing list" where
  "get_active_listings m = filter (\<lambda>l. li_status l = ListingActive) (map snd (mk_listings m))"

definition purchase :: "string \<Rightarrow> address \<Rightarrow> u64 \<Rightarrow> string \<Rightarrow> u64 \<Rightarrow> data_purchase market_prog" where
  "purchase lid buyer units uuid now = (\<lambda>m.
     case map_of (mk_listings m) lid of
       None \<Rightarrow> (Err (InvalidDataListing ''Listing not found''), m)
     | Some l \<Rightarrow>
         if li_status l \<noteq> ListingActive then (Err (InvalidDataListing ''Listing not active''), m)
         else if units < li_min_purchase l
         then (Err (InvalidDataListing (''Minimum purchase is '' @ show_word (li_min_purchase l) @ '' units'')), m)
         else if li_available_units l > 0 \<and> units > li_available_units l
         then (Err (InvalidDataListing ''Not enough units available''), m)
         else let p = \<lparr>pu_id = ''purchase-'' @ uuid, pu_listing_id = lid, pu_buyer = buyer, pu_units = units,
                       pu_price_paid = calculate_cost units l, pu_purchased_at = now, pu_delivery_hash = None,
                       pu_delivered = False\<rparr>
              in (Ok p, m\<lparr>mk_listings := AList.update lid (record_sale units now l) (mk_listings m),
                          mk_purchases_by_buyer := index_push buyer p (mk_purchases_by_buyer m)\<rparr>))"

definition get_purchases :: "address \<Rightarrow> data_marketplace \<Rightarrow> data_purchase list" where
  "get_purchases buyer m = index_get (mk_purchases_by_buyer m) buyer"

definition listing_count :: "data_marketplace \<Rightarrow> nat" where
  "listing_count m = length (mk_listings m)"

definition total_volume :: "data_marketplace \<Rightarrow> u128" where
  "total_volume m = sum_list (map (\<lambda>(k, l). li_total_revenue l) (mk_listings m))"

subsection \<open>The books\<close>

declare map_of_eq_Some_iff [simp del] Some_eq_map_of_iff [simp del]

text \<open>What all buyers have paid.\<close>

definition total_paid :: "data_marketplace \<Rightarrow> u128" where
  "total_paid m = value_sum (\<lambda>ps. sum_list (map pu_price_paid ps)) (mk_purchases_by_buyer m)"

text \<open>
  One operation of a client, with the number of listings it creates and the revenue it books without a purchase: a new listing
  (\<open>create_listing\<close> keeps the revenue its argument comes with), a purchase, and what \<open>get_listing_mut\<close> permits: the
  status changes, a sale recorded without a purchase, and direct writes to any of the public fields but the three that the
  maps are keyed by.
\<close>

definition booked :: "string \<Rightarrow> (data_listing \<Rightarrow> data_listing) \<Rightarrow> data_marketplace \<Rightarrow> u128" where
  "booked k f m = (case get_listing k m of None \<Rightarrow> 0 | Some l \<Rightarrow> li_total_revenue (f l) - li_total_revenue l)"

definition keeps_keys :: "(data_listing \<Rightarrow> data_listing) \<Rightarrow> bool" where
  "keeps_keys f \<longleftrightarrow> (\<forall>l. li_id (f l) = li_id l \<and> li_category (f l) = li_category l \<and> li_owner (f l) = li_owner l)"

inductive market_step :: "data_marketplace \<Rightarrow> nat \<Rightarrow> u128 \<Rightarrow> data_marketplace \<Rightarrow> bool" where
  step_create: "market_step m 1 (li_total_revenue l) (snd (create_listing l m))"
| step_purchase: "market_step m 0 0 (snd (purchase k buyer units uuid now m))"
| step_status: "f \<in> {listing_pause now, listing_resume now, listing_cancel now} \<Longrightarrow> market_step m 0 0 (with_listing k f m)"
| step_sale: "market_step m 0 (case get_listing k m of None \<Rightarrow> 0 | Some l \<Rightarrow> calculate_cost units l)
    (with_listing k (record_sale units now) m)"
| step_write: "keeps_keys f \<Longrightarrow> market_step m 0 (booked k f m) (with_listing k f m)"

text \<open>The runs of a marketplace, with the number of listings created and the revenue booked without a purchase.\<close>

inductive market_run :: "data_marketplace \<Rightarrow> nat \<Rightarrow> u128 \<Rightarrow> bool" where
  run_start: "market_run market_new 0 0"
| run_more: "market_run m n out \<Longrightarrow> market_step m i e m' \<Longrightarrow> market_run m' (n + i) (out + e)"

definition market_ok :: "u128 \<Rightarrow> data_marketplace \<Rightarrow> bool" where
  "market_ok out m \<longleftrightarrow> distinct (map fst (mk_listings m)) \<and> distinct (map fst (mk_purchases_by_buyer m))
     \<and> (\<forall>k l. map_of (mk_listings m) k = Some l \<longrightarrow> li_id l = k \<and> (\<exists>n < mk_next_id m. k = listing_id n))
     \<and> index_ok (\<lambda>l. category_key (li_category l)) (mk_listings m) (mk_listings_by_category m)
     \<and> index_ok li_owner (mk_listings m) (mk_listings_by_owner m)
     \<and> total_volume m = total_paid m + out"

lemma listing_id_inject [simp]: "listing_id a = listing_id b \<longleftrightarrow> a = b"
  by (simp add: listing_id_def show_word_def word_unat_eq_iff)

lemma total_volume_sum: "total_volume m = value_sum li_total_revenue (mk_listings m)"
  by (simp add: total_volume_def value_sum_def)

lemma fresh_listing_id: "market_ok out m \<Longrightarrow> map_of (mk_listings m) (listing_id (mk_next_id m)) = None"
proof (rule ccontr)
  assume ok: "market_ok out m" and "map_of (mk_listings m) (listing_id (mk_next_id m)) \<noteq> None"
  then obtain l where "map_of (mk_listings m) (listing_id (mk_next_id m)) = Some l" by blast
  with ok obtain n where "n < mk_next_id m" "listing_id (mk_next_id m) = listing_id n" unfolding market_ok_def by blast
  then show False by simp
qed

lemma word_less_succ: "n \<noteq> - 1 \<Longrightarrow> n < n + 1" for n :: "'a::len word"
proof -
  assume "n \<noteq> - 1"
  then have "n + 1 \<noteq> 0" by (simp add: eq_neg_iff_add_eq_0)
  then have "unat (n + 1) = Suc (unat n)" by (metis add.commute unatSuc)
  then show "n < n + 1" by (simp add: word_less_nat_alt)
qed

lemma create_ok:
  assumes "market_ok out m" and "mk_next_id m \<noteq> - 1"
  shows "market_ok (out + li_total_revenue l) (snd (create_listing l m))"
proof -
  let ?k = "listing_id (mk_next_id m)" let ?l = "l\<lparr>li_id := ?k\<rparr>"
  have fresh: "map_of (mk_listings m) ?k = None" by (rule fresh_listing_id [OF assms(1)])
  have idx: "index_ok (\<lambda>l. category_key (li_category l)) (AList.update ?k ?l (mk_listings m))
        (index_push (category_key (li_category l)) ?k (mk_listings_by_category m))"
    "index_ok li_owner (AList.update ?k ?l (mk_listings m)) (index_push (li_owner l) ?k (mk_listings_by_owner m))"
    using assms(1) index_ok_insert [OF _ fresh, of "\<lambda>l. category_key (li_category l)" _ ?l] index_ok_insert [OF _ fresh, of li_owner _ ?l]
    by (auto simp: market_ok_def)
  have later: "mk_next_id m < mk_next_id m + 1" "n < mk_next_id m \<Longrightarrow> n < mk_next_id m + 1" for n
  proof -
    show lt: "mk_next_id m < mk_next_id m + 1"
      using assms(2) by (rule word_less_succ)
    show "n < mk_next_id m \<Longrightarrow> n < mk_next_id m + 1" by (rule order_less_trans [OF _ lt])
  qed
  have "total_volume m = total_paid m + out" using assms(1) by (simp add: market_ok_def)
  then have "value_sum li_total_revenue (AList.update ?k ?l (mk_listings m)) = total_paid m + (out + li_total_revenue l)"
    using assms(1) fresh by (simp add: market_ok_def total_volume_sum value_sum_update)
  moreover have "\<exists>n < mk_next_id m + 1. k = listing_id n" if "map_of (mk_listings m) k = Some x" for k x
    using assms(1) that later(2) unfolding market_ok_def by blast
  ultimately show ?thesis using assms(1) idx later(1)
    by (auto simp: market_ok_def create_listing_def Let_def map_of_update_apply distinct_update total_volume_sum total_paid_def
        split: if_splits)
qed

lemma change_listing_ok:
  assumes "market_ok out m" and "map_of (mk_listings m) k = Some l" and "li_id l' = li_id l" and "li_category l' = li_category l"
    and "li_owner l' = li_owner l"
  shows "distinct (map fst (AList.update k l' (mk_listings m)))
    \<and> (\<forall>j x. map_of (AList.update k l' (mk_listings m)) j = Some x \<longrightarrow> li_id x = j \<and> (\<exists>n < mk_next_id m. j = listing_id n))
    \<and> index_ok (\<lambda>l. category_key (li_category l)) (AList.update k l' (mk_listings m)) (mk_listings_by_category m)
    \<and> index_ok li_owner (AList.update k l' (mk_listings m)) (mk_listings_by_owner m)
    \<and> value_sum li_total_revenue (AList.update k l' (mk_listings m)) = total_paid m + (out + (li_total_revenue l' - li_total_revenue l))"
proof -
  have m: "distinct (map fst (mk_listings m))" "total_volume m = total_paid m + out"
    "\<And>j x. map_of (mk_listings m) j = Some x \<Longrightarrow> li_id x = j \<and> (\<exists>n < mk_next_id m. j = listing_id n)"
    "index_ok (\<lambda>l. category_key (li_category l)) (mk_listings m) (mk_listings_by_category m)"
    "index_ok li_owner (mk_listings m) (mk_listings_by_owner m)"
    using assms(1) unfolding market_ok_def by blast+
  have "index_ok (\<lambda>l. category_key (li_category l)) (AList.update k l' (mk_listings m)) (mk_listings_by_category m)"
    by (rule index_ok_change [OF m(4) assms(2)]) (simp add: assms)
  moreover have "index_ok li_owner (AList.update k l' (mk_listings m)) (mk_listings_by_owner m)"
    by (rule index_ok_change [OF m(5) assms(2)]) (simp add: assms)
  moreover have "value_sum li_total_revenue (AList.update k l' (mk_listings m)) = total_paid m + (out + (li_total_revenue l' - li_total_revenue l))"
    using m(2) assms(2) by (simp add: value_sum_update [OF m(1)] flip: total_volume_sum)
  ultimately show ?thesis using m(3) [OF assms(2)] m(3) assms(3) distinct_update [OF m(1)]
    by (simp add: map_of_update_apply)
qed

lemma with_listing_ok:
  assumes "market_ok out m" and "keeps_keys f"
  shows "market_ok (out + booked k f m) (with_listing k f m)"
proof (cases "map_of (mk_listings m) k")
  case None
  with assms(1) show ?thesis by (simp add: with_listing_def booked_def get_listing_def)
next
  case (Some l)
  have purchases: "distinct (map fst (mk_purchases_by_buyer m))" using assms(1) by (simp add: market_ok_def)
  have "li_id (f l) = li_id l" "li_category (f l) = li_category l" "li_owner (f l) = li_owner l"
    using assms(2) by (simp_all add: keeps_keys_def)
  from change_listing_ok [OF assms(1) Some this]
  show ?thesis unfolding market_ok_def total_volume_sum
    by (simp add: with_listing_def Some purchases total_paid_def booked_def get_listing_def)
qed

lemma record_sale_keeps [simp]:
  "li_id (record_sale units now l) = li_id l"
  "li_category (record_sale units now l) = li_category l"
  "li_owner (record_sale units now l) = li_owner l"
  "li_total_revenue (record_sale units now l) = li_total_revenue l + li_price_per_unit l * ucast units"
  by (simp_all add: record_sale_def Let_def)

lemma paid_push:
  assumes "distinct (map fst idx)"
  shows "value_sum (\<lambda>ps. sum_list (map pu_price_paid ps)) (index_push b p idx)
    = value_sum (\<lambda>ps. sum_list (map pu_price_paid ps)) idx + pu_price_paid p"
  by (simp add: index_push_def value_sum_update [OF assms] index_get_def split: option.split)

lemma purchase_listing_ok:
  assumes "market_ok out m" and "map_of (mk_listings m) k = Some l"
    and "pu_price_paid p = li_price_per_unit l * ucast units"
  shows "market_ok out (m\<lparr>mk_listings := AList.update k (record_sale units now l) (mk_listings m),
                       mk_purchases_by_buyer := index_push b p (mk_purchases_by_buyer m)\<rparr>)"
proof -
  have purchases: "distinct (map fst (mk_purchases_by_buyer m))" using assms(1) by (simp add: market_ok_def)
  from change_listing_ok [OF assms(1,2), of "record_sale units now l"] show ?thesis
    unfolding market_ok_def total_volume_sum
    by (simp add: total_paid_def paid_push [OF purchases] assms(3))
      (simp add: index_push_def distinct_update purchases)
qed

lemma purchase_ok: "market_ok out m \<Longrightarrow> market_ok out (snd (purchase k buyer units uuid now m))"
  using purchase_listing_ok [of out m k]
  by (simp add: purchase_def Let_def calculate_cost_def split: option.split)

text \<open>The methods of a listing as changes of it.\<close>

lemma status_change_booked:
  "f \<in> {listing_pause now, listing_resume now, listing_cancel now} \<Longrightarrow> keeps_keys f \<and> booked k f m = 0"
  by (auto simp: keeps_keys_def booked_def listing_pause_def listing_resume_def listing_cancel_def split: option.split)

lemma record_sale_booked:
  "keeps_keys (record_sale units now)"
  "booked k (record_sale units now) m = (case get_listing k m of None \<Rightarrow> 0 | Some l \<Rightarrow> calculate_cost units l)"
  by (simp_all add: keeps_keys_def booked_def calculate_cost_def split: option.split)

lemma next_id_step: "market_step m i e m' \<Longrightarrow> mk_next_id m' = mk_next_id m + word_of_nat i"
  by (induction rule: market_step.induct)
    (auto simp: create_listing_def purchase_def with_listing_def Let_def split: option.split)

lemma next_id_run: "market_run m n out \<Longrightarrow> mk_next_id m = word_of_nat n"
  by (induction rule: market_run.induct) (auto simp: market_new_def dest: next_id_step)

lemma market_step_ok:
  assumes "market_step m i e m'" and "market_ok out m" and "i = 0 \<or> mk_next_id m \<noteq> - 1"
  shows "market_ok (out + e) m'"
  using assms
proof (induction rule: market_step.induct)
  case (step_create m l)
  then show ?case by (simp add: create_ok)
next
  case (step_status f now m k)
  then show ?case using with_listing_ok [of out m f k] status_change_booked [of f now k m] by simp
next
  case (step_sale m k units now)
  then show ?case using with_listing_ok [OF _ record_sale_booked(1), of out m k units now] by (simp add: record_sale_booked)
next
  case (step_write f m k)
  then show ?case by (simp add: with_listing_ok)
qed (simp add: purchase_ok)

lemma market_run_ok: "market_run m n out \<Longrightarrow> n < 2 ^ 64 \<Longrightarrow> market_ok out m"
proof (induction rule: market_run.induct)
  case run_start
  show ?case by (simp add: market_ok_def market_new_def total_volume_def total_paid_def value_sum_def)
next
  case (run_more m n out i e m')
  have "mk_next_id m \<noteq> - 1" if "i \<noteq> 0"
  proof -
    have "n < 2 ^ 64 - 1" using run_more(4) that by simp
    then have "unat (word_of_nat n :: u64) \<noteq> unat (- 1 :: u64)" by (simp add: unat_of_nat unat_minus_one_word)
    then show ?thesis using next_id_run [OF run_more(1)] by auto
  qed
  with run_more show ?case by (intro market_step_ok [of m i e m' out]) auto
qed

subsection \<open>Properties\<close>

text \<open>C37: The books of the marketplace balance. After any sequence of operations in which fewer than 2 to the 64
  listings are created, the volume the listings report is what all buyers have paid plus the revenue that was booked without a
  purchase: what a new listing brings with it, what \<open>record_sale\<close> adds when it is called through \<open>get_listing_mut\<close>, and
  what a direct write to the revenue of a listing adds or takes (all modulo the width of the integers). Each listing is found
  under its own id, the query for an owner gives exactly the owner's listings, and the query for a category exactly its
  active listings. Outside are direct writes to the id, the owner or the category of a stored listing, which the indexes
  do not follow.\<close>

theorem market_books_balance:
  assumes "market_run m n out" and "n < 2 ^ 64"
  shows "total_volume m = total_paid m + out
    \<and> (\<forall>k l. get_listing k m = Some l \<longrightarrow> li_id l = k)
    \<and> set (get_listings_by_owner a m) = {l. (\<exists>k. get_listing k m = Some l) \<and> li_owner l = a}
    \<and> set (get_listings_by_category c m)
        = {l. (\<exists>k. get_listing k m = Some l) \<and> category_key (li_category l) = category_key c \<and> li_status l = ListingActive}"
proof -
  have ok: "total_volume m = total_paid m + out" "\<forall>k l. map_of (mk_listings m) k = Some l \<longrightarrow> li_id l = k"
    "index_ok (\<lambda>l. category_key (li_category l)) (mk_listings m) (mk_listings_by_category m)"
    "index_ok li_owner (mk_listings m) (mk_listings_by_owner m)"
    using market_run_ok [OF assms] unfolding market_ok_def by blast+
  show ?thesis unfolding get_listing_def get_listings_by_owner_def get_listings_by_category_def
    using ok(1,2) index_query [OF ok(4), of a] index_query [OF ok(3), of "category_key c"] by auto
qed

text \<open>A listing at price 5, a purchase of three units, and a sale of two units that nobody pays: volume 25, of which
  10 are booked without a purchase.\<close>

theorem market_books_balance_witness:
  "let l = listing_new [] (did_new latin1_b58 address_zero) address_zero Energy [] [] 5 [] 0;
       m1 = snd (purchase (listing_id 0) address_zero 3 [] 0 (snd (create_listing l market_new)));
       m = with_listing (listing_id 0) (record_sale 2 0) m1
   in market_run m 1 10 \<and> total_paid m = 15 \<and> total_volume m = 25"
proof -
  define l where "l = listing_new [] (did_new latin1_b58 address_zero) address_zero Energy [] [] 5 [] 0"
  define m0 where "m0 = snd (create_listing l market_new)"
  define m1 where "m1 = snd (purchase (listing_id 0) address_zero 3 [] 0 m0)"
  define m where "m = with_listing (listing_id 0) (record_sale 2 0) m1"
  have l: "li_total_revenue l = 0" "li_price_per_unit l = 5" "li_status l = ListingActive" "li_min_purchase l = 1" "li_available_units l = 0"
    by (simp_all add: l_def listing_new_def)
  have m0: "map_of (mk_listings m0) (listing_id 0) = Some (l\<lparr>li_id := listing_id 0\<rparr>)" "mk_purchases_by_buyer m0 = []"
    by (simp_all add: m0_def create_listing_def market_new_def Let_def)
  have m1: "map_of (mk_listings m1) (listing_id 0) = Some (record_sale 3 0 (l\<lparr>li_id := listing_id 0\<rparr>))" "total_paid m1 = 15"
    using m0 l by (simp_all add: m1_def purchase_def Let_def map_of_update_apply total_paid_def index_push_def value_sum_def
        calculate_cost_def)
  have "market_run m0 1 0" using run_more [OF run_start step_create, of l] l by (simp add: m0_def)
  then have "market_run m1 1 0" using run_more [OF _ step_purchase, of m0 1 0 "listing_id 0" address_zero 3 "[]" 0] by (simp add: m1_def)
  then have run: "market_run m 1 10"
    using run_more [OF _ step_sale, of m1 1 0 "listing_id 0" 2 0] m1(1) l
    by (simp add: m_def get_listing_def calculate_cost_def record_sale_def Let_def)
  have "total_paid m = 15" using m1 by (simp add: m_def with_listing_def total_paid_def)
  with market_books_balance [OF run] run show ?thesis
    by (simp add: Let_def flip: l_def m0_def m1_def m_def)
qed

text \<open>A purchase succeeds exactly for an active listing, with at least its minimum, and with at most its
  available units unless that number is zero, which stands for no limit.\<close>

lemma purchase_result:
  "is_ok (fst (purchase k buyer units uuid now m)) \<longleftrightarrow>
     (\<exists>l. get_listing k m = Some l \<and> li_status l = ListingActive \<and> li_min_purchase l \<le> units
        \<and> (li_available_units l = 0 \<or> units \<le> li_available_units l))"
  by (auto simp: purchase_def get_listing_def Let_def not_less word_gt_0 split: option.split)

lemma purchase_failure: "\<not> is_ok (fst (purchase k buyer units uuid now m)) \<Longrightarrow> snd (purchase k buyer units uuid now m) = m"
  by (auto simp: purchase_def Let_def split: option.splits if_splits)

text \<open>A buyer of all available units of a listing pays for exactly them and completes the listing, so that the
  next purchase is refused. When the owner then pauses and resumes the listing it is active again with zero available units, and a
  zero stands for no limit: any number of units can be bought after all of them are sold.\<close>

theorem sold_out_listing_sells_again:
  assumes "get_listing k m = Some l" and "li_status l = ListingActive" and "li_available_units l = units"
    and "0 < units" and "li_min_purchase l \<le> units"
    and "purchase k buyer units uuid now m = (r, sold)"
  shows "(\<exists>p. r = Ok p \<and> pu_price_paid p = li_price_per_unit l * ucast units)
    \<and> \<not> is_ok (fst (purchase k buyer2 extra uuid2 now2 sold))
    \<and> (li_min_purchase l \<le> extra \<longrightarrow>
         is_ok (fst (purchase k buyer2 extra uuid2 now2
           (with_listing k (listing_resume t2) (with_listing k (listing_pause t1) sold)))))"
proof -
  have sold: "map_of (mk_listings sold) k = Some (record_sale units now l)"
    and r: "\<exists>p. r = Ok p \<and> pu_price_paid p = li_price_per_unit l * ucast units"
    using assms by (auto simp: purchase_def get_listing_def Let_def map_of_update_apply calculate_cost_def not_less split: if_splits)
  have l: "li_status (record_sale units now l) = ListingCompleted" "li_available_units (record_sale units now l) = 0"
    "li_min_purchase (record_sale units now l) = li_min_purchase l"
    using assms(3,4) by (simp_all add: record_sale_def Let_def saturating_sub_def)
  show ?thesis
    using assms(4,5) sold l r unfolding purchase_result get_listing_def
    by (auto simp: with_listing_def map_of_update_apply listing_pause_def listing_resume_def)
qed

theorem sold_out_listing_sells_again_witness:
  "let l = with_available_units 3 (listing_new [] (did_new latin1_b58 address_zero) address_zero Energy [] [] 5 [] 0);
       m = snd (create_listing l market_new);
       m3 = snd (purchase (listing_id 0) address_zero 3 [] 0 m)
   in \<not> is_ok (fst (purchase (listing_id 0) address_zero 1 [] 0 m3))
      \<and> is_ok (fst (purchase (listing_id 0) address_zero 1000 [] 0
            (with_listing (listing_id 0) (listing_resume 0) (with_listing (listing_id 0) (listing_pause 0) m3))))"
proof -
  define l where "l = with_available_units 3 (listing_new [] (did_new latin1_b58 address_zero) address_zero Energy [] [] 5 [] 0)"
  define m where "m = snd (create_listing l market_new)"
  let ?l = "l\<lparr>li_id := listing_id 0\<rparr>"
  obtain r sold where buy: "purchase (listing_id 0) address_zero 3 [] 0 m = (r, sold)" by fastforce
  have "get_listing (listing_id 0) m = Some ?l" "li_status ?l = ListingActive" "li_available_units ?l = 3" "li_min_purchase ?l \<le> 3"
    by (simp_all add: m_def l_def get_listing_def create_listing_def market_new_def Let_def with_available_units_def listing_new_def)
  from sold_out_listing_sells_again [OF this(1-3) _ this(4) buy] show ?thesis
    by (simp add: Let_def buy flip: l_def m_def) (simp add: l_def with_available_units_def listing_new_def)
qed

end
