(* ===== verification/Fry_M2M.thy ===== *)
theory Fry_M2M
  imports Fry_Market
begin

text \<open>
  \<open>frychain-depin/src/m2m.rs\<close>: machine-to-machine transactions and the protocol handler that
  queues them. SHA3 and the JSON form of the payload records are parameters; the clock is an argument. The lemmas:
  what the hash of a transaction binds, and that the two lists of the handler refine one log of the
  submissions, of which nothing is lost or reordered.
\<close>

datatype m2m_type = DataSubmission | ServiceRequest | ServiceResponse | Heartbeat | TaskAssigned | TaskCompleted | RewardPaid

text \<open>\<open>tx_type as u8\<close>.\<close>

fun m2m_type_code :: "m2m_type \<Rightarrow> u8" where
  "m2m_type_code DataSubmission = 0"
| "m2m_type_code ServiceRequest = 1"
| "m2m_type_code ServiceResponse = 2"
| "m2m_type_code Heartbeat = 3"
| "m2m_type_code TaskAssigned = 4"
| "m2m_type_code TaskCompleted = 5"
| "m2m_type_code RewardPaid = 6"

record m2m_transaction =
  mt_tx_type :: m2m_type
  mt_from_device :: device_did
  mt_to_device :: "device_did option"
  mt_nonce :: u64
  mt_timestamp :: u64
  mt_payload :: bytes
  mt_value :: token_amount
  mt_signature :: bytes

record device_heartbeat =
  hb_status :: string
  hb_cpu_usage :: u8
  hb_memory_usage :: u8
  hb_disk_usage :: u8
  hb_network_latency :: u32
  hb_active_tasks :: u32
  hb_custom_metrics :: "(string \<times> string) list"

definition heartbeat_new :: device_heartbeat where
  "heartbeat_new = \<lparr>hb_status = ''online'', hb_cpu_usage = 0, hb_memory_usage = 0, hb_disk_usage = 0,
     hb_network_latency = 0, hb_active_tasks = 0, hb_custom_metrics = []\<rparr>"

record task_assignment =
  ta_task_id :: string
  ta_task_type :: string
  ta_parameters :: json_value
  ta_deadline :: u64
  ta_reward :: token_amount
  ta_requires_attestation :: bool

record task_result =
  tr_task_id :: string
  tr_success :: bool
  tr_result :: json_value
  tr_completed_at :: u64
  tr_attestation :: "bytes option"
  tr_error :: "string option"

text \<open>\<open>serde_json::to_vec\<close> of the payload records, with its fallback to the empty vector, and SHA3.\<close>

record m2m_lib =
  ml_sha3 :: hash_fn
  ml_json_heartbeat :: "device_heartbeat \<Rightarrow> bytes"
  ml_json_task :: "task_assignment \<Rightarrow> bytes"
  ml_json_result :: "task_result \<Rightarrow> bytes"

definition m2m_new :: "m2m_type \<Rightarrow> device_did \<Rightarrow> device_did option \<Rightarrow> u64 \<Rightarrow> bytes \<Rightarrow> token_amount \<Rightarrow> u64
    \<Rightarrow> m2m_transaction" where
  "m2m_new tx_type from_device to_device nonce payload v now =
     \<lparr>mt_tx_type = tx_type, mt_from_device = from_device, mt_to_device = to_device, mt_nonce = nonce,
      mt_timestamp = now, mt_payload = payload, mt_value = v, mt_signature = []\<rparr>"

definition m2m_data_submission :: "device_did \<Rightarrow> bytes \<Rightarrow> u64 \<Rightarrow> u64 \<Rightarrow> m2m_transaction" where
  "m2m_data_submission sender data nonce now = m2m_new DataSubmission sender None nonce data 0 now"

definition m2m_heartbeat :: "m2m_lib \<Rightarrow> device_did \<Rightarrow> device_heartbeat \<Rightarrow> u64 \<Rightarrow> u64 \<Rightarrow> m2m_transaction" where
  "m2m_heartbeat M sender status nonce now = m2m_new Heartbeat sender None nonce (ml_json_heartbeat M status) 0 now"

definition m2m_task_assignment :: "m2m_lib \<Rightarrow> device_did \<Rightarrow> device_did \<Rightarrow> task_assignment \<Rightarrow> token_amount \<Rightarrow> u64
    \<Rightarrow> u64 \<Rightarrow> m2m_transaction" where
  "m2m_task_assignment M sender receiver task reward nonce now =
     m2m_new TaskAssigned sender (Some receiver) nonce (ml_json_task M task) reward now"

definition m2m_task_completion :: "m2m_lib \<Rightarrow> device_did \<Rightarrow> device_did \<Rightarrow> task_result \<Rightarrow> u64 \<Rightarrow> u64
    \<Rightarrow> m2m_transaction" where
  "m2m_task_completion M sender receiver result nonce now =
     m2m_new TaskCompleted sender (Some receiver) nonce (ml_json_result M result) 0 now"

text \<open>The texts of the two devices, one after the other, as the hasher is fed.\<close>

definition m2m_devices :: "m2m_transaction \<Rightarrow> bytes" where
  "m2m_devices tx = str_bytes (dd_did (mt_from_device tx))
     @ (case mt_to_device tx of None \<Rightarrow> [] | Some receiver \<Rightarrow> str_bytes (dd_did receiver))"

definition m2m_preimage :: "m2m_transaction \<Rightarrow> bytes" where
  "m2m_preimage tx = [m2m_type_code (mt_tx_type tx)] @ m2m_devices tx
     @ le_of_word (mt_nonce tx) @ le_of_word (mt_timestamp tx) @ mt_payload tx @ le_of_word (mt_value tx)"

definition m2m_hash :: "m2m_lib \<Rightarrow> m2m_transaction \<Rightarrow> hash256" where
  "m2m_hash M tx = ml_sha3 M (m2m_preimage tx)"

definition m2m_sign :: "bytes \<Rightarrow> m2m_transaction \<Rightarrow> m2m_transaction" where
  "m2m_sign sig tx = tx\<lparr>mt_signature := sig\<rparr>"

subsection \<open>The protocol handler\<close>

record m2m_protocol =
  mp_pending :: "m2m_transaction list"
  mp_completed :: "m2m_transaction list"

definition protocol_new :: m2m_protocol where
  "protocol_new = \<lparr>mp_pending = [], mp_completed = []\<rparr>"

definition m2m_submit :: "m2m_lib \<Rightarrow> m2m_transaction \<Rightarrow> (m2m_protocol, depin_error, hash256) prog" where
  "m2m_submit M tx = (\<lambda>p. (Ok (m2m_hash M tx), p\<lparr>mp_pending := mp_pending p @ [tx]\<rparr>))"

definition pending_count :: "m2m_protocol \<Rightarrow> nat" where
  "pending_count p = length (mp_pending p)"

definition process_pending :: "m2m_protocol \<Rightarrow> m2m_transaction list \<times> m2m_protocol" where
  "process_pending p = (mp_pending p, p\<lparr>mp_pending := [], mp_completed := mp_completed p @ mp_pending p\<rparr>)"

definition m2m_get_transaction :: "m2m_lib \<Rightarrow> hash256 \<Rightarrow> m2m_protocol \<Rightarrow> m2m_transaction option" where
  "m2m_get_transaction M h p = find (\<lambda>tx. m2m_hash M tx = h) (mp_pending p @ mp_completed p)"

subsection \<open>The log of submissions\<close>

text \<open>The abstract handler is a log of all submissions with a mark: what stands before the mark is processed. The two lists
  of the code represent such a log.\<close>

datatype m2m_call = Submit m2m_transaction | Process

record m2m_log =
  log_entries :: "m2m_transaction list"
  log_mark :: nat

definition log_of :: "m2m_protocol \<Rightarrow> m2m_log" where
  "log_of p = \<lparr>log_entries = mp_completed p @ mp_pending p, log_mark = length (mp_completed p)\<rparr>"

fun log_call :: "m2m_call \<Rightarrow> m2m_log \<Rightarrow> m2m_log" where
  "log_call (Submit tx) l = l\<lparr>log_entries := log_entries l @ [tx]\<rparr>"
| "log_call Process l = l\<lparr>log_mark := length (log_entries l)\<rparr>"

fun protocol_call :: "m2m_lib \<Rightarrow> m2m_call \<Rightarrow> m2m_protocol \<Rightarrow> m2m_protocol" where
  "protocol_call M (Submit tx) p = snd (m2m_submit M tx p)"
| "protocol_call M Process p = snd (process_pending p)"

fun submissions :: "m2m_call list \<Rightarrow> m2m_transaction list" where
  "submissions [] = []"
| "submissions (Submit tx # cs) = tx # submissions cs"
| "submissions (Process # cs) = submissions cs"

lemma log_of_call: "log_of (protocol_call M c p) = log_call c (log_of p)"
  by (cases c) (simp_all add: log_of_def m2m_submit_def process_pending_def)

lemma log_of_run: "log_of (fold (protocol_call M) cs p) = fold log_call cs (log_of p)"
  by (induction cs arbitrary: p) (simp_all add: log_of_call)

lemma log_entries_run: "log_entries (fold log_call cs l) = log_entries l @ submissions cs"
  by (induction cs arbitrary: l rule: submissions.induct) simp_all

lemma m2m_type_code_inject [simp]: "m2m_type_code a = m2m_type_code b \<longleftrightarrow> a = b"
  by (cases a; cases b) simp_all

lemma m2m_preimage_inject:
  assumes "length (m2m_devices tx) = length (m2m_devices tx')"
  shows "m2m_preimage tx = m2m_preimage tx' \<longleftrightarrow>
     mt_tx_type tx = mt_tx_type tx' \<and> m2m_devices tx = m2m_devices tx' \<and> mt_nonce tx = mt_nonce tx'
     \<and> mt_timestamp tx = mt_timestamp tx' \<and> mt_payload tx = mt_payload tx' \<and> mt_value tx = mt_value tx'"
proof -
  have "mt_payload tx @ le_of_word (mt_value tx) = mt_payload tx' @ le_of_word (mt_value tx') \<longleftrightarrow>
      mt_payload tx = mt_payload tx' \<and> mt_value tx = mt_value tx'"
    by (subst append_eq_append_conv) simp_all
  with assms show ?thesis by (simp add: m2m_preimage_def)
qed

lemma find_append_Some: "(\<exists>x \<in> set xs. P x) \<Longrightarrow> \<exists>x. find P xs = Some x \<and> P x \<and> x \<in> set xs"
  by (induction xs) auto

lemma find_SomeD: "find P xs = Some x \<Longrightarrow> x \<in> set xs"
  by (induction xs) (auto split: if_splits)

subsection \<open>Properties\<close>

text \<open>The hash of a machine-to-machine transaction binds everything but the signature and the boundary of
  the two device texts. For transactions whose device texts have the same total length and without a collision
  of SHA3 on the two preimages, the hashes agree exactly when type, joined device texts, nonce, timestamp, payload and value
  agree. So a transaction from one device to another has the hash of a broadcast from a device whose text joins
  the two.\<close>

theorem m2m_hash_binds:
  assumes "inj_on (ml_sha3 M) {m2m_preimage tx, m2m_preimage tx'}"
    and "length (m2m_devices tx) = length (m2m_devices tx')"
  shows "(m2m_hash M tx = m2m_hash M tx' \<longleftrightarrow>
      mt_tx_type tx = mt_tx_type tx' \<and> m2m_devices tx = m2m_devices tx' \<and> mt_nonce tx = mt_nonce tx'
      \<and> mt_timestamp tx = mt_timestamp tx' \<and> mt_payload tx = mt_payload tx' \<and> mt_value tx = mt_value tx')
    \<and> m2m_hash M (m2m_sign sig tx) = m2m_hash M tx
    \<and> m2m_hash M (m2m_new ty \<lparr>dd_did = f, dd_address = a\<rparr> (Some \<lparr>dd_did = t, dd_address = b\<rparr>) n payload v now)
      = m2m_hash M (m2m_new ty \<lparr>dd_did = f @ t, dd_address = c\<rparr> None n payload v now)"
proof (intro conjI)
  show "m2m_hash M tx = m2m_hash M tx' \<longleftrightarrow>
      mt_tx_type tx = mt_tx_type tx' \<and> m2m_devices tx = m2m_devices tx' \<and> mt_nonce tx = mt_nonce tx'
      \<and> mt_timestamp tx = mt_timestamp tx' \<and> mt_payload tx = mt_payload tx' \<and> mt_value tx = mt_value tx'"
    unfolding m2m_hash_def using inj_on_eq_iff [OF assms(1)] m2m_preimage_inject [OF assms(2)] by simp
qed (simp_all add: m2m_hash_def m2m_preimage_def m2m_devices_def m2m_sign_def m2m_new_def str_bytes_def)

definition sample_m2m_lib :: m2m_lib where
  "sample_m2m_lib = \<lparr>ml_sha3 = (\<lambda>bs. take 32 (drop 13 bs @ replicate 32 0)), ml_json_heartbeat = (\<lambda>_. []), ml_json_task = (\<lambda>_. []),
     ml_json_result = (\<lambda>_. [])\<rparr>"

theorem m2m_hash_binds_witness:
  "let d = \<lparr>dd_did = ''dev'', dd_address = address_zero\<rparr>
   in m2m_hash sample_m2m_lib (m2m_data_submission d [1] 7 0) \<noteq> m2m_hash sample_m2m_lib (m2m_data_submission d [2] 7 0)"
proof -
  let ?d = "\<lparr>dd_did = ''dev'', dd_address = address_zero\<rparr>"
  let ?x = "m2m_data_submission ?d [1] 7 0" and ?y = "m2m_data_submission ?d [2] 7 0"
  have dev: "m2m_devices ?x = m2m_devices ?y" by (simp add: m2m_devices_def m2m_data_submission_def m2m_new_def)
  have "ml_sha3 sample_m2m_lib (m2m_preimage ?x) \<noteq> ml_sha3 sample_m2m_lib (m2m_preimage ?y)"
    by (simp add: sample_m2m_lib_def m2m_preimage_def m2m_devices_def m2m_data_submission_def m2m_new_def)
  then have "inj_on (ml_sha3 sample_m2m_lib) {m2m_preimage ?x, m2m_preimage ?y}" by (auto simp: inj_on_def)
  from m2m_hash_binds [OF this arg_cong [OF dev, of length]] show ?thesis
    by (simp add: Let_def m2m_data_submission_def m2m_new_def)
qed

text \<open>C38: The handler keeps every transaction. Its two lists refine the log of all submissions: any sequence of calls
  on a new handler gives, completed before pending, exactly the submitted transactions in order, the pending
  ones are those after the last processing, each submitted transaction is found under its hash, and no
  other transaction is ever found.\<close>

theorem m2m_handler_refines_log:
  "log_of (fold (protocol_call M) cs protocol_new) = fold log_call cs \<lparr>log_entries = [], log_mark = 0\<rparr>
    \<and> mp_completed (fold (protocol_call M) cs protocol_new) @ mp_pending (fold (protocol_call M) cs protocol_new) = submissions cs
    \<and> fst (process_pending (fold (protocol_call M) (cs @ Process # map Submit txs) protocol_new)) = txs
    \<and> (\<forall>tx \<in> set (submissions cs). \<exists>tx'. m2m_get_transaction M (m2m_hash M tx) (fold (protocol_call M) cs protocol_new) = Some tx'
          \<and> m2m_hash M tx' = m2m_hash M tx \<and> tx' \<in> set (submissions cs))
    \<and> (\<forall>h tx. m2m_get_transaction M h (fold (protocol_call M) cs protocol_new) = Some tx \<longrightarrow> tx \<in> set (submissions cs))"
proof -
  let ?p = "fold (protocol_call M) cs protocol_new"
  have log: "log_of ?p = fold log_call cs \<lparr>log_entries = [], log_mark = 0\<rparr>"
    by (simp add: log_of_run) (simp add: log_of_def protocol_new_def)
  then have entries: "mp_completed ?p @ mp_pending ?p = submissions cs"
    using log_entries_run [of cs "\<lparr>log_entries = [], log_mark = 0\<rparr>"] by (simp add: log_of_def flip: log)
  then have members: "set (mp_pending ?p @ mp_completed ?p) = set (submissions cs)" by (metis Un_commute set_append)
  have pending: "mp_pending (fold (protocol_call M) (map Submit txs) p) = mp_pending p @ txs" for p
    by (induction txs arbitrary: p) (simp_all add: m2m_submit_def)
  have "\<exists>tx'. m2m_get_transaction M (m2m_hash M tx) ?p = Some tx' \<and> m2m_hash M tx' = m2m_hash M tx \<and> tx' \<in> set (submissions cs)"
    if "tx \<in> set (submissions cs)" for tx
    using find_append_Some [of "mp_pending ?p @ mp_completed ?p" "\<lambda>t. m2m_hash M t = m2m_hash M tx"] that members
    unfolding m2m_get_transaction_def by blast
  moreover have "tx \<in> set (submissions cs)" if "m2m_get_transaction M h ?p = Some tx" for h tx
    using find_SomeD [OF that [unfolded m2m_get_transaction_def]] members by blast
  moreover have "fst (process_pending (fold (protocol_call M) (cs @ Process # map Submit txs) protocol_new)) = txs"
    by (simp add: process_pending_def pending)
  ultimately show ?thesis using log entries by blast
qed

theorem m2m_handler_refines_log_witness:
  "let a = m2m_data_submission \<lparr>dd_did = ''a'', dd_address = address_zero\<rparr> [1] 1 0;
       b = m2m_data_submission \<lparr>dd_did = ''b'', dd_address = address_zero\<rparr> [2] 1 0;
       p = fold (protocol_call sample_m2m_lib) [Submit a, Process, Submit b] protocol_new
   in (\<exists>t. m2m_get_transaction sample_m2m_lib (m2m_hash sample_m2m_lib a) p = Some t \<and> t \<in> {a, b})"
proof -
  let ?a = "m2m_data_submission \<lparr>dd_did = ''a'', dd_address = address_zero\<rparr> [1] 1 0"
  let ?b = "m2m_data_submission \<lparr>dd_did = ''b'', dd_address = address_zero\<rparr> [2] 1 0"
  let ?cs = "[Submit ?a, Process, Submit ?b]"
  have "?a \<in> set (submissions ?cs)" "set (submissions ?cs) = {?a, ?b}" by simp_all
  with m2m_handler_refines_log [of sample_m2m_lib ?cs "[]"] show ?thesis unfolding Let_def by blast
qed

end
