(* ===== verification/Fry_Network.thy ===== *)
theory Fry_Network
  imports Fry_Difficulty Fry_Maps
begin

text \<open>
  \<open>frychain-network/src\<close>: the errors of \<open>lib.rs\<close>, the messages and the handshake of \<open>protocol.rs\<close>, the peer
  manager of \<open>peer.rs\<close> and the synchronizer of \<open>sync.rs\<close>. The clock is an argument. A concurrent map is an
  association list; removing from it while a reference into it is alive blocks the caller, as its documentation says, which the
  result \<open>None\<close> stands for. The lemmas: the bounds and the separation of peers and banned peers, that a ban
  never ends, what the handshake checks, and the states the synchronizer can be in.
\<close>

datatype network_error =
    ConnectionFailed string
  | PeerNotFound string
  | ProtocolError string
  | NetSerializationError string
  | NetIoError string

fun network_error_text :: "network_error \<Rightarrow> string" where
  "network_error_text (ConnectionFailed s) = ''Connection failed: '' @ s"
| "network_error_text (PeerNotFound s) = ''Peer not found: '' @ s"
| "network_error_text (ProtocolError s) = ''Protocol error: '' @ s"
| "network_error_text (NetSerializationError s) = ''Serialization error: '' @ s"
| "network_error_text (NetIoError s) = ''IO error: '' @ s"

subsection \<open>Messages and the handshake\<close>

record hello_message =
  hm_protocol_version :: u32
  hm_network_id :: u64
  hm_chain_id :: u64
  hm_genesis_hash :: hash256
  hm_best_height :: block_height
  hm_best_hash :: hash256
  hm_total_difficulty :: u128
  hm_client_version :: string

record hello_ack_message =
  ha_accepted :: bool
  ha_reason :: "string option"

record get_blocks_request =
  gb_from_height :: block_height
  gb_to_height :: block_height
  gb_max_blocks :: u32

record get_block_headers_request =
  gh_from_hash :: hash256
  gh_max_headers :: u32
  gh_reverse :: bool

record status_message =
  sm_best_height :: block_height
  sm_best_hash :: hash256
  sm_total_difficulty :: u128
  sm_peer_count :: u64
  sm_syncing :: bool

datatype network_message =
    Hello hello_message
  | HelloAck hello_ack_message
  | NewBlock block hash256
  | GetBlocks get_blocks_request
  | Blocks "block list"
  | GetBlockHeaders get_block_headers_request
  | BlockHeaders "block_header list"
  | NewTransaction signed_transaction
  | GetTransactions "hash256 list"
  | Transactions "signed_transaction list"
  | GetStatus
  | Status status_message
  | Ping u64
  | Pong u64

record network_protocol =
  np_protocol_version :: u32
  np_network_id :: u64
  np_chain_id :: u64

definition network_protocol_new :: "u64 \<Rightarrow> u64 \<Rightarrow> network_protocol" where
  "network_protocol_new network_id chain_id =
     \<lparr>np_protocol_version = 1, np_network_id = network_id, np_chain_id = chain_id\<rparr>"

definition create_hello :: "hash256 \<Rightarrow> block_height \<Rightarrow> hash256 \<Rightarrow> u128 \<Rightarrow> network_protocol \<Rightarrow> network_message" where
  "create_hello genesis_hash best_height best_hash total_difficulty p =
     Hello \<lparr>hm_protocol_version = np_protocol_version p, hm_network_id = np_network_id p, hm_chain_id = np_chain_id p,
            hm_genesis_hash = genesis_hash, hm_best_height = best_height, hm_best_hash = best_hash,
            hm_total_difficulty = total_difficulty, hm_client_version = ''frychain/0.1.0''\<rparr>"

definition validate_hello :: "hello_message \<Rightarrow> network_protocol \<Rightarrow> (string, unit) outcome" where
  "validate_hello hello p =
     (if hm_protocol_version hello \<noteq> np_protocol_version p
      then Err (''Protocol version mismatch: '' @ show_word (hm_protocol_version hello) @ '' vs '' @ show_word (np_protocol_version p))
      else if hm_network_id hello \<noteq> np_network_id p
      then Err (''Network ID mismatch: '' @ show_word (hm_network_id hello) @ '' vs '' @ show_word (np_network_id p))
      else if hm_chain_id hello \<noteq> np_chain_id p
      then Err (''Chain ID mismatch: '' @ show_word (hm_chain_id hello) @ '' vs '' @ show_word (np_chain_id p))
      else Ok ())"

subsection \<open>Peers\<close>

datatype peer_state = Connecting | Connected | Handshaking | PeerActive | Disconnected

record peer_info =
  pi_peer_id :: string
  pi_address :: string
  pi_state :: peer_state
  pi_best_height :: block_height
  pi_best_hash :: hash256
  pi_total_difficulty :: u128
  pi_client_version :: string
  pi_connected_at :: u64
  pi_last_seen :: u64
  pi_bytes_sent :: u64
  pi_bytes_received :: u64
  pi_latency_ms :: u32

definition peer_new :: "string \<Rightarrow> string \<Rightarrow> u64 \<Rightarrow> peer_info" where
  "peer_new peer_id address_text now =
     \<lparr>pi_peer_id = peer_id, pi_address = address_text, pi_state = Connecting, pi_best_height = 0, pi_best_hash = replicate 32 0,
      pi_total_difficulty = 0, pi_client_version = [], pi_connected_at = now, pi_last_seen = now, pi_bytes_sent = 0,
      pi_bytes_received = 0, pi_latency_ms = 0\<rparr>"

definition peer_touch :: "u64 \<Rightarrow> peer_info \<Rightarrow> peer_info" where
  "peer_touch now p = p\<lparr>pi_last_seen := now\<rparr>"

definition update_status :: "block_height \<Rightarrow> hash256 \<Rightarrow> u128 \<Rightarrow> u64 \<Rightarrow> peer_info \<Rightarrow> peer_info" where
  "update_status height best_hash d now p =
     peer_touch now (p\<lparr>pi_best_height := height, pi_best_hash := best_hash, pi_total_difficulty := d\<rparr>)"

record peer_manager =
  pm_peers :: "(string \<times> peer_info) list"
  pm_max_peers :: nat
  pm_banned_peers :: "(string \<times> u64) list"

definition peers_new :: "nat \<Rightarrow> peer_manager" where
  "peers_new max_peers = \<lparr>pm_peers = [], pm_max_peers = max_peers, pm_banned_peers = []\<rparr>"

definition peers_default :: peer_manager where
  "peers_default = peers_new 50"

text \<open>An expired ban is removed while the reference to it is alive, so the call blocks.\<close>

definition is_banned :: "string \<Rightarrow> u64 \<Rightarrow> peer_manager \<Rightarrow> bool option" where
  "is_banned peer_id now m =
     (case map_of (pm_banned_peers m) peer_id of
        None \<Rightarrow> Some False
      | Some expiry \<Rightarrow> if now < expiry then Some True else None)"

definition add_peer :: "peer_info \<Rightarrow> u64 \<Rightarrow> peer_manager \<Rightarrow> ((network_error, unit) outcome \<times> peer_manager) option" where
  "add_peer peer now m =
     (if length (pm_peers m) \<ge> pm_max_peers m then Some (Err (ConnectionFailed ''Max peers reached''), m)
      else case is_banned (pi_peer_id peer) now m of
          None \<Rightarrow> None
        | Some True \<Rightarrow> Some (Err (ConnectionFailed ''Peer is banned''), m)
        | Some False \<Rightarrow> Some (Ok (), m\<lparr>pm_peers := AList.update (pi_peer_id peer) peer (pm_peers m)\<rparr>))"

definition remove_peer :: "string \<Rightarrow> peer_manager \<Rightarrow> peer_manager" where
  "remove_peer peer_id m = m\<lparr>pm_peers := AList.delete peer_id (pm_peers m)\<rparr>"

definition get_peer :: "string \<Rightarrow> peer_manager \<Rightarrow> peer_info option" where
  "get_peer peer_id m = map_of (pm_peers m) peer_id"

definition update_peer :: "string \<Rightarrow> (peer_info \<Rightarrow> peer_info) \<Rightarrow> peer_manager \<Rightarrow> peer_manager" where
  "update_peer peer_id f m =
     (case map_of (pm_peers m) peer_id of
        None \<Rightarrow> m | Some p \<Rightarrow> m\<lparr>pm_peers := AList.update peer_id (f p) (pm_peers m)\<rparr>)"

definition peer_count :: "peer_manager \<Rightarrow> nat" where
  "peer_count m = length (pm_peers m)"

definition all_peers :: "peer_manager \<Rightarrow> peer_info list" where
  "all_peers m = map snd (pm_peers m)"

definition active_peers :: "peer_manager \<Rightarrow> peer_info list" where
  "active_peers m = filter (\<lambda>p. pi_state p = PeerActive) (map snd (pm_peers m))"

text \<open>\<open>max_by_key\<close>: the last of the greatest elements.\<close>

fun max_by_key :: "('a \<Rightarrow> 'b :: linorder) \<Rightarrow> 'a list \<Rightarrow> 'a option" where
  "max_by_key key [] = None"
| "max_by_key key (x # xs) =
     (case max_by_key key xs of None \<Rightarrow> Some x | Some y \<Rightarrow> if key x > key y then Some x else Some y)"

definition best_peer :: "peer_manager \<Rightarrow> peer_info option" where
  "best_peer m = max_by_key pi_total_difficulty (active_peers m)"

definition ban_peer :: "string \<Rightarrow> u64 \<Rightarrow> u64 \<Rightarrow> peer_manager \<Rightarrow> peer_manager" where
  "ban_peer peer_id duration_secs now m =
     remove_peer peer_id (m\<lparr>pm_banned_peers := AList.update peer_id (now + duration_secs) (pm_banned_peers m)\<rparr>)"

text \<open>The difference of the times is taken modulo \<open>2 ^ 64\<close>.\<close>

definition cleanup_stale_peers :: "u64 \<Rightarrow> u64 \<Rightarrow> peer_manager \<Rightarrow> peer_manager" where
  "cleanup_stale_peers max_idle_secs now m =
     fold remove_peer (map pi_peer_id (filter (\<lambda>p. now - pi_last_seen p > max_idle_secs) (map snd (pm_peers m)))) m"

subsection \<open>Synchronization\<close>

datatype sync_state = Idle | FindingAncestor | DownloadingHeaders | DownloadingBlocks | Processing | Synced

record chain_sync =
  cs_state :: sync_state
  cs_target_height :: block_height
  cs_target_hash :: hash256
  cs_current_height :: block_height
  cs_pending_headers :: "hash256 list"
  cs_pending_blocks :: "hash256 list"
  cs_start_time :: u64

definition sync_new :: chain_sync where
  "sync_new = \<lparr>cs_state = Idle, cs_target_height = 0, cs_target_hash = replicate 32 0, cs_current_height = 0,
     cs_pending_headers = [], cs_pending_blocks = [], cs_start_time = 0\<rparr>"

definition is_syncing :: "chain_sync \<Rightarrow> bool" where
  "is_syncing s \<longleftrightarrow> cs_state s \<notin> {Idle, Synced}"

definition sync_progress :: "chain_sync \<Rightarrow> f64" where
  "sync_progress s =
     (if cs_target_height s = 0 then f64_one
      else f64_div (f64_of_nat (unat (cs_current_height s))) (f64_of_nat (unat (cs_target_height s))))"

definition start_sync :: "block_height \<Rightarrow> hash256 \<Rightarrow> u64 \<Rightarrow> chain_sync \<Rightarrow> chain_sync" where
  "start_sync target_height target_hash now s =
     s\<lparr>cs_state := FindingAncestor, cs_target_height := target_height, cs_target_hash := target_hash, cs_start_time := now\<rparr>"

definition set_current_height :: "block_height \<Rightarrow> chain_sync \<Rightarrow> chain_sync" where
  "set_current_height height s =
     (let s1 = s\<lparr>cs_current_height := height\<rparr>
      in if height \<ge> cs_target_height s1 then s1\<lparr>cs_state := Synced\<rparr> else s1)"

definition add_pending_header :: "hash256 \<Rightarrow> chain_sync \<Rightarrow> chain_sync" where
  "add_pending_header h s = s\<lparr>cs_pending_headers := cs_pending_headers s @ [h]\<rparr>"

definition add_pending_block :: "hash256 \<Rightarrow> chain_sync \<Rightarrow> chain_sync" where
  "add_pending_block h s = s\<lparr>cs_pending_blocks := cs_pending_blocks s @ [h]\<rparr>"

definition pop_front :: "'a list \<Rightarrow> 'a option \<times> 'a list" where
  "pop_front xs = (case xs of [] \<Rightarrow> (None, []) | x # ys \<Rightarrow> (Some x, ys))"

definition next_header_to_fetch :: "chain_sync \<Rightarrow> hash256 option \<times> chain_sync" where
  "next_header_to_fetch s = (let (h, rest) = pop_front (cs_pending_headers s) in (h, s\<lparr>cs_pending_headers := rest\<rparr>))"

definition next_block_to_fetch :: "chain_sync \<Rightarrow> hash256 option \<times> chain_sync" where
  "next_block_to_fetch s = (let (h, rest) = pop_front (cs_pending_blocks s) in (h, s\<lparr>cs_pending_blocks := rest\<rparr>))"

definition sync_pending_count :: "chain_sync \<Rightarrow> nat" where
  "sync_pending_count s = length (cs_pending_headers s) + length (cs_pending_blocks s)"

definition sync_reset :: "chain_sync \<Rightarrow> chain_sync" where
  "sync_reset s = s\<lparr>cs_state := Idle, cs_pending_headers := [], cs_pending_blocks := []\<rparr>"

subsection \<open>Reachable peer managers\<close>

declare map_of_eq_Some_iff [simp del] Some_eq_map_of_iff [simp del]

text \<open>One call that returns. The function given to \<open>update_peer\<close> is any.\<close>

inductive peers_step :: "peer_manager \<Rightarrow> peer_manager \<Rightarrow> bool" where
  step_add: "add_peer p now m = Some (r, m') \<Longrightarrow> peers_step m m'"
| step_remove: "peers_step m (remove_peer k m)"
| step_update: "peers_step m (update_peer k f m)"
| step_ban: "peers_step m (ban_peer k d now m)"
| step_cleanup: "peers_step m (cleanup_stale_peers idle now m)"

definition peers_ok :: "peer_manager \<Rightarrow> bool" where
  "peers_ok m \<longleftrightarrow> length (pm_peers m) \<le> pm_max_peers m \<and> distinct (map fst (pm_peers m))
     \<and> (\<forall>k. map_of (pm_banned_peers m) k \<noteq> None \<longrightarrow> map_of (pm_peers m) k = None)"

lemma length_update_le: "length (AList.update k v al) \<le> Suc (length al)"
  by (induction al) auto

lemma length_update_same: "map_of al k \<noteq> None \<Longrightarrow> length (AList.update k v al) = length al"
  by (induction al) (auto split: if_splits)

lemma length_delete_le_alist: "length (AList.delete k al) \<le> length al"
  by (simp add: AList.delete_eq)

lemma remove_peer_ok: "peers_ok m \<Longrightarrow> peers_ok (remove_peer k m)"
  using length_delete_le_alist [of k "pm_peers m"]
  by (auto simp: peers_ok_def remove_peer_def map_of_delete_apply distinct_delete intro: order_trans)

lemma remove_peer_keeps [simp]:
  "pm_banned_peers (remove_peer k m) = pm_banned_peers m" "pm_max_peers (remove_peer k m) = pm_max_peers m"
  by (simp_all add: remove_peer_def)

lemma remove_peers: "peers_ok m \<Longrightarrow> peers_ok (fold remove_peer ks m)"
  "pm_banned_peers (fold remove_peer ks m) = pm_banned_peers m" "pm_max_peers (fold remove_peer ks m) = pm_max_peers m"
  by (induction ks arbitrary: m) (auto simp: remove_peer_ok)

lemma update_peer_ok: "peers_ok m \<Longrightarrow> peers_ok (update_peer k f m)"
  by (auto simp: peers_ok_def update_peer_def map_of_update_apply distinct_update length_update_same split: option.split)

lemma ban_peer_ok: "peers_ok m \<Longrightarrow> peers_ok (ban_peer k d now m)"
  using length_delete_le_alist [of k "pm_peers m"]
  by (auto simp: peers_ok_def ban_peer_def remove_peer_def map_of_delete_apply map_of_update_apply distinct_delete intro: order_trans)

lemma add_peer_ok:
  assumes "peers_ok m" and "add_peer p now m = Some (r, m')"
  shows "peers_ok m' \<and> pm_banned_peers m' = pm_banned_peers m \<and> pm_max_peers m' = pm_max_peers m"
proof (cases "m' = m")
  case False
  with assms(2) have m': "m' = m\<lparr>pm_peers := AList.update (pi_peer_id p) p (pm_peers m)\<rparr>"
    and room: "length (pm_peers m) < pm_max_peers m" and free: "map_of (pm_banned_peers m) (pi_peer_id p) = None"
    by (auto simp: add_peer_def is_banned_def not_le split: if_splits option.splits bool.splits)
  show ?thesis using assms(1) room free length_update_le [of "pi_peer_id p" p "pm_peers m"]
    by (auto simp: m' peers_ok_def map_of_update_apply distinct_update)
qed (simp add: assms(1))

lemma peers_step_ok:
  assumes "peers_step m m'" and "peers_ok m"
  shows "peers_ok m' \<and> pm_max_peers m' = pm_max_peers m
    \<and> (\<forall>k. map_of (pm_banned_peers m) k \<noteq> None \<longrightarrow> map_of (pm_banned_peers m') k \<noteq> None)"
  using assms(1)
proof (cases rule: peers_step.cases)
  case (step_add p now r)
  then show ?thesis using add_peer_ok [OF assms(2)] by simp
next
  case (step_remove k)
  then show ?thesis using remove_peer_ok [OF assms(2)] by simp
next
  case (step_update k f)
  then show ?thesis using update_peer_ok [OF assms(2)] by (auto simp: update_peer_def split: option.split)
next
  case (step_ban k d now)
  then show ?thesis using ban_peer_ok [OF assms(2)] by (simp add: ban_peer_def map_of_update_apply)
next
  case (step_cleanup idle now)
  then show ?thesis using remove_peers(1) [OF assms(2)] remove_peers(2,3) by (simp add: cleanup_stale_peers_def)
qed

lemma peers_steps_ok:
  "peers_step\<^sup>*\<^sup>* m m' \<Longrightarrow> peers_ok m \<Longrightarrow> peers_ok m' \<and> pm_max_peers m' = pm_max_peers m
    \<and> (\<forall>k. map_of (pm_banned_peers m) k \<noteq> None \<longrightarrow> map_of (pm_banned_peers m') k \<noteq> None)"
proof (induction rule: rtranclp_induct)
  case (step y z)
  then show ?case using peers_step_ok [OF step.hyps(2)] by simp
qed simp

lemma peers_new_ok: "peers_ok (peers_new n)"
  by (simp add: peers_ok_def peers_new_def)

lemma max_by_key_Some:
  "max_by_key key xs = Some x \<Longrightarrow> x \<in> set xs \<and> (\<forall>y \<in> set xs. key y \<le> key x)"
proof (induction xs arbitrary: x)
  case (Cons y ys)
  show ?case
  proof (cases "max_by_key key ys")
    case None
    then have "ys = []" by (cases ys) (auto split: option.splits if_splits)
    with Cons.prems show ?thesis by simp
  next
    case (Some z)
    with Cons.IH [OF Some] Cons.prems show ?thesis by (auto split: if_splits)
  qed
qed simp

lemma max_by_key_None: "max_by_key key xs = None \<longleftrightarrow> xs = []"
  by (cases xs) (auto split: option.splits)

subsection \<open>Reachable synchronizers\<close>

inductive sync_step :: "chain_sync \<Rightarrow> chain_sync \<Rightarrow> bool" where
  sync_start: "sync_step s (start_sync h hash now s)"
| sync_height: "sync_step s (set_current_height h s)"
| sync_header: "sync_step s (add_pending_header hash s)"
| sync_block: "sync_step s (add_pending_block hash s)"
| sync_next_header: "sync_step s (snd (next_header_to_fetch s))"
| sync_next_block: "sync_step s (snd (next_block_to_fetch s))"
| sync_stop: "sync_step s (sync_reset s)"

inductive_cases sync_stepE: "sync_step s t"

lemma sync_states: "sync_step\<^sup>*\<^sup>* sync_new s \<Longrightarrow> cs_state s \<in> {Idle, FindingAncestor, Synced}"
proof (induction rule: rtranclp_induct)
  case (step s t)
  from step.hyps(2) step.IH show ?case
    by (elim sync_stepE) (auto simp: start_sync_def set_current_height_def add_pending_header_def add_pending_block_def
        next_header_to_fetch_def next_block_to_fetch_def sync_reset_def Let_def split: prod.splits)
qed (simp add: sync_new_def)

lemma f64_div_ge_one:
  assumes "b \<le> a" and "0 < b"
  shows "f64_one \<le> f64_div (f64_of_nat a) (f64_of_nat b)"
proof -
  let ?x = "f64_of_nat a * f64_one div f64_of_nat b"
  have pos: "0 < f64_of_nat b" using round53_range(1) [OF assms(2), of False] by (simp add: f64_of_nat_def f64_one_def) (metis gr0I less_numeral_extra(3) not_le zero_less_numeral zero_less_power)
  have "f64_of_nat b \<le> f64_of_nat a" using round53_mono [OF assms(1)] by (simp add: f64_of_nat_def)
  then have "f64_of_nat b * f64_one div f64_of_nat b \<le> ?x" by (intro div_le_mono mult_le_mono1)
  then have ge: "2 ^ 128 \<le> ?x" using pos by (simp add: f64_one_def)
  then have x: "0 < ?x" by (rule order_less_le_trans [rotated]) simp
  have "(2::nat) ^ 128 < 2 ^ bit_len ?x" using ge bit_len_bounds(1) [of ?x] by (rule order_le_less_trans)
  then have "128 < bit_len ?x" by (rule power_less_imp_less_exp [rotated]) simp
  then have "128 \<le> bit_len ?x - 1" by simp
  then have "(2::nat) ^ 128 \<le> 2 ^ (bit_len ?x - 1)" by (rule power_increasing) simp
  with round53_range(1) [OF x] show ?thesis unfolding f64_div_def f64_one_def by (meson order_trans)
qed

subsection \<open>Properties\<close>

text \<open>C39: The peer manager keeps its bound and its bans apart. After any sequence of calls that return, a manager for \<open>n\<close> peers
  holds at most \<open>n\<close>, each under one key, none of them banned; the best peer exists exactly when some
  peer is active, and is an active peer of the greatest total difficulty.\<close>

theorem peers_stay_bounded:
  assumes "peers_step\<^sup>*\<^sup>* (peers_new n) m"
  shows "peer_count m \<le> n \<and> distinct (map fst (pm_peers m))
    \<and> (\<forall>k. map_of (pm_banned_peers m) k \<noteq> None \<longrightarrow> get_peer k m = None)
    \<and> (best_peer m = None \<longleftrightarrow> active_peers m = [])
    \<and> (\<forall>p. best_peer m = Some p \<longrightarrow> p \<in> set (active_peers m)
          \<and> (\<forall>q \<in> set (active_peers m). pi_total_difficulty q \<le> pi_total_difficulty p))"
proof -
  have "peers_ok m" "pm_max_peers m = n" using peers_steps_ok [OF assms peers_new_ok] by (simp_all add: peers_new_def)
  moreover have "best_peer m = None \<longleftrightarrow> active_peers m = []" by (simp add: best_peer_def max_by_key_None)
  moreover have "p \<in> set (active_peers m) \<and> (\<forall>q \<in> set (active_peers m). pi_total_difficulty q \<le> pi_total_difficulty p)"
    if "best_peer m = Some p" for p using max_by_key_Some [OF that [unfolded best_peer_def]] by blast
  ultimately show ?thesis by (simp add: peers_ok_def peer_count_def get_peer_def)
qed

theorem peers_stay_bounded_witness:
  "peer_count (update_peer ''p'' (update_status 9 [] 5 1) (peers_new 2)) \<le> 2"
proof -
  have "peers_step\<^sup>*\<^sup>* (peers_new 2) (update_peer ''p'' (update_status 9 [] 5 1) (peers_new 2))"
    by (rule r_into_rtranclp) (rule step_update)
  from peers_stay_bounded [OF this] show ?thesis by blast
qed

text \<open>A ban never ends. Once a peer is banned, in every state reached by calls that return it is not among the
  peers, and it is never added again, whatever the clock says: before the expiry the
  call reports the ban, and from the expiry on, when there is room for a peer, both the question whether it is banned and
  the attempt to add it block, because the entry is removed while it is borrowed.\<close>

theorem expired_ban_blocks:
  assumes "peers_step\<^sup>*\<^sup>* (peers_new n) m" and "peers_step\<^sup>*\<^sup>* (ban_peer k duration banned_at m) m'" and "pi_peer_id p = k"
  shows "get_peer k m' = None
    \<and> (\<forall>r m2. add_peer p now m' = Some (r, m2) \<longrightarrow> \<not> is_ok r \<and> m2 = m')
    \<and> (\<exists>expiry. map_of (pm_banned_peers m') k = Some expiry
        \<and> (expiry \<le> now \<longrightarrow> is_banned k now m' = None \<and> (peer_count m' < n \<longrightarrow> add_peer p now m' = None)))"
proof -
  have m: "peers_ok m" "pm_max_peers m = n" using peers_steps_ok [OF assms(1) peers_new_ok] by (simp_all add: peers_new_def)
  have "map_of (pm_banned_peers (ban_peer k duration banned_at m)) k \<noteq> None" "pm_max_peers (ban_peer k duration banned_at m) = n"
    using m(2) by (simp_all add: ban_peer_def map_of_update_apply)
  with peers_steps_ok [OF assms(2) ban_peer_ok [OF m(1)]] obtain expiry
    where e: "map_of (pm_banned_peers m') k = Some expiry" and m': "peers_ok m'" "pm_max_peers m' = n" by auto
  then have "get_peer k m' = None" by (simp add: peers_ok_def get_peer_def)
  moreover have "\<not> is_ok r \<and> m2 = m'" if "add_peer p now m' = Some (r, m2)" for r m2
    using that e assms(3) by (auto simp: add_peer_def is_banned_def split: if_splits option.splits bool.splits)
  moreover have "is_banned k now m' = None \<and> (peer_count m' < n \<longrightarrow> add_peer p now m' = None)" if "expiry \<le> now"
    using that e assms(3) m'(2) by (simp add: add_peer_def is_banned_def peer_count_def not_less)
  ultimately show ?thesis using e by blast
qed

theorem expired_ban_blocks_witness:
  "add_peer (peer_new ''p'' [] 0) 5 (ban_peer ''p'' 0 0 (peers_new 1)) = None"
  using expired_ban_blocks [of 1 "peers_new 1" "''p''" 0 0 "ban_peer ''p'' 0 0 (peers_new 1)" "peer_new ''p'' [] 0" 5]
  by (simp add: peer_new_def ban_peer_def peers_new_def peer_count_def remove_peer_def)

text \<open>The handshake compares version, network and chain and nothing else. A greeting is accepted exactly when these
  three agree; so two nodes with the same numbers accept each other with different
  genesis blocks.\<close>

theorem handshake_ignores_genesis:
  "(validate_hello hello p = Ok () \<longleftrightarrow>
      hm_protocol_version hello = np_protocol_version p \<and> hm_network_id hello = np_network_id p \<and> hm_chain_id hello = np_chain_id p)
    \<and> (\<exists>h. create_hello genesis height best d (network_protocol_new net chain) = Hello h \<and> hm_genesis_hash h = genesis
        \<and> (validate_hello h (network_protocol_new net' chain') = Ok () \<longleftrightarrow> net = net' \<and> chain = chain'))"
  by (simp add: validate_hello_def create_hello_def network_protocol_new_def)

text \<open>C40: The synchronizer knows three states. It is idle, looks for the ancestor or is synced, and never enters the
  states for downloading and processing; it is synced as soon as the height reaches the target, with a progress of at least
  one, even after a reset; and it stays synced when the height falls below the target again.\<close>

theorem sync_never_downloads:
  assumes "sync_step\<^sup>*\<^sup>* sync_new s"
  shows "cs_state s \<in> {Idle, FindingAncestor, Synced} \<and> (is_syncing s \<longleftrightarrow> cs_state s = FindingAncestor)
    \<and> (cs_target_height s \<le> h \<longrightarrow> cs_state (set_current_height h s) = Synced
        \<and> cs_state (set_current_height h (sync_reset s)) = Synced \<and> f64_one \<le> sync_progress (set_current_height h s))
    \<and> (h < cs_target_height s \<longrightarrow> cs_state (set_current_height h s) = cs_state s)"
proof -
  have "f64_one \<le> sync_progress (set_current_height h s)" if "cs_target_height s \<le> h"
    using that f64_div_ge_one [of "unat (cs_target_height s)" "unat h"]
    by (simp add: sync_progress_def set_current_height_def Let_def word_le_nat_alt unat_gt_0)
  moreover have "is_syncing s \<longleftrightarrow> cs_state s = FindingAncestor" using sync_states [OF assms] by (auto simp: is_syncing_def)
  ultimately show ?thesis using sync_states [OF assms] by (simp add: set_current_height_def sync_reset_def Let_def not_le [symmetric])
qed

theorem sync_never_downloads_witness:
  "cs_state (set_current_height 3 (start_sync 5 [] 0 (set_current_height 7 sync_new))) = FindingAncestor
   \<and> f64_one \<le> sync_progress (set_current_height 7 (start_sync 5 [] 0 sync_new))"
proof -
  have "sync_step\<^sup>*\<^sup>* sync_new (start_sync 5 [] 0 sync_new)" by (rule r_into_rtranclp) (rule sync_start)
  from sync_never_downloads [OF this, of 7] show ?thesis by (simp add: start_sync_def sync_new_def set_current_height_def Let_def)
qed

end
