(* ===== verification/Fry_Pact_Eval.thy ===== *)
theory Fry_Pact_Eval
  imports Fry_Pact
begin

text \<open>
  How concrete Pact programs are evaluated by the simplifier: the equations of the recursive parsers and of the evaluator
  applied to a state, and congruences that keep continuations untouched until their argument is known. Witnesses use
  \<open>simp add: pact_evals cong: pact_congs\<close>.
\<close>

named_theorems pact_evals \<open>evaluation of the parser and the evaluator on concrete programs\<close>

lemma bindN_weak_cong: "m = m' \<Longrightarrow> bindN m f = bindN m' f"
  by simp

lemma thenN_weak_cong: "m = m' \<Longrightarrow> thenN m f = thenN m' f"
  by simp

lemma bindM_weak_cong: "m = m' \<Longrightarrow> bindM m f = bindM m' f"
  by simp

lemma thenM_weak_cong: "m = m' \<Longrightarrow> thenM m f = thenM m' f"
  by simp

lemma bindR_weak_cong: "m = m' \<Longrightarrow> bindR m f = bindR m' f"
  by simp

lemmas pact_congs = bindN_weak_cong thenN_weak_cong bindM_weak_cong thenM_weak_cong bindR_weak_cong if_weak_cong
  option.case_cong_weak outcome.case_cong_weak prod.case_cong_weak pact_expr.case_cong_weak pact_value.case_cong_weak

lemma bindN_eval [pact_evals]:
  "bindN m f s = (case m s of
      None \<Rightarrow> None
    | Some (r, s') \<Rightarrow> (case r of Ok x \<Rightarrow> f x s' | Err e \<Rightarrow> Some (Err e, s') | Panic \<Rightarrow> Some (Panic, s')))"
  by (simp add: bindN_def)

lemma thenN_eval [pact_evals]: "thenN m k s = bindN m (\<lambda>_. k) s"
  by (simp add: thenN_def)

lemma run_prog_eval [pact_evals]: "run_prog m s = Some (m s)"
  by (simp add: run_prog_def)

lemma retN_eval [pact_evals]: "retN x s = Some (Ok x, s)"
  by (simp add: retN_def run_prog_def ret_def)

lemma failN_eval [pact_evals]: "failN e s = Some (Err e, s)"
  by (simp add: failN_def run_prog_def fail_def)

lemma mapN_eval [pact_evals]: "mapN g m s = bindN m (\<lambda>x. retN (g x)) s"
  by (simp add: mapN_def)

lemma caught_eval [pact_evals]:
  "caught m s = (case m s of
      None \<Rightarrow> None
    | Some (r, s') \<Rightarrow> (case r of Ok x \<Rightarrow> Some (Ok (Ok x), s') | Err e \<Rightarrow> Some (Ok (Err e), s') | Panic \<Rightarrow> Some (Panic, s')))"
  by (simp add: caught_def)

lemma result_of_eval [pact_evals]: "result_of m s = mapN Ok m s"
  by (simp add: result_of_def)

lemma bindM_eval [pact_evals]:
  "bindM q g s = (case q s of (Ok x, s') \<Rightarrow> g x s' | (Err e, s') \<Rightarrow> (Err e, s') | (Panic, s') \<Rightarrow> (Panic, s'))"
  by (simp add: bindM_apply split: prod.split outcome.split)

lemma thenM_eval [pact_evals]: "thenM q k s = bindM q (\<lambda>_. k) s"
  by (simp add: thenM_apply bindM_apply split: prod.split outcome.split)

lemma ret_eval [pact_evals]: "ret x s = (Ok x, s)"
  by (simp add: ret_def)

lemma fail_eval [pact_evals]: "fail e s = (Err e, s)"
  by (simp add: fail_def)

lemma gets_eval [pact_evals]: "gets h s = (Ok (h s), s)"
  by (simp add: gets_def)

lemma modify_eval [pact_evals]: "modify t s = (Ok (), t s)"
  by (simp add: modify_def)

lemma lift_out_eval [pact_evals]: "lift_out r s = (r, s)"
  by (simp add: lift_out_def)

text \<open>A choice between programs, applied to a state.\<close>

lemma choice_evals [pact_evals]: "(if b then m else m') s = (if b then m s else m' s)"
  by simp

lemma loop_evals [pact_evals]:
  "until_close inp item (Suc n) pos = bindN (run_prog (next_char inp)) (\<lambda>ch.
       if ch = '')'' then thenN (run_prog advance) (retN [])
       else bindN item (\<lambda>x. bindN (until_close inp item n) (\<lambda>xs. retN (x # xs)))) pos"
  "skip_docs inp (Suc n) pos = bindN (run_prog (peek_str inp ''@'')) (\<lambda>at.
       if at then thenN (run_prog (thenM (skip_until inp (CHR '')'')) (thenM advance (skip_whitespace inp)))) (skip_docs inp n)
       else retN ()) pos"
  "skip_annotations inp (Suc n) pos = bindN (run_prog (peek_str inp ''@'')) (\<lambda>at.
     bindN (run_prog (current_char inp)) (\<lambda>ch.
       if at \<or> ch = [CHR 0x22] then
         thenN (if ch = [CHR 0x22] then run_prog (thenM (parse_string_value inp) (ret ())) else run_prog (skip_annotation inp))
         (thenN (run_prog (skip_whitespace inp)) (skip_annotations inp n))
       else retN ())) pos"
  "parse_all_loop inp fuel (Suc n) pos = bindN (run_prog (gets (\<lambda>pos. pos < length inp))) (\<lambda>more.
       if \<not> more then retN []
       else thenN (run_prog (skip_whitespace inp))
         (bindN (run_prog (gets (\<lambda>pos. pos \<ge> length inp))) (\<lambda>at_end.
           if at_end then retN []
           else bindN (parse_expr inp fuel) (\<lambda>e. bindN (parse_all_loop inp fuel n) (\<lambda>es. retN (e # es)))))) pos"
  "parse_expr inp (Suc n) pos = thenN (run_prog (skip_whitespace inp))
     (bindN (run_prog (gets (\<lambda>pos. pos \<ge> length inp))) (\<lambda>at_end.
       if at_end then failN (ExecutionError ''Unexpected end of input'')
       else bindN (run_prog (current_char inp)) (\<lambda>ch.
         if ch = ''('' then parse_list inp (parse_expr inp n) n
         else if ch = [CHR 0x22] then run_prog (parse_string inp)
         else if ch = [CHR 0x27] then
           thenN (run_prog advance) (bindN (parse_expr inp n) (\<lambda>e. retN (EApp (ESymbol ''quote'') [e])))
         else if ch = ''-'' \<or> list_all is_digit ch then run_prog (parse_number inp)
         else run_prog (parse_symbol inp)))) pos"
  by simp_all

lemma fuel_evals [pact_evals]:
  "until_close inp item (numeral k) pos = until_close inp item (Suc (pred_numeral k)) pos"
  "skip_docs inp (numeral k) pos = skip_docs inp (Suc (pred_numeral k)) pos"
  "skip_annotations inp (numeral k) pos = skip_annotations inp (Suc (pred_numeral k)) pos"
  "parse_all_loop inp fuel (numeral k) pos = parse_all_loop inp fuel (Suc (pred_numeral k)) pos"
  "parse_expr inp (numeral k) pos = parse_expr inp (Suc (pred_numeral k)) pos"
  "pact_eval L (numeral k) e s = pact_eval L (Suc (pred_numeral k)) e s"
  by (simp_all only: numeral_eq_Suc)

lemma eval_evals [pact_evals]:
  "pact_eval L (Suc n) e s = thenN (run_prog eval_enter) (bindN (eval_arm L (pact_eval L n) e) (\<lambda>result.
       thenN (run_prog (modify (\<lambda>s. s\<lparr>pv_depth := pv_depth s - 1\<rparr>))) (run_prog (lift_out result)))) s"
  "eval_list ev [] t = Some (Ok [], t)"
  "eval_list ev (x # xs) t = bindN (ev x) (\<lambda>v. bindN (eval_list ev xs) (\<lambda>vs. retN (v # vs))) t"
  "eval_all L v [] s = Some (Ok v, s)"
  "eval_all L v (e # es) s = bindN (pact_eval L eval_fuel e) (\<lambda>v. eval_all L v es) s"
  by (simp_all add: retN_def run_prog_def ret_def)

declare until_close.simps [simp del] skip_docs.simps [simp del] skip_annotations.simps [simp del] parse_all_loop.simps [simp del]
  parse_expr.simps [simp del] pact_eval.simps [simp del] eval_list.simps [simp del] eval_all.simps [simp del]

lemmas character_evals [pact_evals] = is_whitespace_def is_continuation_def byte_of_def char_width_def is_digit_def digit_of_def
  between_def starts_with_def substring_def ends_symbol_def pred_numeral_simps

lemmas parser_evals [pact_evals] = parse_all_def parse_fuel_def skip_whitespace.simps scan.simps skip_annotation.simps
  string_loop.simps skip_until_def current_char_def peek_str_def advance_def expect_char_def next_char_def on_boundary_def
  parse_symbol_name_def parse_symbol_def parse_string_def parse_string_value_def unescape_def parse_number_def number_value_def
  parse_i128_def digits_int_def symbol_next_def expect_next_def

lemmas form_evals [pact_evals] = parse_list_def parse_app_def special_form_def parse_module_def parse_param_def parse_params_def
  parse_body_def parse_defun_def parse_defcap_def parse_field_def parse_defschema_def parse_deftable_def parse_binding_def
  parse_let_def parse_lambda_def parse_next_def parse_if_def parse_cap_call_def parse_with_capability_def
  parse_require_capability_def parse_enforce_def parse_enforce_guard_def parse_read_def parse_write_def parse_doc_def

lemmas execution_evals [pact_evals] = pact_execute_def parse_and_execute_def pact_parse_def

subsection \<open>Steps of the evaluator\<close>

text \<open>An evaluation that has depth and gas left charges the base cost and runs the arm one level deeper.\<close>

definition gas_left :: "gas_meter \<Rightarrow> nat" where
  "gas_left m = unat (gm_limit m) - unat (gm_used m)"

definition spent :: "u64 \<Rightarrow> pact_vm \<Rightarrow> pact_vm" where
  "spent g s = s\<lparr>pv_gas := (pv_gas s)\<lparr>gm_used := gm_used (pv_gas s) + g\<rparr>\<rparr>"

definition charged :: "pact_vm \<Rightarrow> pact_vm" where
  "charged s = spent GAS_BASE (s\<lparr>pv_depth := pv_depth s + 1\<rparr>)"

definition left_level :: "pact_vm \<Rightarrow> pact_vm" where
  "left_level s = s\<lparr>pv_depth := pv_depth s - 1\<rparr>"

lemma gas_step:
  assumes "unat g \<le> gas_left m" and "gm_used m \<le> gm_limit m"
  shows "unat (gm_used m + g) = unat (gm_used m) + unat g" "saturating_add (gm_used m) g = gm_used m + g"
    "gm_used m + g \<le> gm_limit m"
proof -
  have less: "unat (gm_used m) + unat g \<le> unat (gm_limit m)"
    using assms by (simp add: gas_left_def word_le_nat_alt)
  also have "\<dots> < 2 ^ LENGTH(64)" by (rule unsigned_less)
  finally have small: "unat (gm_used m) + unat g < 2 ^ LENGTH(64)" .
  then show sum: "unat (gm_used m + g) = unat (gm_used m) + unat g" by (rule unat_add_no_wrap)
  show "saturating_add (gm_used m) g = gm_used m + g" using small by (simp add: saturating_add_def)
  show "gm_used m + g \<le> gm_limit m" using less sum by (simp add: word_le_nat_alt)
qed

text \<open>\<open>fuelled n s\<close>: \<open>n\<close> units of gas are left.\<close>

definition fuelled :: "nat \<Rightarrow> pact_vm \<Rightarrow> bool" where
  "fuelled n s \<longleftrightarrow> n \<le> gas_left (pv_gas s) \<and> gm_used (pv_gas s) \<le> gm_limit (pv_gas s)"

lemma charge_ok: "fuelled n s \<Longrightarrow> unat g \<le> n \<Longrightarrow> pv_charge g s = (Ok (), spent g s)"
  using gas_step(2,3) [of g "pv_gas s"]
  by (simp add: fuelled_def pv_charge_def consume_def spent_def Let_def not_less)

lemma fuelled_spent: "fuelled n s \<Longrightarrow> unat g \<le> n \<Longrightarrow> fuelled (n - unat g) (spent g s)"
  using gas_step [of g "pv_gas s"] by (simp add: fuelled_def spent_def gas_left_def) arith

lemma enter_ok: "pv_depth s < MAX_RECURSION_DEPTH \<Longrightarrow> fuelled n s \<Longrightarrow> 2 \<le> n \<Longrightarrow> eval_enter s = (Ok (), charged s)"
  using charge_ok [of n "s\<lparr>pv_depth := pv_depth s + 1\<rparr>" GAS_BASE]
  by (simp add: eval_enter_def charged_def GAS_BASE_def fuelled_def Let_def)

lemma fuelled_charged: "fuelled n s \<Longrightarrow> 2 \<le> n \<Longrightarrow> fuelled (n - 2) (charged s)"
  using fuelled_spent [of n "s\<lparr>pv_depth := pv_depth s + 1\<rparr>" GAS_BASE]
  by (simp add: charged_def GAS_BASE_def fuelled_def)

lemma eval_step:
  assumes "pv_depth s < MAX_RECURSION_DEPTH" and "fuelled m s" and "2 \<le> m"
    and "eval_arm L (pact_eval L n) e (charged s) = Some (Ok r, s')"
  shows "pact_eval L (Suc n) e s = Some (r, left_level s')"
  using assms(4) by (simp add: eval_evals(1) thenN_eval bindN_eval run_prog_eval enter_ok [OF assms(1-3)] modify_eval lift_out_eval
      left_level_def split: outcome.split)

lemma eval_step_error:
  assumes "pv_depth s < MAX_RECURSION_DEPTH" and "fuelled m s" and "2 \<le> m"
    and "eval_arm L (pact_eval L n) e (charged s) = Some (Err x, s')"
  shows "pact_eval L (Suc n) e s = Some (Err x, s')"
  using assms(4) by (simp add: eval_evals(1) thenN_eval bindN_eval run_prog_eval enter_ok [OF assms(1-3)])

lemma eval_step_panic:
  assumes "pv_depth s < MAX_RECURSION_DEPTH" and "fuelled m s" and "2 \<le> m"
    and "eval_arm L (pact_eval L n) e (charged s) = Some (Panic, s')"
  shows "pact_eval L (Suc n) e s = Some (Panic, s')"
  using assms(4) by (simp add: eval_evals(1) thenN_eval bindN_eval run_prog_eval enter_ok [OF assms(1-3)])

lemma charged_simps [simp]:
  "pv_env (charged s) = pv_env s" "pv_functions (charged s) = pv_functions s" "pv_capabilities (charged s) = pv_capabilities s"
  "pv_active_caps (charged s) = pv_active_caps s" "pv_granted_caps (charged s) = pv_granted_caps s"
  "pv_tables (charged s) = pv_tables s" "pv_current_module (charged s) = pv_current_module s" "pv_depth (charged s) = Suc (pv_depth s)"
  by (simp_all add: charged_def spent_def)

lemma left_level_simps [simp]:
  "pv_env (left_level s) = pv_env s" "pv_functions (left_level s) = pv_functions s" "pv_capabilities (left_level s) = pv_capabilities s"
  "pv_active_caps (left_level s) = pv_active_caps s" "pv_granted_caps (left_level s) = pv_granted_caps s"
  "pv_tables (left_level s) = pv_tables s" "pv_current_module (left_level s) = pv_current_module s"
  "pv_depth (left_level s) = pv_depth s - 1" "pv_gas (left_level s) = pv_gas s"
  by (simp_all add: left_level_def)

lemma spent_simps [simp]:
  "pv_env (spent g s) = pv_env s" "pv_active_caps (spent g s) = pv_active_caps s" "pv_tables (spent g s) = pv_tables s"
  "pv_depth (spent g s) = pv_depth s"
  by (simp_all add: spent_def)

lemma fuelled_simps [simp]:
  "fuelled n (left_level s) = fuelled n s" "fuelled n (s\<lparr>pv_active_caps := cs\<rparr>) = fuelled n s"
  "fuelled n (s\<lparr>pv_tables := ts\<rparr>) = fuelled n s" "fuelled n (s\<lparr>pv_capabilities := ps\<rparr>) = fuelled n s"
  "fuelled n (s\<lparr>pv_current_module := m\<rparr>) = fuelled n s"
  "fuelled n (s\<lparr>pv_modules := ms\<rparr>) = fuelled n s"
  by (simp_all add: fuelled_def)

lemma fuelled_new: "n \<le> unat (ec_gas_limit ctx) \<Longrightarrow> fuelled n (pact_new ctx)"
  by (simp add: fuelled_def gas_left_def pact_new_def meter_new_def)

lemma text_of_compiled: "text_of (str_bytes source) = (if valid_utf8 source then Some source else None)"
proof -
  have "char_of (unat (of_char c :: u8)) = c" for c :: char
  proof -
    have "(of_char c :: u8) = of_nat (of_char c)" by (simp only: of_nat_of_char)
    then show ?thesis by (simp add: unat_of_nat)
  qed
  then have "map (\<lambda>b. char_of (unat b)) (str_bytes source) = source"
    by (induction source) (simp_all add: str_bytes_def)
  then show ?thesis by (simp add: text_of_def)
qed

lemma execute_compiled:
  assumes "valid_utf8 source" and "input = []" and "parse_all source = Some (Ok es)"
  shows "pact_execute L (compile_pact source) input s =
    (case eval_all L PUnit es s of
       None \<Rightarrow> None
     | Some (Panic, s') \<Rightarrow> Some (Panic, s')
     | Some (Err e, s') \<Rightarrow> Some (Ok (vm_failure (gm_used (pv_gas s')) (vm_error_text e)), s')
     | Some (Ok v, s') \<Rightarrow> Some (Ok ((vm_success (gm_used (pv_gas s')) (value_to_bytes L v))
         \<lparr>vr_logs := pv_logs s', vr_state_changes := pv_state_changes s'\<rparr>), s'))"
  using assms by (simp add: pact_execute_def compile_pact_def PACT_MAGIC_def text_of_compiled parse_and_execute_def
      pact_parse_def bindN_eval retN_eval split: option.split outcome.split)

end
