(* ===== verification/Fry_Pact_Tables.thy ===== *)
theory Fry_Pact_Tables
  imports Fry_Pact_Runs Fry_Pact_Eval
begin

text \<open>
  What a Pact program can do with tables and capabilities. The parser and the built-in functions make no object value, so, with a
  sort that only rearranges its list, no run ever holds one: rows are never written, and every access to a table fails.
  A capability that is not found under the name of the call is granted.
\<close>

declare map_of_eq_Some_iff [simp del] Some_eq_map_of_iff [simp del]

subsection \<open>No objects\<close>

fun obj_free :: "pact_value \<Rightarrow> bool" where
  "obj_free (PObject _) = False"
| "obj_free (PList vs) = list_all obj_free vs"
| "obj_free (PCapability _ vs) = list_all obj_free vs"
| "obj_free (PGuard (CapabilityGuard _ vs)) = list_all obj_free vs"
| "obj_free _ = True"

fun lit_free :: "pact_expr \<Rightarrow> bool" where
  "lit_free (ELiteral v) = obj_free v"
| "lit_free (ESymbol _) = True"
| "lit_free (EApp f args) = (lit_free f \<and> list_all lit_free args)"
| "lit_free (ELet bs b) = (list_all (\<lambda>(n, e). lit_free e) bs \<and> lit_free b)"
| "lit_free (ELambda _ b) = lit_free b"
| "lit_free (EIf c t e) = (lit_free c \<and> lit_free t \<and> lit_free e)"
| "lit_free (EModule (PactModule n g i ds)) = list_all lit_free ds"
| "lit_free (EInterface _ es) = list_all lit_free es"
| "lit_free (EDefun _ _ b _) = lit_free b"
| "lit_free (EDefcap _ _ b) = lit_free b"
| "lit_free (EDefschema _ _) = True"
| "lit_free (EDeftable _ _) = True"
| "lit_free (EWithCapability _ args b) = (list_all lit_free args \<and> lit_free b)"
| "lit_free (ERequireCapability _ args) = list_all lit_free args"
| "lit_free (ERead _ k) = lit_free k"
| "lit_free (EWrite _ k v) = (lit_free k \<and> lit_free v)"
| "lit_free (EInsert _ k v) = (lit_free k \<and> lit_free v)"
| "lit_free (EUpdate _ k v) = (lit_free k \<and> lit_free v)"
| "lit_free (EEnforce c _) = lit_free c"
| "lit_free (EEnforceGuard g) = lit_free g"
| "lit_free (EProperty _ e) = lit_free e"

text \<open>The parser makes no object.\<close>

definition gives :: "('a \<Rightarrow> bool) \<Rightarrow> 'a parser \<Rightarrow> bool" where
  "gives Q m \<longleftrightarrow> (\<forall>p x p'. m p = Some (Ok x, p') \<longrightarrow> Q x)"

named_theorems gives_intros \<open>compositional rules for \<open>gives\<close>\<close>

lemma gives_bindN: "gives P m \<Longrightarrow> (\<And>x. P x \<Longrightarrow> gives Q (f x)) \<Longrightarrow> gives Q (bindN m f)"
  unfolding gives_def bindN_def by (fastforce split: option.splits outcome.splits)

lemma gives_any: "gives always m"
  by (simp add: gives_def)

lemma gives_bind_any [gives_intros]: "(\<And>x. gives Q (f x)) \<Longrightarrow> gives Q (bindN m f)"
  by (rule gives_bindN [OF gives_any]) simp

lemma gives_then [gives_intros]: "gives Q m' \<Longrightarrow> gives Q (thenN m m')"
  unfolding thenN_def by (rule gives_bind_any)

lemma gives_retN: "Q x \<Longrightarrow> gives Q (retN x)"
  by (simp add: gives_def retN_def run_prog_def ret_def)

lemma gives_if [gives_intros]: "gives Q m \<Longrightarrow> gives Q m' \<Longrightarrow> gives Q (if b then m else m')"
  by simp

lemma gives_until_close: "gives Q item \<Longrightarrow> gives (list_all Q) (until_close inp item n)"
proof (induction n)
  case (Suc n)
  have "gives (list_all Q) (bindN item (\<lambda>x. bindN (until_close inp item n) (\<lambda>xs. retN (x # xs))))"
    by (rule gives_bindN [OF Suc.prems], rule gives_bindN [OF Suc.IH [OF Suc.prems]]) (simp add: gives_retN)
  then show ?case by (auto intro!: gives_bind_any gives_then gives_retN)
qed (simp add: gives_def)

lemma gives_body: "gives Q pe \<Longrightarrow> gives Q (parse_body inp pe)"
  unfolding parse_body_def by (rule gives_then, erule gives_bindN) (simp add: gives_then gives_retN)

lemma gives_next: "gives Q pe \<Longrightarrow> gives Q (parse_next inp pe)"
  unfolding parse_next_def by (rule gives_then)

locale literal_parser =
  fixes pe :: "pact_expr parser"
  assumes pe: "gives lit_free pe"
begin

lemma gives_module: "gives lit_free (parse_module inp pe n)"
  unfolding parse_module_def
  by (rule gives_bind_any, rule gives_bind_any, rule gives_bind_any, rule gives_bind_any,
      rule gives_bindN [OF gives_until_close [OF pe]]) (simp add: gives_retN)

lemma gives_defun: "gives lit_free (parse_defun inp pe n)"
  unfolding parse_defun_def
  by (rule gives_bind_any, rule gives_bind_any, rule gives_bind_any, rule gives_then, rule gives_bind_any,
      rule gives_bindN [OF gives_body [OF pe]]) (simp add: gives_retN)

lemma gives_defcap: "gives lit_free (parse_defcap inp pe n)"
proof -
  have "gives lit_free (if ch = '')'' then thenN (run_prog advance) (retN (ELiteral (PBool True)))
      else bindN pe (\<lambda>b. thenN (expect_next inp (CHR '')'')) (retN b)))" for ch
    by (auto intro!: gives_then gives_retN gives_bindN [OF pe])
  note body = this
  show ?thesis unfolding parse_defcap_def
    by (rule gives_bind_any, rule gives_then, rule gives_bind_any, rule gives_then, rule gives_then, rule gives_bind_any,
        rule gives_bindN [OF body]) (simp add: gives_retN)
qed

lemma gives_defschema: "gives lit_free (parse_defschema inp n)"
  unfolding parse_defschema_def by (intro gives_bind_any gives_then) (simp add: gives_retN)

lemma gives_deftable: "gives lit_free (parse_deftable inp)"
  unfolding parse_deftable_def by (intro gives_bind_any gives_then gives_retN) simp

lemma gives_binding: "gives (\<lambda>(name, e). lit_free e) (parse_binding inp pe)"
  unfolding parse_binding_def
  by (rule gives_then, rule gives_bind_any, rule gives_bindN [OF gives_body [OF pe]]) (simp add: gives_retN)

lemma gives_let: "gives lit_free (parse_let inp pe n)"
  unfolding parse_let_def
  by (rule gives_then, rule gives_bindN [OF gives_until_close [OF gives_binding]], rule gives_bindN [OF gives_body [OF pe]])
    (simp add: gives_retN)

lemma gives_lambda: "gives lit_free (parse_lambda inp pe n)"
  unfolding parse_lambda_def
  by (rule gives_then, rule gives_bind_any, rule gives_bindN [OF gives_body [OF pe]]) (simp add: gives_retN)

lemma gives_parse_if: "gives lit_free (parse_if inp pe)"
proof -
  have "gives lit_free (if ch = '')'' then retN (ELiteral PUnit) else pe)" for ch using pe by (simp add: gives_retN)
  note body = this
  show ?thesis unfolding parse_if_def
    by (rule gives_bindN [OF gives_next [OF pe]], rule gives_bindN [OF gives_next [OF pe]], rule gives_bind_any,
        rule gives_bindN [OF body]) (simp add: gives_then gives_retN)
qed

lemma gives_cap_call: "gives (\<lambda>(c, args). list_all lit_free args) (parse_cap_call inp pe n)"
  unfolding parse_cap_call_def
  by (rule gives_then, rule gives_bind_any, rule gives_bindN [OF gives_until_close [OF pe]]) (simp add: gives_retN)

lemma gives_with_capability: "gives lit_free (parse_with_capability inp pe n)"
  unfolding parse_with_capability_def
  by (rule gives_bindN [OF gives_cap_call]) (auto intro!: gives_bindN [OF gives_body [OF pe]] gives_retN)

lemma gives_require_capability: "gives lit_free (parse_require_capability inp pe n)"
  unfolding parse_require_capability_def
  by (rule gives_bindN [OF gives_cap_call]) (auto intro!: gives_then gives_retN)

lemma gives_enforce: "gives lit_free (parse_enforce inp pe)"
  unfolding parse_enforce_def
  by (rule gives_bindN [OF gives_next [OF pe]], rule gives_bind_any) (simp add: gives_then gives_retN)

lemma gives_enforce_guard: "gives lit_free (parse_enforce_guard inp pe)"
  unfolding parse_enforce_guard_def by (rule gives_bindN [OF gives_body [OF pe]]) (simp add: gives_retN)

lemma gives_read: "gives lit_free (parse_read inp pe)"
  unfolding parse_read_def by (rule gives_bind_any, rule gives_bindN [OF gives_body [OF pe]]) (simp add: gives_retN)

lemma gives_write: "gives lit_free (parse_write inp pe op)"
  unfolding parse_write_def
  by (rule gives_bind_any, rule gives_bindN [OF gives_next [OF pe]], rule gives_bindN [OF gives_body [OF pe]])
    (simp add: gives_retN)

lemma gives_doc: "gives lit_free (parse_doc inp pe)"
  unfolding parse_doc_def by (rule gives_bind_any) (simp add: gives_retN)

lemma gives_app: "lit_free first \<Longrightarrow> gives lit_free (parse_app inp pe n first)"
  unfolding parse_app_def by (rule gives_bindN [OF gives_until_close [OF pe]]) (simp add: gives_retN)

lemma gives_special_form: "special_form inp pe n name = Some p \<Longrightarrow> gives lit_free p"
proof -
  have pick: "\<forall>q. (if b then Some x else r) = Some q \<longrightarrow> gives lit_free q"
    if "gives lit_free x" "\<forall>q. r = Some q \<longrightarrow> gives lit_free q" for b x r using that by simp
  have "\<forall>q. special_form inp pe n name = Some q \<longrightarrow> gives lit_free q"
    unfolding special_form_def
    by (intro pick gives_module gives_defun gives_defcap gives_defschema gives_deftable gives_let gives_lambda gives_parse_if
        gives_with_capability gives_require_capability gives_enforce gives_enforce_guard gives_read gives_write gives_doc) simp
  then show "special_form inp pe n name = Some p \<Longrightarrow> gives lit_free p" by blast
qed

lemma gives_list: "gives lit_free (parse_list inp pe n)"
proof -
  have "gives lit_free (case first of
           ESymbol name \<Rightarrow> (case special_form inp pe n name of Some p \<Rightarrow> p | None \<Rightarrow> parse_app inp pe n first)
         | _ \<Rightarrow> parse_app inp pe n first)" if "lit_free first" for first
    using gives_app [OF that] gives_special_form by (cases first) (simp_all split: option.split)
  then show ?thesis unfolding parse_list_def
    by (intro gives_then gives_bind_any gives_if gives_bindN [OF pe]) (simp_all add: gives_retN)
qed

end

lemma gives_literals: "gives lit_free (run_prog (parse_string inp))" "gives lit_free (run_prog (parse_symbol inp))"
  "gives lit_free (run_prog (parse_number inp))"
proof -
  show "gives lit_free (run_prog (parse_string inp))"
    unfolding parse_string_def run_prog_bindM by (rule gives_bind_any) (simp add: gives_def run_prog_def ret_def)
  show "gives lit_free (run_prog (parse_symbol inp))"
    unfolding parse_symbol_def run_prog_bindM by (rule gives_bind_any) (simp add: gives_def run_prog_def ret_def)
  show "gives lit_free (run_prog (parse_number inp))"
    by (auto simp: gives_def run_prog_def parse_number_def number_value_def Let_def split: prod.splits if_splits option.splits)
qed

lemma gives_expr: "gives lit_free (parse_expr inp n)"
proof (induction n)
  case (Suc n)
  have quote: "gives lit_free (bindN (parse_expr inp n) (\<lambda>e. retN (EApp (ESymbol ''quote'') [e])))"
    by (rule gives_bindN [OF Suc.IH]) (simp add: gives_retN)
  have list: "gives lit_free (parse_list inp (parse_expr inp n) k)" for k
    by (rule literal_parser.gives_list) (unfold_locales, rule Suc.IH)
  have failed: "gives lit_free (failN e)" for e by (simp add: gives_def failN_def run_prog_def fail_def)
  show ?case unfolding parse_expr.simps
    by (rule gives_then, rule gives_bind_any, rule gives_if [OF failed], rule gives_bind_any)
      (intro gives_if list gives_then [OF quote] gives_literals)
qed (simp add: gives_def)

interpretation expressions: literal_parser "parse_expr inp n" for inp n
  by unfold_locales (rule gives_expr)

lemma gives_all: "gives (list_all lit_free) (parse_all_loop inp fuel n)"
proof (induction n)
  case (Suc n)
  have "gives (list_all lit_free) (bindN (parse_expr inp fuel) (\<lambda>e. bindN (parse_all_loop inp fuel n) (\<lambda>es. retN (e # es))))"
    by (rule gives_bindN [OF expressions.pe], rule gives_bindN [OF Suc.IH]) (simp add: gives_retN)
  note body = this
  have nil: "gives (list_all lit_free) (retN [])" by (simp add: gives_retN)
  show ?case unfolding parse_all_loop.simps
    by (rule gives_bind_any, rule gives_if [OF nil], rule gives_then, rule gives_bind_any, rule gives_if [OF nil body])
qed (simp add: gives_def)

lemma parse_all_lit_free: "parse_all inp = Some (Ok es) \<Longrightarrow> list_all lit_free es"
  using gives_all [of inp "parse_fuel inp" "parse_fuel inp"] by (auto simp: parse_all_def gives_def)

subsection \<open>The evaluator makes no object\<close>

text \<open>What a sort does with an order that is not transitive: it panics or rearranges its list.\<close>

definition sort_rearranges :: "pact_lib \<Rightarrow> bool" where
  "sort_rearranges L \<longleftrightarrow> (\<forall>l l'. px_sort L l = Some l' \<longrightarrow> mset l' = mset l)"

text \<open>No object in any value the machine holds: the variables, the arguments of the active and of the granted capabilities, the
  rows of the tables (there are none), and the literals in the bodies of functions and capabilities and in the modules.\<close>

definition clean :: "pact_vm \<Rightarrow> bool" where
  "clean s \<longleftrightarrow> list_all (\<lambda>(n, v). obj_free v) (pv_env s) \<and> list_all (\<lambda>(n, t). pt_data t = []) (pv_tables s)
     \<and> list_all (\<lambda>(n, f). lit_free (pf_body f)) (pv_functions s)
     \<and> list_all (\<lambda>(n, c). lit_free (pc_body c)) (pv_capabilities s)
     \<and> list_all (\<lambda>(n, args). list_all obj_free args) (pv_active_caps s)
     \<and> list_all (\<lambda>(n, args). list_all obj_free args) (pv_granted_caps s)
     \<and> list_all (\<lambda>(n, m). list_all lit_free (mod_definitions m)) (pv_modules s)"

definition yields :: "('a \<Rightarrow> bool) \<Rightarrow> 'a pact_run \<Rightarrow> bool" where
  "yields Q m \<longleftrightarrow> (\<forall>s r s'. clean s \<longrightarrow> m s = Some (r, s') \<longrightarrow> clean s' \<and> (\<forall>x. r = Ok x \<longrightarrow> Q x))"

abbreviation no_object :: "(vm_error, pact_value) outcome \<Rightarrow> bool" where
  "no_object r \<equiv> \<forall>v. r = Ok v \<longrightarrow> obj_free v"

abbreviation never :: "'a \<Rightarrow> bool" where
  "never \<equiv> \<lambda>_. False"

lemma yields_bindN:
  assumes "yields P m" and "\<And>x. P x \<Longrightarrow> yields Q (f x)"
  shows "yields Q (bindN m f)"
  unfolding yields_def
proof (intro allI impI)
  fix s :: pact_vm and r s'
  assume s: "clean s" and run: "bindN m f s = Some (r, s')"
  then obtain r1 s1 where m: "m s = Some (r1, s1)" by (auto simp: bindN_def split: option.splits)
  with s assms(1) have one: "clean s1" "\<And>x. r1 = Ok x \<Longrightarrow> P x" unfolding yields_def by blast+
  show "clean s' \<and> (\<forall>x. r = Ok x \<longrightarrow> Q x)"
  proof (cases r1)
    case (Ok x)
    with run m have "f x s1 = Some (r, s')" by (simp add: bindN_def)
    with assms(2) [OF one(2) [OF Ok]] one(1) show ?thesis unfolding yields_def by blast
  qed (use run m one in \<open>auto simp: bindN_def\<close>)
qed

lemma yields_thenN: "yields always m \<Longrightarrow> yields Q m' \<Longrightarrow> yields Q (thenN m m')"
  unfolding thenN_def by (rule yields_bindN)

lemma yields_weaken: "yields P m \<Longrightarrow> (\<And>x. P x \<Longrightarrow> Q x) \<Longrightarrow> yields Q m"
  unfolding yields_def by blast

lemma yields_retN: "Q x \<Longrightarrow> yields Q (retN x)"
  by (simp add: yields_def retN_def run_prog_def ret_def)

lemma yields_failN: "yields Q (failN e)"
  by (simp add: yields_def failN_def run_prog_def fail_def)

lemma yields_gets: "(\<And>s. clean s \<Longrightarrow> Q (f s)) \<Longrightarrow> yields Q (run_prog (gets f))"
  by (simp add: yields_def run_prog_def gets_def)

lemma yields_modify: "(\<And>s. clean s \<Longrightarrow> clean (f s)) \<Longrightarrow> yields always (run_prog (modify f))"
  by (simp add: yields_def run_prog_def modify_def)

lemma yields_lift: "(\<And>x. r = Ok x \<Longrightarrow> Q x) \<Longrightarrow> yields Q (run_prog (lift_out r))"
  by (simp add: yields_def run_prog_def lift_out_def)

lemma yields_caught: "yields Q m \<Longrightarrow> yields (\<lambda>r. \<forall>x. r = Ok x \<longrightarrow> Q x) (caught m)"
  unfolding yields_def caught_def by (auto split: option.splits outcome.splits)

lemma yields_result_of: "yields Q m \<Longrightarrow> yields (\<lambda>r. \<forall>x. r = Ok x \<longrightarrow> Q x) (result_of m)"
  unfolding result_of_def mapN_def by (rule yields_bindN [where P = Q]) (simp_all add: yields_retN)

lemma list_all_update: "list_all P xs \<Longrightarrow> P (k, v) \<Longrightarrow> list_all P (AList.update k v xs)"
  by (induction xs) auto

lemma list_all_map_of: "list_all (\<lambda>(n, x). P x) xs \<Longrightarrow> map_of xs k = Some x \<Longrightarrow> P x"
  by (auto simp: list_all_iff dest: map_of_SomeD)

lemma list_all_bind_params:
  "list_all obj_free args \<Longrightarrow> list_all (\<lambda>(n, v). obj_free v) env \<Longrightarrow>
    list_all (\<lambda>(n, v). obj_free v) (fold (\<lambda>(p, a). AList.update p a) (zip params args) env)"
proof (induction params arbitrary: args env)
  case (Cons p ps)
  then show ?case by (cases args) (simp_all add: list_all_update)
qed simp

text \<open>The state changes of the source.\<close>

lemma yields_charge: "yields always (run_prog (pv_charge g))"
  by (auto simp: yields_def run_prog_def pv_charge_def clean_def split: prod.splits)

lemma yields_bind_params: "list_all obj_free args \<Longrightarrow> yields always (run_prog (bind_params params args))"
  unfolding bind_params_def by (rule yields_modify) (simp add: clean_def list_all_bind_params)

lemma yields_set_env: "list_all (\<lambda>(n, v). obj_free v) env \<Longrightarrow> yields always (run_prog (set_env env))"
  unfolding set_env_def by (rule yields_modify) (simp add: clean_def)

lemma yields_env: "yields (list_all (\<lambda>(n, v). obj_free v)) (run_prog (gets pv_env))"
  by (rule yields_gets) (simp add: clean_def)

lemma yields_definitions:
  "lit_free b \<Longrightarrow> yields obj_free (run_prog (define_fun name params b))"
  "lit_free b \<Longrightarrow> yields obj_free (run_prog (define_cap name params b))"
  "yields obj_free (run_prog (define_schema name cs))" "yields obj_free (run_prog (define_table name schema))"
  unfolding yields_def
  by (simp_all add: run_prog_def define_fun_def define_cap_def define_schema_def define_table_def thenM_def bindM_def modify_def
      ret_def clean_def list_all_update)

lemma yields_lookup: "yields obj_free (run_prog (lookup_var name))"
proof -
  have "obj_free v" if "clean s" "map_of (pv_env s) name = Some v" for s :: pact_vm and v
    using that list_all_map_of [of obj_free] by (auto simp: clean_def)
  then show ?thesis
    by (auto simp: yields_def run_prog_def lookup_var_def bindM_def gets_def ret_def fail_def split: option.split)
qed

lemma yields_enforce_guard: "yields obj_free (run_prog (enforce_guard v))"
  by (cases v) (auto simp: yields_def run_prog_def enforce_guard_def verify_guard_def bindM_def gets_def fail_def exec_err_def
      split: option.splits prod.splits pact_guard.splits if_splits)

text \<open>No access to a table succeeds.\<close>

lemma yields_read_row: "yields never (run_prog (read_row t kv))"
proof -
  have "pt_data x = []" if "clean s" "map_of (pv_tables s) t = Some x" for s :: pact_vm and x
    using that list_all_map_of [of "\<lambda>t. pt_data t = []"] by (auto simp: clean_def)
  then show ?thesis
    by (cases kv) (auto simp: yields_def run_prog_def read_row_def bindM_def gets_def fail_def lift_out_def exec_err_def
        split: option.split)
qed

lemma yields_write_row: "obj_free v \<Longrightarrow> yields never (run_prog (write_row t key v))"
  by (cases v) (auto simp: yields_def run_prog_def write_row_def fail_def)

text \<open>The built-in functions.\<close>

lemma arg_obj_free: "arg args i = Ok v \<Longrightarrow> list_all obj_free args \<Longrightarrow> obj_free v"
  "list_arg args i = Ok l \<Longrightarrow> list_all obj_free args \<Longrightarrow> list_all obj_free l"
proof -
  show one: "obj_free v" if "arg args i = Ok v" "list_all obj_free args" for v
    using that by (auto simp: arg_def list_all_length split: if_splits)
  show "list_all obj_free l" if "list_arg args i = Ok l" "list_all obj_free args"
  proof -
    from that(1) obtain v where v: "arg args i = Ok v" "as_list v = Ok l" by (auto simp: list_arg_def bindR_Ok_iff)
    with one [OF v(1) that(2)] show ?thesis by (cases v) (simp_all add: exec_err_def)
  qed
qed

lemma obj_free_sort: "sort_rearranges L \<Longrightarrow> pact_sort L l = Some l' \<Longrightarrow> mset l' = mset l"
proof -
  have "mset (pact_insert x ys) = add_mset x (mset ys)" for x ys by (induction ys) auto
  then have "mset (foldr pact_insert l []) = mset l" by (induction l) simp_all
  then show "sort_rearranges L \<Longrightarrow> pact_sort L l = Some l' \<Longrightarrow> mset l' = mset l"
    by (auto simp: pact_sort_def sort_rearranges_def split: if_splits)
qed

lemma list_all_take_drop: "list_all P l \<Longrightarrow> list_all P (take n l)" "list_all P l \<Longrightarrow> list_all P (drop n l)"
  by (auto simp: list_all_iff dest: in_set_takeD in_set_dropD)

definition makes_none :: "(pact_value list \<Rightarrow> (vm_error, pact_value) outcome) \<Rightarrow> bool" where
  "makes_none f \<longleftrightarrow> (\<forall>args v. list_all obj_free args \<longrightarrow> f args = Ok v \<longrightarrow> obj_free v)"

lemma makes_none_numbers:
  "makes_none (arithmetic t g)" "makes_none pact_divide" "makes_none (int_args pact_mod)" "makes_none (int_args pact_pow)"
  "makes_none pact_abs" "makes_none pact_sqrt" "makes_none (any_args h)" "makes_none (compare_args c)" "makes_none pact_not"
  by (auto simp: makes_none_def arithmetic_def two_args_def pact_divide_def int_args_def pact_mod_def pact_pow_def pact_abs_def
      pact_sqrt_def any_args_def compare_args_def pact_not_def bindR_Ok_iff exec_err_def split: if_splits)

lemma makes_none_texts:
  "makes_none (concat_args r)" "makes_none str_to_int" "makes_none int_to_str" "makes_none pact_length" "makes_none (pact_format L)"
  "makes_none pact_time" "makes_none add_time" "makes_none keyset_arg" "makes_none capability_guard"
  "makes_none (\<lambda>args. bindR (arg args 0) (\<lambda>a. Ok (PString (type_name a))))"
proof -
  have "concat_args r args = Ok v \<Longrightarrow> obj_free v" for args v
    by (induction r args rule: concat_args.induct) (auto simp: bindR_Ok_iff)
  then show "makes_none (concat_args r)" by (simp add: makes_none_def)
qed (auto simp: makes_none_def str_to_int_def int_to_str_def pact_length_def pact_format_def pact_time_def add_time_def
    keyset_arg_def capability_guard_def bindR_Ok_iff exec_err_def split: if_splits option.splits pact_value.split_asm)

lemma makes_none_lists:
  "makes_none (\<lambda>args. Ok (PList args))" "makes_none pact_at" "makes_none pact_contains" "makes_none (int_args pact_enumerate)"
  "makes_none pact_reverse" "makes_none (\<lambda>args. arg args 0)"
  by (auto simp: makes_none_def pact_at_def pact_contains_def int_args_def pact_enumerate_def pact_reverse_def bindR_Ok_iff
      exec_err_def Let_def list_all_length rev_nth split: if_splits dest!: arg_obj_free)

lemma makes_none_take:
  assumes "\<And>n l. list_all obj_free l \<Longrightarrow> list_all obj_free (fl n l)"
  shows "makes_none (take_or_drop t fs fl)"
proof -
  have "obj_free v" if args: "list_all obj_free args" and run: "take_or_drop t fs fl args = Ok v" for args v
  proof -
    from run obtain n :: i128 and a where a: "arg args 1 = Ok a" and v: "(case a of
         PString s \<Rightarrow> Ok (PString (concat (fs (unat (ucast n :: u64)) (utf8_chars s))))
       | PList l \<Rightarrow> Ok (PList (fl (unat (ucast n :: u64)) l)) | _ \<Rightarrow> exec_err t) = Ok v"
      unfolding take_or_drop_def bindR_Ok_iff by blast
    from arg_obj_free(1) [OF a args] v assms show ?thesis by (cases a) (auto simp: exec_err_def)
  qed
  then show ?thesis by (simp add: makes_none_def)
qed

lemma makes_none_sort: "sort_rearranges L \<Longrightarrow> makes_none (sort_args L)"
proof -
  assume L: "sort_rearranges L"
  have "obj_free v" if args: "list_all obj_free args" and run: "sort_args L args = Ok v" for args v
  proof -
    from run obtain l l' where l: "list_arg args 0 = Ok l" and s: "pact_sort L l = Some l'" "v = PList l'"
      by (auto simp: sort_args_def bindR_Ok_iff split: option.splits)
    have "set l' = set l" using obj_free_sort [OF L s(1)] by (metis set_mset_mset)
    with arg_obj_free(2) [OF l args] s(2) show ?thesis by (simp add: list_all_iff)
  qed
  then show ?thesis by (simp add: makes_none_def)
qed

lemma makes_none_builtin:
  assumes "sort_rearranges L" and "pure_builtin L name = Some f"
  shows "makes_none f"
proof -
  have take: "makes_none (take_or_drop t fs take)" "makes_none (take_or_drop t fs drop)" for t fs
    by (rule makes_none_take, erule list_all_take_drop)+
  have "list_all (\<lambda>(n, f). makes_none f) xs" if "xs = xs'" "list_all (\<lambda>(n, f). makes_none f) xs'" for xs xs' using that by simp
  from assms(2) show ?thesis
    unfolding pure_builtin_def
    by (rule list_all_map_of [rotated])
      (simp add: makes_none_numbers makes_none_texts makes_none_lists take makes_none_sort [OF assms(1)])
qed

text \<open>The evaluator.\<close>

lemma yields_builtin:
  assumes "sort_rearranges L" and "builtin L name = Some f" and "list_all obj_free args"
  shows "yields obj_free (run_prog (f args))"
proof -
  have charge: "clean s \<Longrightarrow> clean (snd (pv_charge g s))" for g and s :: pact_vm
    by (auto simp: pv_charge_def clean_def split: prod.split)
  have "yields obj_free (run_prog (builtin_hash L args))"
    unfolding builtin_hash_def Let_def yields_def run_prog_def
    by (auto simp: outcome_simps split: prod.splits outcome.splits dest: charge)
  moreover have "yields obj_free (run_prog (builtin_user_guard args))"
    by (auto simp: yields_def run_prog_def builtin_user_guard_def outcome_simps)
  moreover have "yields obj_free (run_prog (define_keyset args))"
    by (auto simp: yields_def run_prog_def define_keyset_def outcome_simps clean_def split: outcome.splits)
  moreover have "yields obj_free (run_prog (emit_event L args))"
    by (auto simp: yields_def run_prog_def emit_event_def outcome_simps Let_def clean_def split: outcome.splits)
  moreover have "yields obj_free (run_prog (lift_out (g args)))" if "pure_builtin L name = Some g" for g
    by (rule yields_lift) (use makes_none_builtin [OF assms(1) that] assms(3) in \<open>simp add: makes_none_def\<close>)
  ultimately show ?thesis using assms(2) by (auto simp: builtin_def split: if_splits)
qed

locale clean_evaluator =
  fixes L :: pact_lib and ev :: "pact_expr \<Rightarrow> pact_value pact_run"
  assumes sorts: "sort_rearranges L" and ev: "lit_free e \<Longrightarrow> yields obj_free (ev e)"
begin

lemma yields_list: "list_all lit_free es \<Longrightarrow> yields (list_all obj_free) (eval_list ev es)"
proof (induction es)
  case (Cons e es)
  have rest: "yields (list_all obj_free) (bindN (eval_list ev es) (\<lambda>vs. retN (v # vs)))" if "obj_free v" for v
    by (rule yields_bindN [OF Cons.IH]) (use Cons.prems that in \<open>simp_all add: yields_retN\<close>)
  show ?case unfolding eval_list.simps by (rule yields_bindN [OF ev rest]) (use Cons.prems in simp_all)
qed (simp add: yields_retN)

lemma yields_restore:
  assumes "yields always (run_prog m)" and "no_object r"
  shows "yields obj_free (thenN (run_prog m) (run_prog (lift_out r)))" "yields no_object (thenN (run_prog m) (retN r))"
  using assms by (auto intro!: yields_thenN yields_lift yields_retN)

lemma yields_call:
  assumes "lit_free (pf_body f)" and "list_all obj_free args"
  shows "yields obj_free (call_function ev f args)"
proof -
  have "yields obj_free (bindN (caught (ev (pf_body f))) (\<lambda>result. thenN (run_prog (set_env env)) (run_prog (lift_out result))))"
    if "list_all (\<lambda>(n, v). obj_free v) env" for env
    by (rule yields_bindN [OF yields_caught [OF ev [OF assms(1)]]]) (rule yields_restore(1) [OF yields_set_env [OF that]])
  note body = this
  have "yields obj_free (bindN (run_prog (gets pv_env)) (\<lambda>old_env. thenN (run_prog (bind_params (pf_params f) args))
      (bindN (caught (ev (pf_body f))) (\<lambda>result. thenN (run_prog (set_env old_env)) (run_prog (lift_out result))))))"
    by (rule yields_bindN [OF yields_env]) (rule yields_thenN [OF yields_bind_params [OF assms(2)] body])
  then show ?thesis by (simp add: call_function_def yields_failN)
qed

lemma yields_app:
  assumes "lit_free func" and "list_all lit_free args"
  shows "yields obj_free (eval_app L ev func args)"
proof -
  have fs: "yields (list_all (\<lambda>(n, f). lit_free (pf_body f))) (run_prog (gets pv_functions))"
    by (rule yields_gets) (simp add: clean_def)
  have "yields obj_free (bindN (run_prog (gets pv_functions)) (\<lambda>fs. case map_of fs name of
      Some f \<Rightarrow> call_function ev f vs | None \<Rightarrow> failN (ExecutionError (''Unknown function: '' @ name))))"
    if "list_all obj_free vs" for vs name
    by (rule yields_bindN [OF fs])
      (auto simp: yields_failN split: option.split
        intro!: yields_call that intro: list_all_map_of [where P = "\<lambda>f. lit_free (pf_body f)"])
  note user = this
  have "yields obj_free (case builtin L name of Some f \<Rightarrow> run_prog (f vs)
      | None \<Rightarrow> bindN (run_prog (gets pv_functions)) (\<lambda>fs. case map_of fs name of
      Some f \<Rightarrow> call_function ev f vs | None \<Rightarrow> failN (ExecutionError (''Unknown function: '' @ name))))"
    if "list_all obj_free vs" for vs name
    using user [OF that] yields_builtin [OF sorts _ that] by (auto split: option.split)
  note app = this
  have other: "yields obj_free (thenN (ev func) (failN e))" for e
    by (rule yields_thenN [OF yields_weaken [OF ev [OF assms(1)]] yields_failN]) simp
  show ?thesis
    unfolding eval_app_def using other yields_bindN [OF yields_list [OF assms(2)] app] by (cases func) simp_all
qed

lemma yields_let:
  assumes "list_all (\<lambda>(n, e). lit_free e) bindings" and "lit_free body"
  shows "yields no_object (eval_let ev bindings body)"
proof -
  have one: "yields always (bindN (ev e) (\<lambda>v. run_prog (bind_params [name] [v])))" if "lit_free e" for name e
    by (rule yields_bindN [OF ev [OF that]]) (simp add: yields_bind_params)
  have bs: "yields always (eval_list (\<lambda>(name, e). bindN (ev e) (\<lambda>v. run_prog (bind_params [name] [v]))) bindings)"
    using assms(1)
  proof (induction bindings)
    case (Cons b bs)
    then show ?case
      by (cases b) (auto intro!: yields_bindN [where P = always] yields_retN one)
  qed (simp add: yields_retN)
  have tail: "yields no_object (bindN (caught (ev body)) (\<lambda>result. thenN (run_prog (set_env env)) (retN result)))"
    if "list_all (\<lambda>(n, v). obj_free v) env" for env
    by (rule yields_bindN [OF yields_caught [OF ev [OF assms(2)]]]) (rule yields_restore(2) [OF yields_set_env [OF that]])
  show ?thesis unfolding eval_let_def by (rule yields_bindN [OF yields_env]) (rule yields_thenN [OF bs tail])
qed

lemma yields_eval_if: "lit_free c \<Longrightarrow> lit_free t \<Longrightarrow> lit_free e \<Longrightarrow> yields no_object (eval_if ev c t e)"
  unfolding eval_if_def by (rule yields_bindN [OF ev]) (auto intro!: yields_caught ev)

lemma yields_module: "list_all lit_free (mod_definitions m) \<Longrightarrow> yields always (load_module ev m)"
  unfolding load_module_def
  by (intro yields_thenN yields_modify yields_weaken [OF yields_list]) (auto simp: clean_def list_all_update)

lemma yields_acquire:
  assumes "list_all obj_free cap_args"
  shows "yields always (acquire ev cap_name cap_args)"
proof -
  have grant: "yields always (run_prog (modify (\<lambda>s. s\<lparr>pv_granted_caps := pv_granted_caps s @ [(cap_name, cap_args)]\<rparr>)))"
    by (rule yields_modify) (simp add: clean_def assms)
  have "yields always (bindN (caught (ev b)) (\<lambda>result. thenN (run_prog (set_env env)) (if \<not> is_ok result then failN e
      else run_prog (modify (\<lambda>s. s\<lparr>pv_granted_caps := pv_granted_caps s @ [(cap_name, cap_args)]\<rparr>)))))"
    if "lit_free b" "list_all (\<lambda>(n, v). obj_free v) env" for b env e
    by (rule yields_bindN [OF yields_caught [OF ev [OF that(1)]]])
      (auto intro!: yields_thenN yields_set_env that(2) yields_failN grant)
  note body = this
  have start: "yields (\<lambda>(granted, cap, old_env). (\<forall>c. cap = Some c \<longrightarrow> lit_free (pc_body c)) \<and> list_all (\<lambda>(n, v). obj_free v) old_env)
      (run_prog (gets (\<lambda>s. ((cap_name, cap_args) \<in> set (pv_granted_caps s), map_of (pv_capabilities s) cap_name, pv_env s))))"
    by (rule yields_gets) (auto simp: clean_def intro: list_all_map_of [where P = "\<lambda>c. lit_free (pc_body c)"])
  show ?thesis unfolding acquire_def
    by (rule yields_bindN [OF start])
      (auto split: option.split intro!: yields_retN yields_thenN yields_bind_params assms body)
qed

lemma yields_with_capability:
  assumes "list_all lit_free args" and "lit_free body"
  shows "yields no_object (eval_with_capability ev cap_name args body)"
proof -
  have act: "yields always (run_prog (modify (\<lambda>s. s\<lparr>pv_active_caps := pv_active_caps s @ [(cap_name, cap_args)]\<rparr>)))"
    if "list_all obj_free cap_args" for cap_args
    by (rule yields_modify) (use that in \<open>simp add: clean_def\<close>)
  have leave: "yields always (run_prog (modify (\<lambda>s. s\<lparr>pv_active_caps := butlast (pv_active_caps s)\<rparr>)))"
    by (rule yields_modify) (fastforce simp: clean_def list_all_iff dest: in_set_butlastD)
  have tail: "yields no_object (bindN (caught (ev body)) (\<lambda>result.
      thenN (run_prog (modify (\<lambda>s. s\<lparr>pv_active_caps := butlast (pv_active_caps s)\<rparr>))) (retN result)))"
    by (rule yields_bindN [OF yields_caught [OF ev [OF assms(2)]]]) (rule yields_restore(2) [OF leave])
  show ?thesis unfolding eval_with_capability_def
    by (rule yields_bindN [OF yields_list [OF assms(1)]]) (intro yields_thenN yields_acquire act tail)
qed

lemma yields_require: "list_all lit_free args \<Longrightarrow> yields obj_free (eval_require_capability ev cap_name args)"
  unfolding eval_require_capability_def
  by (rule yields_bindN [OF yields_list], assumption, rule yields_bindN [OF yields_gets [of always]])
    (auto intro: yields_retN yields_failN)

lemma yields_enforce: "lit_free c \<Longrightarrow> yields obj_free (eval_enforce ev c msg)"
  unfolding eval_enforce_def by (rule yields_bindN [OF ev]) (auto intro: yields_retN yields_failN)

lemma yields_table_access:
  "lit_free k \<Longrightarrow> yields never (eval_read ev t k)" "lit_free k \<Longrightarrow> lit_free v \<Longrightarrow> yields never (eval_write ev t k v)"
proof -
  show "lit_free k \<Longrightarrow> yields never (eval_read ev t k)"
    unfolding eval_read_def by (rule yields_thenN [OF yields_charge], rule yields_bindN [OF ev yields_read_row])
  show "lit_free k \<Longrightarrow> lit_free v \<Longrightarrow> yields never (eval_write ev t k v)"
    unfolding eval_write_def
    by (rule yields_thenN [OF yields_charge], rule yields_bindN [OF ev], assumption,
        rule yields_bindN [OF yields_lift [of _ always]], simp, rule yields_bindN [OF ev], assumption, erule yields_write_row)
qed

lemma yields_arm: "lit_free e \<Longrightarrow> yields no_object (eval_arm L ev e)"
proof (cases e)
  case (EModule m)
  moreover assume "lit_free e"
  ultimately have "list_all lit_free (mod_definitions m)" by (cases m) simp
  then show ?thesis unfolding EModule eval_arm.simps by (rule yields_thenN [OF yields_module]) (simp add: yields_retN)
next
  case (ERead t k)
  moreover assume "lit_free e"
  ultimately show ?thesis
    by (auto intro: yields_result_of yields_weaken [OF yields_table_access(1)])
qed (auto intro!: yields_retN yields_caught yields_lookup yields_app yields_let yields_eval_if yields_result_of yields_definitions
      yields_with_capability yields_require yields_enforce yields_weaken [OF yields_table_access(2)]
      yields_bindN [OF ev] yields_enforce_guard)

end

lemma yields_step:
  assumes "yields (\<lambda>r. \<forall>v. r = Ok v \<longrightarrow> Q v) (eval_arm L (pact_eval L n) e)"
  shows "yields Q (pact_eval L (Suc n) e)"
proof -
  have "clean (snd (eval_enter s)) = clean s" for s :: pact_vm
    by (cases "pv_depth s < MAX_RECURSION_DEPTH"; cases "consume GAS_BASE (pv_gas s)")
      (simp_all add: eval_enter_def pv_charge_def clean_def Let_def)
  then have enter: "yields always (run_prog eval_enter)"
    unfolding yields_def run_prog_def by (metis option.inject snd_conv)
  have leave: "yields always (run_prog (modify (\<lambda>s. s\<lparr>pv_depth := f s\<rparr>)))" for f
    by (rule yields_modify) (simp add: clean_def)
  show ?thesis unfolding pact_eval.simps
    by (rule yields_thenN [OF enter], rule yields_bindN [OF assms], rule yields_thenN [OF leave], rule yields_lift) simp
qed

lemma yields_eval: "sort_rearranges L \<Longrightarrow> lit_free e \<Longrightarrow> yields obj_free (pact_eval L n e)"
proof (induction n arbitrary: e)
  case (Suc n)
  have "clean_evaluator L (pact_eval L n)" by unfold_locales (use Suc in auto)
  from yields_step [OF clean_evaluator.yields_arm [OF this Suc.prems(2)]] show ?case by simp
qed (simp add: yields_def)

text \<open>The evaluator with a library whose sort rearranges: any library, with the sort replaced when it does not.\<close>

definition sorting_lib :: "pact_lib \<Rightarrow> pact_lib" where
  "sorting_lib L = (if sort_rearranges L then L else L\<lparr>px_sort := Some\<rparr>)"

lemma sorting_lib_rearranges: "sort_rearranges (sorting_lib L)"
  by (simp add: sorting_lib_def sort_rearranges_def)

interpretation cleaning: clean_evaluator "sorting_lib L" "pact_eval (sorting_lib L) n" for L n
  by unfold_locales (rule sorting_lib_rearranges, rule yields_eval [OF sorting_lib_rearranges])

text \<open>An access to a table.\<close>

fun accesses_table :: "pact_expr \<Rightarrow> bool" where
  "accesses_table (ERead t k) = True"
| "accesses_table (EWrite t k v) = True"
| "accesses_table (EInsert t k v) = True"
| "accesses_table (EUpdate t k v) = True"
| "accesses_table _ = False"

lemma yields_access: "accesses_table e \<Longrightarrow> lit_free e \<Longrightarrow> yields never (pact_eval (sorting_lib L) n e)"
proof (cases n)
  case (Suc m)
  assume e: "accesses_table e" "lit_free e"
  note access = cleaning.yields_table_access [THEN yields_result_of, simplified]
  have "yields (\<lambda>r. \<forall>v. r = Ok v \<longrightarrow> False) (eval_arm (sorting_lib L) (pact_eval (sorting_lib L) m) e)"
    using e by (cases e) (auto intro!: access)
  then show ?thesis unfolding Suc by (rule yields_step)
qed (simp add: yields_def)

text \<open>Whole programs.\<close>

lemma yields_all: "list_all lit_free es \<Longrightarrow> yields always (eval_all (sorting_lib L) v es)"
proof (induction es arbitrary: v)
  case (Cons e es)
  show ?case unfolding eval_all.simps
    by (rule yields_bindN [OF cleaning.ev Cons.IH]) (use Cons.prems in simp_all)
qed (simp add: yields_retN)

lemma yields_all_access:
  "list_all lit_free es \<Longrightarrow> list_ex accesses_table es \<Longrightarrow> yields never (eval_all (sorting_lib L) v es)"
proof (induction es arbitrary: v)
  case (Cons e es)
  show ?case
  proof (cases "accesses_table e")
    case True
    then show ?thesis unfolding eval_all.simps
      by (intro yields_bindN [OF yields_access]) (use Cons.prems in simp_all)
  next
    case False
    then show ?thesis unfolding eval_all.simps
      by (intro yields_bindN [OF cleaning.ev Cons.IH]) (use Cons.prems in simp_all)
  qed
qed simp

lemma yields_parse: "yields (\<lambda>es. parse_all source = Some (Ok es) \<and> list_all lit_free es) (pact_parse source)"
  using parse_all_lit_free by (auto simp: yields_def pact_parse_def)

lemma yields_program: "yields always (parse_and_execute (sorting_lib L) code call)"
  unfolding parse_and_execute_def
  by (rule yields_bindN [OF yields_parse], rule yields_bindN [OF yields_all])
    (auto intro!: yields_retN yields_bindN [OF yields_parse] yields_all split: option.split)

lemma clean_new: "clean (pact_new ctx)"
  by (simp add: clean_def pact_new_def)

subsection \<open>Tables\<close>

lemma execute_clean: "sort_rearranges L \<Longrightarrow> pact_execute L code input (pact_new ctx) = Some (r, s') \<Longrightarrow> clean s'"
proof -
  assume L: "sort_rearranges L" and run: "pact_execute L code input (pact_new ctx) = Some (r, s')"
  from run consider "s' = pact_new ctx"
    | src call r' where "parse_and_execute L src call (pact_new ctx) = Some (r', s')"
    by (auto simp: pact_execute_def split: if_splits option.splits outcome.splits)
  then show "clean s'"
  proof cases
    case 2
    moreover have "sorting_lib L = L" using L by (simp add: sorting_lib_def)
    ultimately show ?thesis using yields_program [of L src call] clean_new [of ctx] unfolding yields_def by metis
  qed (simp add: clean_new)
qed

text \<open>C17: After any execution of Pact code, whatever the code and its input, every table the machine holds is empty.\<close>

theorem pact_tables_stay_empty:
  assumes "sort_rearranges L" and "pact_execute L code input (pact_new ctx) = Some (r, s')"
    and "map_of (pv_tables s') name = Some t"
  shows "pt_data t = []"
  using execute_clean [OF assms(1,2)] assms(3) list_all_map_of [of "\<lambda>t. pt_data t = []"] by (auto simp: clean_def)

definition sample_pact_lib :: pact_lib where
  "sample_pact_lib = \<lparr>px_sha3 = id, px_hex = map (\<lambda>b. char_of (unat b)), px_debug = type_name, px_utf8_error = (\<lambda>_. []), px_sort = Some\<rparr>"

definition sample_pact_context :: execution_context where
  "sample_pact_context = context_new \<lparr>addr_type = System, addr_bytes = []\<rparr> \<lparr>addr_type = System, addr_bytes = []\<rparr> 0 100000"


lemma sample_pact_lib_rearranges: "sort_rearranges sample_pact_lib"
  by (simp add: sort_rearranges_def sample_pact_lib_def)

declare until_close.simps [simp del] skip_docs.simps [simp del] skip_annotations.simps [simp del] parse_all_loop.simps [simp del]
  parse_expr.simps [simp del] pact_eval.simps [simp del] eval_list.simps [simp del] eval_all.simps [simp del]

theorem pact_tables_stay_empty_witness:
  "\<exists>r s' t. pact_execute sample_pact_lib (compile_pact ''(deftable t : { s })'') [] (pact_new sample_pact_context) = Some (r, s')
     \<and> map_of (pv_tables s') ''t'' = Some t \<and> pt_data t = []"
proof -
  let ?src = "''(deftable t : { s })''" and ?s = "pact_new sample_pact_context"
  have utf8: "valid_utf8 ?src" by (simp add: pact_evals)
  have parsed: "parse_all ?src = Some (Ok [EDeftable ''t'' ''s''])" by (simp add: pact_evals cong: pact_congs)
  have gas: "fuelled 2 ?s" by (rule fuelled_new) (simp add: sample_pact_context_def context_new_def)
  have depth: "pv_depth ?s < MAX_RECURSION_DEPTH" by (simp add: pact_new_def MAX_RECURSION_DEPTH_def)
  have arm: "eval_arm sample_pact_lib (pact_eval sample_pact_lib 256) (EDeftable ''t'' ''s'') (charged ?s)
      = Some (Ok (Ok PUnit), (charged ?s)\<lparr>pv_tables := [(''t'', \<lparr>pt_name = ''t'', pt_schema = ''s'', pt_data = []\<rparr>)]\<rparr>)"
    by (simp add: pact_evals define_table_def) (simp add: pact_new_def)
  have one: "pact_eval sample_pact_lib 257 (EDeftable ''t'' ''s'') ?s = Some (Ok PUnit, left_level
      ((charged ?s)\<lparr>pv_tables := [(''t'', \<lparr>pt_name = ''t'', pt_schema = ''s'', pt_data = []\<rparr>)]\<rparr>))"
    using eval_step [OF depth gas _ arm] by (simp add: numeral_eq_Suc)
  then have run: "\<exists>r s'. pact_execute sample_pact_lib (compile_pact ?src) [] ?s = Some (r, s')
      \<and> map_of (pv_tables s') ''t'' = Some \<lparr>pt_name = ''t'', pt_schema = ''s'', pt_data = []\<rparr>"
    by (simp add: execute_compiled [OF utf8 refl parsed] eval_evals bindN_eval eval_fuel_def MAX_RECURSION_DEPTH_def)
  then obtain r s' where r: "pact_execute sample_pact_lib (compile_pact ?src) [] ?s = Some (r, s')"
    and t: "map_of (pv_tables s') ''t'' = Some \<lparr>pt_name = ''t'', pt_schema = ''s'', pt_data = []\<rparr>" by blast
  from pact_tables_stay_empty [OF sample_pact_lib_rearranges r t] r t show ?thesis by blast
qed

text \<open>C21: Evaluation keeps the types of the values the machine really has: no value is an object. The parser yields only
  expressions without object literals, a new machine holds no object and no row, and evaluating such an expression in such a
  state, with any fuel and whatever its outcome, leaves such a state and gives, where it gives a value, one without objects
  at any depth, inside lists, capabilities and guards. The state is all that holds values in the machine: the
  variables, the arguments of the active and granted capabilities, the rows, and the literals of the functions, capabilities
  and modules it has loaded.\<close>

theorem pact_values_have_no_objects:
  assumes "sort_rearranges L"
  shows "(parse_all source = Some (Ok es) \<longrightarrow> list_all lit_free es) \<and> clean (pact_new ctx)
    \<and> (lit_free e \<longrightarrow> clean s \<longrightarrow> pact_eval L n e s = Some (r, s') \<longrightarrow>
        clean s' \<and> (\<forall>v. r = Ok v \<longrightarrow> obj_free v))"
  using yields_eval [OF assms, of e n] parse_all_lit_free clean_new by (auto simp: yields_def)

theorem pact_values_have_no_objects_witness:
  "\<exists>s'. pact_eval sample_pact_lib 257 (ELiteral (PList [PBool True])) (pact_new sample_pact_context) = Some (Ok (PList [PBool True]), s')
     \<and> clean s' \<and> obj_free (PList [PBool True])"
proof -
  let ?s = "pact_new sample_pact_context" and ?e = "ELiteral (PList [PBool True])"
  have gas: "fuelled 2 ?s" by (rule fuelled_new) (simp add: sample_pact_context_def context_new_def)
  have depth: "pv_depth ?s < MAX_RECURSION_DEPTH" by (simp add: pact_new_def MAX_RECURSION_DEPTH_def)
  have arm: "eval_arm sample_pact_lib (pact_eval sample_pact_lib 256) ?e (charged ?s) = Some (Ok (Ok (PList [PBool True])), charged ?s)"
    by (simp add: pact_evals)
  have run: "pact_eval sample_pact_lib 257 ?e ?s = Some (Ok (PList [PBool True]), left_level (charged ?s))"
    using eval_step [OF depth gas _ arm] by (simp add: numeral_eq_Suc)
  with pact_values_have_no_objects [OF sample_pact_lib_rearranges, of "[]" "[]" sample_pact_context ?e ?s 257 "Ok (PList [PBool True])"
      "left_level (charged ?s)"]
  show ?thesis by simp
qed

lemma yields_never: "yields never m \<Longrightarrow> clean s \<Longrightarrow> m s = Some (r, s') \<Longrightarrow> \<not> is_ok r"
  by (cases r) (auto simp: yields_def)

text \<open>A Pact program that reads or writes a table as one of its expressions never succeeds: whatever tables it
  defines before, and with any input and context, its result is a failure or the machine panics.\<close>

theorem pact_table_access_fails:
  assumes "sort_rearranges L" and "parse_all source = Some (Ok es)" and "list_ex accesses_table es"
    and "pact_execute L (compile_pact source) input (pact_new ctx) = Some (Ok v, s')"
  shows "\<not> vr_success v"
proof (cases "valid_utf8 source")
  case True
  let ?call = "if input \<noteq> [] then text_of input else None"
  have L: "sorting_lib L = L" using assms(1) by (simp add: sorting_lib_def)
  have "yields never (parse_and_execute (sorting_lib L) source ?call)"
    unfolding parse_and_execute_def
  proof (rule yields_bindN [OF yields_parse])
    fix exprs assume p: "parse_all source = Some (Ok exprs) \<and> list_all lit_free exprs"
    with assms(2,3) have "list_ex accesses_table exprs" by simp
    with p show "yields never (bindN (eval_all (sorting_lib L) PUnit exprs) (\<lambda>last_value. case ?call of None \<Rightarrow> retN last_value
        | Some c \<Rightarrow> bindN (pact_parse c) (\<lambda>call_exprs. eval_all (sorting_lib L) last_value call_exprs)))"
      by (intro yields_bindN [OF yields_all_access]) simp_all
  qed
  then have "\<not> is_ok r" if "parse_and_execute L source ?call (pact_new ctx) = Some (r, s')" for r s'
    using yields_never [OF _ clean_new] that unfolding L by blast
  then show ?thesis
    using assms(4) True
    by (auto simp: pact_execute_def compile_pact_def PACT_MAGIC_def text_of_compiled vm_failure_def split: option.splits outcome.splits)
next
  case False
  then show ?thesis
    using assms(4) by (auto simp: pact_execute_def compile_pact_def PACT_MAGIC_def text_of_compiled vm_failure_def)
qed

theorem pact_table_access_fails_witness:
  "\<exists>v s'. pact_execute sample_pact_lib (compile_pact ''(read t 1)'') [] (pact_new sample_pact_context) = Some (Ok v, s')
     \<and> \<not> vr_success v"
proof -
  let ?src = "''(read t 1)''" and ?s = "pact_new sample_pact_context" and ?L = sample_pact_lib
  let ?e = "ERead ''t'' (ELiteral (PInteger 1))"
  have utf8: "valid_utf8 ?src" by (simp add: pact_evals)
  have parsed: "parse_all ?src = Some (Ok [?e])" by (simp add: pact_evals cong: pact_congs)
  have gas: "fuelled 1000 ?s" by (rule fuelled_new) (simp add: sample_pact_context_def context_new_def)
  have depth: "pv_depth ?s = 0" by (simp add: pact_new_def)
  have gas1: "fuelled 998 (charged ?s)" using fuelled_charged [OF gas] by simp
  have gas2: "fuelled 198 (spent 800 (charged ?s))" using fuelled_spent [OF gas1, of 800] by simp
  have "pact_eval ?L (Suc 255) (ELiteral (PInteger 1)) (spent 800 (charged ?s))
      = Some (Ok (PInteger 1), left_level (charged (spent 800 (charged ?s))))"
    by (rule eval_step [OF _ gas2]) (simp_all add: depth MAX_RECURSION_DEPTH_def retN_eval)
  then have key: "pact_eval ?L 256 (ELiteral (PInteger 1)) (spent 800 (charged ?s))
      = Some (Ok (PInteger 1), left_level (charged (spent 800 (charged ?s))))" by simp
  have row: "\<exists>e s'. run_prog (read_row ''t'' (PInteger 1)) s = Some (Err e, s')" for s
    by (simp add: run_prog_def read_row_def bindM_eval lift_out_eval exec_err_def)
  obtain x s' where arm: "eval_arm ?L (pact_eval ?L 256) ?e (charged ?s) = Some (Err x, s')"
    using row [of "left_level (charged (spent 800 (charged ?s)))"]
    by (auto simp: result_of_eval mapN_eval bindN_eval eval_read_def thenN_eval run_prog_eval charge_ok [OF gas1] GAS_SLOAD_def key)
  have "pact_eval ?L eval_fuel ?e ?s = Some (Err x, s')"
    using eval_step_error [OF _ gas _ arm] depth by (simp add: eval_fuel_def MAX_RECURSION_DEPTH_def numeral_eq_Suc)
  then have run: "pact_execute ?L (compile_pact ?src) [] ?s = Some (Ok (vm_failure (gm_used (pv_gas s')) (vm_error_text x)), s')"
    by (simp add: execute_compiled [OF utf8 refl parsed] eval_evals bindN_eval)
  from pact_table_access_fails [OF sample_pact_lib_rearranges parsed _ run] run show ?thesis by simp
qed

end
