(* ===== verification/Fry_Pact_Caps.thy ===== *)
theory Fry_Pact_Caps
  imports Fry_Pact_Tables
begin

text \<open>
  Capabilities of the Pact machine. The stack of active capabilities is the same after an evaluation as before, even when it
  fails, so nothing outside of a \<open>with-capability\<close> can use what it granted. A capability that is not found under the name of the
  call is granted, and the capabilities of a module are only found under qualified names.
\<close>

declare map_of_eq_Some_iff [simp del] Some_eq_map_of_iff [simp del]

declare until_close.simps [simp del] skip_docs.simps [simp del] skip_annotations.simps [simp del] parse_all_loop.simps [simp del]
  parse_expr.simps [simp del] pact_eval.simps [simp del] eval_list.simps [simp del] eval_all.simps [simp del]

subsection \<open>Active capabilities are restored\<close>

definition balanced :: "'a pact_run \<Rightarrow> bool" where
  "balanced m \<longleftrightarrow> (\<forall>s r s'. m s = Some (r, s') \<longrightarrow> r \<noteq> Panic \<longrightarrow> pv_active_caps s' = pv_active_caps s)"

definition same_caps :: "pact_vm \<Rightarrow> pact_vm \<Rightarrow> bool" where
  "same_caps s s' \<longleftrightarrow> pv_active_caps s' = pv_active_caps s"

interpretation caps: step_frame same_caps
  by unfold_locales (auto simp: same_caps_def)

named_theorems balanced_intros \<open>compositional rules for \<open>balanced\<close>\<close>

lemma balanced_run_prog: "keeps same_caps m \<Longrightarrow> balanced (run_prog m)"
  unfolding balanced_def keeps_def run_prog_def same_caps_def by (metis option.inject snd_conv)

lemma balanced_bindN [balanced_intros]:
  assumes "balanced m" and "\<And>x. balanced (f x)"
  shows "balanced (bindN m f)"
  unfolding balanced_def
proof (intro allI impI)
  fix s :: pact_vm and r s'
  assume run: "bindN m f s = Some (r, s')" and ok: "r \<noteq> Panic"
  then obtain r1 s1 where m: "m s = Some (r1, s1)" by (auto simp: bindN_def split: option.splits)
  show "pv_active_caps s' = pv_active_caps s"
  proof (cases r1)
    case (Ok x)
    with run m have "f x s1 = Some (r, s')" by (simp add: bindN_def)
    with assms m Ok ok show ?thesis unfolding balanced_def by (metis outcome.distinct(3))
  qed (use run m assms(1) ok in \<open>auto simp: bindN_def balanced_def\<close>)
qed

lemma balanced_thenN [balanced_intros]: "balanced m \<Longrightarrow> balanced m' \<Longrightarrow> balanced (thenN m m')"
  unfolding thenN_def by (rule balanced_bindN)

lemma balanced_retN [balanced_intros]: "balanced (retN x)"
  by (simp add: balanced_def retN_eval)

lemma balanced_failN [balanced_intros]: "balanced (failN e)"
  by (simp add: balanced_def failN_eval)

lemma balanced_if [balanced_intros]: "balanced m \<Longrightarrow> balanced m' \<Longrightarrow> balanced (if b then m else m')"
  by simp

lemma balanced_option [balanced_intros]:
  "balanced m \<Longrightarrow> (\<And>x. balanced (f x)) \<Longrightarrow> balanced (case z of None \<Rightarrow> m | Some x \<Rightarrow> f x)"
  by (simp split: option.split)

lemma balanced_case_prod [balanced_intros]: "(\<And>x y. balanced (f x y)) \<Longrightarrow> balanced (case z of (x, y) \<Rightarrow> f x y)"
  by (simp split: prod.split)

lemma balanced_caught [balanced_intros]: "balanced m \<Longrightarrow> balanced (caught m)"
  unfolding balanced_def caught_def by (auto split: option.splits outcome.splits)

lemma balanced_result_of [balanced_intros]: "balanced m \<Longrightarrow> balanced (result_of m)"
  unfolding result_of_def mapN_def by (intro balanced_intros)

lemma caps_update: "(\<And>s. pv_active_caps (f s) = pv_active_caps s) \<Longrightarrow> keeps same_caps (modify f)"
  by (simp add: keeps_modify same_caps_def)

lemma caps_charge: "keeps same_caps (pv_charge g)"
  by (simp add: keeps_def same_caps_def pv_charge_def split: prod.split)

lemma caps_builtin: "builtin L name = Some f \<Longrightarrow> keeps same_caps (f args)"
  unfolding builtin_def
  by (auto simp: builtin_hash_def builtin_user_guard_def define_keyset_def emit_event_def Let_def split: if_splits
      intro!: caps.keeps_thenM caps.keeps_bindM caps.keeps_lift_out caps.keeps_ret caps.keeps_gets caps_charge caps_update)

lemma caps_rows: "keeps same_caps (read_row t k)" "keeps same_caps (write_row t key v)"
proof -
  show "keeps same_caps (read_row t k)"
    unfolding read_row_def
    by (intro caps.keeps_bindM caps.keeps_lift_out caps.keeps_gets caps.keeps_option caps.keeps_fail caps.keeps_ret)
  show "keeps same_caps (write_row t key v)"
  proof (cases v)
    case (PObject row)
    have "keeps same_caps (modify (\<lambda>s. s\<lparr>pv_tables := f s\<rparr>))" for f by (rule caps_update) simp
    then show ?thesis unfolding write_row_def PObject pact_value.simps
      by (intro caps.keeps_bindM caps.keeps_gets caps.keeps_option caps.keeps_fail caps.keeps_ite caps.keeps_thenM caps.keeps_ret)
  qed (simp_all add: write_row_def caps.keeps_fail)
qed

lemma caps_lookup: "keeps same_caps (lookup_var name)"
  unfolding lookup_var_def
  by (intro caps.keeps_bindM caps.keeps_gets caps.keeps_option caps.keeps_ite caps.keeps_ret caps.keeps_fail)

lemma caps_enforce_guard: "keeps same_caps (enforce_guard v)"
proof -
  have verify: "keeps same_caps (verify_guard g)" for g by (simp add: keeps_def verify_guard_def caps.R_refl)
  then show ?thesis
    by (cases v) (auto simp: enforce_guard_def caps.keeps_fail split: option.split prod.split
        intro!: caps.keeps_bindM caps.keeps_gets)
qed

lemma balanced_progs [balanced_intros]:
  "balanced (run_prog (bind_params params args))" "balanced (run_prog (set_env env))" "balanced (run_prog (gets g))"
  "balanced (run_prog (pv_charge c))" "balanced (run_prog (lookup_var name))" "balanced (run_prog (enforce_guard v))"
  "balanced (run_prog (lift_out x))" "balanced (run_prog (read_row t kv))" "balanced (run_prog (write_row t key v))"
  "balanced (run_prog (define_fun name params body))" "balanced (run_prog (define_cap name params body))"
  "balanced (run_prog (define_schema name cs))" "balanced (run_prog (define_table name schema))"
  unfolding bind_params_def set_env_def define_fun_def define_cap_def define_schema_def define_table_def
  by (intro balanced_run_prog caps.keeps_thenM caps_update caps.keeps_gets caps_charge caps_lookup caps_enforce_guard
      caps.keeps_lift_out caps_rows caps.keeps_ret; simp)+

lemma balanced_modify: "(\<And>s. pv_active_caps (f s) = pv_active_caps s) \<Longrightarrow> balanced (run_prog (modify f))"
  by (rule balanced_run_prog) (rule caps_update)

lemma balanced_list [balanced_intros]: "(\<And>e. balanced (ev e)) \<Longrightarrow> balanced (eval_list ev es)"
  by (induction es) (auto simp: eval_list.simps intro!: balanced_intros)

locale balanced_evaluator =
  fixes ev :: "pact_expr \<Rightarrow> pact_value pact_run"
  assumes ev: "balanced (ev e)"
begin

lemma balanced_call: "balanced (call_function ev f args)"
  unfolding call_function_def by (intro balanced_intros ev)

lemma balanced_app: "balanced (eval_app L ev func args)"
proof -
  have "balanced (run_prog (f vs))" if "builtin L name = Some f" for f vs name
    by (rule balanced_run_prog [OF caps_builtin [OF that]])
  then have "balanced (case builtin L name of Some f \<Rightarrow> run_prog (f vs)
      | None \<Rightarrow> bindN (run_prog (gets pv_functions)) (\<lambda>fs. case map_of fs name of Some f \<Rightarrow> call_function ev f vs
          | None \<Rightarrow> failN (ExecutionError (''Unknown function: '' @ name))))" for name vs
    by (auto intro!: balanced_intros balanced_call split: option.split)
  moreover have "balanced (thenN (ev func) (failN e))" for e by (intro balanced_intros ev)
  ultimately show ?thesis
    unfolding eval_app_def by (cases func) (auto intro!: balanced_bindN balanced_list ev)
qed

lemma balanced_let: "balanced (eval_let ev bindings body)"
  unfolding eval_let_def by (intro balanced_intros ev)

lemma balanced_acquire: "balanced (acquire ev cap_name cap_args)"
proof -
  have "balanced (run_prog (modify (\<lambda>s. s\<lparr>pv_granted_caps := f s\<rparr>)))" for f by (rule balanced_modify) simp
  then show ?thesis unfolding acquire_def by (intro balanced_intros ev)
qed

lemma balanced_module: "balanced (load_module ev m)"
proof -
  have "balanced (run_prog (modify (\<lambda>s. s\<lparr>pv_current_module := Some n\<rparr>)))" for n by (rule balanced_modify) simp
  moreover have "balanced (run_prog (modify (\<lambda>s. s\<lparr>pv_modules := f s, pv_current_module := None\<rparr>)))" for f
    by (rule balanced_modify) simp
  ultimately show ?thesis unfolding load_module_def by (intro balanced_intros ev)
qed

text \<open>The body runs with one more capability on the stack, and the last one is taken off.\<close>

lemma balanced_with_capability: "balanced (eval_with_capability ev cap_name args body)"
proof -
  have "balanced (thenN (run_prog (modify (\<lambda>s. s\<lparr>pv_active_caps := pv_active_caps s @ [c]\<rparr>)))
      (bindN (caught (ev body)) (\<lambda>result. thenN (run_prog (modify (\<lambda>s. s\<lparr>pv_active_caps := butlast (pv_active_caps s)\<rparr>)))
         (retN result))))" for c
    unfolding balanced_def
  proof (intro allI impI)
    fix s :: pact_vm and r s'
    assume run: "thenN (run_prog (modify (\<lambda>s. s\<lparr>pv_active_caps := pv_active_caps s @ [c]\<rparr>)))
      (bindN (caught (ev body)) (\<lambda>result. thenN (run_prog (modify (\<lambda>s. s\<lparr>pv_active_caps := butlast (pv_active_caps s)\<rparr>)))
         (retN result))) s = Some (r, s')" and ok: "r \<noteq> Panic"
    let ?s = "s\<lparr>pv_active_caps := pv_active_caps s @ [c]\<rparr>"
    from run obtain r1 s1 where m: "caught (ev body) ?s = Some (r1, s1)"
      by (auto simp: thenN_eval bindN_eval run_prog_eval modify_eval split: option.splits)
    have same: "r1 \<noteq> Panic \<Longrightarrow> pv_active_caps s1 = pv_active_caps s @ [c]"
      using balanced_caught [OF ev [of body]] m unfolding balanced_def by fastforce
    show "pv_active_caps s' = pv_active_caps s"
    proof (cases r1)
      case (Ok x)
      with run m same show ?thesis by (auto simp: thenN_eval bindN_eval run_prog_eval modify_eval retN_eval)
    next
      case (Err e)
      with m show ?thesis by (auto simp: caught_eval split: option.splits outcome.splits)
    next
      case Panic
      with run m ok show ?thesis by (auto simp: thenN_eval bindN_eval run_prog_eval modify_eval)
    qed
  qed
  then show ?thesis
    unfolding eval_with_capability_def by (intro balanced_bindN balanced_list ev) (rule balanced_thenN [OF balanced_acquire])
qed

lemma balanced_arm: "balanced (eval_arm L ev e)"
proof (cases e)
  case (EModule m)
  then show ?thesis by (auto intro!: balanced_thenN balanced_module balanced_retN)
qed (auto simp: eval_if_def eval_require_capability_def eval_read_def eval_write_def eval_enforce_def
    intro!: balanced_intros balanced_app balanced_let balanced_with_capability ev)

end

lemma balanced_eval: "balanced (pact_eval L n e)"
proof (induction n arbitrary: e)
  case (Suc n)
  have "keeps same_caps eval_enter"
    by (simp add: keeps_def same_caps_def eval_enter_def pv_charge_def Let_def split: prod.split)
  then have enter: "balanced (run_prog eval_enter)" by (rule balanced_run_prog)
  have leave: "balanced (run_prog (modify (\<lambda>s. s\<lparr>pv_depth := f s\<rparr>)))" for f by (rule balanced_modify) simp
  have arm: "balanced (eval_arm L (pact_eval L n) e)"
    by (rule balanced_evaluator.balanced_arm) (unfold_locales, rule Suc.IH)
  show ?case unfolding pact_eval.simps by (intro balanced_intros enter leave arm)
qed (simp add: balanced_def pact_eval.simps)

interpretation restoring: balanced_evaluator "pact_eval L n" for L n
  by unfold_locales (rule balanced_eval)

text \<open>C19: Capabilities do not leak. Whatever expression is evaluated, and whether it succeeds or fails, the stack of
  active capabilities afterwards is the one before, unless the machine panics.\<close>

theorem pact_capabilities_restored:
  assumes "pact_eval L n e s = Some (r, s')" and "r \<noteq> Panic"
  shows "pv_active_caps s' = pv_active_caps s"
  using restoring.ev [of L n e] assms unfolding balanced_def by blast

subsection \<open>Capabilities that are not found\<close>

text \<open>A \<open>require-capability\<close> of an active capability.\<close>

lemma eval_require_active:
  assumes "pv_depth s < MAX_RECURSION_DEPTH" and "fuelled k s" and "2 \<le> k" and "(c, []) \<in> set (pv_active_caps s)"
  shows "pact_eval L (Suc n) (ERequireCapability c []) s = Some (Ok (PBool True), left_level (charged s))"
  by (rule eval_step [OF assms(1-3)])
    (use assms(4) in \<open>simp add: eval_require_capability_def result_of_eval mapN_eval bindN_eval eval_evals run_prog_eval gets_eval retN_eval\<close>)

lemma eval_with_missing:
  assumes "Suc (pv_depth s) < MAX_RECURSION_DEPTH" and "fuelled k s" and "4 \<le> k" and "map_of (pv_capabilities s) c = None"
  shows "\<exists>s'. pact_eval L (Suc (Suc n)) (EWithCapability c [] (ERequireCapability c [])) s = Some (Ok (PBool True), s')"
proof -
  let ?s = "(charged s)\<lparr>pv_active_caps := pv_active_caps s @ [(c, [])]\<rparr>"
  have gas: "fuelled (k - 2) ?s" using fuelled_charged [OF assms(2)] assms(3) by simp
  have body: "pact_eval L (Suc n) (ERequireCapability c []) ?s = Some (Ok (PBool True), left_level (charged ?s))"
    by (rule eval_require_active [OF _ gas]) (use assms in simp_all)
  have "acquire (pact_eval L (Suc n)) c [] (charged s) = Some (Ok (), charged s)"
    using assms(4) by (simp add: acquire_def bindN_eval run_prog_eval gets_eval retN_eval)
  then have "\<exists>s'. eval_arm L (pact_eval L (Suc n)) (EWithCapability c [] (ERequireCapability c [])) (charged s)
      = Some (Ok (Ok (PBool True)), s')"
    using body by (simp add: eval_with_capability_def bindN_eval thenN_eval run_prog_eval eval_evals modify_eval caught_eval retN_eval)
  then obtain s' where "eval_arm L (pact_eval L (Suc n)) (EWithCapability c [] (ERequireCapability c [])) (charged s)
      = Some (Ok (Ok (PBool True)), s')" by blast
  from eval_step [OF _ assms(2) _ this] assms(1,3) show ?thesis by simp
qed

theorem pact_capabilities_restored_witness:
  "\<exists>s'. pact_eval sample_pact_lib 2 (EWithCapability ''c'' [] (ERequireCapability ''c'' [])) (pact_new sample_pact_context)
      = Some (Ok (PBool True), s') \<and> pv_active_caps s' = []"
proof -
  let ?s = "pact_new sample_pact_context"
  have "fuelled 4 ?s" by (rule fuelled_new) (simp add: sample_pact_context_def context_new_def)
  then obtain s' where run: "pact_eval sample_pact_lib (Suc (Suc 0)) (EWithCapability ''c'' [] (ERequireCapability ''c'' [])) ?s
      = Some (Ok (PBool True), s')"
    using eval_with_missing [of ?s 4 "''c''"] by (auto simp: pact_new_def MAX_RECURSION_DEPTH_def)
  from pact_capabilities_restored [OF run] run show ?thesis by (simp add: pact_new_def numeral_2_eq_2)
qed

text \<open>The definition of a capability in a module, and a module that defines one.\<close>

lemma eval_defcap:
  assumes "pv_depth s < MAX_RECURSION_DEPTH" and "fuelled k s" and "2 \<le> k"
  shows "\<exists>s'. pact_eval L (Suc n) (EDefcap c ps b) s = Some (Ok PUnit, s')
    \<and> (\<forall>d. d \<noteq> full_name s c \<longrightarrow> map_of (pv_capabilities s') d = map_of (pv_capabilities s) d)
    \<and> fuelled (k - 2) s' \<and> pv_depth s' = pv_depth s"
proof -
  let ?cap = "\<lparr>pc_name = c, pc_params = ps, pc_body = b, pc_module = home_module s\<rparr>"
  let ?s = "(charged s)\<lparr>pv_capabilities := AList.update (full_name s c) ?cap (pv_capabilities s)\<rparr>"
  have "eval_arm L (pact_eval L n) (EDefcap c ps b) (charged s) = Some (Ok (Ok PUnit), ?s)"
    by (simp add: result_of_eval mapN_eval bindN_eval run_prog_eval define_cap_def thenM_eval bindM_eval modify_eval ret_eval
        retN_eval full_name_def home_module_def)
  from eval_step [OF assms this] show ?thesis
    using fuelled_charged [OF assms(2,3)] by (simp add: map_of_update_apply)
qed

lemma eval_module_defcap:
  assumes "Suc (pv_depth s) < MAX_RECURSION_DEPTH" and "fuelled k s" and "4 \<le> k" and "m \<noteq> []"
  shows "\<exists>v s'. pact_eval L (Suc (Suc n)) (EModule (PactModule m g i [EDefcap c ps b])) s = Some (Ok v, s')
    \<and> map_of (pv_capabilities s') c = map_of (pv_capabilities s) c \<and> fuelled (k - 4) s' \<and> pv_depth s' = pv_depth s"
proof -
  let ?s = "(charged s)\<lparr>pv_current_module := Some m\<rparr>"
  have gas: "fuelled (k - 2) ?s" using fuelled_charged [OF assms(2)] assms(3) by simp
  have two: "2 \<le> k - 2" and four: "k - 2 - 2 = k - 4" using assms(3) by simp_all
  obtain s1 where one: "pact_eval L (Suc n) (EDefcap c ps b) ?s = Some (Ok PUnit, s1)"
    and caps: "\<forall>d. d \<noteq> full_name ?s c \<longrightarrow> map_of (pv_capabilities s1) d = map_of (pv_capabilities ?s) d"
    and rest: "fuelled (k - 4) s1" "pv_depth s1 = pv_depth ?s"
    using eval_defcap [OF _ gas two, of L n c ps b] assms(1) by (auto simp: four)
  have "length c < length (full_name ?s c)" using assms(4) by (simp add: full_name_def)
  then have "c \<noteq> full_name ?s c" by (metis less_irrefl)
  with caps have same: "map_of (pv_capabilities s1) c = map_of (pv_capabilities s) c" by simp
  let ?s' = "s1\<lparr>pv_modules := AList.update m (PactModule m g i [EDefcap c ps b]) (pv_modules s1), pv_current_module := None\<rparr>"
  have "eval_arm L (pact_eval L (Suc n)) (EModule (PactModule m g i [EDefcap c ps b])) (charged s)
      = Some (Ok (Ok (PString (''Loaded module: '' @ m))), ?s')"
    using one by (simp add: load_module_def thenN_eval bindN_eval run_prog_eval modify_eval eval_evals retN_eval)
  from eval_step [OF _ assms(2) _ this] assms(1,3) same rest show ?thesis by (auto simp: fuelled_def)
qed

text \<open>C18: The body of a module's capability is never run by its own callers. A program that loads a module which
  defines a capability with any parameters and any body, even one that always fails, then acquires the capability by its name and
  requires it, succeeds: the capability is stored under the qualified name, is not found, and is granted.\<close>

theorem pact_module_capability_not_enforced:
  assumes "m \<noteq> []" and "map_of (pv_capabilities s) c = None" and "pv_depth s = 0"
    and "unat (gm_used (pv_gas s)) + 8 \<le> unat (gm_limit (pv_gas s))"
  shows "\<exists>s'. eval_all L v [EModule (PactModule m g i [EDefcap c ps b]), EWithCapability c [] (ERequireCapability c [])] s
    = Some (Ok (PBool True), s')"
proof -
  have fuel: "eval_fuel = Suc (Suc 255)" by (simp add: eval_fuel_def MAX_RECURSION_DEPTH_def)
  have gas: "fuelled 8 s" using assms(4) by (simp add: fuelled_def gas_left_def word_le_nat_alt)
  obtain v1 s1 where m: "pact_eval L eval_fuel (EModule (PactModule m g i [EDefcap c ps b])) s = Some (Ok v1, s1)"
    and s1: "map_of (pv_capabilities s1) c = None" "fuelled 4 s1" "pv_depth s1 = 0"
    using eval_module_defcap [OF _ gas _ assms(1), of L 255 g i c ps b] assms(2,3) unfolding fuel
    by (auto simp: MAX_RECURSION_DEPTH_def)
  obtain s2 where "pact_eval L eval_fuel (EWithCapability c [] (ERequireCapability c [])) s1 = Some (Ok (PBool True), s2)"
    using eval_with_missing [OF _ s1(2) _ s1(1), of L 255] s1(3) unfolding fuel by (auto simp: MAX_RECURSION_DEPTH_def)
  with m show ?thesis by (simp add: eval_evals bindN_eval)
qed

theorem pact_module_capability_not_enforced_witness:
  "\<exists>s'. eval_all sample_pact_lib PUnit
      [EModule (PactModule ''m'' (GovKeyset ''g'') [] [EDefcap ''c'' [] (EEnforce (ELiteral (PBool False)) ''no'')]),
       EWithCapability ''c'' [] (ERequireCapability ''c'' [])] (pact_new sample_pact_context) = Some (Ok (PBool True), s')"
  by (rule pact_module_capability_not_enforced)
    (simp_all add: pact_new_def sample_pact_context_def context_new_def meter_new_def)

subsection \<open>Calls\<close>

text \<open>No program can subtract. The operator of a call is read as the start of a number when it is a minus sign, so every
  text that opens with a call of \<open>-\<close> is refused before anything is run.\<close>

theorem pact_subtraction_unparsable:
  "parse_all (''(- '' @ rest) = Some (Err (ExecutionError ''Invalid integer''))"
  by (simp add: pact_evals cong: pact_congs)

text \<open>Built-in functions that index their arguments without a check.\<close>

definition unchecked_builtins :: "string list" where
  "unchecked_builtins = [''mod'', ''^'', ''abs'', ''sqrt'', ''='', ''<'', ''not'', ''and'', ''length'', ''take'', ''at'', ''contains'',
     ''reverse'', ''sort'', ''typeof'', ''format'']"

lemma unchecked_panic:
  "list_all (\<lambda>name. \<exists>f. builtin L name = Some f \<and> (\<forall>s. f [] s = (Panic, s))) unchecked_builtins"
  by (simp add: unchecked_builtins_def builtin_def pure_builtin_def int_args_def int_arg_def arg_def pact_abs_def pact_sqrt_def
      any_args_def compare_args_def pact_not_def pact_length_def take_or_drop_def pact_at_def pact_contains_def pact_reverse_def
      list_arg_def sort_args_def pact_format_def string_arg_def lift_out_eval)

lemma unchecked_parse:
  "list_all (\<lambda>name. valid_utf8 (''('' @ name @ '')'') \<and> parse_all (''('' @ name @ '')'') = Some (Ok [EApp (ESymbol name) []])) unchecked_builtins"
  by (simp add: unchecked_builtins_def pact_evals cong: pact_congs)

text \<open>C20: A contract can stop the node. A program that consists of a call, without any argument, of one of the sixteen
  built-in functions of \<open>unchecked_builtins\<close> does not fail, it panics, on any machine that has gas for one step.\<close>

theorem pact_missing_argument_panics:
  assumes "name \<in> set unchecked_builtins" and "2 \<le> unat (ec_gas_limit ctx)"
  shows "\<exists>s'. pact_execute L (compile_pact (''('' @ name @ '')'')) [] (pact_new ctx) = Some (Panic, s')"
proof -
  let ?s = "pact_new ctx" and ?e = "EApp (ESymbol name) []"
  obtain f where f: "builtin L name = Some f" "\<And>s. f [] s = (Panic, s)"
    using unchecked_panic [of L] assms(1) by (auto simp: list_all_iff)
  have src: "valid_utf8 (''('' @ name @ '')'')" "parse_all (''('' @ name @ '')'') = Some (Ok [?e])"
    using unchecked_parse assms(1) unfolding list_all_iff by blast+
  have arm: "eval_arm L (pact_eval L 256) ?e (charged ?s) = Some (Panic, charged ?s)"
    using f by (simp add: caught_eval eval_app_def bindN_eval eval_evals run_prog_eval)
  have "pact_eval L (Suc 256) ?e ?s = Some (Panic, charged ?s)"
    by (rule eval_step_panic [OF _ fuelled_new [OF assms(2)] order_refl arm]) (simp add: pact_new_def MAX_RECURSION_DEPTH_def)
  then show ?thesis
    unfolding execute_compiled [OF src(1) refl src(2)] by (simp add: eval_evals bindN_eval eval_fuel_def MAX_RECURSION_DEPTH_def)
qed

theorem pact_missing_argument_panics_witness:
  "\<exists>s'. pact_execute sample_pact_lib (compile_pact ''(not)'') [] (pact_new sample_pact_context) = Some (Panic, s')"
  using pact_missing_argument_panics [of "''not''" sample_pact_context sample_pact_lib]
  by (simp add: unchecked_builtins_def sample_pact_context_def context_new_def)

end
