(* ===== verification/Fry_Amounts.thy ===== *)
theory Fry_Amounts
  imports Fry_Difficulty
begin

text \<open>
  The rest of \<open>frychain-core/src/types.rs\<close>: the 512-bit hash with its two serialized forms, the printed forms, the operators
  on amounts and gas, and the parts that compute in \<open>f64\<close>: whole tokens and \<open>Difficulty::adjust\<close>. The lemmas: the
  serialized forms of a 512-bit hash are read back, and the adjustment stays within a factor of four except for
  two times of zero, which forget the difficulty.
\<close>

subsection \<open>512-bit hashes\<close>

type_synonym hash512 = bytes

definition hash512_zero :: hash512 where
  "hash512_zero = replicate 64 0"

definition hash512_to_hex :: "hex_codec \<Rightarrow> hash512 \<Rightarrow> string" where
  "hash512_to_hex hx h = ''0x'' @ hex_encode hx h"

definition hash512_debug :: "hex_codec \<Rightarrow> hash512 \<Rightarrow> string" where
  "hash512_debug hx h = ''Hash512('' @ take 18 (hash512_to_hex hx h) @ ''...)''"

text \<open>What a serializer is given: a text when the format is for people, bytes otherwise.\<close>

datatype serial_form = SerialText string | SerialBytes bytes

definition hash512_serialize :: "hex_codec \<Rightarrow> bool \<Rightarrow> hash512 \<Rightarrow> serial_form" where
  "hash512_serialize hx human_readable h = (if human_readable then SerialText (hex_encode hx h) else SerialBytes h)"

definition fixed_bytes :: "nat \<Rightarrow> string \<Rightarrow> bytes \<Rightarrow> (string, bytes) outcome" where
  "fixed_bytes n text bs = (if length bs \<noteq> n then Err text else Ok bs)"

text \<open>A deserializer asked for the other form reports an error of its own.\<close>

definition deserialize_fixed :: "hex_codec \<Rightarrow> nat \<Rightarrow> string \<Rightarrow> bool \<Rightarrow> serial_form \<Rightarrow> (string, bytes) outcome" where
  "deserialize_fixed hx n text human_readable form =
     (case form of
        SerialText s \<Rightarrow>
          if human_readable then bindR (from_sum id (hex_decode hx s)) (fixed_bytes n text) else Err ''invalid type''
      | SerialBytes bs \<Rightarrow> if human_readable then Err ''invalid type'' else fixed_bytes n text bs)"

definition hash512_deserialize :: "hex_codec \<Rightarrow> bool \<Rightarrow> serial_form \<Rightarrow> (string, hash512) outcome" where
  "hash512_deserialize hx = deserialize_fixed hx 64 ''expected 64 bytes''"

subsection \<open>Printed forms\<close>

definition hash256_debug :: "hex_codec \<Rightarrow> hash256 \<Rightarrow> string" where
  "hash256_debug hx h = ''Hash256('' @ hash_to_hex hx h @ '')''"

definition hash256_display :: "hex_codec \<Rightarrow> hash256 \<Rightarrow> string" where
  "hash256_display hx h = hash_to_hex hx h"

definition nonce_display :: "nonce \<Rightarrow> string" where
  "nonce_display n = show_nat (unat n)"

definition height_display :: "block_height \<Rightarrow> string" where
  "height_display h = show_nat (unat h)"

subsection \<open>Operators\<close>

text \<open>The release build wraps.\<close>

definition amount_add :: "token_amount \<Rightarrow> token_amount \<Rightarrow> token_amount" where
  "amount_add a b = a + b"

definition amount_sub :: "token_amount \<Rightarrow> token_amount \<Rightarrow> token_amount" where
  "amount_sub a b = a - b"

definition gas_add :: "gas \<Rightarrow> gas \<Rightarrow> gas" where
  "gas_add a b = a + b"

definition gas_sub :: "gas \<Rightarrow> gas \<Rightarrow> gas" where
  "gas_sub a b = a - b"

definition gas_checked_add :: "gas \<Rightarrow> gas \<Rightarrow> gas option" where
  "gas_checked_add a b = checked_add a b"

definition gas_checked_sub :: "gas \<Rightarrow> gas \<Rightarrow> gas option" where
  "gas_checked_sub a b = checked_sub a b"

definition gas_saturating_sub :: "gas \<Rightarrow> gas \<Rightarrow> gas" where
  "gas_saturating_sub a b = saturating_sub a b"

subsection \<open>Floating point\<close>

definition to_fry :: "token_amount \<Rightarrow> f64" where
  "to_fry a = f64_div (f64_of_nat (unat a)) (f64_of_nat (unat UNITS_PER_FRY))"

text \<open>Of a number of tokens that is not negative; \<open>as\<close> makes zero of the others.\<close>

definition from_fry_decimal :: "f64 \<Rightarrow> token_amount" where
  "from_fry_decimal fry = f64_to_u128 (f64_mul fry (f64_of_nat (unat UNITS_PER_FRY)))"

text \<open>\<open>Difficulty::adjust\<close>. A target time of zero makes the ratio infinite, which the clamp brings to 4, or not a
  number when the actual time is zero as well: clamp and division keep that, and \<open>as\<close> makes it zero.\<close>

definition difficulty_adjust :: "difficulty \<Rightarrow> u64 \<Rightarrow> u64 \<Rightarrow> difficulty" where
  "difficulty_adjust d actual_time_secs target_time_secs =
     (if target_time_secs = 0 \<and> actual_time_secs = 0 then difficulty_new (max 0 1)
      else let clamped_ratio =
               (if target_time_secs = 0 then 4 * f64_one
                else f64_clamp (f64_div (f64_of_nat (unat actual_time_secs)) (f64_of_nat (unat target_time_secs)))
                       (f64_one div 4) (4 * f64_one));
               new_diff = f64_to_u128 (f64_div (f64_of_nat (unat d)) clamped_ratio)
           in difficulty_new (max new_diff 1))"

subsection \<open>Bounds of a quotient\<close>

lemma round_at_less:
  assumes "n < m"
  shows "round_at s n st \<le> round_at s m False"
proof (cases "n div 2 ^ s = m div 2 ^ s")
  case True
  have "n mod 2 ^ s < m mod 2 ^ s"
  proof -
    have "n div 2 ^ s * 2 ^ s + n mod 2 ^ s < m div 2 ^ s * 2 ^ s + m mod 2 ^ s"
      using assms by (simp only: div_mult_mod_eq)
    with True show ?thesis by simp
  qed
  with True show ?thesis by (auto simp: round_at_def Let_def)
next
  case False
  with assms have "n div 2 ^ s + 1 \<le> m div 2 ^ s" by (simp add: div_le_mono order_neq_le_trans Suc_leI)
  then have "(n div 2 ^ s + 1) * 2 ^ s \<le> m div 2 ^ s * 2 ^ s" by (rule mult_le_mono1)
  with round_at_range(2) [of s n st] round_at_range(1) [of m s False] show ?thesis by linarith
qed

lemma round53_less:
  assumes "n < m"
  shows "round53 n st \<le> round53 m False"
proof (cases "n = 0")
  case True
  then show ?thesis by (simp add: round53_small)
next
  case False
  with assms have pos: "0 < n" "0 < m" by simp_all
  have le: "bit_len n \<le> bit_len m" using assms by (intro bit_len_mono) simp
  show ?thesis
  proof (cases "bit_len n = bit_len m")
    case True
    with assms show ?thesis by (auto simp: round53_round_at intro: round_at_less)
  next
    case False
    with le have "bit_len n \<le> bit_len m - 1" by simp
    then have "(2::nat) ^ bit_len n \<le> 2 ^ (bit_len m - 1)" by (rule power_increasing) simp
    with round53_range [OF pos(1), of st] round53_range [OF pos(2), of False] show ?thesis by linarith
  qed
qed

lemma round53_sticky: "round53 n False \<le> round53 n st"
  by (auto simp: round53_def Let_def)

lemma f64_div_bounds:
  assumes "2 ^ 126 \<le> c" and "c \<le> 2 ^ 130"
  shows "round53 d False div 4 \<le> f64_div (f64_of_nat d) c div f64_one"
    and "f64_div (f64_of_nat d) c div f64_one \<le> 4 * round53 d False"
proof -
  let ?D = "round53 d False"
  let ?q = "?D * 2 ^ 256 div c"
  have f: "f64_div (f64_of_nat d) c = round53 ?q (?D * 2 ^ 256 mod c \<noteq> 0)"
    by (simp add: f64_div_def f64_of_nat_def f64_one_def mult.commute)
  have "?D * 2 ^ 126 * c \<le> ?D * 2 ^ 126 * 2 ^ 130" using assms(2) by (rule mult_le_mono2)
  also have "\<dots> = ?D * 2 ^ 256" by simp
  finally have lo: "?D * 2 ^ 126 \<le> ?q" using assms(1) by (simp add: less_eq_div_iff_mult_less_eq)
  have "?D * 2 ^ 126 \<le> round53 ?q False" using round53_mono [OF lo] round53_round53_shift [of d False 126] by simp
  also have "\<dots> \<le> f64_div (f64_of_nat d) c" unfolding f by (rule round53_sticky)
  finally have "?D * 2 ^ 126 div 2 ^ 128 \<le> f64_div (f64_of_nat d) c div 2 ^ 128" by (rule div_le_mono)
  moreover have "?D * 2 ^ 126 div 2 ^ 128 = ?D div 4" using div_mult_mult2 [of "2 ^ 126" ?D 4] by simp
  ultimately show "?D div 4 \<le> f64_div (f64_of_nat d) c div f64_one" by (simp add: f64_one_def)
  have "f64_div (f64_of_nat d) c \<le> ?D * 2 ^ 130"
  proof (cases "?q < ?D * 2 ^ 130")
    case True
    from round53_less [OF this] show ?thesis unfolding f using round53_round53_shift [of d False 130] by simp
  next
    case False
    have "?D * 2 ^ 130 * 2 ^ 126 \<le> ?D * 2 ^ 130 * c" using assms(1) by (rule mult_le_mono2)
    then have "?D * 2 ^ 256 \<le> ?D * 2 ^ 130 * c" by simp
    moreover have "?D * 2 ^ 130 * c \<le> ?q * c" using False by (intro mult_le_mono1) simp
    moreover have "?q * c + ?D * 2 ^ 256 mod c = ?D * 2 ^ 256" by simp
    ultimately have "?D * 2 ^ 256 mod c = 0" and "?q * c = ?D * 2 ^ 130 * c" by linarith+
    moreover have "0 < c" using assms(1) by (rule order_less_le_trans [rotated]) simp
    ultimately have "?q = ?D * 2 ^ 130" by simp
    with \<open>?D * 2 ^ 256 mod c = 0\<close> show ?thesis unfolding f using round53_round53_shift [of d False 130] by simp
  qed
  then have "f64_div (f64_of_nat d) c div 2 ^ 128 \<le> ?D * 2 ^ 130 div 2 ^ 128" by (rule div_le_mono)
  then show "f64_div (f64_of_nat d) c div f64_one \<le> 4 * ?D" by (simp add: f64_one_def)
qed

subsection \<open>Properties\<close>

text \<open>A 512-bit hash is read back from both of its serialized forms, and what is read has 64 bytes.\<close>

theorem hash512_serial_roundtrip:
  assumes "hex_laws hx" and "length h = 64"
  shows "hash512_deserialize hx r (hash512_serialize hx r h) = Ok h
    \<and> (hash512_deserialize hx r form = Ok h' \<longrightarrow> length h' = 64)"
proof
  show "hash512_deserialize hx r (hash512_serialize hx r h) = Ok h"
    using assms by (simp add: hash512_deserialize_def deserialize_fixed_def hash512_serialize_def hex_laws_def fixed_bytes_def)
  show "hash512_deserialize hx r form = Ok h' \<longrightarrow> length h' = 64"
    by (auto simp: hash512_deserialize_def deserialize_fixed_def fixed_bytes_def bindR_Ok_iff split: serial_form.splits if_splits)
qed

text \<open>\<open>Difficulty::adjust\<close> stays within a factor of four of the difficulty rounded to 53 bits, capped at the largest
  128-bit number and never below 1, whatever the times, a target time of zero included; only two times of zero
  forget the difficulty and give 1.\<close>

theorem difficulty_adjust_bounded:
  fixes d :: difficulty and actual target :: u64
  assumes "actual \<noteq> 0 \<or> target \<noteq> 0"
  defines "D \<equiv> round53 (unat d) False"
  shows "max 1 (min (D div 4) (2 ^ 128 - 1)) \<le> unat (difficulty_adjust d actual target)
    \<and> unat (difficulty_adjust d actual target) \<le> max 1 (min (4 * D) (2 ^ 128 - 1))
    \<and> difficulty_adjust d 0 0 = 1"
proof -
  define c where "c = (if target = 0 then 4 * f64_one
    else f64_clamp (f64_div (f64_of_nat (unat actual)) (f64_of_nat (unat target))) (f64_one div 4) (4 * f64_one))"
  have c: "2 ^ 126 \<le> c" "c \<le> 2 ^ 130" by (auto simp: c_def f64_clamp_def f64_one_def)
  have mx: "unat (max x 1) = max (unat x) 1" for x :: u128 by (auto simp: max_def word_le_nat_alt)
  have "difficulty_adjust d actual target = difficulty_new (max (f64_to_u128 (f64_div (f64_of_nat (unat d)) c)) 1)"
    using assms(1) by (auto simp: difficulty_adjust_def c_def Let_def)
  then have u: "unat (difficulty_adjust d actual target) = max (min (f64_div (f64_of_nat (unat d)) c div f64_one) (2 ^ 128 - 1)) 1"
    by (simp only: unat_difficulty_new mx f64_to_u128_value max.assoc max.idem)
  have "max 1 (min (D div 4) (2 ^ 128 - 1)) \<le> unat (difficulty_adjust d actual target)
    \<and> unat (difficulty_adjust d actual target) \<le> max 1 (min (4 * D) (2 ^ 128 - 1))"
    unfolding u D_def by (rule clip) (rule f64_div_bounds [OF c])+
  moreover have "difficulty_adjust d 0 0 = 1" by (simp add: difficulty_adjust_def difficulty_new_def)
  ultimately show ?thesis by blast
qed

theorem difficulty_adjust_bounded_witness:
  "250 \<le> unat (difficulty_adjust 1000 60 0) \<and> unat (difficulty_adjust 1000 60 0) \<le> 4000"
  using difficulty_adjust_bounded [of 60 0 1000] by (simp add: round53_small)

end
