(* ===== verification/Fry_Keygen.thy ===== *)
theory Fry_Keygen
  imports Fry_Keys Fry_Amounts
begin

text \<open>
  The rest of \<open>frychain-crypto/src\<close>: key generation with the random draw as an argument, \<open>sphincs.rs\<close> and the
  three implementations of the trait \<open>SignatureScheme\<close>, the enums \<open>PublicKey\<close> and \<open>PrivateKey\<close> of \<open>keys.rs\<close>,
  the serialized forms of an Ed25519 signature, and the debug forms. The lemmas: a generated pair belongs together in its scheme,
  so what it signs verifies; the unified layer says of every scheme what the scheme says of itself; no debug form
  depends on a private key.
\<close>

subsection \<open>\<open>sphincs.rs\<close>\<close>

text \<open>The text of \<open>dilithium.rs\<close> over another library.\<close>

definition sphincs_public_key_from_bytes :: "crypto_libs \<Rightarrow> bytes \<Rightarrow> (crypto_error, bytes) outcome" where
  "sphincs_public_key_from_bytes L bs = pq_public_key_from_bytes (cl_sphincs L) bs"

definition sphincs_private_key_from_bytes :: "crypto_libs \<Rightarrow> bytes \<Rightarrow> (crypto_error, bytes) outcome" where
  "sphincs_private_key_from_bytes L bs = pq_private_key_from_bytes (cl_sphincs L) bs"

definition sphincs_keypair_from_bytes :: "crypto_libs \<Rightarrow> bytes \<Rightarrow> bytes \<Rightarrow> (crypto_error, raw_keypair) outcome" where
  "sphincs_keypair_from_bytes L pk sk =
     bindR (sphincs_public_key_from_bytes L pk) (\<lambda>pk'.
     bindR (sphincs_private_key_from_bytes L sk) (\<lambda>sk'.
     Ok \<lparr>kp_public_key = pk', kp_private_key = sk'\<rparr>))"

definition sphincs_sign :: "crypto_libs \<Rightarrow> raw_keypair \<Rightarrow> bytes \<Rightarrow> (crypto_error, bytes) outcome" where
  "sphincs_sign L kp message = pq_wrapper_sign (cl_sphincs L) (kp_private_key kp) message"

definition sphincs_verify :: "crypto_libs \<Rightarrow> bytes \<Rightarrow> bytes \<Rightarrow> bytes \<Rightarrow> bool" where
  "sphincs_verify L pk message sig = pq_wrapper_verify (cl_sphincs L) pk message sig"

subsection \<open>Key generation\<close>

text \<open>What the random number generator yields: the key pairs of the two post-quantum libraries, which draw their own
  randomness, and the 32 bytes that \<open>fill_bytes\<close> writes.\<close>

record entropy =
  en_dilithium :: "bytes \<times> bytes"
  en_sphincs :: "bytes \<times> bytes"
  en_ed25519 :: bytes

definition entropy_ok :: "crypto_libs \<Rightarrow> entropy \<Rightarrow> bool" where
  "entropy_ok L en \<longleftrightarrow> pq_keypair (cl_dilithium L) (fst (en_dilithium en)) (snd (en_dilithium en))
     \<and> pq_keypair (cl_sphincs L) (fst (en_sphincs en)) (snd (en_sphincs en))
     \<and> length (en_ed25519 en) = 32"

definition dilithium_generate :: "entropy \<Rightarrow> (crypto_error, raw_keypair) outcome" where
  "dilithium_generate en =
     (let (pk, sk) = en_dilithium en in Ok \<lparr>kp_public_key = pk, kp_private_key = sk\<rparr>)"

definition sphincs_generate :: "entropy \<Rightarrow> (crypto_error, raw_keypair) outcome" where
  "sphincs_generate en =
     (let (pk, sk) = en_sphincs en in Ok \<lparr>kp_public_key = pk, kp_private_key = sk\<rparr>)"

definition ed25519_generate :: "crypto_libs \<Rightarrow> entropy \<Rightarrow> (crypto_error, raw_keypair) outcome" where
  "ed25519_generate L en =
     (let secret_key_bytes = en_ed25519 en
      in Ok \<lparr>kp_public_key = ed_verifying_key (cl_ed25519 L) secret_key_bytes, kp_private_key = secret_key_bytes\<rparr>)"

definition keypair_generate :: "crypto_libs \<Rightarrow> entropy \<Rightarrow> keypair_type \<Rightarrow> (crypto_error, keypair) outcome" where
  "keypair_generate L en key_type =
     (case key_type of
        Dilithium \<Rightarrow> bindR (dilithium_generate en) (\<lambda>kp. Ok (Keypair Dilithium kp))
      | SphincsPlus \<Rightarrow> bindR (sphincs_generate en) (\<lambda>kp. Ok (Keypair SphincsPlus kp))
      | Ed25519 \<Rightarrow> bindR (ed25519_generate L en) (\<lambda>kp. Ok (Keypair Ed25519 kp)))"

definition generate_default :: "crypto_libs \<Rightarrow> entropy \<Rightarrow> (crypto_error, keypair) outcome" where
  "generate_default L en = keypair_generate L en Dilithium"

subsection \<open>The unified keys\<close>

datatype public_key = PublicKey keypair_type bytes

datatype private_key = PrivateKey keypair_type bytes

fun public_key_type :: "public_key \<Rightarrow> keypair_type" where
  "public_key_type (PublicKey t bs) = t"

fun public_key_as_bytes :: "public_key \<Rightarrow> bytes" where
  "public_key_as_bytes (PublicKey t bs) = bs"

fun public_key_to_address :: "hash_fn \<Rightarrow> public_key \<Rightarrow> address" where
  "public_key_to_address sha3 (PublicKey t bs) = address_from_public_key sha3 bs"

definition public_key_post_quantum :: "public_key \<Rightarrow> bool" where
  "public_key_post_quantum pk = key_type_post_quantum (public_key_type pk)"

fun private_key_type :: "private_key \<Rightarrow> keypair_type" where
  "private_key_type (PrivateKey t bs) = t"

fun private_key_as_bytes :: "private_key \<Rightarrow> bytes" where
  "private_key_as_bytes (PrivateKey t bs) = bs"

fun keypair_public_key :: "keypair \<Rightarrow> public_key" where
  "keypair_public_key (Keypair t kp) = PublicKey t (kp_public_key kp)"

fun keypair_private_key :: "keypair \<Rightarrow> private_key" where
  "keypair_private_key (Keypair t kp) = PrivateKey t (kp_private_key kp)"

definition keypair_post_quantum :: "keypair \<Rightarrow> bool" where
  "keypair_post_quantum kp = key_type_post_quantum (keypair_key_type kp)"

subsection \<open>The implementations of the trait\<close>

record scheme =
  sc_sign :: "bytes \<Rightarrow> bytes \<Rightarrow> (crypto_error, bytes) outcome"
  sc_verify :: "bytes \<Rightarrow> bytes \<Rightarrow> bytes \<Rightarrow> bool"
  sc_algorithm_name :: string
  sc_is_post_quantum :: bool

definition dilithium_scheme :: "crypto_libs \<Rightarrow> scheme" where
  "dilithium_scheme L =
     \<lparr>sc_sign = pq_wrapper_sign (cl_dilithium L), sc_verify = pq_wrapper_verify (cl_dilithium L),
      sc_algorithm_name = ''Dilithium2'', sc_is_post_quantum = True\<rparr>"

definition sphincs_scheme :: "crypto_libs \<Rightarrow> scheme" where
  "sphincs_scheme L =
     \<lparr>sc_sign = pq_wrapper_sign (cl_sphincs L), sc_verify = sphincs_verify L,
      sc_algorithm_name = ''SPHINCS+-SHAKE-128s'', sc_is_post_quantum = True\<rparr>"

definition ed25519_scheme :: "crypto_libs \<Rightarrow> scheme" where
  "ed25519_scheme L =
     \<lparr>sc_sign = ed_wrapper_sign (cl_ed25519 L), sc_verify = ed_wrapper_verify (cl_ed25519 L),
      sc_algorithm_name = ''Ed25519'', sc_is_post_quantum = False\<rparr>"

fun scheme_of :: "crypto_libs \<Rightarrow> keypair_type \<Rightarrow> scheme" where
  "scheme_of L Dilithium = dilithium_scheme L"
| "scheme_of L SphincsPlus = sphincs_scheme L"
| "scheme_of L Ed25519 = ed25519_scheme L"

subsection \<open>Serialized and debug forms\<close>

definition ed_signature_serialize :: "hex_codec \<Rightarrow> bool \<Rightarrow> bytes \<Rightarrow> serial_form" where
  "ed_signature_serialize hx human_readable sig =
     (if human_readable then SerialText (hex_encode hx sig) else SerialBytes sig)"

definition ed_signature_deserialize :: "hex_codec \<Rightarrow> bool \<Rightarrow> serial_form \<Rightarrow> (string, bytes) outcome" where
  "ed_signature_deserialize hx = deserialize_fixed hx 64 ''expected 64 bytes for signature''"

text \<open>The derived form of a key that is a list of bytes.\<close>

fun debug_items :: "bytes \<Rightarrow> string" where
  "debug_items [] = []"
| "debug_items [b] = show_nat (unat b)"
| "debug_items (b # bs) = show_nat (unat b) @ '', '' @ debug_items bs"

definition debug_key :: "string \<Rightarrow> bytes \<Rightarrow> string" where
  "debug_key name bs = name @ ''(['' @ debug_items bs @ ''])''"

fun debug_type :: "keypair_type \<Rightarrow> string" where
  "debug_type Dilithium = ''Dilithium''"
| "debug_type SphincsPlus = ''SphincsPlus''"
| "debug_type Ed25519 = ''Ed25519''"

text \<open>The forms of \<open>debug_struct\<close> without the alternate flag.\<close>

definition raw_private_key_debug :: "keypair_type \<Rightarrow> bytes \<Rightarrow> string" where
  "raw_private_key_debug t sk =
     (case t of
        Dilithium \<Rightarrow> ''DilithiumPrivateKey([REDACTED])''
      | SphincsPlus \<Rightarrow> ''SphincsPrivateKey([REDACTED])''
      | Ed25519 \<Rightarrow> ''Ed25519PrivateKey([REDACTED])'')"

definition raw_keypair_debug :: "keypair_type \<Rightarrow> raw_keypair \<Rightarrow> string" where
  "raw_keypair_debug t kp =
     (let name = (case t of Dilithium \<Rightarrow> ''Dilithium'' | SphincsPlus \<Rightarrow> ''Sphincs'' | Ed25519 \<Rightarrow> ''Ed25519'')
      in name @ ''Keypair { public_key: '' @ debug_key (name @ ''PublicKey'') (kp_public_key kp)
         @ '', private_key: '' @ [CHR 34] @ ''[REDACTED]'' @ [CHR 34] @ '' }'')"

fun private_key_debug :: "private_key \<Rightarrow> string" where
  "private_key_debug (PrivateKey t sk) = ''PrivateKey('' @ debug_type t @ '', [REDACTED])''"

definition keypair_debug :: "base58_codec \<Rightarrow> hash_fn \<Rightarrow> keypair \<Rightarrow> string" where
  "keypair_debug b58 sha3 kp =
     ''Keypair { type: '' @ debug_type (keypair_key_type kp) @ '', address: Address(''
       @ address_to_string b58 (keypair_address sha3 kp) @ '') }''"

subsection \<open>Properties\<close>

lemma generated_belongs:
  assumes "pq_laws (cl_dilithium L)" and "pq_laws (cl_sphincs L)" and "ed_laws (cl_ed25519 L)" and "entropy_ok L en"
  shows "\<exists>kp. keypair_generate L en t = Ok kp \<and> keypair_key_type kp = t \<and> wf_keypair L kp"
  using assms
  by (cases t) (auto simp: keypair_generate_def dilithium_generate_def sphincs_generate_def ed25519_generate_def
      entropy_ok_def pq_belongs_def ed_belongs_def Let_def split: prod.splits)

text \<open>Key generation never fails, and what it makes works. For every scheme and every draw of the generator the pair has the
  scheme asked for, its signature of any message is accepted by the unified verification, and the address of the pair, of
  its public key and of the signature are one. The default is a post-quantum pair.\<close>

theorem generated_keys_work:
  assumes "pq_laws (cl_dilithium L)" and "pq_laws (cl_sphincs L)" and "ed_laws (cl_ed25519 L)" and "entropy_ok L en"
  shows "(\<exists>kp sg. keypair_generate L en t = Ok kp \<and> keypair_key_type kp = t \<and> keypair_sign L kp m = Ok sg
      \<and> verify_signature L sg m \<and> sig_public_key sg = public_key_as_bytes (keypair_public_key kp)
      \<and> public_key_to_address sha3 (keypair_public_key kp) = keypair_address sha3 kp
      \<and> address_from_signature sha3 sg = keypair_address sha3 kp)
    \<and> (\<exists>kp. generate_default L en = Ok kp \<and> keypair_post_quantum kp)"
proof
  obtain kp where kp: "keypair_generate L en t = Ok kp" "keypair_key_type kp = t" "wf_keypair L kp"
    using generated_belongs [OF assms] by blast
  obtain sg where sg: "keypair_sign L kp m = Ok sg" "verify_signature L sg m"
      "keypair_address sha3 kp = address_from_signature sha3 sg"
    using keypair_sign_verifies [OF kp(3)] by blast
  have "sig_public_key sg = public_key_as_bytes (keypair_public_key kp)"
    using sg(1) by (cases kp) (auto simp: bindR_Ok_iff)
  moreover have "public_key_to_address sha3 (keypair_public_key kp) = keypair_address sha3 kp"
    by (cases kp) simp
  ultimately show "\<exists>kp sg. keypair_generate L en t = Ok kp \<and> keypair_key_type kp = t \<and> keypair_sign L kp m = Ok sg
      \<and> verify_signature L sg m \<and> sig_public_key sg = public_key_as_bytes (keypair_public_key kp)
      \<and> public_key_to_address sha3 (keypair_public_key kp) = keypair_address sha3 kp
      \<and> address_from_signature sha3 sg = keypair_address sha3 kp"
    using kp sg by metis
  show "\<exists>kp. generate_default L en = Ok kp \<and> keypair_post_quantum kp"
    using generated_belongs [OF assms, of Dilithium] by (auto simp: generate_default_def keypair_post_quantum_def)
qed

definition toy_entropy :: entropy where
  "toy_entropy = \<lparr>en_dilithium = ([1, 2, 3, 4], [1, 2, 3, 4]), en_sphincs = ([5, 6, 7, 8], [5, 6, 7, 8]),
     en_ed25519 = replicate 32 9\<rparr>"

theorem generated_keys_work_witness:
  "(\<exists>kp sg. keypair_generate toy_libs toy_entropy SphincsPlus = Ok kp \<and> keypair_sign toy_libs kp [7] = Ok sg
      \<and> verify_signature toy_libs sg [7])"
proof -
  have "pq_laws (cl_dilithium toy_libs)" "pq_laws (cl_sphincs toy_libs)" "ed_laws (cl_ed25519 toy_libs)"
    and "entropy_ok toy_libs toy_entropy"
    using toy_laws by (simp_all add: toy_libs_def entropy_ok_def toy_entropy_def toy_pq_def)
  from generated_keys_work [OF this, of SphincsPlus "[7]"] show ?thesis by blast
qed

text \<open>The unified layer and the trait agree. For a key of each scheme, signing is the signing of the scheme, a
  signature that carries a key and, for Ed25519, a signature of the right length is accepted exactly when the scheme
  accepts it, and name and post-quantum flag are those of the scheme.\<close>

theorem unified_layer_matches_schemes:
  fixes L :: crypto_libs and t :: keypair_type
  defines "S \<equiv> scheme_of L t"
  shows "keypair_sign L (Keypair t kp) m
      = bindR (sc_sign S (kp_private_key kp) m)
          (\<lambda>s. Ok \<lparr>sig_type = t, sig_bytes = s, sig_public_key = kp_public_key kp\<rparr>)
    \<and> (verify_signature L \<lparr>sig_type = t, sig_bytes = s, sig_public_key = pk\<rparr> m
        \<longleftrightarrow> sc_verify S pk m s
          \<and> length pk = (case t of Dilithium \<Rightarrow> pq_public_key_bytes (cl_dilithium L)
              | SphincsPlus \<Rightarrow> pq_public_key_bytes (cl_sphincs L) | Ed25519 \<Rightarrow> 32)
          \<and> (t \<noteq> Ed25519 \<or> length s = 64))
    \<and> algorithm_name t = sc_algorithm_name S \<and> key_type_post_quantum t = sc_is_post_quantum S"
  by (cases t)
    (auto simp: S_def dilithium_scheme_def sphincs_scheme_def ed25519_scheme_def sphincs_verify_def
      verify_signature_def pq_public_key_from_bytes_def ed_public_key_from_bytes_def ed_signature_from_bytes_def)

text \<open>No debug form shows a private key: two pairs, and two private keys, that differ only in the private bytes are
  printed alike.\<close>

theorem debug_forms_redact_keys:
  "raw_private_key_debug t sk = raw_private_key_debug t sk'
    \<and> raw_keypair_debug t kp = raw_keypair_debug t (kp\<lparr>kp_private_key := sk'\<rparr>)
    \<and> private_key_debug (PrivateKey t sk) = private_key_debug (PrivateKey t sk')
    \<and> keypair_debug b58 sha3 (Keypair t kp) = keypair_debug b58 sha3 (Keypair t (kp\<lparr>kp_private_key := sk'\<rparr>))"
  by (simp add: raw_private_key_debug_def raw_keypair_debug_def keypair_debug_def)

text \<open>An Ed25519 signature is read back from both serialized forms, and nothing but 64 bytes is read.\<close>

theorem ed_signature_serial_roundtrip:
  assumes "hex_laws hx" and "length sig = 64"
  shows "ed_signature_deserialize hx r (ed_signature_serialize hx r sig) = Ok sig"
  using assms
  by (simp add: ed_signature_deserialize_def deserialize_fixed_def ed_signature_serialize_def hex_laws_def fixed_bytes_def)

end
