(* ===== verification/Fry_Miner.thy ===== *)
theory Fry_Miner
  imports Fry_Chain Fry_Keygen
begin

text \<open>
  \<open>frychain-miner/src/main.rs\<close>: the choice of the network and of the miner's address, and the mining loop. A turn of
  the loop is a \<open>round_input\<close>: the clock at the new header and what the mining threads read and report; the loop is
  run over the list of the turns before the stop signal is seen. The lemmas: the headers found are linked and carry
  valid work, and no node can ever attach them.
\<close>

definition config_of_network :: "string \<Rightarrow> chain_config" where
  "config_of_network network =
     (if network = ''mainnet'' then mainnet else if network = ''testnet'' then testnet else devnet)"

text \<open>An address that cannot be parsed, or a failed key generation, ends the program.\<close>

definition miner_address :: "base58_codec \<Rightarrow> hash_fn \<Rightarrow> crypto_libs \<Rightarrow> entropy \<Rightarrow> string option \<Rightarrow> (unit, address) outcome" where
  "miner_address b58 sha3 L en addr =
     (case addr of
        Some addr_str \<Rightarrow> (case address_from_string b58 addr_str of Ok a \<Rightarrow> Ok a | _ \<Rightarrow> Panic)
      | None \<Rightarrow> (case keypair_generate L en Dilithium of Ok kp \<Rightarrow> Ok (keypair_address sha3 kp) | _ \<Rightarrow> Panic))"

record round_input =
  ri_now :: u64
  ri_quit :: "nat \<Rightarrow> nat \<Rightarrow> bool"
  ri_total_hashes :: u64
  ri_time_ms :: u64

record miner_state =
  mi_height :: u64
  mi_parent_hash :: hash256
  mi_difficulty :: difficulty
  mi_total_hashes :: u64
  mi_blocks_found :: u64

definition miner_start :: "chain_config \<Rightarrow> miner_state" where
  "miner_start config = \<lparr>mi_height = 1, mi_parent_hash = hash_zero, mi_difficulty = cc_initial_difficulty config,
     mi_total_hashes = 0, mi_blocks_found = 0\<rparr>"

definition miner_template :: "address \<Rightarrow> u64 \<Rightarrow> miner_state \<Rightarrow> block_header" where
  "miner_template miner now st = header_new now (mi_height st) (mi_parent_hash st) miner (mi_difficulty st)"

text \<open>After a solution: the counters, the next parent and every ten blocks a tenth more difficulty.\<close>

definition miner_found :: "hash_fn \<Rightarrow> block_header \<Rightarrow> mining_result \<Rightarrow> miner_state \<Rightarrow> miner_state" where
  "miner_found sha3 header result st =
     (let header' = header\<lparr>bh_nonce := mr_nonce result\<rparr>; height = mi_height st + 1
      in st\<lparr>mi_blocks_found := mi_blocks_found st + 1,
            mi_total_hashes := mi_total_hashes st + mr_hashes result,
            mi_parent_hash := header_hash sha3 header',
            mi_height := height,
            mi_difficulty := (if height mod 10 = 0 then difficulty_new (mi_difficulty st + mi_difficulty st div 10)
                              else mi_difficulty st)\<rparr>)"

text \<open>\<open>MiningResult::hashrate\<close>, which is printed with a solution.\<close>

definition hashrate :: "mining_result \<Rightarrow> f64" where
  "hashrate r =
     (if mr_time_ms r = 0 then 0
      else f64_div (f64_of_nat (unat (mr_hashes r))) (f64_div (f64_of_nat (unat (mr_time_ms r))) (f64_of_nat 1000)))"

text \<open>One turn: the new state and the header that was found, which the program only prints.\<close>

definition miner_round ::
    "cn_lib \<Rightarrow> hash_fn \<Rightarrow> address \<Rightarrow> nat \<Rightarrow> round_input \<Rightarrow> miner_state
     \<Rightarrow> (consensus_error, miner_state \<times> block_header option) outcome option" where
  "miner_round C sha3 miner num_threads ri st =
     (let header = miner_template miner (ri_now ri) st
      in map_option (\<lambda>r. bindR r (\<lambda>result. Ok (case result of
             None \<Rightarrow> (st, None)
           | Some mining_result \<Rightarrow>
               (miner_found sha3 header mining_result st, Some (header\<lparr>bh_nonce := mr_nonce mining_result\<rparr>)))))
         (mine_block_parallel C (ri_quit ri) (ri_total_hashes ri) (ri_time_ms ri) header num_threads))"

fun miner_loop ::
    "cn_lib \<Rightarrow> hash_fn \<Rightarrow> address \<Rightarrow> nat \<Rightarrow> round_input list \<Rightarrow> miner_state
     \<Rightarrow> (consensus_error, miner_state \<times> block_header list) outcome option" where
  "miner_loop C sha3 miner num_threads [] st = Some (Ok (st, []))"
| "miner_loop C sha3 miner num_threads (ri # ris) st =
     (case miner_round C sha3 miner num_threads ri st of
        None \<Rightarrow> None
      | Some (Err e) \<Rightarrow> Some (Err e)
      | Some Panic \<Rightarrow> Some Panic
      | Some (Ok (st', found)) \<Rightarrow>
          map_option (\<lambda>r. bindR r (\<lambda>(end_st, rest). Ok (end_st, (case found of None \<Rightarrow> rest | Some h \<Rightarrow> h # rest))))
            (miner_loop C sha3 miner num_threads ris st'))"

definition benchmark_header :: "hash_fn \<Rightarrow> u64 \<Rightarrow> block_header" where
  "benchmark_header sha3 now =
     header_new now 1 hash_zero (address_from_public_key sha3 (replicate 64 0)) (difficulty_new (- 1))"

text \<open>The benchmark ends when the miner does; the rates it prints are left out.\<close>

definition run_benchmark :: "cn_lib \<Rightarrow> hash_fn \<Rightarrow> nat \<Rightarrow> round_input \<Rightarrow> (consensus_error, unit) outcome option" where
  "run_benchmark C sha3 threads ri =
     map_option (\<lambda>r. bindR r (\<lambda>_. Ok ()))
       (mine_block_parallel C (ri_quit ri) (ri_total_hashes ri) (ri_time_ms ri) (benchmark_header sha3 (ri_now ri)) threads)"

record miner_args =
  ma_address :: "string option"
  ma_threads :: "nat option"
  ma_network :: string
  ma_benchmark :: "u64 option"

text \<open>The program: \<open>cpus\<close> is the number of processors, \<open>bench\<close> the turn of a benchmark, \<open>ris\<close> are the turns of the
  loop. The result is the last state with the headers found, or nothing after a benchmark.\<close>

definition miner_main ::
    "cn_lib \<Rightarrow> base58_codec \<Rightarrow> hash_fn \<Rightarrow> crypto_libs \<Rightarrow> entropy \<Rightarrow> nat \<Rightarrow> round_input \<Rightarrow> round_input list \<Rightarrow> miner_args
     \<Rightarrow> (consensus_error, (miner_state \<times> block_header list) option) outcome option" where
  "miner_main C b58 sha3 L en cpus bench ris args =
     (case miner_address b58 sha3 L en (ma_address args) of
        Ok miner \<Rightarrow>
          (let num_threads = (case ma_threads args of None \<Rightarrow> cpus | Some n \<Rightarrow> n);
               config = config_of_network (ma_network args)
           in case ma_benchmark args of
                Some duration \<Rightarrow> map_option (\<lambda>r. bindR r (\<lambda>_. Ok None)) (run_benchmark C sha3 num_threads bench)
              | None \<Rightarrow> map_option (\<lambda>r. bindR r (\<lambda>res. Ok (Some res)))
                          (miner_loop C sha3 miner num_threads ris (miner_start config)))
      | _ \<Rightarrow> Some Panic)"

subsection \<open>The headers of a run\<close>

text \<open>A list of headers from a state on: each has the height, parent and difficulty of the state, carries work that passes
  the verification, and is the parent of the next.\<close>

fun linked :: "cn_lib \<Rightarrow> hash_fn \<Rightarrow> u64 \<Rightarrow> hash256 \<Rightarrow> block_header list \<Rightarrow> bool" where
  "linked C sha3 height parent [] = True"
| "linked C sha3 height parent (h # hs) \<longleftrightarrow>
     bh_height h = height \<and> bh_parent_hash h = parent \<and> is_ok (verify_pow C h)
     \<and> linked C sha3 (height + 1) (header_hash sha3 h) hs"

lemma miner_round_cases:
  assumes "cn_lib_ok C" and "miner_round C sha3 miner n ri st = Some r"
  shows "r = Ok (st, None) \<or> (\<exists>m h. r = Ok (miner_found sha3 (miner_template miner (ri_now ri) st) m st, Some h)
    \<and> h = (miner_template miner (ri_now ri) st)\<lparr>bh_nonce := mr_nonce m\<rparr> \<and> is_ok (verify_pow C h))"
proof -
  from assms(2) obtain res where res: "mine_block_parallel C (ri_quit ri) (ri_total_hashes ri) (ri_time_ms ri)
      (miner_template miner (ri_now ri) st) n = Some res"
    by (auto simp: miner_round_def Let_def)
  from mine_block_parallel_correct [OF assms(1) this] obtain sol where "res = Ok sol"
    "\<forall>m. sol = Some m \<longrightarrow> verify_pow C ((miner_template miner (ri_now ri) st)\<lparr>bh_nonce := mr_nonce m\<rparr>) = Ok (mr_pow_hash m)"
    by blast
  with res assms(2) show ?thesis by (cases sol) (auto simp: miner_round_def Let_def)
qed

lemma miner_loop_linked:
  assumes "cn_lib_ok C" and "miner_loop C sha3 miner n ris st = Some r"
  shows "\<exists>st' hs. r = Ok (st', hs) \<and> linked C sha3 (mi_height st) (mi_parent_hash st) hs
    \<and> mi_height st' = mi_height st + of_nat (length hs)
    \<and> mi_blocks_found st' = mi_blocks_found st + of_nat (length hs)"
  using assms(2)
proof (induction ris arbitrary: st r)
  case (Cons ri ris)
  then obtain r1 where r1: "miner_round C sha3 miner n ri st = Some r1" by (cases "miner_round C sha3 miner n ri st") auto
  show ?case using miner_round_cases [OF assms(1) r1]
  proof (elim disjE exE conjE)
    assume r1': "r1 = Ok (st, None)"
    with Cons.prems r1 obtain r2 where r2: "miner_loop C sha3 miner n ris st = Some r2" by auto
    from Cons.IH [OF this] r1 r1' r2 Cons.prems show ?thesis by auto
  next
    fix m h
    let ?st = "miner_found sha3 (miner_template miner (ri_now ri) st) m st"
    assume h: "r1 = Ok (?st, Some h)" "h = (miner_template miner (ri_now ri) st)\<lparr>bh_nonce := mr_nonce m\<rparr>" "is_ok (verify_pow C h)"
    with Cons.prems r1 obtain r2 where r2: "miner_loop C sha3 miner n ris ?st = Some r2" by auto
    from Cons.IH [OF this] r1 h r2 Cons.prems show ?thesis
      by (auto simp: miner_found_def miner_template_def header_new_def Let_def algebra_simps)
  qed
qed simp

text \<open>When every hash meets the target, each thread returns at its first turn.\<close>

lemma workers_at_once:
  fixes h :: block_header
  assumes "cn_lib_ok C" and "\<And>t. \<not> quit t 0"
    and "\<And>n. meets_difficulty (pow_digest C (mining_blob (h\<lparr>bh_nonce := n\<rparr>))) target"
  shows "run_workers C quit target (mining_blob h) step ts
    = Some (Ok (map (\<lambda>t. Some (word_of_nat t, pow_digest C (mining_blob (h\<lparr>bh_nonce := word_of_nat t\<rparr>)))) ts))"
proof (induction ts)
  case (Cons t ts)
  have "blob_of h (mining_blob h)" unfolding blob_of_def by (rule exI [of _ "bh_nonce h"]) simp
  note sp = splice_nonce [OF this, of "word_of_nat t"]
  obtain pad' where "cn_hash C cn_new (mining_blob (h\<lparr>bh_nonce := word_of_nat t\<rparr>))
      = Some (pow_digest C (mining_blob (h\<lparr>bh_nonce := word_of_nat t\<rparr>)), pad')"
    using cn_hash_digest [OF assms(1), of cn_new] by (auto simp: cn_new_def)
  then have "worker_loop C (quit t) target step 0 (mining_blob h) cn_new (word_of_nat t) 0
      = Some (Ok (Some (word_of_nat t, pow_digest C (mining_blob (h\<lparr>bh_nonce := word_of_nat t\<rparr>))), 1))"
    using assms(2,3) sp by (subst worker_loop.simps) simp
  with Cons show ?case by simp
qed simp

lemma mine_parallel_at_once:
  assumes "cn_lib_ok C" and "0 < n" and "\<And>t. \<not> quit t 0"
    and "\<And>k. meets_difficulty (pow_digest C (mining_blob (h\<lparr>bh_nonce := k\<rparr>))) (to_target (bh_difficulty h))"
  shows "\<exists>m. mine_block_parallel C quit th tm h n = Some (Ok (Some m)) \<and> mr_nonce m = 0"
proof -
  have "[0..<n] = 0 # [1..<n]" using assms(2) by (simp add: upt_conv_Cons)
  with workers_at_once [of C quit h "to_target (bh_difficulty h)" "word_of_nat n" "[0..<n]", OF assms(1,3,4)]
  show ?thesis by (simp add: mine_block_parallel_def)
qed

subsection \<open>Properties\<close>

text \<open>C30: The mining loop never panics and builds a chain. Over every number of turns, the headers it finds have the heights
  1, 2, 3 and so on, the parent of the first is the zero hash and the parent of each other is the hash of the one
  before, each passes the verification of the proof of work, and the counters count them.\<close>

theorem miner_builds_chain:
  assumes "cn_lib_ok C" and "miner_loop C sha3 miner n ris (miner_start config) = Some r"
  shows "\<exists>st hs. r = Ok (st, hs) \<and> linked C sha3 1 hash_zero hs
    \<and> mi_height st = 1 + of_nat (length hs) \<and> mi_blocks_found st = of_nat (length hs)"
  using miner_loop_linked [OF assms] by (simp add: miner_start_def)

text \<open>A proof of work that always succeeds.\<close>

definition lucky_cn :: cn_lib where
  "lucky_cn = \<lparr>cn_keccak = (\<lambda>_. replicate 32 0), cn_aes = (\<lambda>k b. b)\<rparr>"

lemma lucky_cn_ok: "cn_lib_ok lucky_cn"
  by (simp add: cn_lib_ok_def lucky_cn_def)

lemma lucky_digest: "meets_difficulty (pow_digest lucky_cn x) target"
proof -
  have "cn_hash lucky_cn pad x = Some (g, p) \<Longrightarrow> g = replicate 32 0" for pad g p
    by (auto simp: cn_hash_def final_hash_def bind_eq_Some_conv lucky_cn_def split: prod.splits)
  with cn_hash_digest [OF lucky_cn_ok, of cn_new x] have "pow_digest lucky_cn x = replicate 32 0"
    by (metis cn_new_def length_replicate)
  then show ?thesis using meets_zero by simp
qed

definition toy_round :: round_input where
  "toy_round = \<lparr>ri_now = 5, ri_quit = (\<lambda>t k. False), ri_total_hashes = 1, ri_time_ms = 1\<rparr>"

lemma lucky_round:
  "\<exists>st' h. miner_round lucky_cn sha3 miner 2 toy_round st = Some (Ok (st', Some h)) \<and> mi_height st' = mi_height st + 1
    \<and> bh_parent_hash h = mi_parent_hash st"
proof -
  obtain m where "mine_block_parallel lucky_cn (\<lambda>t k. False) 1 1 (miner_template miner 5 st) 2 = Some (Ok (Some m))"
    using mine_parallel_at_once [OF lucky_cn_ok, of 2 "\<lambda>t k. False"] lucky_digest by fastforce
  then show ?thesis
    by (simp add: miner_round_def toy_round_def Let_def miner_found_def miner_template_def header_new_def)
qed

lemma lucky_loop:
  "\<exists>st hs. miner_loop lucky_cn sha3 miner 2 [toy_round, toy_round] (miner_start devnet) = Some (Ok (st, hs)) \<and> mi_height st = 3"
proof -
  obtain s1 h1 where 1: "miner_round lucky_cn sha3 miner 2 toy_round (miner_start devnet) = Some (Ok (s1, Some h1))"
    "mi_height s1 = mi_height (miner_start devnet) + 1"
    using lucky_round [of sha3 miner "miner_start devnet"] by blast
  obtain s2 h2 where 2: "miner_round lucky_cn sha3 miner 2 toy_round s1 = Some (Ok (s2, Some h2))" "mi_height s2 = mi_height s1 + 1"
    using lucky_round [of sha3 miner s1] by blast
  from 1 2 show ?thesis by (simp add: miner_start_def)
qed

theorem miner_builds_chain_witness:
  "\<exists>st hs. miner_loop lucky_cn toy_hash address_zero 2 [toy_round, toy_round] (miner_start devnet) = Some (Ok (st, hs))
     \<and> linked lucky_cn toy_hash 1 hash_zero hs \<and> 1 + of_nat (length hs) = (3 :: u64)"
proof -
  obtain st hs where l: "miner_loop lucky_cn toy_hash address_zero 2 [toy_round, toy_round] (miner_start devnet) = Some (Ok (st, hs))"
    "mi_height st = 3" using lucky_loop by blast
  from miner_builds_chain [OF lucky_cn_ok l(1)] l show ?thesis by auto
qed

text \<open>No node attaches what the miner finds. The chain it builds starts at the zero hash and not at the genesis block
  of a network, so a node that has no block under the zero hash puts the first block aside as an
  orphan: head, known blocks and database stay as they are, whatever the block's body and work.\<close>

theorem miner_blocks_are_orphans:
  assumes "ce_ok ce view" and "cn_lib_ok C"
    and "miner_loop C sha3 miner n ris (miner_start config) = Some (Ok (st, h # hs))"
    and "b_header b = h" and "block_at (ce_store ce) (view (ch_db c)) hash_zero = Ok None"
    and "block_hash (env_sha3 (ce_env ce)) b \<notin> set (ch_known c)"
    and "view (ch_db c) CF_HEADERS (block_hash (env_sha3 (ce_env ce)) b) = None"
  shows "import_block ce b pow c = (Ok (), c\<lparr>ch_pending := AList.update hash_zero b (ch_pending c)\<rparr>)"
proof -
  have "bh_parent_hash h = hash_zero" using miner_loop_linked [OF assms(2,3)] by (simp add: miner_start_def)
  then show ?thesis
    using assms(4-7)
    by (subst import_block.simps)
       (auto simp: import_one_def outcome_simps chain_has_block_ok [OF assms(1)] chain_get_block_ok [OF assms(1)])
qed

theorem miner_blocks_are_orphans_witness:
  "\<exists>h. import_block (toy_chain_env\<lparr>ce_cn := lucky_cn\<rparr>) \<lparr>b_header = h, b_body = body_empty\<rparr> hash_zero
         (genesis_chain\<lparr>ch_db := \<lambda>_ _. None\<rparr>)
     = (Ok (), genesis_chain\<lparr>ch_db := \<lambda>_ _. None, ch_pending := [(hash_zero, \<lparr>b_header = h, b_body = body_empty\<rparr>)]\<rparr>)"
proof -
  let ?ce = "toy_chain_env\<lparr>ce_cn := lucky_cn\<rparr>" and ?c = "genesis_chain\<lparr>ch_db := \<lambda>_ _. None\<rparr>"
  have ok: "ce_ok ?ce id" using toy_chain_env_ok(1) by (simp add: ce_ok_def)
  obtain st h where l: "miner_loop lucky_cn toy_hash address_zero 2 [toy_round] (miner_start devnet) = Some (Ok (st, [h]))"
    using lucky_round [of toy_hash address_zero "miner_start devnet"] by auto
  have "block_at (ce_store ?ce) (id (ch_db ?c)) hash_zero = Ok None"
    by (simp add: block_at_def header_at_def decoded_def)
  from miner_blocks_are_orphans [OF ok lucky_cn_ok l, where b = "\<lparr>b_header = h, b_body = body_empty\<rparr>", OF _ this, of hash_zero]
  show ?thesis by (intro exI [of _ h]) (simp add: genesis_chain_def)
qed

text \<open>The miner's adjustment adds a tenth, rounded down, every ten blocks: below 10 nothing is ever added, so on the
  development network, which starts at 1, every block of every run has difficulty 1.\<close>

lemma small_difficulty_kept:
  fixes d :: u128
  assumes "d \<noteq> 0" and "unat d < 10"
  shows "difficulty_new (d + d div 10) = d"
proof -
  have "unat (d div 10) = 0" using assms(2) by (simp add: unat_div_distrib)
  then have "d div 10 = 0" by (simp add: unat_eq_zero)
  moreover have "1 \<le> d" using assms(1) by (simp add: word_le_nat_alt Suc_le_eq unat_gt_0)
  ultimately show ?thesis by (simp add: difficulty_new_def max_def)
qed

lemma miner_loop_difficulty:
  assumes "cn_lib_ok C" and "mi_difficulty st \<noteq> 0" and "unat (mi_difficulty st) < 10"
    and "miner_loop C sha3 miner n ris st = Some (Ok (st', hs))"
  shows "mi_difficulty st' = mi_difficulty st \<and> (\<forall>h \<in> set hs. bh_difficulty h = mi_difficulty st)"
  using assms(2-)
proof (induction ris arbitrary: st hs)
  case (Cons ri ris)
  then obtain r1 where r1: "miner_round C sha3 miner n ri st = Some r1" by (cases "miner_round C sha3 miner n ri st") auto
  show ?case using miner_round_cases [OF assms(1) r1]
  proof (elim disjE exE conjE)
    assume r1': "r1 = Ok (st, None)"
    with Cons.prems r1 have "miner_loop C sha3 miner n ris st = Some (Ok (st', hs))"
      by (auto simp: bindR_Ok_iff)
    from Cons.IH [OF Cons.prems(1,2) this] show ?thesis .
  next
    fix m h
    let ?st = "miner_found sha3 (miner_template miner (ri_now ri) st) m st"
    assume h: "r1 = Ok (?st, Some h)" "h = (miner_template miner (ri_now ri) st)\<lparr>bh_nonce := mr_nonce m\<rparr>" "is_ok (verify_pow C h)"
    have d: "mi_difficulty ?st = mi_difficulty st"
      using small_difficulty_kept [OF Cons.prems(1,2)] by (simp add: miner_found_def Let_def)
    from Cons.prems r1 h obtain hs' where "miner_loop C sha3 miner n ris ?st = Some (Ok (st', hs'))" "hs = h # hs'"
      by (auto simp: bindR_Ok_iff)
    with Cons.IH [of ?st hs'] Cons.prems(1,2) d h(2) show ?thesis
      by (simp add: miner_template_def header_new_def)
  qed
qed simp

theorem miner_difficulty_stuck:
  assumes "cn_lib_ok C" and "miner_loop C sha3 miner n ris (miner_start devnet) = Some (Ok (st, hs))"
  shows "mi_difficulty st = 1 \<and> (\<forall>h \<in> set hs. bh_difficulty h = 1)"
  using miner_loop_difficulty [OF assms(1) _ _ assms(2)] by (simp add: miner_start_def devnet_def difficulty_new_def)

theorem miner_difficulty_stuck_witness:
  "\<exists>st hs. miner_loop lucky_cn toy_hash address_zero 2 [toy_round, toy_round] (miner_start devnet) = Some (Ok (st, hs))
     \<and> (\<forall>h \<in> set hs. bh_difficulty h = 1)"
  using lucky_loop [of toy_hash address_zero] miner_difficulty_stuck [OF lucky_cn_ok] by blast

text \<open>The benchmark measures nothing. Its header asks for the largest difficulty, described as one for which no
  solution is found, and the target of that difficulty accepts every hash: whatever the number of
  threads, the first thread returns its first nonce at once, before the stop signal.\<close>

theorem benchmark_solved_at_once:
  assumes "cn_lib_ok C" and "0 < n" and "\<forall>t. \<not> quit t 0"
  shows "\<exists>m. mine_block_parallel C quit th tm (benchmark_header sha3 now) n = Some (Ok (Some m)) \<and> mr_nonce m = 0"
proof (rule mine_parallel_at_once [OF assms(1,2)])
  show "\<not> quit t 0" for t using assms(3) by blast
  fix k
  let ?h = "benchmark_header sha3 now"
  have "bh_difficulty ?h = - 1" 
    by (simp add: benchmark_header_def header_new_def difficulty_new_def max_def word_le_nat_alt unat_minus_one_word)
  then have "to_target (bh_difficulty ?h) = replicate 32 255"
    using to_target_max [of "- 1"] by (simp add: unat_minus_one_word)
  moreover have "length (pow_digest C x) = 32" for x
  proof -
    have "cn_hash C cn_new x = Some (g, p) \<Longrightarrow> length g = 32" for g p
      using assms(1) by (auto simp: cn_hash_def final_hash_def bind_eq_Some_conv cn_lib_ok_def split: prod.splits)
    then show ?thesis using cn_hash_digest [OF assms(1), of cn_new x] by (auto simp: cn_new_def)
  qed
  ultimately show "meets_difficulty (pow_digest C (mining_blob (?h\<lparr>bh_nonce := k\<rparr>))) (to_target (bh_difficulty ?h))"
    using meets_difficulty_max by simp
qed

theorem benchmark_solved_at_once_witness:
  "\<exists>m. mine_block_parallel toy_cn (\<lambda>t k. 100 \<le> k) 0 0 (benchmark_header toy_hash 7) 4 = Some (Ok (Some m))"
  using benchmark_solved_at_once [OF toy_cn_ok, of 4 "\<lambda>t k. 100 \<le> k"] by fastforce

end
