(* ===== verification/Fry_Node.thy ===== *)
theory Fry_Node
  imports Fry_Miner Fry_Network
begin

text \<open>
  \<open>frychain-node/src/node.rs\<close> and \<open>main.rs\<close>: the full node and its program. File system, database,
  the random draw and the wait for the interrupt are the parameter record \<open>node_world\<close>; the state is the record
  \<open>node\<close>, whose chain is the object of \<open>Fry_Chain\<close>. Logging and the banner are left out. The lemmas: the
  first run on an empty database works, and the next run fails until a block has been imported.
\<close>

datatype node_error =
    NodeIo string
  | NodeStorage storage_error
  | NodeChain consensus_error
  | NodeAddress core_error
  | NodeCrypto crypto_error

record 'd node =
  nd_config :: node_config
  nd_blockchain :: "'d chain"
  nd_peers :: peer_manager
  nd_running :: bool

record 'd node_world =
  nw_chain :: "'d chain_env"
  nw_create_dir_all :: "string \<Rightarrow> (string, unit) outcome"
  nw_open_default :: "string \<Rightarrow> (storage_error, 'd) outcome"
  nw_b58 :: base58_codec
  nw_entropy :: entropy
  nw_ctrl_c :: "(string, unit) outcome"

text \<open>\<open>Path::join\<close> of a relative name.\<close>

definition path_join :: "string \<Rightarrow> string \<Rightarrow> string" where
  "path_join path name =
     (if path = [] then name else if last path = CHR ''/'' then path @ name else path @ ''/'' @ name)"

text \<open>The chain works under the configuration of the node.\<close>

definition node_chain_env :: "'d node_world \<Rightarrow> node_config \<Rightarrow> 'd chain_env" where
  "node_chain_env w config = (nw_chain w)\<lparr>ce_config := nc_chain config\<rparr>"

definition node_new :: "'d node_world \<Rightarrow> node_config \<Rightarrow> (node_error, 'd node) outcome" where
  "node_new w config =
     (let db_path = path_join (nc_data_dir config) ''db''
      in bindR (map_err NodeIo (nw_create_dir_all w db_path)) (\<lambda>_.
         bindR (map_err NodeStorage (nw_open_default w db_path)) (\<lambda>db.
         case chain_new (node_chain_env w config) db of
           (r, blockchain) \<Rightarrow> bindR (map_err NodeChain r) (\<lambda>_.
             Ok \<lparr>nd_config = config, nd_blockchain = blockchain, nd_peers = peers_new (nc_max_peers config),
                 nd_running = False\<rparr>))))"

text \<open>A chain operation inside a node operation.\<close>

definition on_chain :: "('d chain, consensus_error, 'a) prog \<Rightarrow> ('d node, node_error, 'a) prog" where
  "on_chain m = (\<lambda>nd. case m (nd_blockchain nd) of (r, c) \<Rightarrow> (map_err NodeChain r, nd\<lparr>nd_blockchain := c\<rparr>))"

definition node_init :: "'d node_world \<Rightarrow> address \<Rightarrow> ('d node, node_error, unit) prog" where
  "node_init w miner =
     bindM (gets (\<lambda>nd. (chain_height (nd_blockchain nd), nd_config nd))) (\<lambda>(height, config).
       whenM (height = 0) (thenM (on_chain (init_genesis (node_chain_env w config) miner)) (ret ())))"

definition node_start :: "('d node, node_error, unit) prog" where
  "node_start = modify (nd_running_update (\<lambda>_. True))"

definition node_stop :: "('d node, node_error, unit) prog" where
  "node_stop = modify (nd_running_update (\<lambda>_. False))"

definition is_running :: "'d node \<Rightarrow> bool" where
  "is_running nd = nd_running nd"

definition node_chain_config :: "'d node_world \<Rightarrow> 'd node \<Rightarrow> chain_config" where
  "node_chain_config w nd = ce_config (node_chain_env w (nd_config nd))"

subsection \<open>The program\<close>

record node_args =
  na_data_dir :: string
  na_network :: string
  na_p2p_port :: u16
  na_rpc_port :: u16
  na_rpc_addr :: string
  na_mine :: bool
  na_miner :: "string option"
  na_mining_threads :: nat
  na_bootnodes :: "string option"
  na_max_peers :: nat

text \<open>The defaults of the command line.\<close>

definition default_args :: node_args where
  "default_args = \<lparr>na_data_dir = ''./frychain-data'', na_network = ''devnet'', na_p2p_port = 30303, na_rpc_port = 8545,
     na_rpc_addr = ''127.0.0.1'', na_mine = False, na_miner = None, na_mining_threads = 1, na_bootnodes = None,
     na_max_peers = 50\<rparr>"

text \<open>\<open>str::split\<close> at a character: the empty text has one, empty, piece.\<close>

fun split_at_char :: "char \<Rightarrow> string \<Rightarrow> string \<Rightarrow> string list" where
  "split_at_char sep acc [] = [rev acc]"
| "split_at_char sep acc (c # cs) =
     (if c = sep then rev acc # split_at_char sep [] cs else split_at_char sep (c # acc) cs)"

definition parse_bootnodes :: "string option \<Rightarrow> string list" where
  "parse_bootnodes bootnodes = (case bootnodes of None \<Rightarrow> [] | Some s \<Rightarrow> split_at_char (CHR '','') [] s)"

definition node_config_of_args :: "base58_codec \<Rightarrow> node_args \<Rightarrow> node_config" where
  "node_config_of_args b58 args =
     \<lparr>nc_chain = config_of_network (na_network args), nc_data_dir = na_data_dir args, nc_p2p_listen = ''0.0.0.0'',
      nc_p2p_port = na_p2p_port args, nc_rpc_listen = na_rpc_addr args, nc_rpc_port = na_rpc_port args,
      nc_mining_enabled = na_mine args,
      nc_miner_address = Option.bind (na_miner args) (\<lambda>s. case address_from_string b58 s of Ok a \<Rightarrow> Some a | _ \<Rightarrow> None),
      nc_mining_threads = na_mining_threads args, nc_max_peers = na_max_peers args,
      nc_bootstrap_nodes = parse_bootnodes (na_bootnodes args), nc_metrics_enabled = False, nc_metrics_port = 9090,
      nc_log_level = ''info''\<rparr>"

definition genesis_miner :: "'d node_world \<Rightarrow> node_args \<Rightarrow> (node_error, address) outcome" where
  "genesis_miner w args =
     (case na_miner args of
        Some miner_addr \<Rightarrow> map_err NodeAddress (address_from_string (nw_b58 w) miner_addr)
      | None \<Rightarrow>
          bindR (map_err NodeCrypto (keypair_generate (env_libs (ce_env (nw_chain w))) (nw_entropy w) Dilithium)) (\<lambda>keypair.
          Ok (keypair_address (env_sha3 (ce_env (nw_chain w))) keypair)))"

text \<open>The program: its result and the node it leaves, if one was made.\<close>

definition node_main :: "'d node_world \<Rightarrow> node_args \<Rightarrow> (node_error, unit) outcome \<times> 'd node option" where
  "node_main w args =
     (case node_new w (node_config_of_args (nw_b58 w) args) of
        Err e \<Rightarrow> (Err e, None)
      | Panic \<Rightarrow> (Panic, None)
      | Ok nd \<Rightarrow>
          (case bindM (lift_out (genesis_miner w args)) (\<lambda>miner.
                thenM (node_init w miner)
                (thenM node_start
                (thenM (lift_out (map_err NodeIo (nw_ctrl_c w)))
                 node_stop))) nd of
             (r, nd') \<Rightarrow> (r, Some nd')))"

subsection \<open>Lemmas\<close>

definition world_ok :: "'d node_world \<Rightarrow> ('d \<Rightarrow> view) \<Rightarrow> bool" where
  "world_ok w view \<longleftrightarrow> ce_ok (nw_chain w) view \<and> (\<forall>path. nw_create_dir_all w path = Ok ()) \<and> nw_ctrl_c w = Ok ()"

lemma world_ok_env: "world_ok w view \<Longrightarrow> ce_ok (node_chain_env w config) view"
  by (simp add: world_ok_def ce_ok_def node_chain_env_def)

lemma chain_new_empty:
  assumes "ce_ok ce view" and "view d CF_META (str_bytes ''latest_height'') = None"
  shows "chain_new ce d = (Ok (), \<lparr>ch_db = d, ch_head = None, ch_pending = [], ch_known = [], ch_state = state_new\<rparr>)"
proof -
  have se: "se_ok (ce_store ce) view" using assms(1) by (simp add: ce_ok_def)
  have "get_latest_height (ce_store ce) d = (Ok None, d)"
    by (simp add: get_latest_height_def get_decoded_ok [OF se] ALL_CFS_def decoded_def assms(2))
  then show ?thesis by (simp add: chain_new_def load_head_def outcome_simps on_db_def)
qed

lemma node_new_ok:
  assumes "world_ok w view" and "\<forall>path. nw_open_default w path = Ok d"
    and "chain_new (node_chain_env w config) d = (Ok (), c)"
  shows "node_new w config = Ok \<lparr>nd_config = config, nd_blockchain = c, nd_peers = peers_new (nc_max_peers config),
    nd_running = False\<rparr>"
  using assms by (simp add: node_new_def Let_def world_ok_def)

lemma node_init_above:
  "chain_height (nd_blockchain nd) \<noteq> 0 \<Longrightarrow> node_init w miner nd = (Ok (), nd)"
  by (simp add: node_init_def outcome_simps)

lemma node_init_genesis:
  assumes "chain_height (nd_blockchain nd) = 0"
    and "init_genesis (node_chain_env w (nd_config nd)) miner (nd_blockchain nd) = (r, c)"
  shows "node_init w miner nd = (map_err NodeChain (bindR r (\<lambda>_. Ok ())), nd\<lparr>nd_blockchain := c\<rparr>)"
  using assms by (cases r) (simp_all add: node_init_def outcome_simps on_chain_def)

lemma genesis_miner_ok:
  assumes "na_miner args = None"
  shows "\<exists>a. genesis_miner w args = Ok a"
  using assms by (simp add: genesis_miner_def keypair_generate_def dilithium_generate_def split: prod.splits)

subsection \<open>Properties\<close>

lemma node_main_run:
  assumes "world_ok w view" and "\<forall>path. nw_open_default w path = Ok d" and "genesis_miner w args = Ok a"
    and "chain_new (node_chain_env w (node_config_of_args (nw_b58 w) args)) d = (Ok (), c)"
    and "node_init w a \<lparr>nd_config = node_config_of_args (nw_b58 w) args, nd_blockchain = c,
      nd_peers = peers_new (na_max_peers args), nd_running = False\<rparr> = (r, nd)"
  shows "node_main w args = (r, Some (case r of Ok _ \<Rightarrow> nd\<lparr>nd_running := False\<rparr> | _ \<Rightarrow> nd))"
  using assms(1,3,5) node_new_ok [OF assms(1,2,4)]
  by (cases r) (simp_all add: node_main_def outcome_simps node_start_def node_stop_def world_ok_def node_config_of_args_def)

text \<open>If the database gives a head of a height other than zero, the whole program runs, leaves the chain as it was
  loaded and stops.\<close>

lemma node_runs_above_genesis:
  assumes "world_ok w view" and "\<forall>path. nw_open_default w path = Ok d" and "genesis_miner w args = Ok a"
    and "chain_new (node_chain_env w (node_config_of_args (nw_b58 w) args)) d = (Ok (), c)" and "chain_height c \<noteq> 0"
  shows "\<exists>nd. node_main w args = (Ok (), Some nd) \<and> nd_blockchain nd = c \<and> \<not> is_running nd"
  using node_main_run [OF assms(1-4) node_init_above] assms(5) by (simp add: is_running_def)

text \<open>C14: The first run of a node on an empty database works, and the next one fails. The program stores the genesis block
  of its network, starts and stops; run again on the database it left, at any time, with any random draw
  and on any network, it ends with the error that the genesis block already exists, because \<open>init\<close> asks for the height of the
  head, which is zero with and without a genesis block. Only after a block has been imported does a restart work.\<close>

theorem second_run_fails:
  assumes "world_ok w view" and "\<forall>path. nw_open_default w path = Ok d" and "view d = (\<lambda>_ _. None)"
    and "genesis_miner w args = Ok a"
  shows "\<exists>nd sb. node_main w args = (Ok (), Some nd) \<and> \<not> is_running nd
    \<and> ch_head (nd_blockchain nd) = Some sb \<and> bh_miner (b_header (sb_block sb)) = a
    \<and> chain_height (nd_blockchain nd) = 0
    \<and> (\<forall>w2 args2. world_ok w2 view \<and> ce_store (nw_chain w2) = ce_store (nw_chain w)
         \<and> (\<forall>path. nw_open_default w2 path = Ok (ch_db (nd_blockchain nd))) \<and> is_ok (genesis_miner w2 args2)
         \<longrightarrow> fst (node_main w2 args2) = Err (NodeChain (InvalidBlockC ''Genesis already exists'')))"
proof -
  define config where "config = node_config_of_args (nw_b58 w) args"
  let ?ce = "node_chain_env w config"
  let ?c = "\<lparr>ch_db = d, ch_head = None, ch_pending = [], ch_known = [], ch_state = state_new\<rparr>"
  have new: "chain_new ?ce d = (Ok (), ?c)" 
    by (rule chain_new_empty [OF world_ok_env [OF assms(1)]]) (simp add: assms(3))
  have h0: "hash_at (view (ch_db ?c)) 0 = Ok None" using assms(3) by (simp add: hash_at_def decoded_def)
  from genesis_restart [OF world_ok_env [OF assms(1)] h0 refl refl, of config a a] obtain g sb c' where
    g: "init_genesis ?ce a ?c = (Ok g, c')" "ch_head c' = Some sb" "sb_block sb = g" "bh_height (b_header g) = 0"
    by metis
  let ?nd = "\<lparr>nd_config = config, nd_blockchain = c', nd_peers = peers_new (na_max_peers args), nd_running = False\<rparr>"
  have "node_init w a \<lparr>nd_config = config, nd_blockchain = ?c, nd_peers = peers_new (na_max_peers args), nd_running = False\<rparr>
      = (Ok (), ?nd)"
    using g(1) by (subst node_init_genesis [of _ w a "Ok g" c']) (simp_all add: chain_height_def)
  from node_main_run [OF assms(1,2,4) new [unfolded config_def] this [unfolded config_def]]
  have main: "node_main w args = (Ok (), Some ?nd)" by (simp add: config_def)
  have miner: "bh_miner (b_header g) = a"
    using g(1) by (auto simp: init_genesis_def outcome_simps Let_def block_genesis_def header_new_def split: outcome.splits if_splits)
  have "fst (node_main w2 args2) = Err (NodeChain (InvalidBlockC ''Genesis already exists''))"
    if w2: "world_ok w2 view" "ce_store (nw_chain w2) = ce_store (nw_chain w)"
      "\<forall>path. nw_open_default w2 path = Ok (ch_db c')" "is_ok (genesis_miner w2 args2)" for w2 args2
  proof -
    obtain a2 where a2: "genesis_miner w2 args2 = Ok a2" using w2(4) by (cases "genesis_miner w2 args2") auto
    let ?config = "node_config_of_args (nw_b58 w2) args2"
    let ?ce2 = "node_chain_env w2 ?config"
    have "env_sha3 (ce_env ?ce2) = env_sha3 (ce_env ?ce)" and st: "ce_store ?ce2 = ce_store ?ce"
      using world_ok_env [OF assms(1), of config] world_ok_env [OF w2(1), of ?config] w2(2)
      by (simp_all add: ce_ok_def node_chain_env_def)
    from genesis_restart [OF world_ok_env [OF assms(1)] h0 st this(1), of a a2] g(1) obtain c2 where
      c2: "chain_new ?ce2 (ch_db c') = (Ok (), c2)" "ch_head c2 = Some sb"
        "init_genesis ?ce2 a2 c2 = (Err (InvalidBlockC ''Genesis already exists''), c2)"
      using g(2) by (auto simp del: split_paired_Ex)
    have "chain_height c2 = 0" using c2(2) g by (simp add: chain_height_def)
    then have "node_init w2 a2 \<lparr>nd_config = ?config, nd_blockchain = c2, nd_peers = peers_new (na_max_peers args2), nd_running = False\<rparr>
      = (Err (NodeChain (InvalidBlockC ''Genesis already exists'')), \<lparr>nd_config = ?config, nd_blockchain = c2,
          nd_peers = peers_new (na_max_peers args2), nd_running = False\<rparr>)"
      using c2(3) node_init_genesis [of _ w2 a2 "Err (InvalidBlockC ''Genesis already exists'')" c2] by simp
    from node_main_run [OF w2(1,3) a2 c2(1) this] show ?thesis by simp
  qed
  with main g miner show ?thesis
    by (intro exI [of _ ?nd] exI [of _ sb]) (simp add: is_running_def chain_height_def)
qed

definition toy_world :: "view node_world" where
  "toy_world = \<lparr>nw_chain = toy_chain_env, nw_create_dir_all = (\<lambda>_. Ok ()), nw_open_default = (\<lambda>_. Ok (\<lambda>_ _. None)),
     nw_b58 = latin1_b58, nw_entropy = toy_entropy, nw_ctrl_c = Ok ()\<rparr>"

lemma toy_world_ok: "world_ok (toy_world\<lparr>nw_open_default := f\<rparr>) id"
  using toy_chain_env_ok(1) by (simp add: world_ok_def toy_world_def)

lemma toy_genesis_miner: "\<exists>a. genesis_miner (toy_world\<lparr>nw_open_default := f\<rparr>) default_args = Ok a"
  by (rule genesis_miner_ok) (simp add: default_args_def)

theorem second_run_fails_witness:
  "\<exists>nd. node_main toy_world default_args = (Ok (), Some nd)
     \<and> fst (node_main (toy_world\<lparr>nw_open_default := \<lambda>_. Ok (ch_db (nd_blockchain nd))\<rparr>) default_args)
       = Err (NodeChain (InvalidBlockC ''Genesis already exists''))"
proof -
  have w: "world_ok toy_world id" "\<forall>path. nw_open_default toy_world path = Ok (\<lambda>_ _. None)"
    using toy_world_ok [of "nw_open_default toy_world"] by (simp_all add: toy_world_def)
  obtain a where a: "genesis_miner toy_world default_args = Ok a"
    using toy_genesis_miner [of "nw_open_default toy_world"] by auto
  from second_run_fails [OF w _ a] obtain nd where nd: "node_main toy_world default_args = (Ok (), Some nd)"
    and again: "\<And>w2. world_ok w2 id \<Longrightarrow> ce_store (nw_chain w2) = ce_store (nw_chain toy_world) \<Longrightarrow>
        \<forall>path. nw_open_default w2 path = Ok (ch_db (nd_blockchain nd)) \<Longrightarrow> is_ok (genesis_miner w2 default_args)
        \<Longrightarrow> fst (node_main w2 default_args) = Err (NodeChain (InvalidBlockC ''Genesis already exists''))"
    by auto
  have "is_ok (genesis_miner (toy_world\<lparr>nw_open_default := \<lambda>_. Ok (ch_db (nd_blockchain nd))\<rparr>) default_args)"
    using toy_genesis_miner [of "\<lambda>_. Ok (ch_db (nd_blockchain nd))"] by auto
  with nd again [OF toy_world_ok, of "\<lambda>_. Ok (ch_db (nd_blockchain nd))"] show ?thesis by auto
qed

end
