(* ===== verification/Fry_Rpc.thy ===== *)
theory Fry_Rpc
  imports Fry_Amounts
begin

text \<open>
  \<open>frychain-rpc/src\<close>: the records of the interface, its errors, the trait \<open>RpcApi\<close> as a record of functions, the
  only implementation in the repository, \<open>MockRpcApi\<close>, and the server, which stores its configuration and starts nothing.
  The locale \<open>rpc_contract\<close> states what a client may rely on; it is interpreted on the implementation.
\<close>

datatype rpc_error =
    MethodNotFound string
  | InvalidParams string
  | InternalError string
  | BlockNotFound
  | TransactionNotFound
  | AccountNotFound

fun rpc_error_text :: "rpc_error \<Rightarrow> string" where
  "rpc_error_text (MethodNotFound s) = ''Method not found: '' @ s"
| "rpc_error_text (InvalidParams s) = ''Invalid params: '' @ s"
| "rpc_error_text (InternalError s) = ''Internal error: '' @ s"
| "rpc_error_text BlockNotFound = ''Block not found''"
| "rpc_error_text TransactionNotFound = ''Transaction not found''"
| "rpc_error_text AccountNotFound = ''Account not found''"

type_synonym 'a rpc_result = "(rpc_error, 'a) outcome"

subsection \<open>\<open>types.rs\<close>\<close>

record rpc_block =
  rb_hash :: string
  rb_parent_hash :: string
  rb_height :: u64
  rb_timestamp :: u64
  rb_miner :: string
  rb_difficulty :: string
  rb_total_difficulty :: string
  rb_gas_used :: u64
  rb_gas_limit :: u64
  rb_transaction_count :: nat
  rb_transactions :: "string list"

record rpc_transaction =
  rt_hash :: string
  rt_from :: string
  rt_to :: string
  rt_value :: string
  rt_nonce :: u64
  rt_gas_limit :: u64
  rt_gas_price :: string
  rt_data :: string
  rt_block_hash :: "string option"
  rt_block_height :: "u64 option"
  rt_transaction_index :: "u32 option"

record rpc_log =
  rl_address :: string
  rl_topics :: "string list"
  rl_data :: string
  rl_block_height :: u64
  rl_transaction_hash :: string
  rl_log_index :: u32

record rpc_receipt =
  rr_transaction_hash :: string
  rr_block_hash :: string
  rr_block_height :: u64
  rr_transaction_index :: u32
  rr_from :: string
  rr_to :: string
  rr_contract_address :: "string option"
  rr_gas_used :: u64
  rr_success :: bool
  rr_logs :: "rpc_log list"

record rpc_account =
  ra_address :: string
  ra_balance :: string
  ra_nonce :: u64
  ra_is_contract :: bool
  ra_code_hash :: "string option"

record rpc_chain_info =
  ci_chain_id :: u64
  ci_network_id :: u64
  ci_chain_name :: string
  ci_best_block_height :: u64
  ci_best_block_hash :: string
  ci_total_difficulty :: string
  ci_genesis_hash :: string
  ci_syncing :: bool
  ci_peer_count :: nat

record rpc_mining_info =
  mn_mining :: bool
  mn_hashrate :: f64
  mn_difficulty :: string
  mn_miner_address :: "string option"

record send_transaction_request =
  st_from :: string
  st_to :: string
  st_value :: string
  st_gas_limit :: "u64 option"
  st_gas_price :: "string option"
  st_data :: "string option"
  st_nonce :: "u64 option"

record call_request =
  cr_from :: "string option"
  cr_to :: string
  cr_value :: "string option"
  cr_gas_limit :: "u64 option"
  cr_data :: "string option"

subsection \<open>\<open>api.rs\<close>\<close>

record rpc_api =
  api_chain_id :: "u64 rpc_result"
  api_network_id :: "u64 rpc_result"
  api_chain_info :: "rpc_chain_info rpc_result"
  api_syncing :: "bool rpc_result"
  api_peer_count :: "nat rpc_result"
  api_block_height :: "u64 rpc_result"
  api_get_block_by_hash :: "string \<Rightarrow> bool \<Rightarrow> rpc_block option rpc_result"
  api_get_block_by_height :: "u64 \<Rightarrow> bool \<Rightarrow> rpc_block option rpc_result"
  api_get_transaction :: "string \<Rightarrow> rpc_transaction option rpc_result"
  api_get_receipt :: "string \<Rightarrow> rpc_receipt option rpc_result"
  api_send_raw_transaction :: "string \<Rightarrow> string rpc_result"
  api_estimate_gas :: "call_request \<Rightarrow> u64 rpc_result"
  api_get_balance :: "string \<Rightarrow> string rpc_result"
  api_get_nonce :: "string \<Rightarrow> u64 rpc_result"
  api_get_account :: "string \<Rightarrow> rpc_account option rpc_result"
  api_get_code :: "string \<Rightarrow> string option rpc_result"
  api_mining_info :: "rpc_mining_info rpc_result"
  api_gas_price :: "string rpc_result"

record mock_rpc =
  mk_chain_id :: u64
  mk_network_id :: u64

definition mock_new :: "u64 \<Rightarrow> u64 \<Rightarrow> mock_rpc" where
  "mock_new chain_id network_id = \<lparr>mk_chain_id = chain_id, mk_network_id = network_id\<rparr>"

definition str_repeat :: "string \<Rightarrow> nat \<Rightarrow> string" where
  "str_repeat s n = concat (replicate n s)"

definition mock_chain_info :: "mock_rpc \<Rightarrow> rpc_chain_info" where
  "mock_chain_info m =
     \<lparr>ci_chain_id = mk_chain_id m, ci_network_id = mk_network_id m, ci_chain_name = ''FryChain'',
      ci_best_block_height = 0, ci_best_block_hash = str_repeat ''0x'' 32, ci_total_difficulty = ''0'',
      ci_genesis_hash = str_repeat ''0x'' 32, ci_syncing = False, ci_peer_count = 0\<rparr>"

definition mock_api :: "mock_rpc \<Rightarrow> rpc_api" where
  "mock_api m =
     \<lparr>api_chain_id = Ok (mk_chain_id m), api_network_id = Ok (mk_network_id m), api_chain_info = Ok (mock_chain_info m),
      api_syncing = Ok False, api_peer_count = Ok 0, api_block_height = Ok 0,
      api_get_block_by_hash = (\<lambda>hash full_tx. Ok None), api_get_block_by_height = (\<lambda>height full_tx. Ok None),
      api_get_transaction = (\<lambda>hash. Ok None), api_get_receipt = (\<lambda>hash. Ok None),
      api_send_raw_transaction = (\<lambda>raw_tx. Err (InternalError ''Not implemented'')),
      api_estimate_gas = (\<lambda>call. Ok 21000), api_get_balance = (\<lambda>address. Ok ''0''),
      api_get_nonce = (\<lambda>address. Ok 0), api_get_account = (\<lambda>address. Ok None), api_get_code = (\<lambda>address. Ok None),
      api_mining_info = Ok \<lparr>mn_mining = False, mn_hashrate = 0, mn_difficulty = ''0'', mn_miner_address = None\<rparr>,
      api_gas_price = Ok ''1000000000''\<rparr>"

subsection \<open>\<open>server.rs\<close>\<close>

record rpc_server_config =
  rs_listen_addr :: string
  rs_max_connections :: nat
  rs_cors_enabled :: bool

definition rpc_server_default :: rpc_server_config where
  "rpc_server_default = \<lparr>rs_listen_addr = ''127.0.0.1:8545'', rs_max_connections = 100, rs_cors_enabled = True\<rparr>"

record rpc_server =
  rs_config :: rpc_server_config
  rs_api :: rpc_api

definition rpc_server_new :: "rpc_server_config \<Rightarrow> rpc_api \<Rightarrow> rpc_server" where
  "rpc_server_new config api = \<lparr>rs_config = config, rs_api = api\<rparr>"

definition rpc_server_start :: "rpc_server \<Rightarrow> (string, unit) outcome" where
  "rpc_server_start srv = Ok ()"

subsection \<open>The contract of the interface\<close>

text \<open>The summary agrees with the single queries, and an account that does not exist has neither nonce nor code.\<close>

locale rpc_contract =
  fixes api :: rpc_api
  assumes summary: "api_chain_info api = Ok ci \<Longrightarrow>
      api_chain_id api = Ok (ci_chain_id ci) \<and> api_network_id api = Ok (ci_network_id ci)
      \<and> api_block_height api = Ok (ci_best_block_height ci) \<and> api_syncing api = Ok (ci_syncing ci)
      \<and> api_peer_count api = Ok (ci_peer_count ci)"
    and absent: "api_get_account api a = Ok None \<Longrightarrow> api_get_nonce api a = Ok 0 \<and> api_get_code api a = Ok None"
begin

lemma summary_unique: "api_chain_info api = Ok ci \<Longrightarrow> api_chain_id api = Ok i \<Longrightarrow> i = ci_chain_id ci"
  using summary by auto

end

interpretation mock: rpc_contract "mock_api m" for m
  by unfold_locales (auto simp: mock_api_def mock_chain_info_def)

subsection \<open>Properties\<close>

lemma trim_0x_repeat: "trim_0x (str_repeat ''0x'' n) = []"
  by (induction n) (simp_all add: str_repeat_def)

lemma digit_chars: "CHR ''0'' = char_of (48 :: nat)" "CHR ''1'' = char_of (49 :: nat)"
  by code_simp+

text \<open>The mock implementation keeps the contract of the interface, answers every query but the submission of
  a transaction, and gives the least gas and gas price of the core; but it names a best block that no query
  finds, and what it gives as the hashes of the best block and the genesis block is no hash: the parser of the core
  strips the thirty-two prefixes and finds nothing behind them.\<close>

theorem mock_answers:
  assumes "hex_decode hx [] = Inr []"
  shows "api_chain_info (mock_api m) = Ok ci \<longrightarrow>
      api_chain_id (mock_api m) = Ok (ci_chain_id ci) \<and> api_block_height (mock_api m) = Ok (ci_best_block_height ci)
      \<and> api_get_block_by_height (mock_api m) (ci_best_block_height ci) f = Ok None
      \<and> hash_from_hex hx (ci_best_block_hash ci) = Err InvalidStringLength
      \<and> hash_from_hex hx (ci_genesis_hash ci) = Err InvalidStringLength"
    and "api_estimate_gas (mock_api m) call = Ok GAS_TRANSFER_MIN"
    and "api_gas_price (mock_api m) = Ok (show_nat (unat GAS_PRICE_MIN))"
proof -
  show "api_chain_info (mock_api m) = Ok ci \<longrightarrow>
      api_chain_id (mock_api m) = Ok (ci_chain_id ci) \<and> api_block_height (mock_api m) = Ok (ci_best_block_height ci)
      \<and> api_get_block_by_height (mock_api m) (ci_best_block_height ci) f = Ok None
      \<and> hash_from_hex hx (ci_best_block_hash ci) = Err InvalidStringLength
      \<and> hash_from_hex hx (ci_genesis_hash ci) = Err InvalidStringLength"
    using mock.summary [of m ci] assms
    by (auto simp: mock_api_def mock_chain_info_def hash_from_hex_def trim_0x_repeat)
  show "api_estimate_gas (mock_api m) call = Ok GAS_TRANSFER_MIN"
    by (simp add: mock_api_def GAS_TRANSFER_MIN_def)
  show "api_gas_price (mock_api m) = Ok (show_nat (unat GAS_PRICE_MIN))"
    by (simp add: mock_api_def GAS_PRICE_MIN_def show_nat.simps digit_chars)
qed

end
