(* ===== verification/Fry_Cli.thy ===== *)
theory Fry_Cli
  imports Fry_Keygen
begin

text \<open>
  \<open>frychain-cli/src/main.rs\<close>: the command line. A command is a value of the datatype \<open>command\<close>, a run is the list of the
  lines it prints; the random draw and the rendering of binary64 numbers are parameters. The lemmas: what a run
  shows of keys, and that no command but \<open>keygen\<close> computes anything.
\<close>

datatype device_command =
    DeviceRegister string string
  | DeviceList string
  | DeviceInfo string

datatype 'f command =
    Keygen string "string option"
  | Balance string
  | NonceOf string
  | Send string string 'f 'f
  | BlockInfo string
  | Tx string
  | Info
  | Mining
  | Deploy string string u64
  | CallContract string string
  | DeviceCmd device_command

datatype cli_line = OutLine string | ErrLine string

definition newline :: string where
  "newline = [CHR 0x0A]"

definition live_data :: cli_line where
  "live_data = OutLine ''(Connect to a running node for live data)''"

definition keypair_type_of :: "string \<Rightarrow> keypair_type option" where
  "keypair_type_of key_type =
     (if key_type = ''dilithium'' then Some Dilithium
      else if key_type = ''sphincs'' then Some SphincsPlus
      else if key_type = ''ed25519'' then Some Ed25519 else None)"

definition cli_keygen ::
    "base58_codec \<Rightarrow> hash_fn \<Rightarrow> crypto_libs \<Rightarrow> entropy \<Rightarrow> string \<Rightarrow> string option \<Rightarrow> (unit, cli_line list) outcome" where
  "cli_keygen b58 sha3 L en key_type file =
     (case keypair_type_of key_type of
        None \<Rightarrow> Ok [ErrLine (''Unknown key type: '' @ key_type @ ''. Use: dilithium, sphincs, ed25519'')]
      | Some keypair_type \<Rightarrow>
          (case keypair_generate L en keypair_type of
             Ok keypair \<Rightarrow>
               (let address = keypair_address sha3 keypair; pq = keypair_post_quantum keypair in
                Ok ([OutLine (''Generating '' @ key_type @ '' keypair...''),
                     OutLine (newline @ ''=== New FryChain Keypair ===''),
                     OutLine (''Algorithm: '' @ key_type @ '' ('' @ (if pq then ''post-quantum'' else ''classical'') @ '')''),
                     OutLine (''Address: '' @ address_to_string b58 address),
                     OutLine [],
                     OutLine (if pq then ''This keypair is QUANTUM-RESISTANT''
                              else ''WARNING: This keypair is NOT quantum-resistant'')]
                    @ (case file of None \<Rightarrow> []
                       | Some path \<Rightarrow> [OutLine (newline @ ''Keystore would be saved to: '' @ path)])))
           | _ \<Rightarrow> Panic))"

fun cli_device :: "device_command \<Rightarrow> cli_line list" where
  "cli_device (DeviceRegister owner_key device_type) =
     [OutLine (''Registering '' @ device_type @ '' device...''),
      OutLine ''(Connect to a running node to register devices)'']"
| "cli_device (DeviceList owner) =
     [OutLine (''Listing devices for '' @ owner @ ''...''), OutLine ''No devices found'', live_data]"
| "cli_device (DeviceInfo did) =
     [OutLine (''Getting device info for '' @ did @ ''...''), OutLine ''Device not found'', live_data]"

fun cli_main ::
    "('f \<Rightarrow> string) \<Rightarrow> base58_codec \<Rightarrow> hash_fn \<Rightarrow> crypto_libs \<Rightarrow> entropy \<Rightarrow> 'f command \<Rightarrow> (unit, cli_line list) outcome" where
  "cli_main show_f64 b58 sha3 L en (Keygen key_type file) = cli_keygen b58 sha3 L en key_type file"
| "cli_main show_f64 b58 sha3 L en (Balance address) =
     Ok [OutLine (''Getting balance for '' @ address @ ''...''), OutLine ''Balance: 0.000000 FRY'', live_data]"
| "cli_main show_f64 b58 sha3 L en (NonceOf address) =
     Ok [OutLine (''Getting nonce for '' @ address @ ''...''), OutLine ''Nonce: 0'', live_data]"
| "cli_main show_f64 b58 sha3 L en (Send from_key to amount gas_price) =
     Ok [OutLine (''Sending '' @ show_f64 amount @ '' FRY to '' @ to @ ''...''),
         OutLine (''Gas price: '' @ show_f64 gas_price @ '' Gwei''),
         OutLine ''(Connect to a running node to send transactions)'']"
| "cli_main show_f64 b58 sha3 L en (BlockInfo height) =
     Ok ([OutLine (''Getting block '' @ height @ ''...'')]
         @ (if height = ''latest'' then [OutLine ''Latest block height: 0 (genesis)''] else []) @ [live_data])"
| "cli_main show_f64 b58 sha3 L en (Tx hash) =
     Ok [OutLine (''Getting transaction '' @ hash @ ''...''), OutLine ''Transaction not found'', live_data]"
| "cli_main show_f64 b58 sha3 L en Info =
     Ok [OutLine (newline @ ''=== FryChain Info ===''), OutLine ''Chain ID: 1'', OutLine ''Network: mainnet'',
         OutLine ''Best block: 0'', OutLine ''Total difficulty: 0'', OutLine ''Peer count: 0'',
         OutLine ''Syncing: false'', live_data]"
| "cli_main show_f64 b58 sha3 L en Mining =
     Ok [OutLine (newline @ ''=== Mining Info ===''), OutLine ''Mining: false'', OutLine ''Hashrate: 0 H/s'',
         OutLine ''Difficulty: 0'', live_data]"
| "cli_main show_f64 b58 sha3 L en (Deploy key bytecode gas_limit) =
     Ok [OutLine ''Deploying contract...'', OutLine (''Bytecode file: '' @ bytecode),
         OutLine (''Gas limit: '' @ show_nat (unat gas_limit)),
         OutLine ''(Connect to a running node to deploy contracts)'']"
| "cli_main show_f64 b58 sha3 L en (CallContract contract data) =
     Ok [OutLine (''Calling contract '' @ contract @ ''...''), OutLine (''Data: '' @ data),
         OutLine ''(Connect to a running node for contract calls)'']"
| "cli_main show_f64 b58 sha3 L en (DeviceCmd action) = Ok (cli_device action)"

subsection \<open>Properties\<close>

text \<open>The same command with the secrets it carries replaced.\<close>

fun with_secret :: "string \<Rightarrow> 'f command \<Rightarrow> 'f command" where
  "with_secret k (Send from_key to amount gas_price) = Send k to amount gas_price"
| "with_secret k (Deploy key bytecode gas_limit) = Deploy k bytecode gas_limit"
| "with_secret k (DeviceCmd (DeviceRegister owner_key device_type)) = DeviceCmd (DeviceRegister k device_type)"
| "with_secret k cmd = cmd"

text \<open>The draw with other private parts.\<close>

definition same_public :: "crypto_libs \<Rightarrow> entropy \<Rightarrow> entropy \<Rightarrow> bool" where
  "same_public L en en' \<longleftrightarrow> fst (en_dilithium en) = fst (en_dilithium en') \<and> fst (en_sphincs en) = fst (en_sphincs en')
     \<and> ed_verifying_key (cl_ed25519 L) (en_ed25519 en) = ed_verifying_key (cl_ed25519 L) (en_ed25519 en')"

text \<open>The command line keeps secrets, to the point of losing them. No run panics, a run prints the same whatever
  private keys are on the command line, and \<open>keygen\<close> prints the same for all draws with the same public
  keys: the private key of the new address is neither printed nor saved, and is lost when the program ends.\<close>

theorem cli_hides_secrets:
  assumes "same_public L en en'"
  shows "cli_main show_f64 b58 sha3 L en cmd = cli_main show_f64 b58 sha3 L en' (with_secret k cmd)
    \<and> is_ok (cli_main show_f64 b58 sha3 L en cmd)"
proof (cases cmd)
  case (Keygen kt dest)
  have same: "keypair_address sha3 kp = keypair_address sha3 kp' \<and> keypair_post_quantum kp = keypair_post_quantum kp'"
    if "keypair_generate L en t = Ok kp" and "keypair_generate L en' t = Ok kp'" for t kp kp'
    using that assms
    by (cases t) (auto simp: keypair_generate_def dilithium_generate_def sphincs_generate_def ed25519_generate_def Let_def
        same_public_def keypair_post_quantum_def split: prod.splits)
  have total: "\<exists>kp. keypair_generate L e t = Ok kp" for e t
    by (cases t) (simp_all add: keypair_generate_def dilithium_generate_def sphincs_generate_def ed25519_generate_def Let_def
        split: prod.splits)
  show ?thesis
  proof (cases "keypair_type_of kt")
    case (Some t)
    obtain kp kp' where kp: "keypair_generate L en t = Ok kp" "keypair_generate L en' t = Ok kp'" using total by blast
    then show ?thesis using Keygen Some same [OF kp] by (simp add: cli_keygen_def Let_def)
  qed (simp add: Keygen cli_keygen_def)
next
  case (DeviceCmd action)
  then show ?thesis by (cases action) simp_all
qed simp_all

theorem cli_hides_secrets_witness:
  "cli_main (\<lambda>_ :: nat. []) latin1_b58 toy_hash toy_libs toy_entropy (Send ''secret'' ''fry1'' 5 1)
   = cli_main (\<lambda>_. []) latin1_b58 toy_hash toy_libs toy_entropy (Send ''other'' ''fry1'' 5 1)"
  using cli_hides_secrets [of toy_libs toy_entropy toy_entropy "\<lambda>_ :: nat. []" latin1_b58 toy_hash "Send ''secret'' ''fry1'' 5 1" "''other''"]
  by (simp add: same_public_def)

end
