(* ===== verification/Spec2Isabelle.thy ===== *)
theory Spec2Isabelle
  imports Fry_Config Fry_Chain Fry_Kaspa_Scripts Fry_Executor Fry_M2M Fry_Network Fry_Pact_Caps Fry_Node Fry_Rpc Fry_Cli
begin

text \<open>
  Verification of frychain, a proof-of-work blockchain in Rust with post-quantum signatures, four virtual machines and a
  registry of devices. The crates are the directories \<open>src/crates/frychain-X\<close>; below \<open>X/file.rs\<close> stands for
  \<open>src/crates/frychain-X/src/file.rs\<close>.

  \<^bold>\<open>How the program works together.\<close> The program \<open>node/main.rs\<close> makes a \<open>FryChainNode\<close>
  (\<open>node/node.rs\<close>), which opens a database (\<open>storage\<close>), builds a \<open>Blockchain\<close> over it
  (\<open>consensus/chain.rs\<close>), creates the genesis block from the configuration (\<open>core/config.rs\<close>) and holds a peer manager
  (\<open>network/peer.rs\<close>). The chain validates blocks (\<open>consensus/validation.rs\<close>) with the
  transactions, Merkle trees and headers of \<open>core\<close>, the signatures and the memory-hard hash of \<open>crypto\<close>,
  and the difficulty of \<open>consensus/difficulty.rs\<close>. Headers are mined by \<open>consensus/pow.rs\<close>, which
  \<open>miner/main.rs\<close> runs in a loop. \<open>vm/executor.rs\<close> runs a contract on the machine that its first bytes choose; no other
  crate calls it. \<open>depin\<close> (devices, marketplace, messages between machines) and \<open>rpc\<close> stand by themselves.

  \<^bold>\<open>Conventions.\<close> Integers are words of their Rust width and wrap as in the release build; \<open>usize\<close> has 64 bits.
  What panics in every profile is the value \<open>Panic\<close> of \<open>outcome\<close>, or \<open>None\<close> where a function can do nothing else but
  return. A method on \<open>&mut self\<close> is a \<open>prog\<close>: it maps the object to its outcome and the changed object, also
  on an error. A loop that may run for ever is a partial function or has a fuel, and \<open>None\<close> is that it does not return; where the code
  returns, that is proved. A \<open>HashMap\<close> is an association list with distinct keys in any order, and what the program computes
  is shown not to depend on that order where it should not. Strings are byte strings. A \<open>binary64\<close> number is
  modelled exactly where it occurs (\<open>Fry_Difficulty\<close>): a value times \<open>2 ^ 128\<close>, rounded to 53 bits. Locks are left out: an
  object is used by one caller at a time, except that the mining threads read their shared flags as any
  sequence. Clock, random numbers, process environment and file system are arguments.

  \<^bold>\<open>External code\<close> is a parameter: a hash function with its digest length (\<open>hash_fn_ok\<close>), \<open>pqcrypto\<close> and
  \<open>ed25519_dalek\<close> (\<open>pq_laws\<close>, \<open>ed_laws\<close>: what a key pair signs is accepted), Keccak and AES
  (\<open>cn_lib_ok\<close>: lengths), RocksDB (\<open>rocks_laws\<close>: a map per column family, a failed write changes nothing; any operation may fail, and
  the theorems that follow a run to its successful end say so with \<open>rocks_reliable\<close>, no I/O error), \<open>bincode\<close>,
  \<open>hex\<close> and \<open>bs58\<close> (what is encoded is decoded again), \<open>serde_json\<close> and derived \<open>Debug\<close> forms (any function). Each law is
  shown to be satisfiable by a concrete library that the witnesses use. Hash functions are never assumed injective: a
  theorem that needs it speaks of the two preimages or of a collision among named strings.

  \<^bold>\<open>The theories.\<close>

  \<^item> \<open>Fry_Prelude\<close>, \<open>Fry_Maps\<close>, \<open>Fry_Text\<close>, \<open>Fry_Index\<close>: outcomes and programs with their simplification rules, frame and panic rules,
    the interpreter loop with the locale \<open>metered_machine\<close>, maps, the string functions of the standard library, secondary
    indexes.
  \<^item> \<open>core\<close>: \<open>Fry_Types\<close> and \<open>Fry_Amounts\<close> (\<open>types.rs\<close>), \<open>Fry_Address\<close> (\<open>address.rs\<close>, \<open>error.rs\<close>), \<open>Fry_Transaction\<close>,
    \<open>Fry_Merkle\<close>, \<open>Fry_Block\<close>, \<open>Fry_State\<close>, \<open>Fry_Config\<close>. Shown: a proof of the Merkle tree verifies, and one that
    verifies is about the leaf it names when it has the length of the tree, else about the node or the leaf it leads to, up to a collision; transfers conserve the supply; the state root depends on the accounts only; what a
    transaction and a header hash bind; the coins ever issued stay within the maximum supply and the reward never rises; what the difficulty target
    accepts, and that raising the difficulty makes it accept more.
  \<^item> \<open>crypto\<close>: \<open>Fry_Hash\<close>, \<open>Fry_Keys\<close> and \<open>Fry_Keygen\<close> (the three schemes, the unified keys, the locale
    \<open>signature_scheme\<close> interpreted on the three), \<open>Fry_CryptoNight\<close>. Shown: what a generated pair signs is accepted; the
    hash of the proof of work never indexes out of its two megabytes and does not depend on what an earlier hash left there.
  \<^item> \<open>consensus\<close>: \<open>Fry_Validation\<close> (exactly which blocks are accepted; the sender of a transaction is not authenticated),
    \<open>Fry_Difficulty\<close>, \<open>Fry_Pow\<close>, \<open>Fry_Chain\<close>. Shown: the head has the largest total difficulty of the imported blocks, save after an I/O error (\<open>ce_laws\<close> allows them,
    \<open>ce_ok\<close> does not); the
    import terminates; a side block can become the head after a restart; a forged proof-of-work hash is
    accepted; no import executes a transaction.
  \<^item> \<open>storage\<close>: \<open>Fry_Storage\<close>. Shown: what is stored is read back and no other entry of the database changes.
  \<^item> \<open>vm\<close>: \<open>Fry_Gas\<close> (the meter, locale \<open>gas_machine\<close>), \<open>Fry_AVM\<close>, \<open>Fry_SBF\<close>, \<open>Fry_Script\<close>, \<open>Fry_Kaspa\<close> and
    \<open>Fry_Kaspa_Scripts\<close>, the Pact machine in \<open>Fry_Pact_Syntax\<close> (parser), \<open>Fry_Pact\<close> (evaluator), \<open>Fry_Pact_Eval\<close>
    (evaluation on concrete programs), \<open>Fry_Pact_Runs\<close> (every run ends), \<open>Fry_Pact_Tables\<close> (values and tables) and
    \<open>Fry_Pact_Caps\<close> (capabilities), and \<open>Fry_Executor\<close>. Shown: the metered machines are interpretations of
    \<open>gas_machine\<close> and return within their gas, the script machine within 201 operations, the Pact machine within its depth, so the executor returns on every
    contract; the estimate covers the run; what the standard scripts check; what panics; that the Pact machine never holds an object, so that its tables stay empty.
  \<^item> \<open>depin\<close>: \<open>Fry_Devices\<close>, \<open>Fry_Market\<close>, \<open>Fry_M2M\<close>. Their operations are inductive step relations; every reachable registry is
    consistent, every reachable marketplace balances its books (revenue
    is what buyers paid plus what was booked without a purchase, through \<open>get_listing_mut\<close> or by a new listing), and the handler of messages refines a log.
  \<^item> \<open>network\<close>: \<open>Fry_Network\<close>. Every reachable peer manager keeps its bound and its bans; the synchronizer never leaves three of its six states.
  \<^item> Programs: \<open>Fry_Miner\<close> (\<open>miner/main.rs\<close>), \<open>Fry_Node\<close> (\<open>node/node.rs\<close>, \<open>node/main.rs\<close>), \<open>Fry_Rpc\<close> (the crate \<open>rpc\<close>) and
    \<open>Fry_Cli\<close> (\<open>cli/main.rs\<close>). Shown: the miner's headers are linked and carry valid work; a node runs once on an
    empty database and fails when it is run again before a block is imported; no command shows a private key.

  \<^bold>\<open>Bounds and fuel.\<close> The Pact parser has a fuel of one more than the length of the text: every recursive call is at a later
  position, and \<open>Fry_Pact_Syntax\<close> proves that it returns on every text. The Pact evaluator has a fuel of 257: the code counts its depth and
  refuses 256, and \<open>Fry_Pact_Runs\<close> proves that it returns on every program. The loops of the other machines are \<open>vm_loop\<close>, a partial
  function; each step charges gas or counts an operation, which gives the measure of \<open>metered_machine\<close>. The calls of \<open>import_block\<close> over waiting
  children end because each takes one orphan away. The native stack of the parser is taken to be large enough.

  \<^bold>\<open>Not modelled.\<close> The derived serde forms and JSON texts, which are parameters where the program relies on them; logging and
  banners; command-line parsing by \<open>clap\<close>; opening a RocksDB database, its statistics and its configuration record; the opcode enumerations of the two register and
  stack machines, which their interpreters do not use; the six-digit rendering of amounts and the location attribute,
  which format binary64 numbers; the thread-local hasher, which the hash does not depend on, and the benchmark rates,
  which measure time; plain constructors and accessors, which are record construction and fields.
\<close>

end
